(* ===== verification/Prelude.thy ===== *)
theory Prelude
  imports Main "HOL-Library.Word" "HOL-Library.AList"
begin

text \<open>
  The shared layer of the development: the result type of code that can abort, the loops of the
  C sources as folds and ranges, the byte-order helpers of the wire formats, and the small
  calculus (\<open>returns\<close>, \<open>holds\<close>) in which the components state what an operation does when
  it returns. The hash tables of GLib are association lists: \<open>map_of\<close> looks a key up,
  \<open>AList.update\<close> is \<open>g_hash_table_insert\<close>, \<open>AList.delete\<close> is
  \<open>g_hash_table_remove\<close>, and the order of the list stands for the order, which GLib leaves
  open, in which \<open>g_hash_table_foreach\<close> and \<open>g_hash_table_find\<close> visit the entries.
\<close>

unbundle bit_operations_syntax

section \<open>Machine types\<close>

type_synonym u8 = "8 word"
type_synonym u16 = "16 word"
type_synonym u32 = "32 word"

section \<open>Outcomes\<close>

text \<open>
  What can go wrong in the C code: a failed \<open>g_assert\<close> (the process aborts), a read through a
  NULL or dangling pointer, a read of a union's member the tag does not select, a parse error that
  is reported through a \<open>GError\<close>, and, in the
  model only, the fuel of a loop running out.
\<close>

datatype fault = Assertion_failed | Null_dereference | Wrong_union_member | Parse_error | Out_of_fuel

type_synonym 'a outcome = "fault + 'a"

definition andthen :: "'a outcome \<Rightarrow> ('a \<Rightarrow> 'b outcome) \<Rightarrow> 'b outcome" where
  "andthen m f = (case m of Inl e \<Rightarrow> Inl e | Inr x \<Rightarrow> f x)"

definition assert_that :: "bool \<Rightarrow> unit outcome" where
  "assert_that b = (if b then Inr () else Inl Assertion_failed)"

definition deref :: "'a option \<Rightarrow> 'a outcome" where
  "deref p = (case p of None \<Rightarrow> Inl Null_dereference | Some x \<Rightarrow> Inr x)"

lemma andthen_simps [simp]:
  "andthen (Inl e) f = Inl e"
  "andthen (Inr x) f = f x"
  by (simp_all add: andthen_def)

lemma andthen_assoc: "andthen (andthen m f) k = andthen m (\<lambda>x. andthen (f x) k)"
  by (cases m) simp_all

lemma andthen_eq_Inr: "andthen m f = Inr y \<longleftrightarrow> (\<exists>x. m = Inr x \<and> f x = Inr y)"
  by (cases m) simp_all

lemma andthen_cong [fundef_cong]:
  "m = m' \<Longrightarrow> (\<And>x. m' = Inr x \<Longrightarrow> f x = f' x) \<Longrightarrow> andthen m f = andthen m' f'"
  by (cases m') simp_all

text \<open>For evaluation: the first step is run before the rest of the code is looked at.\<close>

lemma andthen_weak: "m = m' \<Longrightarrow> andthen m f = andthen m' f"
  by simp

lemma assert_that_simps [simp]:
  "assert_that True = Inr ()"
  "assert_that False = Inl Assertion_failed"
  by (simp_all add: assert_that_def)

lemma assert_that_eq_Inr [simp]: "assert_that b = Inr u \<longleftrightarrow> b"
  by (simp add: assert_that_def)

lemma deref_simps [simp]:
  "deref None = Inl Null_dereference"
  "deref (Some x) = Inr x"
  by (simp_all add: deref_def)

lemma deref_eq_Inr [simp]: "deref p = Inr x \<longleftrightarrow> p = Some x"
  by (cases p) simp_all

subsection \<open>Total and partial correctness\<close>

text \<open>
  \<open>returns P m\<close>: the code returns, with a result that satisfies \<open>P\<close> (no abort, no
  NULL dereference, enough fuel). \<open>holds P m\<close>: if the code returns, its result satisfies
  \<open>P\<close>.
\<close>

definition returns :: "('a \<Rightarrow> bool) \<Rightarrow> 'a outcome \<Rightarrow> bool" where
  "returns P m \<longleftrightarrow> (case m of Inl e \<Rightarrow> False | Inr x \<Rightarrow> P x)"

definition holds :: "('a \<Rightarrow> bool) \<Rightarrow> 'a outcome \<Rightarrow> bool" where
  "holds P m \<longleftrightarrow> (case m of Inl e \<Rightarrow> True | Inr x \<Rightarrow> P x)"

lemma returns_simps [simp]:
  "returns P (Inl e) \<longleftrightarrow> False"
  "returns P (Inr x) \<longleftrightarrow> P x"
  "returns P (andthen k f) \<longleftrightarrow> returns (\<lambda>y. returns P (f y)) k"
  "returns P (if b then m else m') \<longleftrightarrow> (if b then returns P m else returns P m')"
  by (simp_all add: returns_def andthen_def split: sum.splits)

lemma returns_assert [simp]: "returns P (assert_that b) \<longleftrightarrow> b \<and> P ()"
  by (simp add: assert_that_def)

lemma returns_deref [simp]: "returns P (deref p) \<longleftrightarrow> (\<exists>x. p = Some x \<and> P x)"
  by (cases p) simp_all

lemma returns_iff: "returns P m \<longleftrightarrow> (\<exists>x. m = Inr x \<and> P x)"
  by (cases m) simp_all

lemma returns_mono: "returns P m \<Longrightarrow> (\<And>x. P x \<Longrightarrow> Q x) \<Longrightarrow> returns Q m"
  by (auto simp: returns_iff)

lemma returns_conj: "returns P m \<Longrightarrow> holds Q m \<Longrightarrow> returns (\<lambda>x. P x \<and> Q x) m"
  by (cases m) (simp_all add: holds_def)

lemma holds_simps [simp]:
  "holds P (Inl e)"
  "holds P (Inr x) \<longleftrightarrow> P x"
  "holds P (andthen k f) \<longleftrightarrow> holds (\<lambda>y. holds P (f y)) k"
  "holds P (if b then m else m') \<longleftrightarrow> (if b then holds P m else holds P m')"
  by (simp_all add: holds_def andthen_def split: sum.splits)

lemma holds_True [simp]: "holds (\<lambda>_. True) m"
  by (cases m) simp_all

lemma holds_assert [simp]: "holds P (assert_that b) \<longleftrightarrow> (b \<longrightarrow> P ())"
  by (simp add: assert_that_def)

lemma holds_deref [simp]: "holds P (deref p) \<longleftrightarrow> (\<forall>x. p = Some x \<longrightarrow> P x)"
  by (cases p) simp_all

lemma holds_iff: "holds P m \<longleftrightarrow> (\<forall>x. m = Inr x \<longrightarrow> P x)"
  by (cases m) simp_all

lemma holdsI: "(\<And>x. m = Inr x \<Longrightarrow> P x) \<Longrightarrow> holds P m"
  by (simp add: holds_iff)

lemma holdsD: "holds P m \<Longrightarrow> m = Inr x \<Longrightarrow> P x"
  by simp

lemma holds_andthenI: "(\<And>x. m = Inr x \<Longrightarrow> holds P (f x)) \<Longrightarrow> holds P (andthen m f)"
  by (cases m) (simp_all add: andthen_def)

lemma holds_mono: "holds P m \<Longrightarrow> (\<And>x. P x \<Longrightarrow> Q x) \<Longrightarrow> holds Q m"
  by (auto simp: holds_iff)

lemma returns_holds: "returns P m \<Longrightarrow> holds P m"
  by (auto simp: returns_iff)

section \<open>Loops\<close>

text \<open>A \<open>for\<close> loop whose body changes the state and can abort.\<close>

fun foldo :: "('x \<Rightarrow> 's \<Rightarrow> 's outcome) \<Rightarrow> 'x list \<Rightarrow> 's \<Rightarrow> 's outcome" where
  "foldo f [] s = Inr s"
| "foldo f (x # xs) s = andthen (f x s) (foldo f xs)"

lemma foldo_append: "foldo f (xs @ ys) s = andthen (foldo f xs s) (foldo f ys)"
proof (induction xs arbitrary: s)
  case (Cons x xs)
  then show ?case by (cases "f x s") simp_all
qed simp

lemma foldo_cong [fundef_cong]:
  "xs = ys \<Longrightarrow> s = t \<Longrightarrow> (\<And>x u. x \<in> set ys \<Longrightarrow> f x u = g x u) \<Longrightarrow> foldo f xs s = foldo g ys t"
proof (induction xs arbitrary: ys s t)
  case Nil
  then show ?case by auto
next
  case (Cons x xs)
  then show ?case by (auto intro!: andthen_cong)
qed

lemma foldo_holds:
  "I s \<Longrightarrow> (\<And>x s. x \<in> set xs \<Longrightarrow> I s \<Longrightarrow> holds I (f x s)) \<Longrightarrow> holds I (foldo f xs s)"
proof (induction xs arbitrary: s)
  case Nil
  then show ?case by simp
next
  case (Cons x xs)
  show ?case
  proof (cases "f x s")
    case (Inr t)
    have "holds I (f x s)" using Cons.prems by simp
    with Inr have "I t" by simp
    with Cons.IH Cons.prems(2) Inr show ?thesis by simp
  qed simp
qed

lemma foldo_returns:
  "I s \<Longrightarrow> (\<And>x s. x \<in> set xs \<Longrightarrow> I s \<Longrightarrow> returns I (f x s)) \<Longrightarrow> returns I (foldo f xs s)"
proof (induction xs arbitrary: s)
  case Nil
  then show ?case by simp
next
  case (Cons x xs)
  have "returns I (f x s)" using Cons.prems by simp
  then obtain t where "f x s = Inr t" "I t" by (auto simp: returns_iff)
  with Cons.IH Cons.prems(2) show ?case by simp
qed

text \<open>
  \<open>for (i = a; i != b; i++)\<close> on 32-bit unsigned counters: the counter wraps around, so the
  loop visits \<open>unat (b - a)\<close> values, whatever \<open>a\<close> and \<open>b\<close> are.
\<close>

definition seq_range :: "u32 \<Rightarrow> u32 \<Rightarrow> u32 list" where
  "seq_range a b = map (\<lambda>k. a + of_nat k) [0..<unat (b - a)]"

lemma length_seq_range [simp]: "length (seq_range a b) = unat (b - a)"
  by (simp add: seq_range_def)

lemma seq_range_same [simp]: "seq_range a a = []"
  by (simp add: seq_range_def)

lemma unat_less_2_32 [simp]: "unat (w :: u32) < 4294967296"
  using unsigned_less[of w, where ?'a = nat] by simp

lemma unat_of_nat_32: "k < 4294967296 \<Longrightarrow> unat (of_nat k :: u32) = k"
  by (simp add: unat_of_nat)

lemma unat_minus_32:
  "unat (a - b :: u32) = (if unat b \<le> unat a then unat a - unat b else unat a + 4294967296 - unat b)"
  by (simp add: unat_sub_if')

lemma unat_plus_32:
  "unat (a + b :: u32) = (if unat a + unat b < 4294967296 then unat a + unat b
    else unat a + unat b - 4294967296)"
  by (simp add: unat_plus_if')

lemma set_seq_range: "i \<in> set (seq_range a b) \<longleftrightarrow> unat (i - a) < unat (b - a)"
proof
  assume "i \<in> set (seq_range a b)"
  then obtain k where k: "k < unat (b - a)" "i = a + of_nat k"
    by (auto simp: seq_range_def)
  have "unat (of_nat k :: u32) = k"
    using k(1) by (intro unat_of_nat_32 less_trans[OF k(1)]) simp
  with k show "unat (i - a) < unat (b - a)" by simp
next
  assume "unat (i - a) < unat (b - a)"
  moreover have "i = a + of_nat (unat (i - a))" by simp
  ultimately show "i \<in> set (seq_range a b)"
    by (auto simp: seq_range_def intro!: image_eqI[where x = "unat (i - a)"])
qed

lemma distinct_seq_range [simp]: "distinct (seq_range a b)"
proof -
  have "inj_on (\<lambda>k. a + of_nat k) {0..<unat (b - a)}"
  proof (rule inj_onI)
    fix x y assume "x \<in> {0..<unat (b - a)}" "y \<in> {0..<unat (b - a)}"
      and "a + (of_nat x :: u32) = a + of_nat y"
    then have e: "(of_nat x :: u32) = of_nat y" and xy: "x < unat (b - a)" "y < unat (b - a)"
      by auto
    have "x < 4294967296" "y < 4294967296"
      using xy less_trans[OF xy(1) unat_less_2_32] less_trans[OF xy(2) unat_less_2_32] by auto
    with e show "x = y" by (metis unat_of_nat_32)
  qed
  then show ?thesis by (simp add: seq_range_def distinct_map)
qed

section \<open>Byte order\<close>

text \<open>Big-endian (network order) encodings, as \<open>htons\<close>/\<open>htonl\<close> with \<open>memcpy\<close> write
  them and \<open>memcpy\<close> with \<open>ntohs\<close>/\<open>ntohl\<close> read them.\<close>

definition be16 :: "u16 \<Rightarrow> u8 list" where
  "be16 w = [ucast (drop_bit 8 w), ucast w]"

definition be32 :: "u32 \<Rightarrow> u8 list" where
  "be32 w = [ucast (drop_bit 24 w), ucast (drop_bit 16 w), ucast (drop_bit 8 w), ucast w]"

definition of_be :: "u8 list \<Rightarrow> 'a::len word" where
  "of_be bs = foldl (\<lambda>w b. push_bit 8 w OR ucast b) 0 bs"

lemma length_be [simp]: "length (be16 w) = 2" "length (be32 v) = 4"
  by (simp_all add: be16_def be32_def)

lemma of_be_be16 [simp]: "of_be (be16 w) = w"
  by (rule bit_word_eqI) (auto simp: of_be_def be16_def bit_simps)

lemma of_be_be32 [simp]: "of_be (be32 w) = w"
proof (rule bit_word_eqI)
  fix n assume n: "n < LENGTH(32)"
  consider "n < 8" | "8 \<le> n" "n < 16" | "16 \<le> n" "n < 24" | "24 \<le> n" by linarith
  then show "bit (of_be (be32 w) :: u32) n = bit w n"
    using n by cases (auto simp: of_be_def be32_def bit_simps)
qed

lemma u8_bit_high: "8 \<le> n \<Longrightarrow> bit (b :: u8) n \<longleftrightarrow> False"
  using bit_imp_le_length[of b n] by auto

lemmas byte_bits = bit_unsigned_iff bit_drop_bit_eq bit_or_iff bit_push_bit_iff bit_0_eq
  o_def possible_bit_word

lemma be16_of_be: "length bs = 2 \<Longrightarrow> be16 (of_be bs) = bs"
proof -
  have "be16 (of_be [a, b]) = [a, b]" for a b
    unfolding be16_def of_be_def foldl.simps list.inject
    by (intro conjI bit_word_eqI refl; simp only: byte_bits; auto simp: u8_bit_high)
  then show "length bs = 2 \<Longrightarrow> be16 (of_be bs) = bs"
    by (auto simp: numeral_eq_Suc length_Suc_conv)
qed

lemma be32_of_be: "length bs = 4 \<Longrightarrow> be32 (of_be bs) = bs"
proof -
  have "be32 (of_be [a, b, c, d]) = [a, b, c, d]" for a b c d
    unfolding be32_def of_be_def foldl.simps list.inject
    by (intro conjI bit_word_eqI refl; simp only: byte_bits; auto simp: u8_bit_high)
  then show "length bs = 4 \<Longrightarrow> be32 (of_be bs) = bs"
    by (auto simp: numeral_eq_Suc length_Suc_conv)
qed

end
