(* ===== verification/Seq_Num.thy ===== *)
theory Seq_Num
  imports Prelude
begin

text \<open>
  The arithmetic of packet identifiers (\<open>gibber_r_multicast_packet_diff\<close> in
  \<open>lib/gibber/gibber-r-multicast-packet.c\<close>). Identifiers are 32-bit counters that wrap around;
  the difference is computed with unsigned arithmetic and returned as a \<open>gint32\<close>. The lemmas
  turn it into integer arithmetic and say for which distances it is the true difference.
\<close>

abbreviation G_MAXUINT32 :: u32 where "G_MAXUINT32 \<equiv> 0xffffffff"
abbreviation G_MAXINT :: u32 where "G_MAXINT \<equiv> 0x7fffffff"

definition packet_diff :: "u32 \<Rightarrow> u32 \<Rightarrow> int" where
  "packet_diff fr to =
     (if fr > G_MAXUINT32 - 0xffff \<and> to < 0xffff
      then sint (G_MAXUINT32 - fr + to + 1)
      else if to > G_MAXUINT32 - 0xffff \<and> fr < 0xffff
      then sint (- fr - (G_MAXUINT32 - to) - 1)
      else if fr > to then sint (- min (fr - to) G_MAXINT)
      else sint (min (to - fr) G_MAXINT))"

named_theorems diff_simps

lemma sint_32: "sint (w :: u32) = (if uint w < 2147483648 then uint w else uint w - 4294967296)"
  using uint_bounded[of w]
  by (simp add: sint_uint signed_take_bit_eq_take_bit_shift take_bit_eq_mod)
     (smt (verit) mod_pos_pos_trivial minus_mod_self2 mod_add_self2)

lemma uint_unat_32: "uint (w :: u32) = int (unat w)"
  by simp

lemma uint_minus_32: "uint (a - b :: u32) = (if uint b \<le> uint a then uint a - uint b else uint a - uint b + 4294967296)"
  by (simp add: uint_sub_if')

lemma uint_plus_32: "uint (a + b :: u32) = (if uint a + uint b < 4294967296 then uint a + uint b
    else uint a + uint b - 4294967296)"
  by (simp add: uint_plus_if')

lemma uint_uminus_32: "uint (- a :: u32) = (if uint a = 0 then 0 else 4294967296 - uint a)"
  using uint_minus_32[of 0 a] uint_bounded[of a] by (auto split: if_splits)

lemma packet_diff_int:
  "packet_diff fr to =
    (let f = uint fr; t = uint to in
     if f > 4294901760 \<and> t < 65535 then t - f + 4294967296
     else if t > 4294901760 \<and> f < 65535 then t - f - 4294967296
     else max (-2147483647) (min 2147483647 (t - f)))"
proof -
  have b: "0 \<le> uint fr" "uint fr < 4294967296" "0 \<le> uint to" "uint to < 4294967296"
    using uint_bounded[of fr] uint_bounded[of to] by simp_all
  show ?thesis
    using b
    by (auto simp add: packet_diff_def word_less_def sint_32 min_def word_le_def
        uint_minus_32 uint_plus_32 uint_uminus_32 Let_def)
qed

lemma uint_bounds_32: "0 \<le> uint (w :: u32)" "uint w < 4294967296" "uint w \<le> 4294967295"
  using uint_bounded[of w] by simp_all

lemma uint_eq_32: "(a :: u32) = b \<longleftrightarrow> uint a = uint b"
  by (simp add: word_uint_eq_iff)

lemma packet_diff_self [simp]: "packet_diff a a = 0"
  by (simp add: packet_diff_int Let_def)

lemma packet_diff_antisym: "packet_diff b a = - packet_diff a b"
  by (simp add: packet_diff_int Let_def min_def max_def)

lemma packet_diff_bounds: "- 2147483647 \<le> packet_diff a b" "packet_diff a b \<le> 2147483647"
  unfolding packet_diff_int Let_def min_def max_def
  using uint_bounds_32[of a] uint_bounds_32[of b] by (smt (verit))+

lemma packet_diff_eq_0 [simp]: "packet_diff a b = 0 \<longleftrightarrow> a = b"
  unfolding packet_diff_int Let_def min_def max_def uint_eq_32
  using uint_bounds_32[of a] uint_bounds_32[of b] by (smt (verit))

lemma packet_diff_near:
  assumes "unat (b - a) \<le> 65535"
  shows "packet_diff a b = int (unat (b - a))"
proof -
  have "int (unat (b - a)) \<le> 65535" using assms by linarith
  then have "uint (b - a) \<le> 65535" by simp
  then have "packet_diff a b = uint (b - a)"
    unfolding packet_diff_int Let_def min_def max_def uint_minus_32
    using uint_bounds_32[of a] uint_bounds_32[of b] by (smt (verit))
  then show ?thesis by simp
qed

lemma packet_diff_near_neg: "unat (a - b) \<le> 65535 \<Longrightarrow> packet_diff a b = - int (unat (a - b))"
  using packet_diff_near[of a b] packet_diff_antisym[of b a] by simp

lemma packet_diff_exact:
  assumes "\<bar>packet_diff a b\<bar> < 2147483647"
  shows "word_of_int (packet_diff a b) = b - a"
proof -
  have "word_of_int 4294967296 = (0 :: u32)"
    by (simp add: uint_eq_32 unsigned_of_int take_bit_eq_mod)
  then have w: "word_of_int (uint b - uint a) = b - a"
      "word_of_int (uint b - uint a + 4294967296) = b - a"
      "word_of_int (uint b - uint a - 4294967296) = b - a"
    by (simp_all flip: wi_hom_sub wi_hom_add)
  have "packet_diff a b = uint b - uint a \<or> packet_diff a b = uint b - uint a + 4294967296
    \<or> packet_diff a b = uint b - uint a - 4294967296"
    using assms by (auto simp add: packet_diff_int Let_def min_def max_def split: if_splits)
  then show ?thesis by (elim disjE; simp only: w)
qed

end
