(* ===== verification/Packet.thy ===== *)
theory Packet
  imports Seq_Num
begin

text \<open>
  The packets of the Clique protocol: \<open>lib/gibber/gibber-r-multicast-packet.h\<close> and the
  constructors and setters of \<open>lib/gibber/gibber-r-multicast-packet.c\<close>. A packet is a record; the
  C struct's \<open>type\<close> field and \<open>data\<close> union are one datatype, since \<open>type\<close> selects the
  union's member. \<open>pkt_raw\<close> and \<open>pkt_max_data\<close> are the private \<open>data\<close> and
  \<open>max_data\<close>; the private \<open>size\<close> is the length of \<open>pkt_raw\<close> once it is set. A NULL
  payload is the empty list (\<open>g_memdup\<close> of nothing is NULL), a NULL name is \<open>None\<close>, and a
  C string is the list of its bytes without the terminator. Sizes (\<open>gsize\<close>) are natural numbers;
  the one subtraction that can wrap, in \<open>add_payload\<close>, is written modulo \<open>2^64\<close>.
\<close>

section \<open>Data\<close>

datatype packet_type =
    PACKET_TYPE_WHOIS_REQUEST
  | PACKET_TYPE_WHOIS_REPLY
  | PACKET_TYPE_REPAIR_REQUEST
  | PACKET_TYPE_SESSION
  | PACKET_TYPE_DATA
  | PACKET_TYPE_NO_DATA
  | PACKET_TYPE_FAILURE
  | PACKET_TYPE_ATTEMPT_JOIN
  | PACKET_TYPE_JOIN
  | PACKET_TYPE_BYE
  | PACKET_TYPE_INVALID

fun type_code :: "packet_type \<Rightarrow> u8" where
  "type_code PACKET_TYPE_WHOIS_REQUEST = 0"
| "type_code PACKET_TYPE_WHOIS_REPLY = 1"
| "type_code PACKET_TYPE_REPAIR_REQUEST = 2"
| "type_code PACKET_TYPE_SESSION = 3"
| "type_code PACKET_TYPE_DATA = 0xf"
| "type_code PACKET_TYPE_NO_DATA = 0x10"
| "type_code PACKET_TYPE_FAILURE = 0x11"
| "type_code PACKET_TYPE_ATTEMPT_JOIN = 0x12"
| "type_code PACKET_TYPE_JOIN = 0x13"
| "type_code PACKET_TYPE_BYE = 0x14"
| "type_code PACKET_TYPE_INVALID = 0x15"

type_synonym sender_info = "u32 \<times> u32" \<comment> \<open>sender id, packet id\<close>

datatype packet_data =
    Whois_request u32 \<comment> \<open>sender id\<close>
  | Whois_reply "u8 list option" \<comment> \<open>sender name\<close>
  | Repair_request u32 u32 \<comment> \<open>sender id, packet id\<close>
  | Session
  | Data u8 u32 u16 "u8 list" \<comment> \<open>flags, total size, stream id, payload\<close>
  | No_data
  | Failure "u32 list"
  | Attempt_join "u32 list"
  | Join "u32 list"
  | Bye
  | Invalid

record packet =
  pkt_version :: u8
  pkt_sender :: u32
  pkt_packet_id :: u32
  pkt_depends :: "sender_info list"
  pkt_data :: packet_data
  pkt_max_data :: nat
  pkt_raw :: "u8 list option"

fun data_type :: "packet_data \<Rightarrow> packet_type" where
  "data_type (Whois_request _) = PACKET_TYPE_WHOIS_REQUEST"
| "data_type (Whois_reply _) = PACKET_TYPE_WHOIS_REPLY"
| "data_type (Repair_request _ _) = PACKET_TYPE_REPAIR_REQUEST"
| "data_type Session = PACKET_TYPE_SESSION"
| "data_type (Data _ _ _ _) = PACKET_TYPE_DATA"
| "data_type No_data = PACKET_TYPE_NO_DATA"
| "data_type (Failure _) = PACKET_TYPE_FAILURE"
| "data_type (Attempt_join _) = PACKET_TYPE_ATTEMPT_JOIN"
| "data_type (Join _) = PACKET_TYPE_JOIN"
| "data_type Bye = PACKET_TYPE_BYE"
| "data_type Invalid = PACKET_TYPE_INVALID"

definition pkt_type :: "packet \<Rightarrow> packet_type" where
  "pkt_type p = data_type (pkt_data p)"

definition FIRST_RELIABLE_PACKET :: u8 where
  "FIRST_RELIABLE_PACKET = 0xf"

definition is_reliable_type :: "packet_type \<Rightarrow> bool" where
  "is_reliable_type t \<longleftrightarrow>
     type_code t \<ge> FIRST_RELIABLE_PACKET \<and> type_code t < type_code PACKET_TYPE_INVALID"

definition is_reliable_packet :: "packet \<Rightarrow> bool" where
  "is_reliable_packet p \<longleftrightarrow> is_reliable_type (pkt_type p)"

definition DATA_PACKET_START :: u8 where "DATA_PACKET_START = 0x1"
definition DATA_PACKET_END :: u8 where "DATA_PACKET_END = 0x2"

definition PACKET_VERSION :: u8 where "PACKET_VERSION = 1"

definition PACKET_PREFIX :: "u8 list" where
  "PACKET_PREFIX = [67, 108, 105, 113, 117, 101]" \<comment> \<open>Clique\<close>

definition PACKET_PREFIX_LENGTH :: nat where "PACKET_PREFIX_LENGTH = 6"

definition PACKET_HEADER_SIZE :: nat where
  "PACKET_HEADER_SIZE = 6 + PACKET_PREFIX_LENGTH"

section \<open>Construction\<close>

text \<open>\<open>g_object_new\<close> zero-fills the union; \<open>packet_new\<close> allocates the arrays.\<close>

fun empty_data :: "packet_type \<Rightarrow> packet_data" where
  "empty_data PACKET_TYPE_WHOIS_REQUEST = Whois_request 0"
| "empty_data PACKET_TYPE_WHOIS_REPLY = Whois_reply None"
| "empty_data PACKET_TYPE_REPAIR_REQUEST = Repair_request 0 0"
| "empty_data PACKET_TYPE_SESSION = Session"
| "empty_data PACKET_TYPE_DATA = Data 0 0 0 []"
| "empty_data PACKET_TYPE_NO_DATA = No_data"
| "empty_data PACKET_TYPE_FAILURE = Failure []"
| "empty_data PACKET_TYPE_ATTEMPT_JOIN = Attempt_join []"
| "empty_data PACKET_TYPE_JOIN = Join []"
| "empty_data PACKET_TYPE_BYE = Bye"
| "empty_data PACKET_TYPE_INVALID = Invalid"

definition packet_new :: "packet_type \<Rightarrow> u32 \<Rightarrow> nat \<Rightarrow> packet" where
  "packet_new t sender max_size =
     \<lparr>pkt_version = PACKET_VERSION, pkt_sender = sender, pkt_packet_id = 0, pkt_depends = [],
      pkt_data = empty_data t, pkt_max_data = max_size, pkt_raw = None\<rparr>"

definition packet_add_sender_info :: "packet \<Rightarrow> u32 \<Rightarrow> u32 \<Rightarrow> packet outcome" where
  "packet_add_sender_info p sender_id packet_id =
     andthen (assert_that (pkt_raw p = None)) (\<lambda>_.
     andthen (assert_that (is_reliable_packet p \<or> pkt_type p = PACKET_TYPE_SESSION)) (\<lambda>_.
     Inr (p\<lparr>pkt_depends := pkt_depends p @ [(sender_id, packet_id)]\<rparr>)))"

definition packet_set_packet_id :: "packet \<Rightarrow> u32 \<Rightarrow> packet outcome" where
  "packet_set_packet_id p packet_id =
     andthen (assert_that (is_reliable_packet p)) (\<lambda>_. Inr (p\<lparr>pkt_packet_id := packet_id\<rparr>))"

definition packet_set_data_info :: "packet \<Rightarrow> u16 \<Rightarrow> u8 \<Rightarrow> u32 \<Rightarrow> packet outcome" where
  "packet_set_data_info p stream_id flags total_size =
     (case pkt_data p of
        Data _ _ _ payload \<Rightarrow> Inr (p\<lparr>pkt_data := Data flags total_size stream_id payload\<rparr>)
      | _ \<Rightarrow> Inl Assertion_failed)"

definition packet_set_repair_request_info :: "packet \<Rightarrow> u32 \<Rightarrow> u32 \<Rightarrow> packet outcome" where
  "packet_set_repair_request_info p sender_id packet_id =
     (case pkt_data p of
        Repair_request _ _ \<Rightarrow> Inr (p\<lparr>pkt_data := Repair_request sender_id packet_id\<rparr>)
      | _ \<Rightarrow> Inl Assertion_failed)"

definition packet_set_whois_request_info :: "packet \<Rightarrow> u32 \<Rightarrow> packet outcome" where
  "packet_set_whois_request_info p sender_id =
     (case pkt_data p of
        Whois_request _ \<Rightarrow> Inr (p\<lparr>pkt_data := Whois_request sender_id\<rparr>)
      | _ \<Rightarrow> Inl Assertion_failed)"

definition packet_set_whois_reply_info :: "packet \<Rightarrow> u8 list option \<Rightarrow> packet outcome" where
  "packet_set_whois_reply_info p name =
     (case pkt_data p of
        Whois_reply _ \<Rightarrow> Inr (p\<lparr>pkt_data := Whois_reply name\<rparr>)
      | _ \<Rightarrow> Inl Assertion_failed)"

definition packet_attempt_join_add_sender :: "packet \<Rightarrow> u32 \<Rightarrow> packet outcome" where
  "packet_attempt_join_add_sender p sender =
     (case pkt_data p of
        Attempt_join senders \<Rightarrow> Inr (p\<lparr>pkt_data := Attempt_join (senders @ [sender])\<rparr>)
      | _ \<Rightarrow> Inl Assertion_failed)"

definition packet_attempt_join_add_senders :: "packet \<Rightarrow> u32 list \<Rightarrow> packet outcome" where
  "packet_attempt_join_add_senders p senders =
     (case pkt_data p of
        Attempt_join ss \<Rightarrow> Inr (p\<lparr>pkt_data := Attempt_join (ss @ senders)\<rparr>)
      | _ \<Rightarrow> Inl Assertion_failed)"

definition packet_join_add_failure :: "packet \<Rightarrow> u32 \<Rightarrow> packet outcome" where
  "packet_join_add_failure p failure =
     (case pkt_data p of
        Join fs \<Rightarrow> Inr (p\<lparr>pkt_data := Join (fs @ [failure])\<rparr>)
      | _ \<Rightarrow> Inl Assertion_failed)"

definition packet_join_add_failures :: "packet \<Rightarrow> u32 list \<Rightarrow> packet outcome" where
  "packet_join_add_failures p failures =
     (case pkt_data p of
        Join fs \<Rightarrow> Inr (p\<lparr>pkt_data := Join (fs @ failures)\<rparr>)
      | _ \<Rightarrow> Inl Assertion_failed)"

definition packet_failure_add_sender :: "packet \<Rightarrow> u32 \<Rightarrow> packet outcome" where
  "packet_failure_add_sender p sender =
     (case pkt_data p of
        Failure fs \<Rightarrow> Inr (p\<lparr>pkt_data := Failure (fs @ [sender])\<rparr>)
      | _ \<Rightarrow> Inl Assertion_failed)"

definition packet_failure_add_senders :: "packet \<Rightarrow> u32 list \<Rightarrow> packet outcome" where
  "packet_failure_add_senders p senders =
     (case pkt_data p of
        Failure fs \<Rightarrow> Inr (p\<lparr>pkt_data := Failure (fs @ senders)\<rparr>)
      | _ \<Rightarrow> Inl Assertion_failed)"

section \<open>Sizes and payload\<close>

definition calculate_size :: "packet \<Rightarrow> nat outcome" where
  "calculate_size p =
     (let result = PACKET_HEADER_SIZE;
          payload_size = (case pkt_data p of Data _ _ _ payload \<Rightarrow> length payload | _ \<Rightarrow> 0);
          result = (if is_reliable_packet p
                    then result + 5 + 8 * length (pkt_depends p) + payload_size
                    else result)
      in case pkt_data p of
           Whois_request _ \<Rightarrow> Inr (result + 4)
         | Whois_reply None \<Rightarrow> Inl Assertion_failed
         | Whois_reply (Some name) \<Rightarrow> Inr (result + 1 + length name)
         | Data _ _ _ _ \<Rightarrow> Inr (result + 7)
         | Repair_request _ _ \<Rightarrow> Inr (result + 8)
         | Attempt_join senders \<Rightarrow> Inr (result + 1 + 4 * length senders)
         | Join failures \<Rightarrow> Inr (result + 1 + 4 * length failures)
         | Failure failures \<Rightarrow> Inr (result + 1 + 4 * length failures)
         | Session \<Rightarrow> Inr (result + 1 + 8 * length (pkt_depends p))
         | _ \<Rightarrow> Inr result)"

text \<open>\<open>gsize\<close> subtraction: 64-bit, wrapping.\<close>

definition gsize_minus :: "nat \<Rightarrow> nat \<Rightarrow> nat" where
  "gsize_minus a b = (a + 2 ^ 64 - b mod 2 ^ 64) mod 2 ^ 64"

definition packet_add_payload :: "packet \<Rightarrow> u8 list \<Rightarrow> (packet \<times> nat) outcome" where
  "packet_add_payload p bytes =
     (case pkt_data p of
        Data flags total_size stream_id payload \<Rightarrow>
          andthen (assert_that (payload = [])) (\<lambda>_.
          andthen (assert_that (pkt_raw p = None)) (\<lambda>_.
          andthen (calculate_size p) (\<lambda>needed.
            let avail = min (length bytes) (gsize_minus (pkt_max_data p) needed)
            in Inr (p\<lparr>pkt_data := Data flags total_size stream_id (take avail bytes)\<rparr>, avail))))
      | _ \<Rightarrow> Inl Assertion_failed)"

definition packet_get_payload :: "packet \<Rightarrow> u8 list outcome" where
  "packet_get_payload p =
     (case pkt_data p of Data _ _ _ payload \<Rightarrow> Inr payload | _ \<Rightarrow> Inl Assertion_failed)"

section \<open>First facts\<close>

lemma data_type_empty [simp]: "data_type (empty_data t) = t"
  by (cases t) simp_all

lemma type_code_inj: "type_code s = type_code t \<longleftrightarrow> s = t"
  by (cases s; cases t; simp)

lemma is_reliable_type_simps [simp]:
  "\<not> is_reliable_type PACKET_TYPE_WHOIS_REQUEST"
  "\<not> is_reliable_type PACKET_TYPE_WHOIS_REPLY"
  "\<not> is_reliable_type PACKET_TYPE_REPAIR_REQUEST"
  "\<not> is_reliable_type PACKET_TYPE_SESSION"
  "is_reliable_type PACKET_TYPE_DATA"
  "is_reliable_type PACKET_TYPE_NO_DATA"
  "is_reliable_type PACKET_TYPE_FAILURE"
  "is_reliable_type PACKET_TYPE_ATTEMPT_JOIN"
  "is_reliable_type PACKET_TYPE_JOIN"
  "is_reliable_type PACKET_TYPE_BYE"
  "\<not> is_reliable_type PACKET_TYPE_INVALID"
  by (simp_all add: is_reliable_type_def FIRST_RELIABLE_PACKET_def word_le_nat_alt)

lemma gsize_minus_le: "b \<le> a \<Longrightarrow> a < 2 ^ 64 \<Longrightarrow> gsize_minus a b = a - b"
proof -
  assume "b \<le> a" "a < 2 ^ 64"
  then have "a + 2 ^ 64 - b mod 2 ^ 64 = (a - b) + 2 ^ 64" by simp
  with \<open>a < 2 ^ 64\<close> show ?thesis by (simp add: gsize_minus_def)
qed

end
