(* ===== verification/Packet_Codec.thy ===== *)
theory Packet_Codec
  imports Packet
begin

text \<open>
  Serialisation and parsing of packets: the \<open>add_*\<close>, \<open>get_*\<close>, \<open>build\<close> and
  \<open>parse\<close> functions of \<open>lib/gibber/gibber-r-multicast-packet.c\<close>. A write buffer is the
  allocated bytes with the current offset, a read cursor is an offset into the received bytes;
  every access keeps its \<open>g_assert\<close>. \<open>wire\<close> is the format itself, as a plain
  concatenation of fields: the building code is shown to produce it, and the parser to invert it.
\<close>

section \<open>Writing\<close>

type_synonym wbuf = "u8 list \<times> nat" \<comment> \<open>allocated bytes, offset\<close>

definition memcpy_to :: "wbuf \<Rightarrow> u8 list \<Rightarrow> wbuf outcome" where
  "memcpy_to b bs =
     (case b of (d, off) \<Rightarrow>
       if off + length bs \<le> length d
       then Inr (take off d @ bs @ drop (off + length bs) d, off + length bs)
       else Inl Assertion_failed)"

definition add_guint8 :: "wbuf \<Rightarrow> u8 \<Rightarrow> wbuf outcome" where
  "add_guint8 b i = memcpy_to b [i]"

definition add_guint16 :: "wbuf \<Rightarrow> u16 \<Rightarrow> wbuf outcome" where
  "add_guint16 b i = memcpy_to b (be16 i)"

definition add_guint32 :: "wbuf \<Rightarrow> u32 \<Rightarrow> wbuf outcome" where
  "add_guint32 b i = memcpy_to b (be32 i)"

definition add_string :: "wbuf \<Rightarrow> u8 list \<Rightarrow> wbuf outcome" where
  "add_string b str =
     andthen (assert_that (length str < 255)) (\<lambda>_.
     andthen (add_guint8 b (of_nat (length str))) (\<lambda>b.
     memcpy_to b str))"

definition add_sender_info :: "wbuf \<Rightarrow> sender_info list \<Rightarrow> wbuf outcome" where
  "add_sender_info b senders =
     andthen (add_guint8 b (of_nat (length senders))) (\<lambda>b.
     foldo (\<lambda>(sid, pid) b. andthen (add_guint32 b sid) (\<lambda>b. add_guint32 b pid)) senders b)"

definition packet_add_prefix :: "wbuf \<Rightarrow> wbuf outcome" where
  "packet_add_prefix b = memcpy_to b PACKET_PREFIX"

definition add_id_array :: "wbuf \<Rightarrow> u32 list \<Rightarrow> wbuf outcome" where
  "add_id_array b ids =
     andthen (add_guint8 b (of_nat (length ids))) (\<lambda>b. foldo (\<lambda>i b. add_guint32 b i) ids b)"

definition build_data :: "sender_info list \<Rightarrow> packet_data \<Rightarrow> wbuf \<Rightarrow> wbuf outcome" where
  "build_data depends data b =
     (case data of
        Whois_request sender_id \<Rightarrow> add_guint32 b sender_id
      | Whois_reply None \<Rightarrow> Inl Null_dereference
      | Whois_reply (Some name) \<Rightarrow> add_string b name
      | Data flags total_size stream_id payload \<Rightarrow>
          andthen (add_guint8 b flags) (\<lambda>b.
          andthen (add_guint16 b stream_id) (\<lambda>b.
          andthen (add_guint32 b total_size) (\<lambda>b.
          andthen (assert_that (snd b + length payload = length (fst b))) (\<lambda>_.
          memcpy_to b payload))))
      | Repair_request sender_id packet_id \<Rightarrow>
          andthen (add_guint32 b sender_id) (\<lambda>b. add_guint32 b packet_id)
      | Attempt_join senders \<Rightarrow> add_id_array b senders
      | Join failures \<Rightarrow> add_id_array b failures
      | Failure failures \<Rightarrow> add_id_array b failures
      | Session \<Rightarrow> add_sender_info b depends
      | Bye \<Rightarrow> Inr b
      | No_data \<Rightarrow> Inr b
      | Invalid \<Rightarrow> Inl Assertion_failed)"

definition packet_build :: "packet \<Rightarrow> packet outcome" where
  "packet_build p =
     (if pkt_raw p \<noteq> None then Inr p
      else
        andthen (calculate_size p) (\<lambda>needed_size.
        andthen (assert_that (needed_size \<le> pkt_max_data p)) (\<lambda>_.
        andthen (packet_add_prefix (replicate needed_size 0, 0)) (\<lambda>b.
        andthen (add_guint8 b (pkt_version p)) (\<lambda>b.
        andthen (add_guint8 b (type_code (pkt_type p))) (\<lambda>b.
        andthen (add_guint32 b (pkt_sender p)) (\<lambda>b.
        andthen (if is_reliable_packet p
                 then andthen (add_guint32 b (pkt_packet_id p)) (\<lambda>b.
                      add_sender_info b (pkt_depends p))
                 else Inr b) (\<lambda>b.
        andthen (build_data (pkt_depends p) (pkt_data p) b) (\<lambda>(d, off).
        andthen (assert_that (off = needed_size)) (\<lambda>_.
        Inr (p\<lparr>pkt_max_data := needed_size, pkt_raw := Some d\<rparr>)))))))))))"

definition packet_get_raw_data :: "packet \<Rightarrow> (packet \<times> u8 list) outcome" where
  "packet_get_raw_data p =
     andthen (packet_build p) (\<lambda>p. andthen (deref (pkt_raw p)) (\<lambda>d. Inr (p, d)))"

section \<open>Reading\<close>

definition get_guint8 :: "u8 list \<Rightarrow> nat \<Rightarrow> (u8 \<times> nat) outcome" where
  "get_guint8 d off =
     andthen (assert_that (off + 1 \<le> length d)) (\<lambda>_. Inr (d ! off, off + 1))"

definition get_guint16 :: "u8 list \<Rightarrow> nat \<Rightarrow> (u16 \<times> nat) outcome" where
  "get_guint16 d off =
     andthen (assert_that (off + 2 \<le> length d)) (\<lambda>_. Inr (of_be (take 2 (drop off d)), off + 2))"

definition get_guint32 :: "u8 list \<Rightarrow> nat \<Rightarrow> (u32 \<times> nat) outcome" where
  "get_guint32 d off =
     andthen (assert_that (off + 4 \<le> length d)) (\<lambda>_. Inr (of_be (take 4 (drop off d)), off + 4))"

text \<open>The \<open>GET_*\<close> macros: \<open>goto parse_error\<close> where the data ends too early.\<close>

definition GET_GUINT8 :: "u8 list \<Rightarrow> nat \<Rightarrow> (u8 \<times> nat) outcome" where
  "GET_GUINT8 d off = (if off + 1 > length d then Inl Parse_error else get_guint8 d off)"

definition GET_GUINT16 :: "u8 list \<Rightarrow> nat \<Rightarrow> (u16 \<times> nat) outcome" where
  "GET_GUINT16 d off = (if off + 2 > length d then Inl Parse_error else get_guint16 d off)"

definition GET_GUINT32 :: "u8 list \<Rightarrow> nat \<Rightarrow> (u32 \<times> nat) outcome" where
  "GET_GUINT32 d off = (if off + 4 > length d then Inl Parse_error else get_guint32 d off)"

text \<open>
  \<open>get_string\<close> and \<open>get_sender_info\<close> return NULL and FALSE where the data ends too
  early, which their callers turn into a parse error at once. \<open>g_strndup\<close> stops at a NUL byte.
\<close>

definition get_string :: "u8 list \<Rightarrow> nat \<Rightarrow> (u8 list \<times> nat) outcome" where
  "get_string d off =
     (if off + 1 > length d then Inl Parse_error
      else andthen (get_guint8 d off) (\<lambda>(len, off).
        if off + unat len > length d then Inl Parse_error
        else Inr (takeWhile (\<lambda>c. c \<noteq> 0) (take (unat len) (drop off d)), off + unat len)))"

fun get_sender_infos ::
    "u8 list \<Rightarrow> nat \<Rightarrow> nat \<Rightarrow> sender_info list \<Rightarrow> (sender_info list \<times> nat) outcome" where
  "get_sender_infos d off 0 depends = Inr (depends, off)"
| "get_sender_infos d off (Suc nr_items) depends =
     (if off + 8 > length d then Inl Parse_error
      else andthen (get_guint32 d off) (\<lambda>(sender_id, off).
           andthen (get_guint32 d off) (\<lambda>(packet_id, off).
           get_sender_infos d off nr_items (depends @ [(sender_id, packet_id)]))))"

definition get_sender_info ::
    "u8 list \<Rightarrow> nat \<Rightarrow> sender_info list \<Rightarrow> (sender_info list \<times> nat) outcome" where
  "get_sender_info d off depends =
     (if off + 1 > length d then Inl Parse_error
      else andthen (get_guint8 d off) (\<lambda>(nr_items, off).
        get_sender_infos d off (unat nr_items) depends))"

fun get_ids :: "u8 list \<Rightarrow> nat \<Rightarrow> nat \<Rightarrow> u32 list \<Rightarrow> (u32 list \<times> nat) outcome" where
  "get_ids d off 0 ids = Inr (ids, off)"
| "get_ids d off (Suc nr) ids =
     andthen (GET_GUINT32 d off) (\<lambda>(sender, off). get_ids d off nr (ids @ [sender]))"

definition get_id_array :: "u8 list \<Rightarrow> nat \<Rightarrow> (u32 list \<times> nat) outcome" where
  "get_id_array d off = andthen (GET_GUINT8 d off) (\<lambda>(nr, off). get_ids d off (unat nr) [])"

definition packet_check_prefix :: "u8 list \<Rightarrow> bool" where
  "packet_check_prefix d \<longleftrightarrow> (\<forall>i < PACKET_PREFIX_LENGTH. d ! i = PACKET_PREFIX ! i)"

text \<open>The packet types the parser's \<open>switch\<close> has a case for, by their code on the wire.\<close>

definition type_of_code :: "u8 \<Rightarrow> packet_type option" where
  "type_of_code c =
     (if c = 0 then Some PACKET_TYPE_WHOIS_REQUEST
      else if c = 1 then Some PACKET_TYPE_WHOIS_REPLY
      else if c = 2 then Some PACKET_TYPE_REPAIR_REQUEST
      else if c = 3 then Some PACKET_TYPE_SESSION
      else if c = 0xf then Some PACKET_TYPE_DATA
      else if c = 0x10 then Some PACKET_TYPE_NO_DATA
      else if c = 0x11 then Some PACKET_TYPE_FAILURE
      else if c = 0x12 then Some PACKET_TYPE_ATTEMPT_JOIN
      else if c = 0x13 then Some PACKET_TYPE_JOIN
      else if c = 0x14 then Some PACKET_TYPE_BYE
      else None)"

text \<open>The \<open>switch\<close> on the type: the union, the dependency list and the new offset.\<close>

definition parse_data ::
    "packet_type \<Rightarrow> u8 list \<Rightarrow> nat \<Rightarrow> sender_info list
      \<Rightarrow> (packet_data \<times> sender_info list \<times> nat) outcome" where
  "parse_data t d off depends =
     (case t of
        PACKET_TYPE_WHOIS_REQUEST \<Rightarrow>
          andthen (GET_GUINT32 d off) (\<lambda>(sender_id, off). Inr (Whois_request sender_id, depends, off))
      | PACKET_TYPE_WHOIS_REPLY \<Rightarrow>
          andthen (get_string d off) (\<lambda>(name, off). Inr (Whois_reply (Some name), depends, off))
      | PACKET_TYPE_DATA \<Rightarrow>
          andthen (GET_GUINT8 d off) (\<lambda>(flags, off).
          andthen (GET_GUINT16 d off) (\<lambda>(stream_id, off).
          andthen (GET_GUINT32 d off) (\<lambda>(total_size, off).
          Inr (Data flags total_size stream_id (drop off d), depends, length d))))
      | PACKET_TYPE_REPAIR_REQUEST \<Rightarrow>
          andthen (GET_GUINT32 d off) (\<lambda>(sender_id, off).
          andthen (GET_GUINT32 d off) (\<lambda>(packet_id, off).
          Inr (Repair_request sender_id packet_id, depends, off)))
      | PACKET_TYPE_ATTEMPT_JOIN \<Rightarrow>
          andthen (get_id_array d off) (\<lambda>(ids, off). Inr (Attempt_join ids, depends, off))
      | PACKET_TYPE_JOIN \<Rightarrow>
          andthen (get_id_array d off) (\<lambda>(ids, off). Inr (Join ids, depends, off))
      | PACKET_TYPE_FAILURE \<Rightarrow>
          andthen (get_id_array d off) (\<lambda>(ids, off). Inr (Failure ids, depends, off))
      | PACKET_TYPE_SESSION \<Rightarrow>
          andthen (get_sender_info d off depends) (\<lambda>(depends, off). Inr (Session, depends, off))
      | PACKET_TYPE_NO_DATA \<Rightarrow> Inr (No_data, depends, off)
      | PACKET_TYPE_BYE \<Rightarrow> Inr (Bye, depends, off)
      | PACKET_TYPE_INVALID \<Rightarrow> Inl Parse_error)"

text \<open>The packet id and the dependency list that reliable packets start with.\<close>

definition parse_reliable ::
    "packet_type \<Rightarrow> u8 list \<Rightarrow> nat \<Rightarrow> (u32 \<times> sender_info list \<times> nat) outcome" where
  "parse_reliable t d off =
     (if is_reliable_type t
      then andthen (GET_GUINT32 d off) (\<lambda>(packet_id, off).
           andthen (get_sender_info d off []) (\<lambda>(depends, off).
           Inr (packet_id, depends, off)))
      else Inr (0, [], off))"

definition packet_parse :: "u8 list \<Rightarrow> packet outcome" where
  "packet_parse d =
     (if length d < PACKET_HEADER_SIZE \<or> \<not> packet_check_prefix d then Inl Parse_error
      else
        andthen (GET_GUINT8 d PACKET_PREFIX_LENGTH) (\<lambda>(version, off).
        if version \<noteq> PACKET_VERSION then Inl Parse_error
        else
          andthen (GET_GUINT8 d off) (\<lambda>(code, off).
          andthen (GET_GUINT32 d off) (\<lambda>(sender, off).
          case type_of_code code of
            None \<Rightarrow> Inl Parse_error
          | Some t \<Rightarrow>
              andthen (parse_reliable t d off) (\<lambda>(packet_id, depends, off).
              andthen (parse_data t d off depends) (\<lambda>(data, depends, off).
              if off \<noteq> length d then Inl Parse_error
              else Inr \<lparr>pkt_version = version, pkt_sender = sender, pkt_packet_id = packet_id,
                        pkt_depends = depends, pkt_data = data, pkt_max_data = length d,
                        pkt_raw = Some d\<rparr>))))))"

section \<open>The wire format\<close>

definition wire_infos :: "sender_info list \<Rightarrow> u8 list" where
  "wire_infos is = of_nat (length is) # concat (map (\<lambda>(s, p). be32 s @ be32 p) is)"

definition wire_ids :: "u32 list \<Rightarrow> u8 list" where
  "wire_ids ids = of_nat (length ids) # concat (map be32 ids)"

fun wire_data :: "sender_info list \<Rightarrow> packet_data \<Rightarrow> u8 list" where
  "wire_data ds (Whois_request i) = be32 i"
| "wire_data ds (Whois_reply None) = []"
| "wire_data ds (Whois_reply (Some name)) = of_nat (length name) # name"
| "wire_data ds (Repair_request s p) = be32 s @ be32 p"
| "wire_data ds Session = wire_infos ds"
| "wire_data ds (Data fl tot stream payload) = fl # be16 stream @ be32 tot @ payload"
| "wire_data ds (Failure ids) = wire_ids ids"
| "wire_data ds (Attempt_join ids) = wire_ids ids"
| "wire_data ds (Join ids) = wire_ids ids"
| "wire_data ds No_data = []"
| "wire_data ds Bye = []"
| "wire_data ds Invalid = []"

definition wire :: "packet \<Rightarrow> u8 list" where
  "wire p = PACKET_PREFIX @ [pkt_version p, type_code (pkt_type p)] @ be32 (pkt_sender p) @
     (if is_reliable_packet p then be32 (pkt_packet_id p) @ wire_infos (pkt_depends p) else []) @
     wire_data (pkt_depends p) (pkt_data p)"

text \<open>What a packet must satisfy to be built: the data fits the union, a name is shorter than
  255 bytes and the packet fits its maximum size.\<close>

fun buildable_data :: "packet_data \<Rightarrow> bool" where
  "buildable_data (Whois_reply n) \<longleftrightarrow> (\<exists>name. n = Some name \<and> length name < 255)"
| "buildable_data Invalid \<longleftrightarrow> False"
| "buildable_data _ \<longleftrightarrow> True"

definition buildable :: "packet \<Rightarrow> bool" where
  "buildable p \<longleftrightarrow> buildable_data (pkt_data p) \<and> length (wire p) \<le> pkt_max_data p"

end
