(* ===== verification/Packet_Roundtrip.thy ===== *)
theory Packet_Roundtrip
  imports Packet_Codec "HOL-Library.Sublist"
begin

text \<open>
  What serialisation and parsing do, for every packet and every byte string: the building code
  writes exactly the wire format (\<open>packet_build_wire\<close>) and aborts on everything else; the parser
  never fails an assertion, inverts the wire format, and accepts nothing but wire images.
\<close>

section \<open>Building produces the wire format\<close>

text \<open>
  A buffer that has \<open>pre\<close> written and \<open>k\<close> zero bytes left. Every \<open>add_*\<close> function
  moves it forward by the bytes of its field, and aborts exactly when they do not fit.
\<close>

definition wbuf_at :: "u8 list \<Rightarrow> nat \<Rightarrow> wbuf" where
  "wbuf_at pre k = (pre @ replicate k 0, length pre)"

named_theorems build_simps

lemma memcpy_to_at [build_simps]:
  "memcpy_to (wbuf_at pre k) bs =
    (if length bs \<le> k then Inr (wbuf_at (pre @ bs) (k - length bs)) else Inl Assertion_failed)"
  by (auto simp: memcpy_to_def wbuf_at_def)

lemma add_guint8_at [build_simps]:
  "add_guint8 (wbuf_at pre k) i =
    (if 1 \<le> k then Inr (wbuf_at (pre @ [i]) (k - 1)) else Inl Assertion_failed)"
  by (simp add: add_guint8_def build_simps)

lemma add_guint16_at [build_simps]:
  "add_guint16 (wbuf_at pre k) i =
    (if 2 \<le> k then Inr (wbuf_at (pre @ be16 i) (k - 2)) else Inl Assertion_failed)"
  by (simp add: add_guint16_def build_simps)

lemma add_guint32_at [build_simps]:
  "add_guint32 (wbuf_at pre k) i =
    (if 4 \<le> k then Inr (wbuf_at (pre @ be32 i) (k - 4)) else Inl Assertion_failed)"
  by (simp add: add_guint32_def build_simps)

lemma add_string_at [build_simps]:
  "1 + length s \<le> k \<Longrightarrow> length s < 255 \<Longrightarrow>
    add_string (wbuf_at pre k) s =
      Inr (wbuf_at (pre @ of_nat (length s) # s) (k - (1 + length s)))"
  by (auto simp: add_string_def build_simps)

lemma length_wire_infos [simp]: "length (wire_infos ds) = 1 + 8 * length ds"
  by (induction ds) (auto simp: wire_infos_def)

lemma length_wire_ids [simp]: "length (wire_ids ids) = 1 + 4 * length ids"
  by (induction ids) (auto simp: wire_ids_def)

lemma add_infos_at:
  "8 * length ds \<le> k \<Longrightarrow>
    foldo (\<lambda>(sid, pid) b. andthen (add_guint32 b sid) (\<lambda>b. add_guint32 b pid)) ds (wbuf_at pre k) =
      Inr (wbuf_at (pre @ concat (map (\<lambda>(s, p). be32 s @ be32 p) ds)) (k - 8 * length ds))"
  by (induction ds arbitrary: pre k) (auto simp: build_simps)

lemma add_sender_info_at [build_simps]:
  "1 + 8 * length ds \<le> k \<Longrightarrow>
    add_sender_info (wbuf_at pre k) ds =
      Inr (wbuf_at (pre @ wire_infos ds) (k - (1 + 8 * length ds)))"
  by (simp add: add_sender_info_def wire_infos_def build_simps add_infos_at)

lemma add_ids_at:
  "4 * length ids \<le> k \<Longrightarrow>
    foldo (\<lambda>i b. add_guint32 b i) ids (wbuf_at pre k) =
      Inr (wbuf_at (pre @ concat (map be32 ids)) (k - 4 * length ids))"
  by (induction ids arbitrary: pre k) (auto simp: build_simps)

lemma add_id_array_at [build_simps]:
  "1 + 4 * length ids \<le> k \<Longrightarrow>
    add_id_array (wbuf_at pre k) ids =
      Inr (wbuf_at (pre @ wire_ids ids) (k - (1 + 4 * length ids)))"
  by (simp add: add_id_array_def wire_ids_def build_simps add_ids_at)

lemma build_data_at:
  "buildable_data data \<Longrightarrow>
    build_data ds data (wbuf_at pre (length (wire_data ds data))) =
      Inr (wbuf_at (pre @ wire_data ds data) 0)"
  by (cases data)
    (auto simp: build_data_def build_simps, auto simp: wbuf_at_def memcpy_to_def)

lemma calculate_size_wire:
  "buildable_data (pkt_data p) \<Longrightarrow> calculate_size p = Inr (length (wire p))"
  by (cases "pkt_data p")
    (auto simp: calculate_size_def wire_def Let_def is_reliable_packet_def pkt_type_def
      PACKET_HEADER_SIZE_def PACKET_PREFIX_LENGTH_def PACKET_PREFIX_def)

lemma packet_build_wire:
  assumes "pkt_raw p = None" "buildable p"
  shows "packet_build p = Inr (p\<lparr>pkt_max_data := length (wire p), pkt_raw := Some (wire p)\<rparr>)"
proof -
  define hd1 where "hd1 = PACKET_PREFIX @ [pkt_version p, type_code (pkt_type p)] @ be32 (pkt_sender p)"
  define hd2 where "hd2 = (if is_reliable_packet p
    then be32 (pkt_packet_id p) @ wire_infos (pkt_depends p) else [])"
  define n where "n = length (wire_data (pkt_depends p) (pkt_data p))"
  have w: "wire p = (hd1 @ hd2) @ wire_data (pkt_depends p) (pkt_data p)"
    by (simp add: wire_def hd1_def hd2_def)
  have l: "length (wire p) = 12 + length hd2 + n" "length hd1 = 12"
    by (simp_all add: wire_def hd1_def hd2_def n_def PACKET_PREFIX_def)
  have start: "(replicate (length (wire p)) 0, 0) = wbuf_at [] (12 + length hd2 + n)"
    by (simp add: wbuf_at_def l)
  have b: "buildable_data (pkt_data p)" "length (wire p) \<le> pkt_max_data p"
    using assms(2) by (simp_all add: buildable_def)
  have hdr: "andthen (packet_add_prefix (replicate (length (wire p)) 0, 0)) (\<lambda>b.
        andthen (add_guint8 b (pkt_version p)) (\<lambda>b.
        andthen (add_guint8 b (type_code (pkt_type p))) (\<lambda>b.
        andthen (add_guint32 b (pkt_sender p)) f))) = f (wbuf_at hd1 (length hd2 + n))" for f :: "wbuf \<Rightarrow> packet outcome"
    by (simp add: start packet_add_prefix_def build_simps PACKET_PREFIX_def hd1_def)
  have mid: "(if is_reliable_packet p
                 then andthen (add_guint32 (wbuf_at hd1 (length hd2 + n)) (pkt_packet_id p)) (\<lambda>b.
                      add_sender_info b (pkt_depends p))
                 else Inr (wbuf_at hd1 (length hd2 + n))) = Inr (wbuf_at (hd1 @ hd2) n)"
    by (auto simp: hd2_def build_simps)
  have last: "build_data (pkt_depends p) (pkt_data p) (wbuf_at (hd1 @ hd2) n) = Inr (wire p, length (wire p))"
    using build_data_at[OF b(1), of "pkt_depends p" "hd1 @ hd2"] by (simp add: w n_def wbuf_at_def)
  show ?thesis
    unfolding packet_build_def
    using b by (simp add: assms(1) calculate_size_wire hdr mid last)
qed

lemma packet_build_not_buildable:
  assumes "pkt_raw p = None" "\<not> buildable p"
  shows "\<not> returns (\<lambda>_. True) (packet_build p)"
proof (cases "buildable_data (pkt_data p)")
  case True
  with assms show ?thesis
    by (simp add: packet_build_def calculate_size_wire buildable_def)
next
  case False
  then show ?thesis
    using assms(1)
    by (cases "pkt_data p")
      (auto simp: packet_build_def build_data_def calculate_size_def returns_iff Let_def
        add_string_def andthen_eq_Inr split: option.splits)
qed

section \<open>Parsing inverts the wire format\<close>

text \<open>The offset at which \<open>r\<close> is what is left of \<open>d\<close>.\<close>

definition rpos :: "u8 list \<Rightarrow> u8 list \<Rightarrow> nat" where
  "rpos d r = length d - length r"

lemma drop_rpos: "suffix r d \<Longrightarrow> drop (rpos d r) d = r"
  by (auto simp: rpos_def suffix_def)

lemma rpos_le: "suffix (x @ r) d \<Longrightarrow> rpos d (x @ r) + length x = rpos d r \<and> rpos d r \<le> length d"
  by (auto simp: rpos_def suffix_def)

lemma rpos_self [simp]: "rpos d d = 0" "rpos d [] = length d"
  by (simp_all add: rpos_def)

named_theorems parse_simps

lemma suffix_dests [parse_simps]:
  "suffix (x # r) d \<Longrightarrow> suffix r d"
  "suffix (x' @ r) d \<Longrightarrow> suffix r d"
  by (auto simp: suffix_def)

lemma get_guint8_at [parse_simps]:
  assumes "suffix (x # r) d"
  shows "get_guint8 d (rpos d (x # r)) = Inr (x, rpos d r)"
    and "GET_GUINT8 d (rpos d (x # r)) = Inr (x, rpos d r)"
    and "\<not> length d < rpos d (x # r) + 1"
proof -
  from assms obtain pre where "d = pre @ x # r" by (auto simp: suffix_def)
  then show "get_guint8 d (rpos d (x # r)) = Inr (x, rpos d r)"
    and "GET_GUINT8 d (rpos d (x # r)) = Inr (x, rpos d r)"
    and "\<not> length d < rpos d (x # r) + 1"
    by (simp_all add: get_guint8_def GET_GUINT8_def rpos_def)
qed

lemma get_guint16_at [parse_simps]:
  assumes "suffix (be16 w @ r) d"
  shows "GET_GUINT16 d (rpos d (be16 w @ r)) = Inr (w, rpos d r)"
proof -
  from assms obtain pre where d: "d = pre @ be16 w @ r" by (auto simp: suffix_def)
  show ?thesis by (simp add: d get_guint16_def GET_GUINT16_def rpos_def)
qed

lemma get_guint32_at [parse_simps]:
  assumes "suffix (be32 w @ r) d"
  shows "get_guint32 d (rpos d (be32 w @ r)) = Inr (w, rpos d r)"
    and "GET_GUINT32 d (rpos d (be32 w @ r)) = Inr (w, rpos d r)"
proof -
  from assms obtain pre where d: "d = pre @ be32 w @ r" by (auto simp: suffix_def)
  show "get_guint32 d (rpos d (be32 w @ r)) = Inr (w, rpos d r)"
    and "GET_GUINT32 d (rpos d (be32 w @ r)) = Inr (w, rpos d r)"
    by (simp_all add: d get_guint32_def GET_GUINT32_def rpos_def)
qed

lemma get_sender_infos_at:
  "suffix (concat (map (\<lambda>(s, p). be32 s @ be32 p) ds) @ r) d \<Longrightarrow>
    get_sender_infos d (rpos d (concat (map (\<lambda>(s, p). be32 s @ be32 p) ds) @ r)) (length ds) acc =
      Inr (acc @ ds, rpos d r)"
proof (induction ds arbitrary: acc)
  case (Cons i ds)
  obtain s p where i: "i = (s, p)" by (cases i)
  let ?rest = "concat (map (\<lambda>(s, p). be32 s @ be32 p) ds) @ r"
  have s: "suffix (be32 s @ be32 p @ ?rest) d" using Cons.prems by (simp add: i)
  have s': "suffix (be32 p @ ?rest) d" "suffix ?rest d"
    using s parse_simps(2)[OF s] by (auto intro: parse_simps(2))
  have "\<not> length d < rpos d (be32 s @ be32 p @ ?rest) + 8"
    using rpos_le[OF s] rpos_le[OF s'(1)] by simp
  then show ?case
    using Cons.IH[OF s'(2), of "acc @ [(s, p)]"]
    by (simp add: i get_guint32_at(1)[OF s] get_guint32_at(1)[OF s'(1)])
qed simp

lemma get_sender_info_at [parse_simps]:
  assumes "suffix (wire_infos ds @ r) d" "length ds < 256"
  shows "get_sender_info d (rpos d (wire_infos ds @ r)) acc = Inr (acc @ ds, rpos d r)"
proof -
  let ?c = "concat (map (\<lambda>(s, p). be32 s @ be32 p) ds) @ r"
  have s: "suffix ((of_nat (length ds) :: u8) # ?c) d" using assms(1) by (simp add: wire_infos_def)
  have "unat (of_nat (length ds) :: u8) = length ds"
    using assms(2) by (simp add: unat_of_nat)
  then show ?thesis
    using s get_guint8_at[OF s] get_sender_infos_at[OF suffix_dests(1)[OF s], of acc]
    by (simp add: get_sender_info_def wire_infos_def)
qed

lemma get_ids_at:
  "suffix (concat (map be32 ids) @ r) d \<Longrightarrow>
    get_ids d (rpos d (concat (map be32 ids) @ r)) (length ids) acc = Inr (acc @ ids, rpos d r)"
proof (induction ids arbitrary: acc)
  case (Cons i ids)
  have s: "suffix (be32 i @ concat (map be32 ids) @ r) d" using Cons.prems by simp
  then show ?case
    using Cons.IH[OF suffix_dests(2)[OF s], of "acc @ [i]"] by (simp add: get_guint32_at(2)[OF s])
qed simp

lemma get_id_array_at [parse_simps]:
  assumes "suffix (wire_ids ids @ r) d" "length ids < 256"
  shows "get_id_array d (rpos d (wire_ids ids @ r)) = Inr (ids, rpos d r)"
proof -
  have s: "suffix ((of_nat (length ids) :: u8) # concat (map be32 ids) @ r) d"
    using assms(1) by (simp add: wire_ids_def)
  have "unat (of_nat (length ids) :: u8) = length ids"
    using assms(2) by (simp add: unat_of_nat)
  then show ?thesis
    using s get_guint8_at[OF s] get_ids_at[OF suffix_dests(1)[OF s], of "[]"]
    by (simp add: get_id_array_def wire_ids_def)
qed

lemma get_string_at [parse_simps]:
  assumes "suffix (of_nat (length name) # name @ r) d" "length name < 256" "0 \<notin> set name"
  shows "get_string d (rpos d (of_nat (length name) # name @ r)) = Inr (name, rpos d r)"
proof -
  have len: "unat (of_nat (length name) :: u8) = length name"
    using assms(2) by (simp add: unat_of_nat)
  have "takeWhile (\<lambda>c. c \<noteq> 0) name = name" using assms(3) by (auto simp: takeWhile_eq_all_conv)
  then show ?thesis
    using get_guint8_at[OF assms(1)] rpos_le[OF suffix_dests(1)[OF assms(1)]]
      drop_rpos[OF suffix_dests(1)[OF assms(1)]]
    by (simp add: get_string_def len)
qed

fun wf_data :: "packet_data \<Rightarrow> bool" where
  "wf_data (Whois_reply n) \<longleftrightarrow> (\<exists>name. n = Some name \<and> length name < 255 \<and> 0 \<notin> set name)"
| "wf_data (Failure ids) \<longleftrightarrow> length ids < 256"
| "wf_data (Attempt_join ids) \<longleftrightarrow> length ids < 256"
| "wf_data (Join ids) \<longleftrightarrow> length ids < 256"
| "wf_data Invalid \<longleftrightarrow> False"
| "wf_data _ \<longleftrightarrow> True"

text \<open>
  A packet the protocol can carry: the current version, at most 255 entries in its lists, a name
  that is a C string, and no fields set that its type does not put on the wire.
\<close>

definition wf_packet :: "packet \<Rightarrow> bool" where
  "wf_packet p \<longleftrightarrow> pkt_version p = PACKET_VERSION \<and> length (pkt_depends p) < 256 \<and>
     wf_data (pkt_data p) \<and>
     (\<not> is_reliable_packet p \<longrightarrow>
        pkt_packet_id p = 0 \<and> (pkt_type p \<noteq> PACKET_TYPE_SESSION \<longrightarrow> pkt_depends p = []))"

lemma parse_data_at:
  assumes "suffix (wire_data ds data) d" "wf_data data" "length ds < 256"
    and "data = Session \<longrightarrow> ds0 = []" "data \<noteq> Session \<longrightarrow> ds0 = ds"
  shows "parse_data (data_type data) d (rpos d (wire_data ds data)) ds0 = Inr (data, ds, length d)"
proof (cases data)
  case (Data fl tot stream payload)
  have s: "suffix (fl # be16 stream @ be32 tot @ payload) d" using assms(1) Data by simp
  note s' = suffix_dests(1)[OF s]
  note s'' = suffix_dests(2)[OF s']
  show ?thesis
    using assms(5) Data
    by (simp add: parse_data_def get_guint8_at[OF s] get_guint16_at[OF s'] get_guint32_at[OF s'']
        drop_rpos[OF suffix_dests(2)[OF s'']])
next
  case (Repair_request s p)
  have s: "suffix (be32 s @ be32 p @ []) d" using assms(1) Repair_request by simp
  show ?thesis
    using assms(5) Repair_request get_guint32_at(2)[OF s] get_guint32_at(2)[OF suffix_dests(2)[OF s]]
    by (simp add: parse_data_def)
next
  case (Whois_request i)
  then show ?thesis using assms get_guint32_at(2)[of i "[]" d] by (simp add: parse_data_def)
next
  case (Whois_reply n)
  then obtain name where "n = Some name" "length name < 256" "0 \<notin> set name" using assms(2) by auto
  then show ?thesis
    using Whois_reply assms get_string_at[of name "[]" d] by (simp add: parse_data_def)
next
  case Session
  then show ?thesis using assms get_sender_info_at[of ds "[]" d] by (simp add: parse_data_def)
next
  case (Failure ids)
  then show ?thesis using assms get_id_array_at[of ids "[]" d] by (simp add: parse_data_def)
next
  case (Attempt_join ids)
  then show ?thesis using assms get_id_array_at[of ids "[]" d] by (simp add: parse_data_def)
next
  case (Join ids)
  then show ?thesis using assms get_id_array_at[of ids "[]" d] by (simp add: parse_data_def)
next
  case No_data
  then show ?thesis using assms by (simp add: parse_data_def)
next
  case Bye
  then show ?thesis using assms by (simp add: parse_data_def)
next
  case Invalid
  then show ?thesis using assms by simp
qed

lemma type_of_code_type: "wf_data data \<Longrightarrow> type_of_code (type_code (data_type data)) = Some (data_type data)"
  by (cases data) (simp_all add: type_of_code_def)

lemma packet_parse_header:
  assumes version: "pkt_version p = PACKET_VERSION" and deps: "length (pkt_depends p) < 256"
    and code: "type_of_code (type_code (pkt_type p)) = Some (pkt_type p)"
    and id: "\<not> is_reliable_packet p \<Longrightarrow> pkt_packet_id p = 0"
  shows "packet_parse (wire p) =
    andthen (parse_data (pkt_type p) (wire p) (rpos (wire p) (wire_data (pkt_depends p) (pkt_data p)))
        (if is_reliable_packet p then pkt_depends p else [])) (\<lambda>(data, depends, off).
      if off \<noteq> length (wire p) then Inl Parse_error
      else Inr \<lparr>pkt_version = pkt_version p, pkt_sender = pkt_sender p, pkt_packet_id = pkt_packet_id p,
                pkt_depends = depends, pkt_data = data, pkt_max_data = length (wire p),
                pkt_raw = Some (wire p)\<rparr>)"
proof -
  define d where "d = wire p"
  define rest where "rest = wire_data (pkt_depends p) (pkt_data p)"
  define rel where "rel = (if is_reliable_packet p
    then be32 (pkt_packet_id p) @ wire_infos (pkt_depends p) else [])"
  have d: "d = PACKET_PREFIX @ pkt_version p # type_code (pkt_type p) # be32 (pkt_sender p) @ rel @ rest"
    by (simp add: d_def wire_def rest_def rel_def)
  have s1: "suffix (pkt_version p # type_code (pkt_type p) # be32 (pkt_sender p) @ rel @ rest) d"
    by (auto simp: d suffix_def)
  note s2 = suffix_dests(1)[OF s1]
  note s3 = suffix_dests(1)[OF s2]
  note s4 = suffix_dests(2)[OF s3]
  have pos: "PACKET_PREFIX_LENGTH = rpos d (pkt_version p # type_code (pkt_type p) # be32 (pkt_sender p) @ rel @ rest)"
    by (simp add: rpos_def d PACKET_PREFIX_def PACKET_PREFIX_LENGTH_def)
  have hdr: "\<not> length d < PACKET_HEADER_SIZE" "packet_check_prefix d"
    by (auto simp: d PACKET_HEADER_SIZE_def PACKET_PREFIX_LENGTH_def packet_check_prefix_def
        PACKET_PREFIX_def nth_append less_Suc_eq numeral_eq_Suc)
  have relread: "parse_reliable (pkt_type p) d (rpos d (rel @ rest))
     = Inr (pkt_packet_id p, if is_reliable_packet p then pkt_depends p else [], rpos d rest)"
  proof (cases "is_reliable_packet p")
    case True
    then have s: "suffix (be32 (pkt_packet_id p) @ wire_infos (pkt_depends p) @ rest) d"
      using s4 by (simp add: rel_def)
    show ?thesis
      using True get_guint32_at(2)[OF s] get_sender_info_at[OF suffix_dests(2)[OF s] deps]
      by (simp add: parse_reliable_def rel_def is_reliable_packet_def)
  next
    case False
    with id show ?thesis
      by (simp add: parse_reliable_def rel_def is_reliable_packet_def)
  qed
  show ?thesis
    unfolding packet_parse_def d_def[symmetric] rest_def[symmetric]
    by (simp add: hdr pos get_guint8_at[OF s1],
        simp add: version get_guint8_at[OF s2] get_guint32_at[OF s3] code relread)
qed

lemma wire_data_suffix: "suffix (wire_data (pkt_depends p) (pkt_data p)) (wire p)"
  by (simp add: wire_def suffix_def)

lemma packet_parse_wire:
  assumes "wf_packet p"
  shows "packet_parse (wire p) =
    Inr (p\<lparr>pkt_max_data := length (wire p), pkt_raw := Some (wire p)\<rparr>)"
proof -
  have wf: "pkt_version p = PACKET_VERSION" "length (pkt_depends p) < 256" "wf_data (pkt_data p)"
    "\<not> is_reliable_packet p \<Longrightarrow> pkt_packet_id p = 0"
    using assms by (simp_all add: wf_packet_def)
  have code: "type_of_code (type_code (pkt_type p)) = Some (pkt_type p)"
    using type_of_code_type[OF wf(3)] by (simp add: pkt_type_def)
  have "parse_data (pkt_type p) (wire p) (rpos (wire p) (wire_data (pkt_depends p) (pkt_data p)))
      (if is_reliable_packet p then pkt_depends p else []) = Inr (pkt_data p, pkt_depends p, length (wire p))"
    using parse_data_at[of "pkt_depends p" "pkt_data p" "wire p"
        "if is_reliable_packet p then pkt_depends p else []"] wire_data_suffix[of p] wf assms
    by (cases "pkt_data p") (auto simp: pkt_type_def wf_packet_def is_reliable_packet_def)
  with packet_parse_header[OF wf(1,2) code wf(4)] show ?thesis by simp
qed

text \<open>A list of more than 255 ids: its count is cut to a byte, and the rest of it is left over.\<close>

lemma wire_ids_overlong:
  "wire_ids ids = wire_ids (take (length ids mod 256) ids)
     @ concat (map be32 (drop (length ids mod 256) ids))"
proof -
  have "(of_nat (length ids) :: u8) = of_nat (length ids mod 256)"
    by (simp add: word_unat_eq_iff unat_of_nat)
  moreover have "concat (map be32 ids) = concat (map be32 (take (length ids mod 256) ids))
      @ concat (map be32 (drop (length ids mod 256) ids))"
    by (metis append_take_drop_id concat_append map_append)
  moreover have "min (length ids) (length ids mod 256) = length ids mod 256"
    using mod_less_eq_dividend[of "length ids" 256] by simp
  ultimately show ?thesis by (simp add: wire_ids_def)
qed

lemma get_id_array_overlong:
  assumes "suffix (wire_ids ids) d" "256 \<le> length ids"
  shows "\<exists>off. get_id_array d (rpos d (wire_ids ids)) = Inr (take (length ids mod 256) ids, off) \<and> off < length d"
proof -
  define rest where "rest = concat (map be32 (drop (length ids mod 256) ids))"
  have w: "wire_ids ids = wire_ids (take (length ids mod 256) ids) @ rest"
    unfolding rest_def by (rule wire_ids_overlong)
  have l: "length (take (length ids mod 256) ids) < 256"
    using mod_less_divisor[of 256 "length ids"] by (simp add: min_less_iff_disj)
  have "drop (length ids mod 256) ids \<noteq> []"
    using assms(2) mod_less_divisor[of 256 "length ids"] by simp
  then obtain i js where "drop (length ids mod 256) ids = i # js" by (cases "drop (length ids mod 256) ids") auto
  then have ne: "0 < length rest" by (simp add: rest_def)
  have "suffix rest d" using assms(1) unfolding w by (rule suffix_dests(2))
  then have "rpos d rest < length d" using ne by (auto simp: rpos_def suffix_def)
  with get_id_array_at[OF assms(1)[unfolded w] l] show ?thesis by (simp add: w)
qed

section \<open>The parser on arbitrary bytes\<close>

text \<open>The parser fails with a parse error only: no assertion fails and nothing is read outside the
  data.\<close>

definition parses :: "'a outcome \<Rightarrow> bool" where
  "parses m \<longleftrightarrow> (case m of Inl e \<Rightarrow> e = Parse_error | Inr _ \<Rightarrow> True)"

lemma parses_simps [simp]:
  "parses (Inr x)"
  "parses (Inl e) \<longleftrightarrow> e = Parse_error"
  "parses (if b then m else m') \<longleftrightarrow> (if b then parses m else parses m')"
  by (simp_all add: parses_def)

lemma parses_andthen: "parses m \<Longrightarrow> (\<And>x. m = Inr x \<Longrightarrow> parses (f x)) \<Longrightarrow> parses (andthen m f)"
  by (cases m) (simp_all add: parses_def)

lemma parses_get [simp]:
  "parses (GET_GUINT8 d off)" "parses (GET_GUINT16 d off)" "parses (GET_GUINT32 d off)"
  by (simp_all add: GET_GUINT8_def GET_GUINT16_def GET_GUINT32_def get_guint8_def get_guint16_def
      get_guint32_def)

lemma parses_get_string: "parses (get_string d off)"
  by (simp add: get_string_def get_guint8_def)

lemma parses_get_sender_infos: "parses (get_sender_infos d off n acc)"
  by (induction d off n acc rule: get_sender_infos.induct) (simp_all add: get_guint32_def)

lemma parses_get_sender_info: "parses (get_sender_info d off acc)"
  by (simp add: get_sender_info_def get_guint8_def parses_get_sender_infos)

lemma parses_get_ids: "parses (get_ids d off n acc)"
  by (induction d off n acc rule: get_ids.induct) (auto intro!: parses_andthen)

lemma parses_get_id_array: "parses (get_id_array d off)"
  by (auto simp: get_id_array_def intro!: parses_andthen parses_get_ids)

lemma parses_parse_data: "parses (parse_data t d off ds)"
  by (cases t) (auto simp: parse_data_def intro!: parses_andthen
      parses_get_string parses_get_sender_info parses_get_id_array)

lemma parses_parse_reliable: "parses (parse_reliable t d off)"
  by (auto simp: parse_reliable_def intro!: parses_andthen parses_get_sender_info)

lemma packet_parse_no_abort: "parses (packet_parse d)"
  by (auto simp: packet_parse_def split: option.splits
      intro!: parses_andthen parses_parse_data parses_parse_reliable)

text \<open>What was read: \<open>read_as d off off' bs\<close> says the bytes between the offsets are \<open>bs\<close>.\<close>

definition read_as :: "u8 list \<Rightarrow> nat \<Rightarrow> nat \<Rightarrow> u8 list \<Rightarrow> bool" where
  "read_as d off off' bs \<longleftrightarrow> off \<le> length d \<and> off' \<le> length d \<and> take off' d = take off d @ bs"

lemma read_as_Nil: "off \<le> length d \<Longrightarrow> read_as d off off []"
  by (simp add: read_as_def)

lemma read_as_append:
  "read_as d off off' bs \<Longrightarrow> read_as d off' off'' cs \<Longrightarrow> read_as d off off'' (bs @ cs)"
  by (simp add: read_as_def)

lemma read_as_take:
  "off + n \<le> length d \<Longrightarrow> read_as d off (off + n) (take n (drop off d))"
  by (simp add: read_as_def take_add)

lemma read_as_rest: "off \<le> length d \<Longrightarrow> read_as d off (length d) (drop off d)"
  by (simp add: read_as_def)

lemma GET_GUINT8_read: "GET_GUINT8 d off = Inr (x, off') \<Longrightarrow> read_as d off off' [x]"
  using read_as_take[of off 1 d]
  by (auto simp: GET_GUINT8_def get_guint8_def take_Suc_conv_app_nth hd_drop_conv_nth take_Suc
      andthen_eq_Inr split: if_splits)

lemma GET_GUINT16_read: "GET_GUINT16 d off = Inr (x, off') \<Longrightarrow> read_as d off off' (be16 x)"
  using read_as_take[of off 2 d]
  by (auto simp: GET_GUINT16_def get_guint16_def be16_of_be andthen_eq_Inr split: if_splits)

lemma get_guint32_read: "get_guint32 d off = Inr (x, off') \<Longrightarrow> read_as d off off' (be32 x)"
  using read_as_take[of off 4 d]
  by (auto simp: get_guint32_def be32_of_be andthen_eq_Inr split: if_splits)

lemma GET_GUINT32_read: "GET_GUINT32 d off = Inr (x, off') \<Longrightarrow> read_as d off off' (be32 x)"
  by (auto simp: GET_GUINT32_def get_guint32_read split: if_splits)

lemma get_sender_infos_read:
  "get_sender_infos d off n acc = Inr (ds, off') \<Longrightarrow> off \<le> length d \<Longrightarrow>
    \<exists>new. ds = acc @ new \<and> length new = n \<and>
      read_as d off off' (concat (map (\<lambda>(s, p). be32 s @ be32 p) new))"
proof (induction d off n acc rule: get_sender_infos.induct)
  case (1 d off acc)
  then show ?case by (simp add: read_as_Nil)
next
  case (2 d off n acc)
  from "2.prems" obtain s off1 p off2 where
    le: "off + 8 \<le> length d" and g: "get_guint32 d off = Inr (s, off1)" "get_guint32 d off1 = Inr (p, off2)"
    and r: "get_sender_infos d off2 n (acc @ [(s, p)]) = Inr (ds, off')"
    by (auto simp: andthen_eq_Inr split: if_splits)
  note rd = read_as_append[OF get_guint32_read[OF g(1)] get_guint32_read[OF g(2)]]
  have "off2 \<le> length d" using rd by (simp add: read_as_def)
  from "2.IH"[OF _ g(1) refl g(2) refl r this] le obtain new where
    "ds = acc @ (s, p) # new" "length new = n"
    "read_as d off2 off' (concat (map (\<lambda>(s, p). be32 s @ be32 p) new))"
    by auto
  then show ?case
    using read_as_append[OF rd, of off'] by (intro exI[of _ "(s, p) # new"]) simp
qed

lemma get_sender_info_read:
  "get_sender_info d off acc = Inr (ds, off') \<Longrightarrow>
    \<exists>new. ds = acc @ new \<and> length new < 256 \<and> read_as d off off' (wire_infos new)"
proof -
  assume "get_sender_info d off acc = Inr (ds, off')"
  then obtain n off1 where n: "GET_GUINT8 d off = Inr (n, off1)"
    and r: "get_sender_infos d off1 (unat n) acc = Inr (ds, off')"
    by (auto simp: get_sender_info_def GET_GUINT8_def andthen_eq_Inr split: if_splits)
  note rn = GET_GUINT8_read[OF n]
  then have "off1 \<le> length d" by (simp add: read_as_def)
  from get_sender_infos_read[OF r this] obtain new where new: "ds = acc @ new" "length new = unat n"
    "read_as d off1 off' (concat (map (\<lambda>(s, p). be32 s @ be32 p) new))" by auto
  have "n = of_nat (length new)" "unat n < 256"
    using new(2) unsigned_less[of n, where ?'a = nat] by simp_all
  then show ?thesis
    using new read_as_append[OF rn new(3)] by (intro exI[of _ new]) (simp add: wire_infos_def)
qed

lemma get_ids_read:
  "get_ids d off n acc = Inr (ids, off') \<Longrightarrow> off \<le> length d \<Longrightarrow>
    \<exists>new. ids = acc @ new \<and> length new = n \<and> read_as d off off' (concat (map be32 new))"
proof (induction d off n acc rule: get_ids.induct)
  case (1 d off acc)
  then show ?case by (simp add: read_as_Nil)
next
  case (2 d off n acc)
  from "2.prems" obtain i off1 where g: "GET_GUINT32 d off = Inr (i, off1)"
    and r: "get_ids d off1 n (acc @ [i]) = Inr (ids, off')"
    by (auto simp: andthen_eq_Inr)
  note rd = GET_GUINT32_read[OF g]
  then have "off1 \<le> length d" by (simp add: read_as_def)
  from "2.IH"[OF g refl r this] obtain new where
    "ids = acc @ i # new" "length new = n" "read_as d off1 off' (concat (map be32 new))" by auto
  then show ?case
    using read_as_append[OF rd, of off'] by (intro exI[of _ "i # new"]) simp
qed

lemma get_id_array_read:
  "get_id_array d off = Inr (ids, off') \<Longrightarrow> length ids < 256 \<and> read_as d off off' (wire_ids ids)"
proof -
  assume "get_id_array d off = Inr (ids, off')"
  then obtain n off1 where n: "GET_GUINT8 d off = Inr (n, off1)"
    and r: "get_ids d off1 (unat n) [] = Inr (ids, off')"
    by (auto simp: get_id_array_def andthen_eq_Inr)
  note rn = GET_GUINT8_read[OF n]
  then have "off1 \<le> length d" by (simp add: read_as_def)
  from get_ids_read[OF r this] have new: "length ids = unat n"
    "read_as d off1 off' (concat (map be32 ids))" by auto
  have "n = of_nat (length ids)" "unat n < 256"
    using new(1) unsigned_less[of n, where ?'a = nat] by simp_all
  then show ?thesis
    using new read_as_append[OF rn new(2)] by (simp add: wire_ids_def)
qed

lemma get_string_read:
  "get_string d off = Inr (name, off') \<Longrightarrow>
    \<exists>raw. name = takeWhile (\<lambda>c. c \<noteq> 0) raw \<and> length raw < 256 \<and>
      read_as d off off' (of_nat (length raw) # raw)"
proof -
  assume "get_string d off = Inr (name, off')"
  then obtain n off1 where n: "GET_GUINT8 d off = Inr (n, off1)" and le: "off1 + unat n \<le> length d"
    and r: "name = takeWhile (\<lambda>c. c \<noteq> 0) (take (unat n) (drop off1 d))" "off' = off1 + unat n"
    by (auto simp: get_string_def GET_GUINT8_def andthen_eq_Inr split: if_splits)
  have len: "length (take (unat n) (drop off1 d)) = unat n" using le by simp
  have "unat n < 256" using unsigned_less[of n, where ?'a = nat] by simp
  with len r show ?thesis
    using read_as_append[OF GET_GUINT8_read[OF n] read_as_take[OF le]]
    by (intro exI[of _ "take (unat n) (drop off1 d)"]) simp
qed

lemma prefix_read:
  assumes "\<not> length d < PACKET_HEADER_SIZE" "packet_check_prefix d"
  shows "read_as d 0 PACKET_PREFIX_LENGTH PACKET_PREFIX"
proof -
  have "take 6 d = PACKET_PREFIX"
    using assms
    by (intro nth_equalityI)
      (auto simp: packet_check_prefix_def PACKET_PREFIX_LENGTH_def PACKET_PREFIX_def
        PACKET_HEADER_SIZE_def)
  with assms(1) show ?thesis
    by (simp add: read_as_def PACKET_PREFIX_LENGTH_def PACKET_HEADER_SIZE_def)
qed

lemma parse_data_read:
  assumes "parse_data t d off ds0 = Inr (data, ds, off')" "off \<le> length d"
  shows "data_type data = t \<and>
    (t = PACKET_TYPE_SESSION \<longrightarrow> ds0 = [] \<longrightarrow> length ds < 256) \<and>
    (t \<noteq> PACKET_TYPE_SESSION \<longrightarrow> ds = ds0) \<and>
    (t \<noteq> PACKET_TYPE_WHOIS_REPLY \<longrightarrow> wf_data data \<and>
      (t = PACKET_TYPE_SESSION \<longrightarrow> ds0 = []) \<longrightarrow> read_as d off off' (wire_data ds data)) \<and>
    (t \<noteq> PACKET_TYPE_WHOIS_REPLY \<longrightarrow> wf_data data)"
proof (cases t)
  case PACKET_TYPE_DATA
  then obtain fl o1 st o2 tot o3 where
    "GET_GUINT8 d off = Inr (fl, o1)" "GET_GUINT16 d o1 = Inr (st, o2)" "GET_GUINT32 d o2 = Inr (tot, o3)"
    and e: "data = Data fl tot st (drop o3 d)" "ds = ds0" "off' = length d"
    using assms(1) by (auto simp: parse_data_def andthen_eq_Inr)
  then have r: "read_as d off o3 ([fl] @ be16 st @ be32 tot)"
    by (blast intro: read_as_append GET_GUINT8_read GET_GUINT16_read GET_GUINT32_read)
  then have "read_as d o3 (length d) (drop o3 d)" by (intro read_as_rest) (simp add: read_as_def)
  from read_as_append[OF r this] show ?thesis using PACKET_TYPE_DATA e by simp
next
  case PACKET_TYPE_REPAIR_REQUEST
  then show ?thesis using assms(1)
    by (auto simp: parse_data_def andthen_eq_Inr intro!: read_as_append GET_GUINT32_read)
next
  case PACKET_TYPE_WHOIS_REQUEST
  then show ?thesis using assms(1)
    by (auto simp: parse_data_def andthen_eq_Inr intro!: GET_GUINT32_read)
next
  case PACKET_TYPE_WHOIS_REPLY
  then show ?thesis using assms(1) by (auto simp: parse_data_def andthen_eq_Inr)
next
  case PACKET_TYPE_SESSION
  then show ?thesis using assms(1)
    by (auto simp: parse_data_def andthen_eq_Inr dest!: get_sender_info_read)
next
  case PACKET_TYPE_FAILURE
  then show ?thesis using assms(1)
    by (auto simp: parse_data_def andthen_eq_Inr dest!: get_id_array_read)
next
  case PACKET_TYPE_ATTEMPT_JOIN
  then show ?thesis using assms(1)
    by (auto simp: parse_data_def andthen_eq_Inr dest!: get_id_array_read)
next
  case PACKET_TYPE_JOIN
  then show ?thesis using assms(1)
    by (auto simp: parse_data_def andthen_eq_Inr dest!: get_id_array_read)
next
  case PACKET_TYPE_NO_DATA
  then show ?thesis using assms by (auto simp: parse_data_def intro: read_as_Nil)
next
  case PACKET_TYPE_BYE
  then show ?thesis using assms by (auto simp: parse_data_def intro: read_as_Nil)
next
  case PACKET_TYPE_INVALID
  then show ?thesis using assms(1) by (simp add: parse_data_def)
qed

lemma type_of_code_Some: "type_of_code c = Some t \<Longrightarrow> type_code t = c"
  by (auto simp: type_of_code_def split: if_splits)

lemma packet_parse_canonical:
  assumes "packet_parse d = Inr p" "pkt_type p \<noteq> PACKET_TYPE_WHOIS_REPLY"
  shows "wire p = d \<and> wf_packet p"
proof -
  from assms(1) obtain version o1 code o2 sender o3 t pid ds0 o4 data ds where
    hdr: "\<not> length d < PACKET_HEADER_SIZE" "packet_check_prefix d"
    and g1: "GET_GUINT8 d PACKET_PREFIX_LENGTH = Inr (version, o1)" and v: "version = PACKET_VERSION"
    and g2: "GET_GUINT8 d o1 = Inr (code, o2)" and g3: "GET_GUINT32 d o2 = Inr (sender, o3)"
    and t: "type_of_code code = Some t"
    and rel: "parse_reliable t d o3 = Inr (pid, ds0, o4)"
    and body: "parse_data t d o4 ds0 = Inr (data, ds, length d)"
    and p: "p = \<lparr>pkt_version = version, pkt_sender = sender, pkt_packet_id = pid,
        pkt_depends = ds, pkt_data = data, pkt_max_data = length d, pkt_raw = Some d\<rparr>"
    unfolding packet_parse_def
    by (auto simp: andthen_eq_Inr split: if_splits option.splits)
  have r3: "read_as d 0 o3 (PACKET_PREFIX @ [version] @ [code] @ be32 sender)"
    using prefix_read[OF hdr] GET_GUINT8_read[OF g1] GET_GUINT8_read[OF g2] GET_GUINT32_read[OF g3]
    by (blast intro: read_as_append)
  have o3: "o3 \<le> length d" using r3 by (simp add: read_as_def)
  have r4: "read_as d o3 o4 (if is_reliable_type t then be32 pid @ wire_infos ds0 else []) \<and>
      length ds0 < 256 \<and> (\<not> is_reliable_type t \<longrightarrow> ds0 = [] \<and> pid = 0)"
  proof (cases "is_reliable_type t")
    case True
    then obtain off where "GET_GUINT32 d o3 = Inr (pid, off)" "get_sender_info d off [] = Inr (ds0, o4)"
      using rel by (auto simp: parse_reliable_def andthen_eq_Inr)
    then show ?thesis
      using True by (auto dest!: get_sender_info_read GET_GUINT32_read intro: read_as_append)
  next
    case False
    with rel o3 show ?thesis by (auto simp: parse_reliable_def read_as_Nil)
  qed
  then have o4: "o4 \<le> length d" by (simp add: read_as_def)
  note pd = parse_data_read[OF body o4]
  have ty: "pkt_type p = t" using pd p by (simp add: pkt_type_def)
  have sess: "t = PACKET_TYPE_SESSION \<Longrightarrow> ds0 = []" using r4 by auto
  have rd: "read_as d o4 (length d) (wire_data ds data)" "wf_data data"
    using pd ty assms(2) sess by auto
  have "read_as d 0 (length d) ((PACKET_PREFIX @ [version] @ [code] @ be32 sender) @
      (if is_reliable_type t then be32 pid @ wire_infos ds0 else []) @ wire_data ds data)"
    using r3 r4 rd(1) by (blast intro: read_as_append)
  then have "d = (PACKET_PREFIX @ [version] @ [code] @ be32 sender) @
      (if is_reliable_type t then be32 pid @ wire_infos ds0 else []) @ wire_data ds data"
    by (simp add: read_as_def)
  moreover have "is_reliable_type t \<Longrightarrow> ds = ds0" using pd by auto
  ultimately have "wire p = d"
    using type_of_code_Some[OF t] ty
    by (auto simp: wire_def is_reliable_packet_def p)
  moreover have "wf_packet p"
    using v rd(2) r4 pd ty sess
    by (auto simp: wf_packet_def p is_reliable_packet_def pkt_type_def)
  ultimately show ?thesis ..
qed

end
