(* ===== verification/Wire_Properties.thy ===== *)
theory Wire_Properties
  imports Packet_Roundtrip
begin

text \<open>
  What holds of packet identifiers and of the wire format: the properties of
  \<open>lib/gibber/gibber-r-multicast-packet.c\<close>, each with a concrete instance. The example packets
  are the ones the test suite of the library sends around: a data packet with two dependencies and
  a join request.
\<close>

section \<open>Packet identifiers\<close>

text \<open>
  The comparison of packet ids is antisymmetric, is zero only on equal ids and never overflows
  its result; and whenever it is not clamped, it is the distance between the ids modulo \<open>2^32\<close>.
\<close>

theorem packet_ids_ordered:
  "packet_diff b a = - packet_diff a b \<and> (packet_diff a b = 0 \<longleftrightarrow> a = b)
   \<and> \<bar>packet_diff a b\<bar> \<le> 2147483647
   \<and> (\<bar>packet_diff a b\<bar> < 2147483647 \<longrightarrow> word_of_int (packet_diff a b) = b - a)"
  using packet_diff_antisym[of b a] packet_diff_eq_0[of a b] packet_diff_bounds[of a b]
    packet_diff_exact[of a b] by linarith

lemma packet_ids_ordered_witness: "word_of_int (packet_diff 0xfffffffe 3) = (5 :: u32)"
  using packet_ids_ordered[of 3 "0xfffffffe"] by (simp add: packet_diff_def)

text \<open>
  C29. Within 65535 steps ahead the comparison is exact, also where the ids wrap around; where they
  wrap over a distance between 131072 and \<open>2^31\<close>, the later id counts as far behind.
\<close>

theorem packet_diff_wrap_around:
  "(k \<le> 65535 \<longrightarrow> packet_diff a (a + of_nat k) = int k \<and> packet_diff (a + of_nat k) a = - int k)
   \<and> (131072 \<le> k \<longrightarrow> k < 2147483648 \<longrightarrow> 4294967296 \<le> unat a + k \<longrightarrow>
        packet_diff a (a + of_nat k) = - 2147483647)"
proof (intro conjI impI)
  assume k: "k \<le> 65535"
  then have "unat (of_nat k :: u32) = k" by (intro unat_of_nat_32) simp
  with k show "packet_diff a (a + of_nat k) = int k" "packet_diff (a + of_nat k) a = - int k"
    using packet_diff_near[of "a + of_nat k" a] packet_diff_antisym[of "a + of_nat k" a] by simp_all
next
  assume k: "131072 \<le> k" "k < 2147483648" and wrap: "4294967296 \<le> unat a + k"
  have u: "unat (of_nat k :: u32) = k" using k by (intro unat_of_nat_32) simp
  have "unat (a + of_nat k) = unat a + k - 4294967296"
    using wrap unat_plus_32[of a "of_nat k"] by (simp add: u)
  then have "uint (a + of_nat k) = uint a + int k - 4294967296"
    using wrap unfolding uint_nat by linarith
  then show "packet_diff a (a + of_nat k) = - 2147483647"
    using k uint_bounds_32[of a] unfolding packet_diff_int Let_def min_def max_def by simp
qed

lemma packet_diff_wrap_around_witness:
  "packet_diff 0xffffffff (0xffffffff + of_nat 3) = 3
   \<and> packet_diff 0xffffffff (0xffffffff + of_nat 131072) = - 2147483647"
  using packet_diff_wrap_around[of 3 "0xffffffff"] packet_diff_wrap_around[of 131072 "0xffffffff"]
  by simp

section \<open>Example packets\<close>

definition example_data :: packet where
  "example_data =
     \<lparr>pkt_version = 1, pkt_sender = 0x1234, pkt_packet_id = 0xffffffff,
      pkt_depends = [(0x1111, 7), (0x2222, 0)], pkt_data = Data 3 4 0 [104, 101, 108, 108],
      pkt_max_data = 1500, pkt_raw = None\<rparr>"

definition example_join :: packet where
  "example_join =
     \<lparr>pkt_version = 1, pkt_sender = 0x1234, pkt_packet_id = 5, pkt_depends = [],
      pkt_data = Attempt_join [0x1111, 0x2222], pkt_max_data = 1500, pkt_raw = None\<rparr>"

lemma example_data_wf: "wf_packet example_data" "buildable example_data" "pkt_raw example_data = None"
  by (simp_all add: example_data_def wf_packet_def buildable_def wire_def PACKET_VERSION_def
      PACKET_PREFIX_def pkt_type_def is_reliable_packet_def)

lemma example_join_wf: "wf_packet example_join" "buildable example_join" "pkt_raw example_join = None"
  by (simp_all add: example_join_def wf_packet_def buildable_def wire_def PACKET_VERSION_def
      PACKET_PREFIX_def pkt_type_def is_reliable_packet_def)

section \<open>Building and parsing\<close>

lemma wf_buildable: "wf_packet p \<Longrightarrow> length (wire p) \<le> pkt_max_data p \<Longrightarrow> buildable p"
  by (cases "pkt_data p") (auto simp: wf_packet_def buildable_def)

text \<open>
  Building a packet that has not been built yet returns exactly when the packet is buildable
  (its data is complete, a name is shorter than 255 bytes and everything fits its maximum size);
  it then writes the wire format, no more and no fewer bytes, and changes nothing else. In all
  other cases an assertion stops it before anything is sent.
\<close>

theorem build_writes_wire_format:
  assumes "pkt_raw p = None"
  shows "(returns (\<lambda>_. True) (packet_build p) \<longleftrightarrow> buildable p) \<and>
    holds (\<lambda>q. q = p\<lparr>pkt_max_data := length (wire p), pkt_raw := Some (wire p)\<rparr>) (packet_build p)"
proof (cases "buildable p")
  case True
  with packet_build_wire[OF assms] show ?thesis by simp
next
  case False
  with packet_build_not_buildable[OF assms] show ?thesis
    by (auto simp: returns_iff holds_iff)
qed

lemma build_writes_wire_format_witness:
  "returns (\<lambda>q. pkt_raw q = Some (wire example_data)) (packet_build example_data)
   \<and> \<not> returns (\<lambda>_. True) (packet_build (packet_new PACKET_TYPE_WHOIS_REPLY 1 1500))"
proof
  show "returns (\<lambda>q. pkt_raw q = Some (wire example_data)) (packet_build example_data)"
    using build_writes_wire_format[OF example_data_wf(3)] example_data_wf(2)
    by (auto simp: returns_iff)
  show "\<not> returns (\<lambda>_. True) (packet_build (packet_new PACKET_TYPE_WHOIS_REPLY 1 1500))"
    using build_writes_wire_format[of "packet_new PACKET_TYPE_WHOIS_REPLY 1 1500"]
    by (simp add: packet_new_def buildable_def)
qed

text \<open>
  C26. Parsing the bytes of a well-formed packet that fits its maximum size gives the packet back:
  every field that was set is read as it was written, and the parsed packet is the built one.
\<close>

theorem parse_inverts_build:
  assumes "wf_packet p" "pkt_raw p = None" "length (wire p) \<le> pkt_max_data p"
  shows "returns (\<lambda>(q, d). packet_parse d = Inr q
      \<and> pkt_data q = pkt_data p \<and> pkt_depends q = pkt_depends p
      \<and> pkt_packet_id q = pkt_packet_id p \<and> pkt_sender q = pkt_sender p)
    (packet_get_raw_data p)"
  using packet_build_wire[OF assms(2) wf_buildable[OF assms(1,3)]] packet_parse_wire[OF assms(1)]
  by (simp add: packet_get_raw_data_def)

lemma parse_inverts_build_witness:
  "returns (\<lambda>(q, d). packet_parse d = Inr q \<and> pkt_data q = Attempt_join [0x1111, 0x2222])
     (packet_get_raw_data example_join)"
  using parse_inverts_build[of example_join] example_join_wf
  by (auto simp: returns_iff buildable_def) (simp_all add: example_join_def)

lemma parsed_type: "packet_parse d = Inr p \<Longrightarrow> pkt_type p \<noteq> PACKET_TYPE_INVALID"
  using packet_parse_canonical[of d p]
  by (cases "pkt_data p") (auto simp: wf_packet_def pkt_type_def)

text \<open>
  C27. Whatever bytes arrive, the parser reports a parse error or returns a packet of the current
  version that keeps the bytes it was read from: no assertion fails and no byte outside the
  datagram is read.
\<close>

theorem parse_any_bytes:
  "case packet_parse d of
     Inl e \<Rightarrow> e = Parse_error
   | Inr p \<Rightarrow> pkt_raw p = Some d \<and> pkt_version p = PACKET_VERSION \<and> pkt_type p \<noteq> PACKET_TYPE_INVALID"
proof (cases "packet_parse d")
  case (Inl e)
  with packet_parse_no_abort[of d] show ?thesis by simp
next
  case (Inr p)
  then have "pkt_raw p = Some d" "pkt_version p = PACKET_VERSION"
    by (auto simp: packet_parse_def andthen_eq_Inr split: if_splits option.splits)
  with Inr parsed_type[OF Inr] show ?thesis by simp
qed

text \<open>
  C28. The format is canonical: apart from WHOIS replies, whose names the parser cuts at a NUL byte,
  a datagram that parses is the wire format of the packet it parses to, and that packet is
  well formed; so two different datagrams never parse to packets that agree in all wire fields.
\<close>

theorem parse_is_canonical:
  assumes "packet_parse d = Inr p" "pkt_type p \<noteq> PACKET_TYPE_WHOIS_REPLY"
  shows "wire p = d \<and> wf_packet p
    \<and> (\<forall>d' q. packet_parse d' = Inr q \<longrightarrow> wire q = wire p \<longrightarrow> pkt_type q \<noteq> PACKET_TYPE_WHOIS_REPLY \<longrightarrow> d' = d)"
  using packet_parse_canonical[OF assms] packet_parse_canonical by metis

lemma parse_is_canonical_witness:
  "packet_parse (wire example_join)
     = Inr (example_join\<lparr>pkt_max_data := length (wire example_join), pkt_raw := Some (wire example_join)\<rparr>)
   \<and> wf_packet (example_join\<lparr>pkt_max_data := length (wire example_join), pkt_raw := Some (wire example_join)\<rparr>)"
  using packet_parse_wire[OF example_join_wf(1)]
    parse_is_canonical[OF packet_parse_wire[OF example_join_wf(1)]]
  by (simp add: example_join_def pkt_type_def)

section \<open>Lists longer than their count\<close>

fun ids_of :: "packet_data \<Rightarrow> u32 list option" where
  "ids_of (Attempt_join ids) = Some ids"
| "ids_of (Join ids) = Some ids"
| "ids_of (Failure ids) = Some ids"
| "ids_of _ = None"

lemma packet_parse_overlong:
  assumes "pkt_version p = PACKET_VERSION" "length (pkt_depends p) < 256"
    and ids: "ids_of (pkt_data p) = Some ids" "256 \<le> length ids"
  shows "packet_parse (wire p) = Inl Parse_error"
proof -
  have data: "pkt_data p = Attempt_join ids \<or> pkt_data p = Join ids \<or> pkt_data p = Failure ids"
    using ids(1) by (cases "pkt_data p") auto
  then have w: "wire_data (pkt_depends p) (pkt_data p) = wire_ids ids" by auto
  have code: "type_of_code (type_code (pkt_type p)) = Some (pkt_type p)"
    using data by (auto simp: pkt_type_def type_of_code_def)
  have rel: "is_reliable_packet p" using data by (auto simp: is_reliable_packet_def pkt_type_def)
  obtain off where "get_id_array (wire p) (rpos (wire p) (wire_ids ids)) = Inr (take (length ids mod 256) ids, off)"
    "off < length (wire p)"
    using get_id_array_overlong[OF _ ids(2)] wire_data_suffix[of p] unfolding w by metis
  then show ?thesis
    using data packet_parse_header[OF assms(1,2) code] rel
    by (auto simp: w parse_data_def pkt_type_def)
qed

text \<open>
  A join request, a join or a failure packet with more than 255 ids that fits its maximum size
  is built without complaint, but the count on the wire is one byte: no receiver can parse it.
\<close>

theorem overlong_list_unreadable:
  assumes "pkt_raw p = None" "pkt_version p = PACKET_VERSION" "length (pkt_depends p) < 256"
    and "ids_of (pkt_data p) = Some ids" "256 \<le> length ids" "length (wire p) \<le> pkt_max_data p"
  shows "returns (\<lambda>(q, d). packet_parse d = Inl Parse_error) (packet_get_raw_data p)"
proof -
  have "buildable p" using assms(4,6) by (cases "pkt_data p") (auto simp: buildable_def)
  then show ?thesis
    using packet_build_wire[OF assms(1)] packet_parse_overlong[OF assms(2-5)]
    by (simp add: packet_get_raw_data_def)
qed

definition crowd_join :: packet where
  "crowd_join =
     \<lparr>pkt_version = 1, pkt_sender = 1, pkt_packet_id = 0, pkt_depends = [],
      pkt_data = Attempt_join (replicate 300 7), pkt_max_data = 1500, pkt_raw = None\<rparr>"

lemma overlong_list_unreadable_witness:
  "returns (\<lambda>(q, d). packet_parse d = Inl Parse_error) (packet_get_raw_data crowd_join)"
  by (rule overlong_list_unreadable[where ids = "replicate 300 7"])
     (simp_all add: crowd_join_def PACKET_VERSION_def wire_def wire_ids_def PACKET_PREFIX_def
       is_reliable_packet_def pkt_type_def sum_list_replicate length_concat)

section \<open>Filling a data packet\<close>

text \<open>
  \<open>add_payload\<close> on an empty data packet whose header fits takes as many bytes as there is room
  for: it reports how many, keeps exactly that prefix, and the packet can then be built. When it
  takes less than it was given, the packet is full to its maximum size.
\<close>

theorem add_payload_fills:
  assumes "pkt_data p = Data flags total_size stream []" "pkt_raw p = None"
    and "length (wire p) \<le> pkt_max_data p" "pkt_max_data p < 2 ^ 64"
  shows "returns (\<lambda>(q, n). n \<le> length bytes \<and> buildable q
      \<and> q = p\<lparr>pkt_data := Data flags total_size stream (take n bytes)\<rparr>
      \<and> length (wire q) = length (wire p) + n
      \<and> (n < length bytes \<longrightarrow> length (wire q) = pkt_max_data p))
    (packet_add_payload p bytes)"
proof -
  have size: "calculate_size p = Inr (length (wire p))"
    by (rule calculate_size_wire) (simp add: assms(1))
  have room: "gsize_minus (pkt_max_data p) (length (wire p)) = pkt_max_data p - length (wire p)"
    using assms(3,4) by (rule gsize_minus_le)
  have "length (wire (p\<lparr>pkt_data := Data flags total_size stream xs\<rparr>)) = length (wire p) + length xs" for xs
    by (simp add: wire_def assms(1) is_reliable_packet_def pkt_type_def)
  then show ?thesis
    using assms by (auto simp: packet_add_payload_def size room buildable_def Let_def)
qed

lemma add_payload_fills_witness:
  "returns (\<lambda>(q, n). n = 5 \<and> pkt_data q = Data 1 9 0 [1, 2, 3, 4, 5])
     (packet_add_payload (packet_new PACKET_TYPE_DATA 1 29 \<lparr>pkt_data := Data 1 9 0 []\<rparr>) [1, 2, 3, 4, 5, 6, 7, 8, 9])"
proof -
  let ?p = "packet_new PACKET_TYPE_DATA 1 29 \<lparr>pkt_data := Data 1 9 0 []\<rparr>"
  have w: "length (wire ?p) = 24"
    by (simp add: packet_new_def wire_def wire_infos_def PACKET_PREFIX_def is_reliable_packet_def pkt_type_def)
  have "returns (\<lambda>(q, n). n \<le> length [1, 2, 3, 4, 5, 6, 7, 8, 9 :: u8] \<and> buildable q
      \<and> q = ?p\<lparr>pkt_data := Data 1 9 0 (take n [1, 2, 3, 4, 5, 6, 7, 8, 9])\<rparr>
      \<and> length (wire q) = length (wire ?p) + n
      \<and> (n < length [1, 2, 3, 4, 5, 6, 7, 8, 9 :: u8] \<longrightarrow> length (wire q) = pkt_max_data ?p))
    (packet_add_payload ?p [1, 2, 3, 4, 5, 6, 7, 8, 9])"
    by (rule add_payload_fills) (simp_all add: w, simp_all add: packet_new_def)
  then show ?thesis unfolding w
    by (rule returns_mono) (auto simp: packet_new_def buildable_def)
qed

end
