(* ===== verification/Sender_State.thy ===== *)
theory Sender_State
  imports Packet
begin

text \<open>
  The data of \<open>lib/gibber/gibber-r-multicast-sender.h\<close> and
  \<open>lib/gibber/gibber-r-multicast-sender.c\<close>: senders, their packet cache and
  acknowledgements, and the sender group that holds them, with the operations that touch one sender
  only and emit no signal. Senders are shared through pointers (the group's table, the queue of
  senders to pop, the array of pending removals), so the group keeps a store from addresses to
  senders. Reference counts are not modelled: a sender stays in the store after its last reference
  is gone. A pending \<open>GSource\<close> is a timer: its callback and the interval, in milliseconds, its
  timeout is drawn from.
\<close>

section \<open>Data\<close>

datatype timer_callback =
    Request_repair_cb | Do_repair_cb | Whois_request_cb | Whois_reply_cb
  | Name_discovery_failed_cb | Progress_failed_cb

datatype timer = Timer timer_callback nat nat

definition PACKET_CACHE_SIZE :: int where "PACKET_CACHE_SIZE = 256"

record packet_info =
  pi_packet_id :: u32
  pi_timeout :: "timer option"
  pi_repeating :: bool
  pi_packet :: "packet option"
  pi_acked :: bool
  pi_popped :: bool

record ack_info =
  ack_sender_id :: u32
  ack_packet_id :: u32
  ack_first_packet_id :: u32

datatype sender_state =
    STATE_NEW | STATE_PREPARING | STATE_RUNNING | STATE_DATA_RUNNING | STATE_FAILED
  | STATE_UNKNOWN_FAILED | STATE_STOPPED | STATE_PENDING_REMOVAL

text \<open>The C code compares states as the integers of the enum.\<close>

fun state_code :: "sender_state \<Rightarrow> nat" where
  "state_code STATE_NEW = 0"
| "state_code STATE_PREPARING = 1"
| "state_code STATE_RUNNING = 2"
| "state_code STATE_DATA_RUNNING = 3"
| "state_code STATE_FAILED = 4"
| "state_code STATE_UNKNOWN_FAILED = 5"
| "state_code STATE_STOPPED = 6"
| "state_code STATE_PENDING_REMOVAL = 7"

lemma state_code_inj: "state_code s = state_code t \<Longrightarrow> s = t"
  by (cases s; cases t; simp)

instantiation sender_state :: linorder
begin

definition less_eq_sender_state :: "sender_state \<Rightarrow> sender_state \<Rightarrow> bool" where
  "less_eq_sender_state s t \<longleftrightarrow> state_code s \<le> state_code t"

definition less_sender_state :: "sender_state \<Rightarrow> sender_state \<Rightarrow> bool" where
  "less_sender_state s t \<longleftrightarrow> state_code s < state_code t"

instance
  by standard (auto simp: less_eq_sender_state_def less_sender_state_def intro: state_code_inj)

end

lemmas state_order = less_eq_sender_state_def less_sender_state_def

record sender =
  s_name :: "u8 list option"
  s_id :: u32
  s_state :: sender_state
  next_output_packet :: u32
  next_output_data_packet :: u32
  next_input_packet :: u32
  packet_cache :: "(u32 \<times> packet_info) list"
  acks :: "(u32 \<times> ack_info) list"
  first_packet :: u32
  whois_timer :: "timer option"
  fail_timer :: "timer option"
  holding_data :: bool
  holding_point :: u32
  start_data :: bool
  start_point :: u32
  end_point :: u32

type_synonym saddr = nat

record group =
  g_store :: "saddr \<Rightarrow> sender option"
  g_fresh :: saddr
  g_senders :: "(u32 \<times> saddr) list"
  g_popping :: bool
  g_stopped :: bool
  g_pop_queue :: "saddr list"
  g_pending_removal :: "saddr list"

text \<open>The signals a sender emits.\<close>

datatype signal =
    Repair_request_signal u32
  | Repair_message_signal packet
  | Whois_reply_signal
  | Whois_request_signal
  | Name_discovered_signal "u8 list option"
  | Received_data_signal u16 "u8 list"
  | Received_control_packet_signal packet
  | Failed_signal

text \<open>
  GObject runs the handlers of a signal inside the emission. The handlers are code of the upper
  layers, so the operations that emit signals take them as an argument: a function that gets the
  emitting sender and the signal and may change the whole state. The record of that state extends
  the group, so a handler of the transport can change the transport's fields as well.
\<close>

type_synonym 'a handler = "saddr \<Rightarrow> signal \<Rightarrow> 'a group_scheme \<Rightarrow> 'a group_scheme outcome"

section \<open>Reading and writing the store\<close>

definition get_sender :: "saddr \<Rightarrow> 'a group_scheme \<Rightarrow> sender outcome" where
  "get_sender a g = deref (g_store g a)"

definition put_sender :: "saddr \<Rightarrow> sender \<Rightarrow> 'a group_scheme \<Rightarrow> 'a group_scheme" where
  "put_sender a s g = g\<lparr>g_store := (g_store g)(a \<mapsto> s)\<rparr>"

definition upd_sender ::
    "saddr \<Rightarrow> (sender \<Rightarrow> sender outcome) \<Rightarrow> 'a group_scheme \<Rightarrow> 'a group_scheme outcome" where
  "upd_sender a f g =
     andthen (get_sender a g) (\<lambda>s. andthen (f s) (\<lambda>s. Inr (put_sender a s g)))"

lemma put_sender_simps [simp]:
  "g_store (put_sender a s g) = (g_store g)(a \<mapsto> s)"
  "g_fresh (put_sender a s g) = g_fresh g"
  "g_senders (put_sender a s g) = g_senders g"
  "g_popping (put_sender a s g) = g_popping g"
  "g_stopped (put_sender a s g) = g_stopped g"
  "g_pop_queue (put_sender a s g) = g_pop_queue g"
  "g_pending_removal (put_sender a s g) = g_pending_removal g"
  "group.more (put_sender a s g) = group.more g"
  by (simp_all add: put_sender_def)

lemma put_sender_put [simp]: "put_sender a s (put_sender a t g) = put_sender a s g"
  by (simp add: put_sender_def)

lemma get_sender_eq [simp]: "get_sender a g = Inr s \<longleftrightarrow> g_store g a = Some s"
  by (simp add: get_sender_def)

lemma get_sender_Some: "g_store g a = Some s \<Longrightarrow> get_sender a g = Inr s"
  by simp

section \<open>One sender\<close>

definition packet_info_new :: "u32 \<Rightarrow> packet_info" where
  "packet_info_new packet_id =
     \<lparr>pi_packet_id = packet_id, pi_timeout = None, pi_repeating = False, pi_packet = None,
      pi_acked = False, pi_popped = False\<rparr>"

definition ack_info_new :: "u32 \<Rightarrow> ack_info" where
  "ack_info_new sender_id =
     \<lparr>ack_sender_id = sender_id, ack_packet_id = 0, ack_first_packet_id = 0\<rparr>"

definition cached :: "sender \<Rightarrow> u32 \<Rightarrow> packet_info option" where
  "cached s i = map_of (packet_cache s) i"

definition set_state :: "sender_state \<Rightarrow> sender \<Rightarrow> sender outcome" where
  "set_state st s = andthen (assert_that (s_state s \<le> st)) (\<lambda>_. Inr (s\<lparr>s_state := st\<rparr>))"

definition get_ackinfo :: "sender \<Rightarrow> u32 \<Rightarrow> ack_info option" where
  "get_ackinfo s sender_id = map_of (acks s) sender_id"

definition packet_info_try_gc :: "u32 \<Rightarrow> sender \<Rightarrow> sender outcome" where
  "packet_info_try_gc packet_id s =
     andthen (deref (cached s packet_id)) (\<lambda>info.
     if \<not> pi_acked info \<or> \<not> pi_popped info \<or> pi_repeating info then Inr s
     else
       let s = s\<lparr>packet_cache := AList.delete packet_id (packet_cache s)\<rparr>
       in Inr (if packet_id = first_packet s
               then s\<lparr>first_packet :=
                 (case List.find (\<lambda>i. cached s i \<noteq> None)
                         (seq_range packet_id (next_output_data_packet s)) of
                    Some i \<Rightarrow> i | None \<Rightarrow> next_output_data_packet s)\<rparr>
               else s))"

definition upd_info :: "u32 \<Rightarrow> (packet_info \<Rightarrow> packet_info) \<Rightarrow> sender \<Rightarrow> sender outcome" where
  "upd_info i f s =
     andthen (deref (cached s i)) (\<lambda>info.
     Inr (s\<lparr>packet_cache := AList.update i (f info) (packet_cache s)\<rparr>))"

definition cancel_failure_timers :: "sender \<Rightarrow> sender" where
  "cancel_failure_timers s = s\<lparr>fail_timer := None, whois_timer := None\<rparr>"

definition schedule_progress_timer :: "sender \<Rightarrow> sender" where
  "schedule_progress_timer s =
     (if s_name s = None then s
      else if s_state s \<ge> STATE_FAILED then s
      else s\<lparr>fail_timer := Some (Timer Progress_failed_cb 300000 300000)\<rparr>)"

definition stop_whois_discovery :: "sender \<Rightarrow> sender" where
  "stop_whois_discovery s = s\<lparr>whois_timer := None, fail_timer := None\<rparr>"

definition schedule_repair :: "u32 \<Rightarrow> sender \<Rightarrow> sender" where
  "schedule_repair i s =
     (if s_state s > STATE_STOPPED then s
      else case cached s i of
        None \<Rightarrow>
          s\<lparr>packet_cache := AList.update i
             ((packet_info_new i)\<lparr>pi_timeout := Some (Timer Request_repair_cb 150 250)\<rparr>)
             (packet_cache s)\<rparr>
      | Some info \<Rightarrow>
          if pi_packet info \<noteq> None \<or> pi_timeout info \<noteq> None then s
          else s\<lparr>packet_cache := AList.update i
             (info\<lparr>pi_timeout := Some (Timer Request_repair_cb 500 800)\<rparr>) (packet_cache s)\<rparr>)"

definition schedule_do_repair :: "u32 \<Rightarrow> sender \<Rightarrow> sender outcome" where
  "schedule_do_repair i s =
     andthen (deref (cached s i)) (\<lambda>info.
     andthen (assert_that (pi_packet info \<noteq> None)) (\<lambda>_.
     if pi_timeout info \<noteq> None then Inr s
     else upd_info i (\<lambda>info. info\<lparr>pi_timeout := Some (Timer Do_repair_cb 50 100)\<rparr>) s))"

definition schedule_whois_request :: "bool \<Rightarrow> sender \<Rightarrow> sender" where
  "schedule_whois_request rescheduled s =
     (if s_state s \<ge> STATE_FAILED then s
      else s\<lparr>whois_timer := Some (if rescheduled then Timer Whois_request_cb 400 600
                                 else Timer Whois_request_cb 50 200)\<rparr>)"

definition sender_init :: "u32 \<Rightarrow> u8 list option \<Rightarrow> sender" where
  "sender_init i name =
     \<lparr>s_name = name, s_id = i, s_state = STATE_NEW, next_output_packet = 0,
      next_output_data_packet = 0, next_input_packet = 0, packet_cache = [], acks = [],
      first_packet = 0, whois_timer = None, fail_timer = None, holding_data = False,
      holding_point = 0, start_data = False, start_point = 0, end_point = 0\<rparr>"

definition sender_new ::
    "u32 \<Rightarrow> u8 list option \<Rightarrow> 'a group_scheme \<Rightarrow> saddr \<times> 'a group_scheme" where
  "sender_new i name g =
     (let s = sender_init i name;
          s = (if name = None
               then (schedule_whois_request False s)
                      \<lparr>fail_timer := Some (Timer Name_discovery_failed_cb 10000 10000)\<rparr>
               else schedule_progress_timer s)
      in (g_fresh g, put_sender (g_fresh g) s (g\<lparr>g_fresh := Suc (g_fresh g)\<rparr>)))"

text \<open>Acknowledges every cached packet before \<open>ack\<close>.\<close>

definition sender_ack :: "u32 \<Rightarrow> sender \<Rightarrow> sender outcome" where
  "sender_ack ack s =
     (if packet_diff (first_packet s) ack < 0 then Inr s
      else foldo (\<lambda>i s.
             case cached s i of
               None \<Rightarrow> Inr s
             | Some _ \<Rightarrow>
                 andthen (upd_info i (\<lambda>info. info\<lparr>pi_acked := True\<rparr>) s) (packet_info_try_gc i))
           (seq_range (first_packet s) ack) s)"

definition sender_packet_cache_size :: "sender \<Rightarrow> u32" where
  "sender_packet_cache_size s =
     (if s_state s \<ge> STATE_FAILED
      then word_of_int (packet_diff (first_packet s) (end_point s))
      else word_of_int (packet_diff (first_packet s) (next_input_packet s)))"

definition sender_update_start :: "u32 \<Rightarrow> sender \<Rightarrow> sender outcome" where
  "sender_update_start packet_id s =
     andthen (assert_that (s_state s < STATE_FAILED)) (\<lambda>_.
     if s_state s = STATE_NEW then
       andthen (assert_that (length (packet_cache s) = 0)) (\<lambda>_.
       andthen (set_state STATE_PREPARING s) (\<lambda>s.
       Inr (s\<lparr>next_input_packet := packet_id, next_output_packet := packet_id,
             next_output_data_packet := packet_id, first_packet := packet_id\<rparr>)))
     else if packet_diff (next_input_packet s) packet_id > 0 then
       andthen (foldo (\<lambda>i s.
           case cached s i of
             None \<Rightarrow> Inr s
           | Some info \<Rightarrow>
               if pi_packet info = None \<and> pi_timeout info \<noteq> None
               then upd_info i (\<lambda>info. info\<lparr>pi_timeout := None\<rparr>) s
               else Inr s)
         (if first_packet s < packet_id then seq_range (first_packet s) packet_id else []) s) (\<lambda>s.
       Inr (s\<lparr>next_input_packet := packet_id, next_output_packet := packet_id,
             next_output_data_packet := packet_id\<rparr>))
     else Inr s)"

definition sender_set_failed :: "sender \<Rightarrow> sender outcome" where
  "sender_set_failed s =
     (if s_state s \<ge> STATE_FAILED then Inr s
      else
        andthen (if s_state s < STATE_PREPARING then set_state STATE_UNKNOWN_FAILED s
                 else andthen (set_state STATE_FAILED s) (\<lambda>s.
                      Inr (s\<lparr>end_point := next_output_packet s\<rparr>))) (\<lambda>s.
        Inr (cancel_failure_timers s)))"

definition sender_set_data_start :: "u32 \<Rightarrow> sender \<Rightarrow> sender outcome" where
  "sender_set_data_start packet_id s =
     andthen (assert_that (s_state s < STATE_DATA_RUNNING)) (\<lambda>_.
     Inr (s\<lparr>start_data := True, start_point := packet_id\<rparr>))"

definition sender_repair_request :: "u32 \<Rightarrow> sender \<Rightarrow> (bool \<times> sender) outcome" where
  "sender_repair_request i s =
     (if s_state s < STATE_PREPARING then Inr (False, s)
      else if (case cached s i of None \<Rightarrow> False | Some info \<Rightarrow> pi_packet info \<noteq> None)
      then andthen (schedule_do_repair i s) (\<lambda>s. Inr (True, s))
      else
        let diff = packet_diff (next_output_packet s) i in
        if diff \<ge> 0 \<and> diff < PACKET_CACHE_SIZE then
          if s_state s \<ge> STATE_STOPPED then Inr (False, s)
          else
            (case cached s i of
               None \<Rightarrow>
                 andthen (foldo (\<lambda>j s. Inr (schedule_repair j s))
                   (seq_range (next_output_packet s) (i + 1)) s) (\<lambda>s. Inr (True, s))
             | Some info \<Rightarrow>
                 andthen (assert_that (pi_timeout info \<noteq> None)) (\<lambda>_.
                 andthen (upd_info i (\<lambda>info. info\<lparr>pi_timeout := None\<rparr>) s) (\<lambda>s.
                 Inr (True, schedule_repair i s))))
        else Inr (False, s))"

definition sender_seen :: "u32 \<Rightarrow> sender \<Rightarrow> bool \<times> sender" where
  "sender_seen i s =
     (if s_state s < STATE_PREPARING \<or> s_state s \<ge> STATE_UNKNOWN_FAILED then (False, s)
      else if packet_diff (next_input_packet s) i < 0 then (True, s)
      else
        let last = next_output_packet s + 256;
            last = (if packet_diff last i > 0 then last else i)
        in (False, fold schedule_repair (seq_range (next_input_packet s) last) s))"

definition sender_set_packet_repeat :: "u32 \<Rightarrow> bool \<Rightarrow> sender \<Rightarrow> sender outcome" where
  "sender_set_packet_repeat packet_id repeat s =
     andthen (deref (cached s packet_id)) (\<lambda>info.
     andthen (assert_that (pi_packet info \<noteq> None)) (\<lambda>_.
     if pi_repeating info = repeat then Inr s
     else
       andthen (upd_info packet_id (\<lambda>info. info\<lparr>pi_repeating := repeat\<rparr>) s) (\<lambda>s.
       if repeat then
         (if pi_timeout info = None then schedule_do_repair packet_id s else Inr s)
       else packet_info_try_gc packet_id s)))"

definition sender_stop :: "sender \<Rightarrow> sender outcome" where
  "sender_stop s =
     (if s_state s \<ge> STATE_STOPPED then Inr s
      else set_state STATE_STOPPED
        (s\<lparr>whois_timer := None,
           packet_cache := map (\<lambda>(i, info). (i, info\<lparr>pi_timeout := None\<rparr>)) (packet_cache s)\<rparr>))"

end
