(* ===== verification/Sender_Group.thy ===== *)
theory Sender_Group
  imports Sender_State
begin

text \<open>
  The sender group of \<open>lib/gibber/gibber-r-multicast-sender.c\<close>: the table of live senders, the
  array of senders that are pending removal, and the garbage collector that acknowledges packets
  every live sender has acknowledged and drops failed senders everyone has caught up with. None of
  these operations emits a signal.
\<close>

section \<open>Visiting the table\<close>

text \<open>\<open>g_hash_table_find\<close> with a predicate that can fault: the first entry it holds for.\<close>

fun findo :: "('x \<Rightarrow> bool outcome) \<Rightarrow> 'x list \<Rightarrow> 'x option outcome" where
  "findo f [] = Inr None"
| "findo f (x # xs) = andthen (f x) (\<lambda>b. if b then Inr (Some x) else findo f xs)"

lemma findo_None: "findo f xs = Inr None \<longleftrightarrow> (\<forall>x\<in>set xs. f x = Inr False)"
proof (induction xs)
  case (Cons x xs)
  then show ?case by (cases "f x") auto
qed simp

lemma findo_Some: "findo f xs = Inr (Some x) \<Longrightarrow> x \<in> set xs \<and> f x = Inr True"
proof (induction xs)
  case (Cons y xs)
  then show ?case by (cases "f y") (auto split: if_splits)
qed simp

lemma findo_returns:
  "(\<And>x. x \<in> set xs \<Longrightarrow> returns (\<lambda>_. True) (f x)) \<Longrightarrow> returns (\<lambda>_. True) (findo f xs)"
proof (induction xs)
  case (Cons x xs)
  then show ?case by (cases "f x") (auto dest!: meta_spec[of _ x])
qed simp

text \<open>\<open>g_array_remove_index_fast\<close>: the last element takes the place of the removed one.\<close>

definition remove_index_fast :: "nat \<Rightarrow> 'x list \<Rightarrow> 'x list" where
  "remove_index_fast i xs = butlast (xs[i := last xs])"

lemma length_remove_index_fast [simp]: "length (remove_index_fast i xs) = length xs - 1"
  by (simp add: remove_index_fast_def)

lemma set_remove_index_fast: "set (remove_index_fast i xs) \<subseteq> set xs"
proof -
  have "set (xs[i := last xs]) \<subseteq> insert (last xs) (set xs)" by (rule set_update_subset_insert)
  then show ?thesis
    by (cases "xs = []") (auto simp: remove_index_fast_def dest!: in_set_butlastD)
qed

section \<open>The group\<close>

definition group_new :: group where
  "group_new =
     \<lparr>g_store = \<lambda>_. None, g_fresh = 0, g_senders = [], g_popping = False, g_stopped = False,
      g_pop_queue = [], g_pending_removal = []\<rparr>"

text \<open>The callbacks of \<open>g_hash_table_foreach\<close> get the sender the table points to.\<close>

definition foreach_sender ::
    "(saddr \<Rightarrow> 'a group_scheme \<Rightarrow> 'a group_scheme outcome) \<Rightarrow> 'a group_scheme \<Rightarrow> 'a group_scheme outcome" where
  "foreach_sender f g = foldo f (map snd (g_senders g)) g"

definition group_stop :: "'a group_scheme \<Rightarrow> 'a group_scheme outcome" where
  "group_stop g =
     andthen (foreach_sender (\<lambda>a. upd_sender a sender_stop) g) (\<lambda>g.
     Inr (g\<lparr>g_stopped := True\<rparr>))"

definition group_add :: "saddr \<Rightarrow> 'a group_scheme \<Rightarrow> 'a group_scheme outcome" where
  "group_add a g =
     andthen (get_sender a g) (\<lambda>s.
     Inr (g\<lparr>g_senders := AList.update (s_id s) a (g_senders g)\<rparr>))"

definition group_lookup :: "u32 \<Rightarrow> 'a group_scheme \<Rightarrow> saddr option" where
  "group_lookup sender_id g = map_of (g_senders g) sender_id"

definition find_by_name :: "u8 list option \<Rightarrow> sender \<Rightarrow> bool" where
  "find_by_name name s \<longleftrightarrow> s_state s \<noteq> STATE_PENDING_REMOVAL \<and> s_name s = name"

definition group_lookup_by_name :: "u8 list option \<Rightarrow> 'a group_scheme \<Rightarrow> saddr option outcome" where
  "group_lookup_by_name name g =
     findo (\<lambda>a. andthen (get_sender a g) (\<lambda>s. Inr (find_by_name name s))) (map snd (g_senders g))"

definition cleanup_acks :: "u32 \<Rightarrow> sender \<Rightarrow> sender" where
  "cleanup_acks sender_id s = s\<lparr>acks := AList.delete sender_id (acks s)\<rparr>"

definition group_gc_acks :: "u32 \<Rightarrow> 'a group_scheme \<Rightarrow> 'a group_scheme outcome" where
  "group_gc_acks sender_id g =
     (if group_lookup sender_id g \<noteq> None then Inr g
      else andthen (findo (\<lambda>a. andthen (get_sender a g) (\<lambda>s. Inr (s_id s = sender_id)))
                      (g_pending_removal g)) (\<lambda>found.
           if found \<noteq> None then Inr g
           else foreach_sender (\<lambda>a. upd_sender a (\<lambda>s. Inr (cleanup_acks sender_id s))) g))"

lemma upd_sender_frame:
  "holds (\<lambda>g'. g_fresh g' = g_fresh g \<and> g_senders g' = g_senders g \<and> g_popping g' = g_popping g
      \<and> g_stopped g' = g_stopped g \<and> g_pop_queue g' = g_pop_queue g
      \<and> g_pending_removal g' = g_pending_removal g \<and> group.more g' = group.more g)
    (upd_sender a f g)"
  by (auto simp: upd_sender_def holds_iff andthen_eq_Inr)

lemma foreach_sender_frame:
  assumes "\<And>a g. holds (\<lambda>g'. F g' = F g) (f a g)"
  shows "holds (\<lambda>g'. F g' = F g) (foreach_sender f g)"
  unfolding foreach_sender_def
  by (rule foldo_holds) (auto intro: holds_mono[OF assms])

lemma group_gc_acks_frame:
  "holds (\<lambda>g'. g_pending_removal g' = g_pending_removal g) (group_gc_acks i g)"
proof -
  have "holds (\<lambda>g'. g_pending_removal g' = g_pending_removal g)
      (foreach_sender (\<lambda>a. upd_sender a (\<lambda>s. Inr (cleanup_acks i s))) g)"
    by (rule foreach_sender_frame) (rule holds_mono[OF upd_sender_frame], simp)
  then show ?thesis unfolding group_gc_acks_def by (auto simp: holds_iff andthen_eq_Inr)
qed

definition group_remove :: "u32 \<Rightarrow> 'a group_scheme \<Rightarrow> 'a group_scheme outcome" where
  "group_remove sender_id g =
     (case group_lookup sender_id g of
        None \<Rightarrow> Inr g
      | Some a \<Rightarrow>
          andthen (upd_sender a (set_state STATE_PENDING_REMOVAL)
                     (g\<lparr>g_pop_queue := remove1 a (g_pop_queue g)\<rparr>)) (\<lambda>g.
          andthen (get_sender a g) (\<lambda>s.
          if sender_packet_cache_size s > 0 then
            andthen (upd_sender a sender_stop g) (\<lambda>g.
            Inr (g\<lparr>g_senders := AList.delete sender_id (g_senders g),
                   g_pending_removal := g_pending_removal g @ [a]\<rparr>))
          else
            group_gc_acks sender_id (g\<lparr>g_senders := AList.delete sender_id (g_senders g)\<rparr>))))"

section \<open>Garbage collection\<close>

text \<open>The array \<open>group_gc\<close> builds: for each live sender, the first packet not all have acked.\<close>

type_synonym ack_array = "(u32 \<times> u32) list"

definition create_sender_array :: "sender \<Rightarrow> ack_array \<Rightarrow> ack_array" where
  "create_sender_array s array =
     (if s_state s \<ge> STATE_STOPPED then array else array @ [(s_id s, next_input_packet s)])"

function update_sender_acks_loop :: "sender \<Rightarrow> nat \<Rightarrow> ack_array \<Rightarrow> ack_array" where
  "update_sender_acks_loop s i array =
     (if i < length array then
        let (sender_id, packet_id) = array ! i in
        if s_id s = sender_id then update_sender_acks_loop s (Suc i) array
        else case get_ackinfo s sender_id of
          Some ack \<Rightarrow>
            update_sender_acks_loop s (Suc i)
              (if packet_diff (ack_packet_id ack) packet_id > 0
               then array[i := (sender_id, ack_packet_id ack)] else array)
        | None \<Rightarrow> update_sender_acks_loop s i (remove_index_fast i array)
      else array)"
  by pat_completeness auto
termination by (relation "measure (\<lambda>(s, i, array). length array - i)") auto

declare update_sender_acks_loop.simps [simp del]

definition update_sender_acks :: "sender \<Rightarrow> ack_array \<Rightarrow> ack_array" where
  "update_sender_acks s array =
     (if s_state s \<ge> STATE_STOPPED then array else update_sender_acks_loop s 0 array)"

definition get_direct_ack :: "sender \<Rightarrow> sender \<Rightarrow> ack_info option" where
  "get_direct_ack s target =
     (case get_ackinfo s (s_id target) of
        Some ack \<Rightarrow> if packet_diff (next_output_packet target) (ack_packet_id ack) \<ge> 0 then Some ack
                   else None
      | None \<Rightarrow> None)"

definition find_indirect_ack :: "sender \<Rightarrow> saddr \<Rightarrow> sender \<Rightarrow> saddr \<Rightarrow> sender \<Rightarrow> bool" where
  "find_indirect_ack target hd_addr hd_sender a s =
     (if a = hd_addr then False
      else case get_direct_ack s target of
        None \<Rightarrow> False
      | Some target_ack \<Rightarrow>
          (case get_ackinfo hd_sender (s_id s) of
             None \<Rightarrow> False
           | Some ack \<Rightarrow> packet_diff (ack_first_packet_id target_ack) (ack_packet_id ack) > 0))"

definition failure_not_acked :: "sender \<Rightarrow> saddr \<Rightarrow> 'a group_scheme \<Rightarrow> bool outcome" where
  "failure_not_acked target a g =
     andthen (get_sender a g) (\<lambda>s.
     if s_state s = STATE_PENDING_REMOVAL then Inr False
     else if get_direct_ack s target \<noteq> None then Inr False
     else
       andthen (findo (\<lambda>b. andthen (get_sender b g) (\<lambda>t. Inr (find_indirect_ack target a s b t)))
                  (map snd (g_senders g))) (\<lambda>found.
       Inr (found = None)))"

definition can_gc_sender :: "sender \<Rightarrow> 'a group_scheme \<Rightarrow> bool outcome" where
  "can_gc_sender target g =
     andthen (findo (\<lambda>a. failure_not_acked target a g) (map snd (g_senders g))) (\<lambda>ret.
     Inr (ret = None))"

definition group_gc_array :: "'a group_scheme \<Rightarrow> ack_array outcome" where
  "group_gc_array g =
     andthen (foldo (\<lambda>a array. andthen (get_sender a g) (\<lambda>s. Inr (create_sender_array s array)))
                (map snd (g_senders g)) [])
       (foldo (\<lambda>a array. andthen (get_sender a g) (\<lambda>s. Inr (update_sender_acks s array)))
          (map snd (g_senders g)))"

definition group_gc_ack :: "u32 \<times> u32 \<Rightarrow> 'a group_scheme \<Rightarrow> 'a group_scheme outcome" where
  "group_gc_ack info g =
     andthen (deref (group_lookup (fst info) g)) (\<lambda>a. upd_sender a (sender_ack (snd info)) g)"

text \<open>The last loop of \<open>group_gc\<close>: it visits index \<open>i\<close> again after a removal.\<close>

function group_gc_pending :: "nat \<Rightarrow> 'a group_scheme \<Rightarrow> 'a group_scheme outcome" where
  "group_gc_pending i g =
     (if i < length (g_pending_removal g) then
        andthen (get_sender (g_pending_removal g ! i) g) (\<lambda>s.
        andthen (can_gc_sender s g) (\<lambda>b.
        if \<not> b then group_gc_pending (Suc i) g
        else
          let pending = remove_index_fast i (g_pending_removal g) in
          andthen (group_gc_acks (s_id s) (g\<lparr>g_pending_removal := pending\<rparr>)) (group_gc_pending i)))
      else Inr g)"
  by pat_completeness auto
termination
  by (relation "measure (\<lambda>(i, g). length (g_pending_removal g) - i)")
     (auto dest: group_gc_acks_frame[THEN holdsD])

declare group_gc_pending.simps [simp del]

definition group_gc :: "'a group_scheme \<Rightarrow> 'a group_scheme outcome" where
  "group_gc g =
     andthen (group_gc_array g) (\<lambda>array.
     andthen (foldo group_gc_ack array g) (\<lambda>g.
     group_gc_pending 0 g))"

end
