(* ===== verification/Sender_Pop.thy ===== *)
theory Sender_Pop
  imports Sender_Group
begin

text \<open>
  The delivery engine of \<open>lib/gibber/gibber-r-multicast-sender.c\<close>: popping packets out of the
  cache in causal order, putting fragmented data messages together again, collecting
  acknowledgements, and the entry points and timer callbacks that emit signals. The signal handlers
  are the argument \<open>h\<close>. The C functions \<open>check_depends\<close>, \<open>update_end\<close> and \<open>pop_packets\<close> call
  each other; here the nested call of \<open>pop_packets\<close> is the argument \<open>pp\<close>, and \<open>pop_packets\<close>
  ties the knot with fuel, which also bounds its loops.
\<close>

type_synonym 'a popper = "saddr \<Rightarrow> 'a group_scheme \<Rightarrow> 'a group_scheme outcome"

section \<open>Signals\<close>

definition signal_data ::
    "'a handler \<Rightarrow> saddr \<Rightarrow> u16 \<Rightarrow> u8 list \<Rightarrow> 'a group_scheme \<Rightarrow> 'a group_scheme outcome" where
  "signal_data h a stream_id data g =
     andthen (upd_sender a (\<lambda>s. set_state (max STATE_DATA_RUNNING (s_state s)) s) g)
       (h a (Received_data_signal stream_id data))"

definition signal_control_packet ::
    "'a handler \<Rightarrow> saddr \<Rightarrow> packet \<Rightarrow> 'a group_scheme \<Rightarrow> 'a group_scheme outcome" where
  "signal_control_packet h a p g =
     andthen (upd_sender a (\<lambda>s. set_state (max STATE_RUNNING (s_state s)) s) g)
       (h a (Received_control_packet_signal p))"

definition signal_failure :: "'a handler \<Rightarrow> saddr \<Rightarrow> 'a group_scheme \<Rightarrow> 'a group_scheme outcome" where
  "signal_failure h a g =
     andthen (get_sender a g) (\<lambda>s.
     if s_state s \<ge> STATE_FAILED then Inr g
     else h a Failed_signal (put_sender a (cancel_failure_timers s) g))"

section \<open>Timer callbacks\<close>

definition name_discovery_failed_cb ::
    "'a handler \<Rightarrow> saddr \<Rightarrow> 'a group_scheme \<Rightarrow> 'a group_scheme outcome" where
  "name_discovery_failed_cb h a g =
     andthen (get_sender a g) (\<lambda>s.
     andthen (assert_that (whois_timer s \<noteq> None)) (\<lambda>_.
     signal_failure h a (put_sender a (s\<lparr>whois_timer := None, fail_timer := None\<rparr>) g)))"

definition progress_failed_cb ::
    "'a handler \<Rightarrow> saddr \<Rightarrow> 'a group_scheme \<Rightarrow> 'a group_scheme outcome" where
  "progress_failed_cb h a g =
     andthen (get_sender a g) (\<lambda>s.
     signal_failure h a (put_sender a (s\<lparr>fail_timer := None\<rparr>) g))"

definition name_discovered ::
    "'a handler \<Rightarrow> saddr \<Rightarrow> u8 list option \<Rightarrow> 'a group_scheme \<Rightarrow> 'a group_scheme outcome" where
  "name_discovered h a name g =
     andthen (upd_sender a (\<lambda>s. Inr ((stop_whois_discovery s)\<lparr>s_name := name\<rparr>)) g) (\<lambda>g.
     andthen (h a (Name_discovered_signal name) g)
       (upd_sender a (\<lambda>s. Inr (schedule_progress_timer s))))"

definition request_repair ::
    "'a handler \<Rightarrow> saddr \<Rightarrow> u32 \<Rightarrow> 'a group_scheme \<Rightarrow> 'a group_scheme outcome" where
  "request_repair h a i g =
     andthen (upd_sender a (upd_info i (\<lambda>info. info\<lparr>pi_timeout := None\<rparr>)) g) (\<lambda>g.
     andthen (h a (Repair_request_signal i) g)
       (upd_sender a (\<lambda>s. Inr (schedule_repair i s))))"

definition do_repair ::
    "'a handler \<Rightarrow> saddr \<Rightarrow> u32 \<Rightarrow> 'a group_scheme \<Rightarrow> 'a group_scheme outcome" where
  "do_repair h a i g =
     andthen (get_sender a g) (\<lambda>s.
     andthen (deref (cached s i)) (\<lambda>info.
     case pi_packet info of
       None \<Rightarrow> Inl Assertion_failed
     | Some p \<Rightarrow>
         andthen (upd_sender a (upd_info i (\<lambda>info. info\<lparr>pi_timeout := None\<rparr>)) g) (\<lambda>g.
         andthen (h a (Repair_message_signal p) g) (\<lambda>g.
         andthen (get_sender a g) (\<lambda>s.
         andthen (deref (cached s i)) (\<lambda>info.
         if pi_repeating info then upd_sender a (schedule_do_repair i) g else Inr g))))))"

definition do_whois_reply :: "'a handler \<Rightarrow> saddr \<Rightarrow> 'a group_scheme \<Rightarrow> 'a group_scheme outcome" where
  "do_whois_reply h a g =
     andthen (h a Whois_reply_signal g) (upd_sender a (\<lambda>s. Inr (s\<lparr>whois_timer := None\<rparr>)))"

definition do_whois_request :: "'a handler \<Rightarrow> saddr \<Rightarrow> 'a group_scheme \<Rightarrow> 'a group_scheme outcome" where
  "do_whois_request h a g =
     andthen (upd_sender a (\<lambda>s. Inr (schedule_whois_request True s)) g) (h a Whois_request_signal)"

section \<open>Dependencies\<close>

definition sender_update_end ::
    "'a popper \<Rightarrow> saddr \<Rightarrow> u32 \<Rightarrow> 'a group_scheme \<Rightarrow> 'a group_scheme outcome" where
  "sender_update_end pp a packet_id g =
     andthen (get_sender a g) (\<lambda>s.
     andthen (assert_that (s_state s = STATE_FAILED)) (\<lambda>_.
     if packet_diff (end_point s) packet_id \<ge> 0
     then pp a (put_sender a (s\<lparr>end_point := packet_id\<rparr>) g)
     else Inr g))"

fun check_depends_loop ::
    "'a popper \<Rightarrow> bool \<Rightarrow> sender_info list \<Rightarrow> 'a group_scheme \<Rightarrow> (bool \<times> 'a group_scheme) outcome" where
  "check_depends_loop pp data [] g = Inr (True, g)"
| "check_depends_loop pp data ((sender_id, packet_id) # infos) g =
     (case group_lookup sender_id g of
        None \<Rightarrow> check_depends_loop pp data infos g
      | Some b \<Rightarrow>
          andthen (get_sender b g) (\<lambda>s.
          if s_state s = STATE_NEW \<or> s_state s = STATE_UNKNOWN_FAILED
          then check_depends_loop pp data infos g
          else
            let other = (if data then next_output_data_packet s else next_output_packet s) in
            if packet_diff packet_id other < 0 then
              andthen (if s_state s = STATE_FAILED then sender_update_end pp b packet_id g
                       else Inr g) (\<lambda>g.
              Inr (False, g))
            else check_depends_loop pp data infos g))"

definition check_depends ::
    "'a popper \<Rightarrow> packet \<Rightarrow> bool \<Rightarrow> 'a group_scheme \<Rightarrow> (bool \<times> 'a group_scheme) outcome" where
  "check_depends pp p data g =
     andthen (assert_that (is_reliable_packet p)) (\<lambda>_.
     check_depends_loop pp data (pkt_depends p) g)"

section \<open>Data messages\<close>

text \<open>The fields \<open>data.data\<close> of the union: flags, total size and stream id.\<close>

definition data_fields :: "packet \<Rightarrow> (u8 \<times> u32 \<times> u16) outcome" where
  "data_fields p =
     (case pkt_data p of
        Data flags total_size stream_id _ \<Rightarrow> Inr (flags, total_size, stream_id)
      | _ \<Rightarrow> Inl Wrong_union_member)"

definition has_flag :: "u8 \<Rightarrow> u8 \<Rightarrow> bool" where
  "has_flag flags f \<longleftrightarrow> flags AND f \<noteq> 0"

definition is_data_end :: "packet \<Rightarrow> bool" where
  "is_data_end p \<longleftrightarrow>
     (case pkt_data p of Data flags _ _ _ \<Rightarrow> has_flag flags DATA_PACKET_END | _ \<Rightarrow> False)"

definition is_data_of_stream :: "u16 \<Rightarrow> packet \<Rightarrow> bool" where
  "is_data_of_stream stream_id p \<longleftrightarrow>
     (case pkt_data p of Data _ _ sid _ \<Rightarrow> sid = stream_id | _ \<Rightarrow> False)"

definition is_data_start :: "u16 \<Rightarrow> packet \<Rightarrow> bool" where
  "is_data_start stream_id p \<longleftrightarrow>
     (case pkt_data p of
        Data flags _ sid _ \<Rightarrow> sid = stream_id \<and> has_flag flags DATA_PACKET_START
      | _ \<Rightarrow> False)"

definition update_next_data_output_state :: "sender \<Rightarrow> sender outcome" where
  "update_next_data_output_state s =
     andthen (findo (\<lambda>i.
         case cached s i of
           None \<Rightarrow> Inr False
         | Some info \<Rightarrow> andthen (deref (pi_packet info)) (\<lambda>p. Inr (is_data_end p)))
       (seq_range (next_output_data_packet s + 1) (next_output_packet s))) (\<lambda>found.
     Inr (s\<lparr>next_output_data_packet :=
       (case found of Some i \<Rightarrow> i | None \<Rightarrow> next_output_packet s)\<rparr>))"

text \<open>Marks a packet as popped and tries to drop it from the cache.\<close>

definition set_popped :: "u32 \<Rightarrow> sender \<Rightarrow> sender outcome" where
  "set_popped i s =
     andthen (upd_info i (\<lambda>info. info\<lparr>pi_popped := True\<rparr>) s) (packet_info_try_gc i)"

text \<open>The backward search of \<open>pop_data_packet\<close> for the first fragment.\<close>

lemma packet_diff_pred: "packet_diff a (a - 1) < 0"
  using packet_diff_near_neg[of a "a - 1"] by simp

function find_data_start :: "sender \<Rightarrow> u16 \<Rightarrow> u32 \<Rightarrow> packet_info option outcome" where
  "find_data_start s stream_id i =
     (if packet_diff (first_packet s) i \<ge> 0 then
        (case cached s i of
           None \<Rightarrow> find_data_start s stream_id (i - 1)
         | Some info \<Rightarrow>
             andthen (deref (pi_packet info)) (\<lambda>p.
             if is_data_start stream_id p then Inr (Some info)
             else find_data_start s stream_id (i - 1)))
      else Inr None)"
  by pat_completeness auto
termination
proof (relation "measure (\<lambda>(s, _, i). unat (i + 1 - first_packet s))", simp)
  have less: "unat (i - 1 + 1 - first_packet s) < unat (i + 1 - first_packet s)"
    if "0 \<le> packet_diff (first_packet s) i" for s i
  proof -
    have "i + 1 - first_packet s \<noteq> 0"
    proof
      assume "i + 1 - first_packet s = 0"
      then have "first_packet s = i + 1" by simp
      with that packet_diff_pred[of "i + 1"] show False by simp
    qed
    then show ?thesis
      using unat_minus_one[of "i + 1 - first_packet s"]
      by (simp add: algebra_simps unat_gt_0)
  qed
  then show "\<And>s stream_id i. 0 \<le> packet_diff (first_packet s) i \<Longrightarrow> cached s i = None \<Longrightarrow>
      ((s, stream_id, i - 1), s, stream_id, i) \<in> measure (\<lambda>(s, _, i). unat (i + 1 - first_packet s))"
    by simp
  show "\<And>s stream_id i x2 x. 0 \<le> packet_diff (first_packet s) i \<Longrightarrow> cached s i = Some x2 \<Longrightarrow>
      deref (pi_packet x2) = Inr x \<Longrightarrow> \<not> is_data_start stream_id x \<Longrightarrow>
      ((s, stream_id, i - 1), s, stream_id, i) \<in> measure (\<lambda>(s, _, i). unat (i + 1 - first_packet s))"
    using less by simp
qed

declare find_data_start.simps [simp del]

text \<open>The stream of the message that ends at \<open>next_output_data_packet\<close>, and its first fragment.\<close>

definition locate_data :: "sender \<Rightarrow> (u16 \<times> packet_info option) outcome" where
  "locate_data s =
     (case cached s (next_output_data_packet s) of
        None \<Rightarrow> Inl Assertion_failed
      | Some info \<Rightarrow>
          andthen (deref (pi_packet info)) (\<lambda>p.
          andthen (data_fields p) (\<lambda>(flags, _, stream_id).
          andthen (assert_that (has_flag flags DATA_PACKET_END)) (\<lambda>_.
          if has_flag flags DATA_PACKET_START then Inr (stream_id, Some info)
          else andthen (find_data_start s stream_id (pkt_packet_id p - 1)) (\<lambda>found.
               Inr (stream_id, found))))))"

text \<open>The forward pass: the offset reached, the data copied so far, and the sender.\<close>

fun gather_data ::
    "u16 \<Rightarrow> nat \<Rightarrow> u32 list \<Rightarrow> nat \<times> u8 list \<times> sender \<Rightarrow> (nat \<times> u8 list \<times> sender) outcome" where
  "gather_data stream_id payload_size [] (off, data, s) = Inr (off, data, s)"
| "gather_data stream_id payload_size (i # is) (off, data, s) =
     (case cached s i of
        None \<Rightarrow> gather_data stream_id payload_size is (off, data, s)
      | Some tp \<Rightarrow>
          andthen (deref (pi_packet tp)) (\<lambda>q.
          if is_data_of_stream stream_id q then
            andthen (packet_get_payload q) (\<lambda>d.
            if off + length d > payload_size then Inr (off + length d, data, s)
            else
              andthen (set_popped i s) (\<lambda>s.
              gather_data stream_id payload_size is (off + length d, data @ d, s)))
          else gather_data stream_id payload_size is (off, data, s)))"

definition incorrect_data_size ::
    "'a handler \<Rightarrow> saddr \<Rightarrow> 'a group_scheme \<Rightarrow> (bool \<times> 'a group_scheme) outcome" where
  "incorrect_data_size h a g = andthen (signal_failure h a g) (\<lambda>g. Inr (False, g))"

definition output_single ::
    "'a handler \<Rightarrow> saddr \<Rightarrow> packet_info \<Rightarrow> packet \<Rightarrow> 'a group_scheme \<Rightarrow> (bool \<times> 'a group_scheme) outcome" where
  "output_single h a info p g =
     andthen (packet_get_payload p) (\<lambda>data.
     andthen (data_fields p) (\<lambda>(_, total_size, stream_id).
     if length data \<noteq> unat total_size then incorrect_data_size h a g
     else
       andthen (upd_sender a update_next_data_output_state g) (\<lambda>g.
       andthen (signal_data h a stream_id data g) (\<lambda>g.
       andthen (upd_sender a (set_popped (pi_packet_id info)) g) (\<lambda>g.
       Inr (True, g))))))"

definition output_fragments ::
    "'a handler \<Rightarrow> saddr \<Rightarrow> u16 \<Rightarrow> packet_info \<Rightarrow> packet \<Rightarrow> 'a group_scheme \<Rightarrow>
     (bool \<times> 'a group_scheme) outcome" where
  "output_fragments h a stream_id info p g =
     andthen (get_sender a g) (\<lambda>s.
     andthen (data_fields p) (\<lambda>(_, total_size, _).
     andthen (gather_data stream_id (unat total_size)
                (seq_range (pi_packet_id info) (next_output_data_packet s + 1)) (0, [], s))
       (\<lambda>(off, data, s).
     let g = put_sender a s g in
     if off \<noteq> unat total_size then incorrect_data_size h a g
     else
       andthen (upd_sender a update_next_data_output_state g) (\<lambda>g.
       andthen (signal_data h a stream_id data g) (\<lambda>g.
       Inr (True, g))))))"

definition skip_data :: "saddr \<Rightarrow> 'a group_scheme \<Rightarrow> (bool \<times> 'a group_scheme) outcome" where
  "skip_data a g =
     andthen (upd_sender a update_next_data_output_state g) (\<lambda>g. Inr (True, g))"

text \<open>The rest of \<open>pop_data_packet\<close>, once the first packet \<open>p\<close> of the message is known.\<close>

definition output_message ::
    "'a handler \<Rightarrow> 'a popper \<Rightarrow> saddr \<Rightarrow> u16 \<Rightarrow> packet_info \<Rightarrow> packet \<Rightarrow> 'a group_scheme \<Rightarrow>
     (bool \<times> 'a group_scheme) outcome" where
  "output_message h pp a stream_id info p g =
     andthen (check_depends pp p True g) (\<lambda>(ok, g).
     if \<not> ok then Inr (False, g)
     else
       andthen (get_sender a g) (\<lambda>s.
       if pkt_packet_id p = next_output_data_packet s then output_single h a info p g
       else output_fragments h a stream_id info p g))"

definition pop_data_packet ::
    "'a handler \<Rightarrow> 'a popper \<Rightarrow> saddr \<Rightarrow> 'a group_scheme \<Rightarrow> (bool \<times> 'a group_scheme) outcome" where
  "pop_data_packet h pp a g =
     andthen (get_sender a g) (\<lambda>s.
     if holding_data s \<and> packet_diff (next_output_data_packet s) (holding_point s) \<le> 0
     then Inr (False, g)
     else
       andthen (locate_data s) (\<lambda>(stream_id, found).
       case found of
         None \<Rightarrow> skip_data a g
       | Some info \<Rightarrow>
           if s_state s \<noteq> STATE_DATA_RUNNING \<and> \<not> start_data s then skip_data a g
           else if start_data s \<and> packet_diff (start_point s) (pi_packet_id info) < 0
           then skip_data a g
           else
             andthen (deref (pi_packet info)) (\<lambda>p. output_message h pp a stream_id info p g)))"

section \<open>Acknowledgements\<close>

text \<open>The loop of \<open>update_acks\<close>: whether an ack went backward, and whether any changed.\<close>

fun update_acks_loop ::
    "u32 \<Rightarrow> sender_info list \<Rightarrow> bool \<Rightarrow> sender \<Rightarrow> bool \<times> bool \<times> sender" where
  "update_acks_loop packet_id [] updated s = (False, updated, s)"
| "update_acks_loop packet_id ((si_sender, si_packet) # infos) updated s =
     (let (info, updated, s) =
        (case map_of (acks s) si_sender of
           Some info \<Rightarrow> (info, updated, s)
         | None \<Rightarrow>
             let info = (ack_info_new si_sender)
                          \<lparr>ack_packet_id := si_packet, ack_first_packet_id := packet_id\<rparr>
             in (info, True, s\<lparr>acks := AList.update si_sender info (acks s)\<rparr>))
      in if packet_diff (ack_packet_id info) si_packet < 0 then (True, updated, s)
         else if packet_diff (ack_packet_id info) si_packet > 0 then
           update_acks_loop packet_id infos True
             (s\<lparr>acks := AList.update si_sender
                 (info\<lparr>ack_packet_id := si_packet, ack_first_packet_id := packet_id\<rparr>) (acks s)\<rparr>)
         else update_acks_loop packet_id infos updated s)"

definition update_acks ::
    "'a handler \<Rightarrow> saddr \<Rightarrow> packet \<Rightarrow> 'a group_scheme \<Rightarrow> 'a group_scheme outcome" where
  "update_acks h a p g =
     andthen (get_sender a g) (\<lambda>s.
     let (backward, updated, s) = update_acks_loop (pkt_packet_id p) (pkt_depends p) False s;
         g = put_sender a s g
     in if backward then signal_failure h a g
        else if updated then group_gc g
        else Inr g)"

section \<open>Popping\<close>

definition pop_next_data ::
    "'a handler \<Rightarrow> 'a popper \<Rightarrow> saddr \<Rightarrow> packet \<Rightarrow> 'a group_scheme \<Rightarrow> 'a group_scheme outcome" where
  "pop_next_data h pp a p g =
     andthen (get_sender a g) (\<lambda>s.
     let s' = s\<lparr>next_output_packet := next_output_packet s + 1\<rparr> in
     if next_output_data_packet s = next_output_packet s then
       andthen (data_fields p) (\<lambda>(flags, _, _).
       if has_flag flags DATA_PACKET_END then
         andthen (pop_data_packet h pp a (put_sender a s' g)) (\<lambda>(_, g). Inr g)
       else
         Inr (put_sender a (s'\<lparr>next_output_data_packet := next_output_data_packet s' + 1\<rparr>) g))
     else Inr (put_sender a s' g))"

definition advance_control :: "sender \<Rightarrow> sender" where
  "advance_control s =
     (let s = (if next_output_packet s = next_output_data_packet s
               then s\<lparr>next_output_data_packet := next_output_data_packet s + 1\<rparr> else s)
      in s\<lparr>next_output_packet := next_output_packet s + 1\<rparr>)"

definition output_control ::
    "'a handler \<Rightarrow> saddr \<Rightarrow> packet \<Rightarrow> 'a group_scheme \<Rightarrow> 'a group_scheme outcome" where
  "output_control h a p g =
     andthen (upd_sender a (\<lambda>s. Inr (advance_control s)) g) (\<lambda>g.
     if pkt_type p \<noteq> PACKET_TYPE_NO_DATA then signal_control_packet h a p g else Inr g)"

definition pop_next_control ::
    "'a handler \<Rightarrow> saddr \<Rightarrow> packet_info \<Rightarrow> packet \<Rightarrow> 'a group_scheme \<Rightarrow> 'a group_scheme outcome" where
  "pop_next_control h a info p g =
     andthen (output_control h a p g) (upd_sender a (set_popped (pi_packet_id info)))"

text \<open>The rest of \<open>pop_packet\<close>, once the next packet is found in the cache.\<close>

definition pop_found_packet ::
    "'a handler \<Rightarrow> 'a popper \<Rightarrow> saddr \<Rightarrow> packet_info \<Rightarrow> packet \<Rightarrow> 'a group_scheme \<Rightarrow>
     (bool \<times> 'a group_scheme) outcome" where
  "pop_found_packet h pp a info p g =
     andthen (update_acks h a p g) (\<lambda>g.
     andthen (check_depends pp p False g) (\<lambda>(ok, g).
     if \<not> ok then Inr (False, g)
     else
       andthen (if pkt_type p = PACKET_TYPE_DATA then pop_next_data h pp a p g
                else pop_next_control h a info p g) (\<lambda>g.
       andthen (upd_sender a (\<lambda>s. Inr (schedule_progress_timer s)) g) (\<lambda>g.
       Inr (True, g)))))"

definition pop_next_packet ::
    "'a handler \<Rightarrow> 'a popper \<Rightarrow> saddr \<Rightarrow> 'a group_scheme \<Rightarrow> (bool \<times> 'a group_scheme) outcome" where
  "pop_next_packet h pp a g =
     andthen (get_sender a g) (\<lambda>s.
     if s_state s = STATE_FAILED \<and> packet_diff (end_point s) (next_output_packet s) \<ge> 0
     then Inr (False, g)
     else case cached s (next_output_packet s) of
       None \<Rightarrow> Inr (False, g)
     | Some info \<Rightarrow>
         (case pi_packet info of
            None \<Rightarrow> Inr (False, g)
          | Some p \<Rightarrow>
              andthen (assert_that (is_reliable_packet p)) (\<lambda>_.
              pop_found_packet h pp a info p g)))"

definition pop_packet ::
    "'a handler \<Rightarrow> 'a popper \<Rightarrow> saddr \<Rightarrow> 'a group_scheme \<Rightarrow> (bool \<times> 'a group_scheme) outcome" where
  "pop_packet h pp a g =
     andthen (get_sender a g) (\<lambda>s.
     andthen (if next_output_data_packet s \<noteq> next_output_packet s then pop_data_packet h pp a g
              else Inr (False, g)) (\<lambda>(popped, g).
     if popped then Inr (True, g) else pop_next_packet h pp a g))"

primrec do_pop_loop ::
    "'a handler \<Rightarrow> 'a popper \<Rightarrow> nat \<Rightarrow> saddr \<Rightarrow> bool \<Rightarrow> 'a group_scheme \<Rightarrow>
     (bool \<times> 'a group_scheme) outcome" where
  "do_pop_loop h pp 0 a popped g = Inl Out_of_fuel"
| "do_pop_loop h pp (Suc n) a popped g =
     andthen (get_sender a g) (\<lambda>s.
     if s_state s \<le> STATE_FAILED then
       andthen (pop_packet h pp a g) (\<lambda>(b, g).
       if b then do_pop_loop h pp n a True g else Inr (popped, g))
     else Inr (popped, g))"

definition do_pop_packets ::
    "'a handler \<Rightarrow> 'a popper \<Rightarrow> nat \<Rightarrow> saddr \<Rightarrow> 'a group_scheme \<Rightarrow> (bool \<times> 'a group_scheme) outcome" where
  "do_pop_packets h pp n a g =
     andthen (get_sender a g) (\<lambda>s.
     if s_state s < STATE_PREPARING \<or> s_state s > STATE_FAILED then Inr (False, g)
     else if g_stopped g then Inr (False, g)
     else do_pop_loop h pp n a False g)"

definition senders_collect :: "saddr \<Rightarrow> 'a group_scheme \<Rightarrow> 'a group_scheme outcome" where
  "senders_collect a g =
     andthen (get_sender a g) (\<lambda>s.
     Inr (if s_state s < STATE_PENDING_REMOVAL
          then g\<lparr>g_pop_queue := g_pop_queue g @ [a]\<rparr> else g))"

text \<open>\<open>while ((s = g_queue_pop_head (priv->group->pop_queue)) != NULL)\<close>\<close>

primrec pop_queue_loop ::
    "'a handler \<Rightarrow> 'a popper \<Rightarrow> nat \<Rightarrow> nat \<Rightarrow> bool \<Rightarrow> 'a group_scheme \<Rightarrow>
     (bool \<times> 'a group_scheme) outcome" where
  "pop_queue_loop h pp m 0 pop g = Inl Out_of_fuel"
| "pop_queue_loop h pp m (Suc n) pop g =
     (case g_pop_queue g of
        [] \<Rightarrow> Inr (pop, g)
      | a # q \<Rightarrow>
          andthen (do_pop_packets h pp m a (g\<lparr>g_pop_queue := q\<rparr>)) (\<lambda>(b, g).
          pop_queue_loop h pp m n (pop \<or> b) g))"

text \<open>\<open>while (pop || g_queue_peek_head (priv->group->pop_queue) != NULL)\<close>\<close>

primrec pop_rounds ::
    "'a handler \<Rightarrow> 'a popper \<Rightarrow> nat \<Rightarrow> nat \<Rightarrow> bool \<Rightarrow> 'a group_scheme \<Rightarrow> 'a group_scheme outcome" where
  "pop_rounds h pp m 0 pop g = Inl Out_of_fuel"
| "pop_rounds h pp m (Suc n) pop g =
     (if pop \<or> g_pop_queue g \<noteq> [] then
        andthen (if pop then foreach_sender senders_collect (g\<lparr>g_pop_queue := []\<rparr>) else Inr g) (\<lambda>g.
        andthen (pop_queue_loop h pp m m False g) (\<lambda>(pop, g).
        pop_rounds h pp m n pop g))
      else Inr g)"

primrec pop_packets :: "'a handler \<Rightarrow> nat \<Rightarrow> 'a popper" where
  "pop_packets h 0 a g = Inl Out_of_fuel"
| "pop_packets h (Suc n) a g =
     (if g_popping g then
        Inr (if a \<in> set (g_pop_queue g) then g else g\<lparr>g_pop_queue := g_pop_queue g @ [a]\<rparr>)
      else
        andthen (do_pop_packets h (pop_packets h n) n a (g\<lparr>g_popping := True\<rparr>)) (\<lambda>(pop, g).
        andthen (pop_rounds h (pop_packets h n) n n pop g) (\<lambda>g.
        Inr (g\<lparr>g_popping := False\<rparr>))))"

section \<open>Entry points\<close>

definition store_packet :: "packet \<Rightarrow> sender \<Rightarrow> sender" where
  "store_packet p s =
     (let info = (case cached s (pkt_packet_id p) of
                    Some info \<Rightarrow> info | None \<Rightarrow> packet_info_new (pkt_packet_id p));
          s = s\<lparr>packet_cache := AList.update (pkt_packet_id p)
                 (info\<lparr>pi_timeout := None, pi_packet := Some p\<rparr>) (packet_cache s)\<rparr>
      in if packet_diff (next_input_packet s) (pkt_packet_id p) \<ge> 0
         then (fold schedule_repair (seq_range (next_input_packet s) (pkt_packet_id p)) s)
                \<lparr>next_input_packet := pkt_packet_id p + 1\<rparr>
         else s)"

definition insert_packet ::
    "'a handler \<Rightarrow> nat \<Rightarrow> saddr \<Rightarrow> packet \<Rightarrow> 'a group_scheme \<Rightarrow> 'a group_scheme outcome" where
  "insert_packet h n a p g =
     andthen (get_sender a g) (\<lambda>s.
     andthen (assert_that (s_state s > STATE_NEW)) (\<lambda>_.
     if (case cached s (pkt_packet_id p) of None \<Rightarrow> False | Some info \<Rightarrow> pi_packet info \<noteq> None)
     then Inr g
     else pop_packets h n a (put_sender a (store_packet p s) g)))"

definition sender_push ::
    "'a handler \<Rightarrow> nat \<Rightarrow> saddr \<Rightarrow> packet \<Rightarrow> 'a group_scheme \<Rightarrow> 'a group_scheme outcome" where
  "sender_push h n a p g =
     andthen (get_sender a g) (\<lambda>s.
     andthen (assert_that (s_id s = pkt_sender p)) (\<lambda>_.
     if s_state s < STATE_PREPARING then Inr g
     else
       let diff = packet_diff (next_output_packet s) (pkt_packet_id p) in
       if diff \<ge> 0 \<and> diff < PACKET_CACHE_SIZE then insert_packet h n a p g
       else Inr g))"

definition senders_updated :: "'a handler \<Rightarrow> nat \<Rightarrow> 'a popper" where
  "senders_updated h n a g = pop_packets h n a g"

definition sender_hold_data ::
    "'a handler \<Rightarrow> nat \<Rightarrow> saddr \<Rightarrow> u32 \<Rightarrow> 'a group_scheme \<Rightarrow> 'a group_scheme outcome" where
  "sender_hold_data h n a packet_id g =
     andthen (upd_sender a (\<lambda>s. Inr (s\<lparr>holding_data := True, holding_point := packet_id\<rparr>)) g)
       (pop_packets h n a)"

definition sender_release_data ::
    "'a handler \<Rightarrow> nat \<Rightarrow> saddr \<Rightarrow> 'a group_scheme \<Rightarrow> 'a group_scheme outcome" where
  "sender_release_data h n a g =
     andthen (upd_sender a (\<lambda>s. Inr (s\<lparr>holding_data := False\<rparr>)) g) (pop_packets h n a)"

definition sender_whois_push ::
    "'a handler \<Rightarrow> nat \<Rightarrow> saddr \<Rightarrow> packet \<Rightarrow> 'a group_scheme \<Rightarrow> 'a group_scheme outcome" where
  "sender_whois_push h n a p g =
     andthen (get_sender a g) (\<lambda>s.
     case pkt_data p of
       Whois_request sender_id \<Rightarrow>
         andthen (assert_that (sender_id = s_id s)) (\<lambda>_.
         Inr (if s_name s \<noteq> None then
                (if whois_timer s = None
                 then put_sender a (s\<lparr>whois_timer := Some (Timer Whois_reply_cb 50 200)\<rparr>) g
                 else g)
              else put_sender a (schedule_whois_request True s) g))
     | Whois_reply name \<Rightarrow>
         andthen (assert_that (pkt_sender p = s_id s)) (\<lambda>_.
         andthen (if s_name s = None then name_discovered h a name g
                  else Inr (put_sender a (stop_whois_discovery s) g))
           (pop_packets h n a))
     | _ \<Rightarrow> Inl Assertion_failed)"

text \<open>The first sender pending removal that has the given id and satisfies \<open>f\<close>.\<close>

fun repair_pending :: "u32 \<Rightarrow> u32 \<Rightarrow> saddr list \<Rightarrow> 'a group_scheme \<Rightarrow> (bool \<times> 'a group_scheme) outcome" where
  "repair_pending sender_id packet_id [] g = Inr (False, g)"
| "repair_pending sender_id packet_id (a # as) g =
     andthen (get_sender a g) (\<lambda>s.
     if s_id s = sender_id then
       andthen (sender_repair_request packet_id s) (\<lambda>(b, s).
       if b then Inr (True, put_sender a s g)
       else repair_pending sender_id packet_id as (put_sender a s g))
     else repair_pending sender_id packet_id as g)"

definition find_pending :: "u32 \<Rightarrow> 'a group_scheme \<Rightarrow> saddr option outcome" where
  "find_pending sender_id g =
     findo (\<lambda>a. andthen (get_sender a g) (\<lambda>s. Inr (s_id s = sender_id))) (g_pending_removal g)"

definition group_repair_request :: "u32 \<Rightarrow> u32 \<Rightarrow> 'a group_scheme \<Rightarrow> (bool \<times> 'a group_scheme) outcome" where
  "group_repair_request sender_id packet_id g =
     andthen (assert_that (sender_id \<noteq> 0)) (\<lambda>_.
     andthen (case group_lookup sender_id g of
                None \<Rightarrow> Inr (False, g)
              | Some a \<Rightarrow>
                  andthen (get_sender a g) (\<lambda>s.
                  andthen (sender_repair_request packet_id s) (\<lambda>(b, s).
                  Inr (b, put_sender a s g)))) (\<lambda>(b, g).
     if b then Inr (True, g)
     else repair_pending sender_id packet_id (g_pending_removal g) g))"

definition group_push_whois ::
    "'a handler \<Rightarrow> nat \<Rightarrow> packet \<Rightarrow> saddr option \<Rightarrow> 'a group_scheme \<Rightarrow> (bool \<times> 'a group_scheme) outcome" where
  "group_push_whois h n p sender g =
     (case sender of
        None \<Rightarrow> Inr (False, g)
      | Some a \<Rightarrow> andthen (sender_whois_push h n a p g) (\<lambda>g. Inr (True, g)))"

definition group_push_reliable ::
    "'a handler \<Rightarrow> nat \<Rightarrow> packet \<Rightarrow> 'a group_scheme \<Rightarrow> (bool \<times> 'a group_scheme) outcome" where
  "group_push_reliable h n p g =
     andthen (case group_lookup (pkt_sender p) g of
                None \<Rightarrow> Inr None
              | Some a \<Rightarrow> andthen (get_sender a g) (\<lambda>s.
                  Inr (if s_state s > STATE_NEW then Some a else None))) (\<lambda>target.
     case target of
       Some a \<Rightarrow> andthen (sender_push h n a p g) (\<lambda>g. Inr (True, g))
     | None \<Rightarrow> andthen (find_pending (pkt_sender p) g) (\<lambda>found. Inr (found \<noteq> None, g)))"

definition group_push_packet ::
    "'a handler \<Rightarrow> nat \<Rightarrow> packet \<Rightarrow> 'a group_scheme \<Rightarrow> (bool \<times> 'a group_scheme) outcome" where
  "group_push_packet h n p g =
     (case pkt_data p of
        Whois_request sender_id \<Rightarrow>
          andthen (case group_lookup sender_id g of
                     Some a \<Rightarrow> Inr (Some a) | None \<Rightarrow> find_pending sender_id g) (\<lambda>sender.
          group_push_whois h n p sender g)
      | Whois_reply _ \<Rightarrow> group_push_whois h n p (group_lookup (pkt_sender p) g) g
      | Repair_request sender_id packet_id \<Rightarrow> group_repair_request sender_id packet_id g
      | Session \<Rightarrow> Inr (group_lookup (pkt_sender p) g \<noteq> None, g)
      | _ \<Rightarrow> if is_reliable_packet p then group_push_reliable h n p g else Inr (False, g))"

end
