(* ===== verification/Engine.thy ===== *)
theory Engine
  imports Sender_Pop
begin

text \<open>
  Reasoning about the delivery engine of \<open>Sender_Pop\<close>. \<open>stutter\<close> says what the steps that
  do not advance a sender may change; every such operation is shown to be one. The locale
  \<open>pop_engine\<close> is the contract between the engine and the signal handlers: from what the
  handlers do on each signal, and from what the engine's few advancing steps do, it derives what a
  whole run of \<open>pop_packets\<close> does.
\<close>

section \<open>Steps that do not advance a sender\<close>

fun entry_kept :: "packet_info option \<Rightarrow> packet_info option \<Rightarrow> bool" where
  "entry_kept None y \<longleftrightarrow> y = None"
| "entry_kept (Some x) None \<longleftrightarrow> \<not> pi_repeating x"
| "entry_kept (Some x) (Some y) \<longleftrightarrow>
     pi_packet_id y = pi_packet_id x \<and> pi_packet y = pi_packet x \<and> pi_timeout y = pi_timeout x
     \<and> pi_repeating y = pi_repeating x \<and> (pi_acked x \<longrightarrow> pi_acked y) \<and> (pi_popped x \<longrightarrow> pi_popped y)"

definition stutter :: "sender \<Rightarrow> sender \<Rightarrow> bool" where
  "stutter s t \<longleftrightarrow>
     s_id t = s_id s \<and> s_name t = s_name s \<and> s_state s \<le> s_state t
     \<and> (s_state s \<le> STATE_FAILED \<longrightarrow> s_state t \<le> STATE_FAILED)
     \<and> next_output_packet t = next_output_packet s \<and> next_input_packet t = next_input_packet s
     \<and> holding_data t = holding_data s \<and> holding_point t = holding_point s
     \<and> start_data t = start_data s \<and> start_point t = start_point s
     \<and> (\<forall>i. entry_kept (cached s i) (cached t i))"

lemma entry_kept_refl [simp]: "entry_kept x x"
  by (cases x) simp_all

lemma entry_kept_trans: "entry_kept x y \<Longrightarrow> entry_kept y z \<Longrightarrow> entry_kept x z"
  by (cases x; cases y; cases z) auto

lemma entry_kept_Some:
  "entry_kept x (Some b) \<Longrightarrow> \<exists>a. x = Some a \<and> pi_packet b = pi_packet a \<and> pi_packet_id b = pi_packet_id a"
  by (cases x) auto

lemma stutter_refl [simp]: "stutter s s"
  by (simp add: stutter_def)

lemma stutter_trans: "stutter s t \<Longrightarrow> stutter t u \<Longrightarrow> stutter s u"
  unfolding stutter_def by (auto intro: entry_kept_trans order_trans)

lemma stutter_cached: "stutter s t \<Longrightarrow> entry_kept (cached s i) (cached t i)"
  by (simp add: stutter_def)

lemma cached_upd [simp]:
  "cached (s\<lparr>packet_cache := c\<rparr>) i = map_of c i"
  "cached (s\<lparr>s_state := st\<rparr>) i = cached s i"
  "cached (s\<lparr>next_output_packet := w\<rparr>) i = cached s i"
  "cached (s\<lparr>next_output_data_packet := w\<rparr>) i = cached s i"
  "cached (s\<lparr>next_input_packet := w\<rparr>) i = cached s i"
  "cached (s\<lparr>acks := ak\<rparr>) i = cached s i"
  "cached (s\<lparr>first_packet := w\<rparr>) i = cached s i"
  "cached (s\<lparr>whois_timer := tm\<rparr>) i = cached s i"
  "cached (s\<lparr>fail_timer := tm\<rparr>) i = cached s i"
  "cached (s\<lparr>end_point := w\<rparr>) i = cached s i"
  "cached (s\<lparr>s_name := nm\<rparr>) i = cached s i"
  "cached (s\<lparr>holding_data := b\<rparr>) i = cached s i"
  "cached (s\<lparr>holding_point := w\<rparr>) i = cached s i"
  "cached (s\<lparr>start_data := b\<rparr>) i = cached s i"
  "cached (s\<lparr>start_point := w\<rparr>) i = cached s i"
  by (simp_all add: cached_def)

lemma stutter_fields [simp]:
  "stutter s (s\<lparr>fail_timer := t\<rparr>)"
  "stutter s (s\<lparr>whois_timer := t\<rparr>)"
  "stutter s (s\<lparr>end_point := e\<rparr>)"
  "stutter s (s\<lparr>next_output_data_packet := w\<rparr>)"
  "stutter s (s\<lparr>acks := ak\<rparr>)"
  by (simp_all add: stutter_def)

lemma stutter_cancel [simp]: "stutter s (cancel_failure_timers s)"
  by (simp add: cancel_failure_timers_def stutter_def)

lemma stutter_progress [simp]: "stutter s (schedule_progress_timer s)"
  by (simp add: schedule_progress_timer_def stutter_def)

lemma stutter_cleanup [simp]: "stutter s (cleanup_acks i s)"
  by (simp add: cleanup_acks_def)

lemma stutter_set_state:
  "st \<le> STATE_FAILED \<Longrightarrow> holds (stutter s) (set_state (max st (s_state s)) s)"
  by (simp add: set_state_def stutter_def)

lemma running_states [simp]: "STATE_DATA_RUNNING \<le> STATE_FAILED" "STATE_RUNNING \<le> STATE_FAILED"
  by (simp_all add: state_order)

lemma stutter_upd_info:
  assumes "\<And>x. entry_kept (Some x) (Some (f x))"
  shows "holds (stutter s) (upd_info i f s)"
  using assms by (auto simp: upd_info_def stutter_def update_conv' cached_def)

lemma stutter_try_gc: "holds (stutter s) (packet_info_try_gc i s)"
  by (auto simp: packet_info_try_gc_def stutter_def Let_def cached_def delete_conv' map_of_delete
      split: option.splits)

lemma holds_trans:
  "(\<And>x y z. R x y \<Longrightarrow> R y z \<Longrightarrow> R x z) \<Longrightarrow> holds (R x) m \<Longrightarrow> (\<And>y. m = Inr y \<Longrightarrow> R x y \<Longrightarrow> holds (R y) (f y)) \<Longrightarrow>
    holds (R x) (andthen m f)"
  by (cases m) (auto intro: holds_mono)

lemmas stutter_andthen = holds_trans[where R = stutter, OF stutter_trans]

lemma stutter_set_popped: "holds (stutter s) (set_popped i s)"
  unfolding set_popped_def
  by (rule stutter_andthen) (auto intro: stutter_upd_info stutter_try_gc simp del: holds_simps)

lemma stutter_foldo:
  assumes "\<And>x s. holds (stutter s) (f x s)"
  shows "holds (stutter s) (foldo f xs s)"
  by (rule foldo_holds) (auto intro: holds_mono[OF assms] stutter_trans)

lemma stutter_sender_ack: "holds (stutter s) (sender_ack ack s)"
proof -
  have "holds (stutter s) (case cached s i of None \<Rightarrow> Inr s
      | Some _ \<Rightarrow> andthen (upd_info i (\<lambda>info. info\<lparr>pi_acked := True\<rparr>) s) (packet_info_try_gc i))" for i s
    by (cases "cached s i")
       (auto intro!: stutter_andthen stutter_upd_info stutter_try_gc simp del: holds_simps(3))
  then show ?thesis unfolding sender_ack_def by (auto intro: stutter_foldo)
qed

lemma stutter_update_next_data: "holds (stutter s) (update_next_data_output_state s)"
  by (auto simp: update_next_data_output_state_def holds_iff andthen_eq_Inr)

lemma stutter_acks_before: "stutter (s\<lparr>acks := ak\<rparr>) t \<Longrightarrow> stutter s t"
  by (rule stutter_trans[OF stutter_fields(5)])

lemma stutter_update_acks_loop:
  "update_acks_loop i infos u s = (b, u', s') \<Longrightarrow> stutter s s'"
proof (induction infos arbitrary: u s)
  case (Cons si infos)
  then show ?case
    by (cases si) (auto simp: Let_def split: option.splits if_splits
        dest!: Cons.IH intro: stutter_acks_before)
qed simp

lemma stutter_gather:
  "holds (\<lambda>(off, d, t). stutter s t) (gather_data stream n is (off, d, s))"
proof (induction "is" arbitrary: off d s)
  case (Cons i "is")
  have set_popped: "holds (\<lambda>t. holds (\<lambda>(off, d, u). stutter s u)
      (gather_data stream n is (off', d', t))) (set_popped i s)" for off' d'
    by (rule holds_mono[OF stutter_set_popped])
       (auto intro: stutter_trans holds_mono[OF Cons.IH])
  show ?case
    by (auto simp: set_popped Cons.IH split: option.splits intro!: holdsI)
qed simp

lemma gather_length:
  "gather_data stream n is (length d, d, s) = Inr (off, data, t) \<Longrightarrow> off = length data \<or> n < off"
proof (induction "is" arbitrary: d s)
  case (Cons i "is")
  show ?case
  proof (cases "cached s i")
    case None
    with Cons show ?thesis by simp
  next
    case (Some tp)
    then show ?thesis using Cons.prems Cons.IH[of d s]
      by (auto simp: andthen_eq_Inr split: if_splits dest!: Cons.IH[of "_ @ _", simplified])
  qed
qed simp

section \<open>What the engine checks before it advances\<close>

definition dep_met :: "bool \<Rightarrow> sender_info \<Rightarrow> 'a group_scheme \<Rightarrow> bool" where
  "dep_met data info g \<longleftrightarrow>
     (case group_lookup (fst info) g of
        None \<Rightarrow> True
      | Some b \<Rightarrow> (case g_store g b of
          None \<Rightarrow> False
        | Some s \<Rightarrow> s_state s = STATE_NEW \<or> s_state s = STATE_UNKNOWN_FAILED
            \<or> packet_diff (snd info)
                (if data then next_output_data_packet s else next_output_packet s) \<ge> 0))"

definition deps_met :: "bool \<Rightarrow> packet \<Rightarrow> 'a group_scheme \<Rightarrow> bool" where
  "deps_met data p g \<longleftrightarrow> (\<forall>info \<in> set (pkt_depends p). dep_met data info g)"

lemma check_depends_loop_True:
  "holds (\<lambda>(ok, g'). ok \<longrightarrow> g' = g \<and> (\<forall>info \<in> set infos. dep_met data info g))
     (check_depends_loop pp data infos g)"
proof (induction infos)
  case (Cons info infos)
  obtain i pid where info: "info = (i, pid)" by (cases info)
  have rest: "holds (\<lambda>(ok, g'). ok \<longrightarrow> g' = g \<and> (\<forall>info \<in> set (info # infos). dep_met data info g))
      (check_depends_loop pp data infos g)" if "dep_met data info g"
    using that by (auto intro!: holds_mono[OF Cons.IH])
  show ?case
  proof (cases "group_lookup i g")
    case None
    with rest show ?thesis by (simp add: info dep_met_def)
  next
    case (Some b)
    show ?thesis
    proof (cases "g_store g b")
      case None
      with Some show ?thesis by (simp add: info get_sender_def)
    next
      case (Some s)
      with \<open>group_lookup i g = Some b\<close> rest show ?thesis
        by (simp add: info get_sender_def Let_def dep_met_def)
    qed
  qed
qed simp

lemma check_depends_True:
  "check_depends pp p data g = Inr (True, g') \<Longrightarrow> g' = g \<and> deps_met data p g \<and> is_reliable_packet p"
  using check_depends_loop_True[of g "pkt_depends p" data pp]
  by (auto simp: check_depends_def deps_met_def andthen_eq_Inr holds_iff)

text \<open>The message the engine is about to hand out, out of the packets a sender has cached.\<close>

definition complete_message :: "sender \<Rightarrow> u16 \<Rightarrow> u8 list \<Rightarrow> bool" where
  "complete_message s stream_id data \<longleftrightarrow>
     (\<exists>info p flags total_size.
        locate_data s = Inr (stream_id, Some info) \<and> pi_packet info = Some p
        \<and> data_fields p = Inr (flags, total_size, stream_id)
        \<and> length data = unat total_size
        \<and> (if pkt_packet_id p = next_output_data_packet s then packet_get_payload p = Inr data
           else \<exists>s'. gather_data stream_id (unat total_size)
                  (seq_range (pi_packet_id info) (next_output_data_packet s + 1)) (0, [], s)
                = Inr (length data, data, s')))"

lemma find_data_start_stream:
  "find_data_start s stream i = Inr (Some info) \<Longrightarrow> \<exists>p. pi_packet info = Some p \<and> is_data_start stream p"
proof (induction s stream i rule: find_data_start.induct)
  case (1 s stream i)
  then show ?case
    by (subst (asm) (3) find_data_start.simps)
       (auto split: if_splits option.splits simp: andthen_eq_Inr)
qed

lemma locate_data_stream:
  "locate_data s = Inr (stream, Some info) \<Longrightarrow> pi_packet info = Some p \<Longrightarrow>
     data_fields p = Inr (flags, total_size, sid) \<Longrightarrow> sid = stream"
  by (auto simp: locate_data_def andthen_eq_Inr is_data_start_def data_fields_def
      split: option.splits if_splits packet_data.splits dest!: find_data_start_stream)

end
