(* ===== verification/Engine_Run.thy ===== *)
theory Engine_Run
  imports Engine
begin

text \<open>
  The contract between the delivery engine and its signal handlers, as two locales.
  \<open>engine_steps\<close> relates the group before and after the steps that advance nobody (\<open>R0\<close>),
  given what the handlers do for data and failure signals. \<open>pop_engine\<close> adds the steps that advance
  a sender (\<open>R\<close>) and derives the effect of \<open>pop_packets\<close>. \<open>I\<close> is an invariant the
  relations may rely on, \<open>J\<close> what is known of every data message that is handed out, and
  \<open>cand a p g\<close> says that \<open>p\<close> is the packet sender \<open>a\<close> has to deliver next.
\<close>

section \<open>Steps that do not advance a sender\<close>

locale engine_steps =
  fixes h :: "'a handler"
    and I :: "'a group_scheme \<Rightarrow> bool"
    and R0 :: "'a group_scheme \<Rightarrow> 'a group_scheme \<Rightarrow> bool"
    and J :: "saddr \<Rightarrow> u16 \<Rightarrow> u8 list \<Rightarrow> bool"
  assumes R0_refl: "R0 g g"
    and R0_trans: "R0 g g' \<Longrightarrow> R0 g' g'' \<Longrightarrow> R0 g g''"
    and R0_I: "I g \<Longrightarrow> R0 g g' \<Longrightarrow> I g'"
    and R0_sender: "I g \<Longrightarrow> g_store g a = Some s \<Longrightarrow> stutter s t \<Longrightarrow> R0 g (put_sender a t g)"
    and R0_queue: "(\<And>b. b \<in> set q \<Longrightarrow> b \<in> set (g_pop_queue g) \<or> g_store g b \<noteq> None) \<Longrightarrow>
        R0 g (g\<lparr>g_pop_queue := q\<rparr>)"
    and R0_pending: "set q \<subseteq> set (g_pending_removal g) \<Longrightarrow> R0 g (g\<lparr>g_pending_removal := q\<rparr>)"
    and J_message: "I g \<Longrightarrow> g_store g a = Some s \<Longrightarrow> complete_message s stream data \<Longrightarrow> J a stream data"
    and R0_data: "I g \<Longrightarrow> J a stream data \<Longrightarrow> holds (R0 g) (h a (Received_data_signal stream data) g)"
    and R0_failed: "I g \<Longrightarrow> holds (R0 g) (h a Failed_signal g)"
begin

lemma R0_then:
  assumes "I g" and m: "holds (\<lambda>x. R0 g (p x)) m"
    and f: "\<And>x. m = Inr x \<Longrightarrow> I (p x) \<Longrightarrow> R0 g (p x) \<Longrightarrow> holds (\<lambda>y. R0 (p x) (q y)) (f x)"
  shows "holds (\<lambda>y. R0 g (q y)) (andthen m f)"
proof (cases m)
  case (Inr x)
  with m have "R0 g (p x)" by simp
  with \<open>I g\<close> have "holds (\<lambda>y. R0 (p x) (q y)) (f x)" by (intro f Inr) (auto intro: R0_I)
  with Inr \<open>R0 g (p x)\<close> show ?thesis by (auto intro: holds_mono R0_trans)
qed simp

lemmas R0_then1 = R0_then[where p = "\<lambda>x. x" and q = "\<lambda>x. x"]
lemmas R0_then_pair = R0_then[where p = "\<lambda>x. x" and q = snd]
lemmas R0_pair_then = R0_then[where p = snd and q = "\<lambda>x. x"]
lemmas R0_pair_pair = R0_then[where p = snd and q = snd]

lemma R0_upd:
  "I g \<Longrightarrow> (\<And>s. g_store g a = Some s \<Longrightarrow> holds (stutter s) (f s)) \<Longrightarrow> holds (R0 g) (upd_sender a f g)"
  unfolding upd_sender_def
  by (intro holds_andthenI) (auto simp: holds_iff intro: R0_sender)

lemma R0_foldo:
  "I g \<Longrightarrow> (\<And>x g. I g \<Longrightarrow> holds (R0 g) (f x g)) \<Longrightarrow> holds (R0 g) (foldo f xs g)"
proof (induction xs arbitrary: g)
  case (Cons x xs)
  then show ?case unfolding foldo.simps by (intro R0_then1) auto
qed (simp add: R0_refl)

lemma R0_signal_failure: "I g \<Longrightarrow> holds (R0 g) (signal_failure h a g)"
proof -
  assume I: "I g"
  have "holds (R0 g) (h a Failed_signal (put_sender a (cancel_failure_timers s) g))"
    if "g_store g a = Some s" for s
  proof -
    have step: "R0 g (put_sender a (cancel_failure_timers s) g)"
      using I that by (rule R0_sender) simp
    show ?thesis by (rule holds_mono[OF R0_failed[OF R0_I[OF I step]]]) (rule R0_trans[OF step])
  qed
  then show ?thesis
    by (cases "g_store g a") (simp_all add: signal_failure_def get_sender_def R0_refl)
qed

lemma R0_signal_data:
  assumes "I g" "J a stream data"
  shows "holds (R0 g) (signal_data h a stream data g)"
  unfolding signal_data_def using assms
  by (intro R0_then1 R0_upd stutter_set_state) (auto intro: R0_data)

subsection \<open>Garbage collection\<close>

lemma R0_gc_acks: "I g \<Longrightarrow> holds (R0 g) (group_gc_acks i g)"
  unfolding group_gc_acks_def foreach_sender_def
  by (auto simp: R0_refl simp del: holds_simps(3) intro!: holds_andthenI R0_foldo R0_upd)

lemma R0_gc_pending: "I g \<Longrightarrow> holds (R0 g) (group_gc_pending i g)"
proof (induction i g rule: group_gc_pending.induct)
  case (1 i g)
  note I = \<open>I g\<close>
  show ?case
  proof (cases "i < length (g_pending_removal g)")
    case False
    then show ?thesis by (simp add: group_gc_pending.simps R0_refl)
  next
    case True
    let ?q = "remove_index_fast i (g_pending_removal g)"
    have pend: "R0 g (g\<lparr>g_pending_removal := ?q\<rparr>)"
      by (rule R0_pending) (rule set_remove_index_fast)
    have removed: "holds (R0 g) (andthen (group_gc_acks (s_id s) (g\<lparr>g_pending_removal := ?q\<rparr>))
        (group_gc_pending i))"
      if "get_sender (g_pending_removal g ! i) g = Inr s" "can_gc_sender s g = Inr True" for s
    proof -
      have "holds (R0 (g\<lparr>g_pending_removal := ?q\<rparr>))
          (andthen (group_gc_acks (s_id s) (g\<lparr>g_pending_removal := ?q\<rparr>)) (group_gc_pending i))"
        using R0_I[OF I pend] 1 True that by (intro R0_then1 R0_gc_acks) auto
      then show ?thesis by (rule holds_mono) (rule R0_trans[OF pend])
    qed
    then show ?thesis using 1 True
      by (subst group_gc_pending.simps) (auto simp: Let_def simp del: holds_simps(3)
          intro!: holds_andthenI)
  qed
qed

lemma R0_group_gc: "I g \<Longrightarrow> holds (R0 g) (group_gc g)"
proof -
  assume I: "I g"
  have ack: "holds (R0 g) (group_gc_ack x g)" if "I g" for x g
    unfolding group_gc_ack_def using that
    by (cases "group_lookup (fst x) g") (auto intro: R0_upd stutter_sender_ack)
  have "holds (R0 g) (andthen (foldo group_gc_ack array g) (group_gc_pending 0))" for array
    using I by (intro R0_then1 R0_foldo ack R0_gc_pending)
  then show ?thesis unfolding group_gc_def by (rule holds_andthenI)
qed

lemma R0_update_acks: "I g \<Longrightarrow> holds (R0 g) (update_acks h a p g)"
proof -
  assume I: "I g"
  show ?thesis
  proof (cases "g_store g a")
    case (Some s)
    obtain b u t where loop: "update_acks_loop (pkt_packet_id p) (pkt_depends p) False s = (b, u, t)"
      by (metis prod_cases3)
    have put: "R0 g (put_sender a t g)"
      using I Some stutter_update_acks_loop[OF loop] by (rule R0_sender)
    have "holds (R0 (put_sender a t g)) (signal_failure h a (put_sender a t g))"
      "holds (R0 (put_sender a t g)) (group_gc (put_sender a t g))"
      using R0_I[OF I put] by (auto intro: R0_signal_failure R0_group_gc)
    then show ?thesis using Some loop put
      by (auto simp: update_acks_def get_sender_def Let_def intro: holds_mono R0_trans)
  qed (simp add: update_acks_def get_sender_def)
qed

subsection \<open>Data messages\<close>

lemma R0_skip: "I g \<Longrightarrow> holds (\<lambda>x. R0 g (snd x)) (skip_data a g)"
  unfolding skip_data_def
  by (rule R0_then_pair) (auto intro!: R0_upd stutter_update_next_data simp: R0_refl)

lemma R0_incorrect: "I g \<Longrightarrow> holds (\<lambda>x. R0 g (snd x)) (incorrect_data_size h a g)"
  unfolding incorrect_data_size_def
  by (rule R0_then_pair) (auto intro: R0_signal_failure simp: R0_refl)

lemma R0_output_single:
  assumes I: "I g" and "packet_get_payload p = Inr data" "data_fields p = Inr (flags, total_size, stream)"
    and J: "length data = unat total_size \<Longrightarrow> J a stream data"
  shows "holds (\<lambda>x. R0 g (snd x)) (output_single h a info p g)"
proof -
  have "holds (\<lambda>x. R0 g (snd x))
      (andthen (upd_sender a update_next_data_output_state g) (\<lambda>g.
       andthen (signal_data h a stream data g) (\<lambda>g.
       andthen (upd_sender a (set_popped (pi_packet_id info)) g) (\<lambda>g. Inr (True, g)))))"
    if "J a stream data"
    using I that
    by (intro R0_then_pair R0_upd R0_signal_data stutter_update_next_data stutter_set_popped)
       (auto simp: R0_refl)
  then show ?thesis using assms R0_incorrect[OF I] by (auto simp: output_single_def simp del: holds_simps(3))
qed

lemma R0_output_fragments:
  assumes I: "I g" and s: "g_store g a = Some s" and p: "data_fields p = Inr (flags, total_size, sid)"
    and J: "\<And>data t. gather_data stream (unat total_size)
        (seq_range (pi_packet_id info) (next_output_data_packet s + 1)) (0, [], s)
        = Inr (unat total_size, data, t) \<Longrightarrow> J a stream data"
  shows "holds (\<lambda>x. R0 g (snd x)) (output_fragments h a stream info p g)"
proof -
  let ?gather = "gather_data stream (unat total_size)
        (seq_range (pi_packet_id info) (next_output_data_packet s + 1)) (0, [], s)"
  have "holds (\<lambda>x. R0 g (snd x))
      (if off \<noteq> unat total_size then incorrect_data_size h a (put_sender a t g)
       else andthen (upd_sender a update_next_data_output_state (put_sender a t g)) (\<lambda>g.
            andthen (signal_data h a stream data g) (\<lambda>g. Inr (True, g))))"
    if gather: "?gather = Inr (off, data, t)" for off data t
  proof -
    have "stutter s t" using gather stutter_gather by (force dest: holdsD)
    then have put: "R0 g (put_sender a t g)" by (rule R0_sender[OF I s])
    have I': "I (put_sender a t g)" using I put by (rule R0_I)
    have "holds (\<lambda>x. R0 (put_sender a t g) (snd x))
       (andthen (upd_sender a update_next_data_output_state (put_sender a t g)) (\<lambda>g.
            andthen (signal_data h a stream data g) (\<lambda>g. Inr (True, g))))"
      if "off = unat total_size"
      using I' J[of data t] gather that
      by (intro R0_then_pair R0_upd R0_signal_data stutter_update_next_data) (auto simp: R0_refl)
    with R0_incorrect[OF I'] show ?thesis
      by (auto simp del: holds_simps(3) intro: holds_mono R0_trans[OF put])
  qed
  then show ?thesis using s p
    by (auto simp: output_fragments_def get_sender_def Let_def simp del: holds_simps(3)
        intro!: holds_andthenI)
qed

subsection \<open>Dependencies\<close>

lemma R0_update_end:
  assumes pp: "\<And>b g. I g \<Longrightarrow> g_store g b \<noteq> None \<Longrightarrow> holds (R0 g) (pp b g)" and I: "I g"
  shows "holds (R0 g) (sender_update_end pp a i g)"
  unfolding sender_update_end_def
proof (intro holds_andthenI)
  fix s u
  assume "get_sender a g = Inr s"
  then have put: "R0 g (put_sender a (s\<lparr>end_point := i\<rparr>) g)"
    by (intro R0_sender I) auto
  show "holds (R0 g) (if 0 \<le> packet_diff (end_point s) i
      then pp a (put_sender a (s\<lparr>end_point := i\<rparr>) g) else Inr g)"
    using pp[OF R0_I[OF I put], of a] by (auto intro: holds_mono R0_trans[OF put] simp: R0_refl)
qed

lemma R0_check_depends:
  assumes pp: "\<And>b g. I g \<Longrightarrow> g_store g b \<noteq> None \<Longrightarrow> holds (R0 g) (pp b g)" and I: "I g"
  shows "holds (\<lambda>x. R0 g (snd x)) (check_depends pp p data g)"
proof -
  have "holds (\<lambda>x. R0 g (snd x)) (check_depends_loop pp data infos g)" for infos
  proof (induction infos)
    case (Cons info infos)
    obtain i pid where info: "info = (i, pid)" by (cases info)
    have "R0 g g'" if "sender_update_end pp b pid g = Inr g'" for b g'
      using R0_update_end[where pp = pp, OF pp I] that by (auto dest: holdsD)
    with Cons show ?case
      by (auto simp: info Let_def andthen_eq_Inr R0_refl split: option.split intro!: holdsI dest: holdsD)
  qed (simp add: R0_refl)
  then show ?thesis by (simp add: check_depends_def)
qed

lemma R0_output_message:
  assumes pp: "\<And>b g. I g \<Longrightarrow> g_store g b \<noteq> None \<Longrightarrow> holds (R0 g) (pp b g)" and I: "I g"
    and s: "g_store g a = Some s" and loc: "locate_data s = Inr (stream, Some info)"
    and p: "pi_packet info = Some p"
  shows "holds (\<lambda>x. R0 g (snd x)) (output_message h pp a stream info p g)"
  unfolding output_message_def
  proof (rule R0_pair_pair[OF I R0_check_depends[where pp = pp, OF pp I]])
    fix x assume dep: "check_depends pp p True g = Inr x"
    have "holds (\<lambda>y. R0 g (snd y)) (if pkt_packet_id p = next_output_data_packet s
        then output_single h a info p g else output_fragments h a stream info p g)"
    proof (cases "data_fields p")
      case (Inl e)
      then show ?thesis
        by (auto simp: output_single_def output_fragments_def holds_iff andthen_eq_Inr)
    next
      case (Inr f)
      then obtain flags total_size where f: "data_fields p = Inr (flags, total_size, stream)"
        using locate_data_stream[OF loc p] by (cases f) auto
      have "J a stream data" if "pkt_packet_id p = next_output_data_packet s"
        "packet_get_payload p = Inr data" "length data = unat total_size" for data
        using J_message[OF I s] loc p f that by (auto simp: complete_message_def)
      then have "holds (\<lambda>y. R0 g (snd y)) (output_single h a info p g)"
        if "pkt_packet_id p = next_output_data_packet s"
      proof (cases "packet_get_payload p")
        case (Inl e)
        then show ?thesis by (simp add: output_single_def)
      next
        case (Inr data)
        then show ?thesis
          using that \<open>\<And>data. _ \<Longrightarrow> _ \<Longrightarrow> _ \<Longrightarrow> J a stream data\<close>
          by (intro R0_output_single[OF I Inr f]) blast
      qed
      moreover have "J a stream data" if "pkt_packet_id p \<noteq> next_output_data_packet s"
        and gather: "gather_data stream (unat total_size)
          (seq_range (pi_packet_id info) (next_output_data_packet s + 1)) (0, [], s)
        = Inr (unat total_size, data, t)" for data t
      proof -
        have "length data = unat total_size"
          using gather_length[of stream "unat total_size" _ "[]"] gather by fastforce
        then show ?thesis
          using J_message[OF I s] loc p f that by (auto simp: complete_message_def)
      qed
      ultimately show ?thesis using R0_output_fragments[OF I s f] by auto
    qed
    with dep s show "holds (\<lambda>y. R0 (snd x) (snd y)) (case x of (ok, g) \<Rightarrow>
         if \<not> ok then Inr (False, g)
         else andthen (get_sender a g) (\<lambda>s.
           if pkt_packet_id p = next_output_data_packet s then output_single h a info p g
           else output_fragments h a stream info p g))"
      by (cases x) (auto simp: R0_refl get_sender_def dest!: check_depends_True)
  qed

lemma R0_pop_data_packet:
  assumes pp: "\<And>b g. I g \<Longrightarrow> g_store g b \<noteq> None \<Longrightarrow> holds (R0 g) (pp b g)" and I: "I g"
  shows "holds (\<lambda>x. R0 g (snd x)) (pop_data_packet h pp a g)"
proof -
  have out: "holds (\<lambda>x. R0 g (snd x))
      (andthen (deref (pi_packet info)) (\<lambda>p. output_message h pp a stream info p g))"
    if "g_store g a = Some s" "locate_data s = Inr (stream, Some info)" for s stream info
    using R0_output_message[where pp = pp, OF pp I that] by (cases "pi_packet info") auto
  show ?thesis
    unfolding pop_data_packet_def using out R0_skip[OF I]
    by (auto simp: R0_refl simp del: holds_simps(3) intro!: holds_andthenI split: option.split)
qed

end

section \<open>Runs of the engine\<close>

locale pop_engine = engine_steps h I R0 J
  for h :: "'a handler" and I R0 J +
  fixes R :: "'a group_scheme \<Rightarrow> 'a group_scheme \<Rightarrow> bool"
    and cand :: "saddr \<Rightarrow> packet \<Rightarrow> 'a group_scheme \<Rightarrow> bool"
  assumes R0_R: "I g \<Longrightarrow> R0 g g' \<Longrightarrow> R g g'"
    and R_trans: "R g g' \<Longrightarrow> R g' g'' \<Longrightarrow> R g g''"
    and R_I: "I g \<Longrightarrow> R g g' \<Longrightarrow> I g'"
    and cand_intro: "I g \<Longrightarrow> g_store g a = Some s \<Longrightarrow> cached s (next_output_packet s) = Some info \<Longrightarrow>
        pi_packet info = Some p \<Longrightarrow> is_reliable_packet p \<Longrightarrow>
        \<not> (s_state s = STATE_FAILED \<and> packet_diff (end_point s) (next_output_packet s) \<ge> 0) \<Longrightarrow>
        cand a p g"
    and cand_R0: "I g \<Longrightarrow> cand a p g \<Longrightarrow> R0 g g' \<Longrightarrow> cand a p g'"
    and R_data: "I g \<Longrightarrow> cand a p g \<Longrightarrow> deps_met False p g \<Longrightarrow> pkt_type p = PACKET_TYPE_DATA \<Longrightarrow>
        g_store g a = Some s \<Longrightarrow>
        t = s\<lparr>next_output_packet := next_output_packet s + 1\<rparr> \<or>
        t = s\<lparr>next_output_packet := next_output_packet s + 1,
              next_output_data_packet := next_output_data_packet s + 1\<rparr> \<Longrightarrow>
        R g (put_sender a t g)"
    and R_control: "I g \<Longrightarrow> cand a p g \<Longrightarrow> deps_met False p g \<Longrightarrow> pkt_type p \<noteq> PACKET_TYPE_DATA \<Longrightarrow>
        holds (R g) (output_control h a p g)"
begin

lemma R_then:
  assumes "I g" and m: "holds (\<lambda>x. R g (p x)) m"
    and f: "\<And>x. m = Inr x \<Longrightarrow> I (p x) \<Longrightarrow> R g (p x) \<Longrightarrow> holds (\<lambda>y. R (p x) (q y)) (f x)"
  shows "holds (\<lambda>y. R g (q y)) (andthen m f)"
proof (cases m)
  case (Inr x)
  with m have "R g (p x)" by simp
  with \<open>I g\<close> have "holds (\<lambda>y. R (p x) (q y)) (f x)" by (intro f Inr) (auto intro: R_I)
  with Inr \<open>R g (p x)\<close> show ?thesis by (auto intro: holds_mono R_trans)
qed simp

lemmas R_then1 = R_then[where p = "\<lambda>x. x" and q = "\<lambda>x. x"]
lemmas R_then_pair = R_then[where p = "\<lambda>x. x" and q = snd]
lemmas R_pair_then = R_then[where p = snd and q = "\<lambda>x. x"]
lemmas R_pair_pair = R_then[where p = snd and q = snd]

lemma R_refl: "I g \<Longrightarrow> R g g"
  by (rule R0_R[OF _ R0_refl])

lemma R_of_R0: "I g \<Longrightarrow> holds (\<lambda>x. R0 g (p x)) m \<Longrightarrow> holds (\<lambda>x. R g (p x)) m"
  by (erule holds_mono) (rule R0_R)

lemma R_pop_next_data:
  assumes pp: "\<And>b g. I g \<Longrightarrow> g_store g b \<noteq> None \<Longrightarrow> holds (R0 g) (pp b g)"
    and I: "I g" and c: "cand a p g" "deps_met False p g" "pkt_type p = PACKET_TYPE_DATA"
  shows "holds (R g) (pop_next_data h pp a p g)"
  unfolding pop_next_data_def Let_def
proof (rule holds_andthenI)
  fix s assume "get_sender a g = Inr s"
  then have s: "g_store g a = Some s" by simp
  let ?t = "s\<lparr>next_output_packet := next_output_packet s + 1\<rparr>"
  have step: "R g (put_sender a ?t g)"
    "R g (put_sender a (?t\<lparr>next_output_data_packet := next_output_data_packet ?t + 1\<rparr>) g)"
    by (rule R_data[OF I c s]; simp)+
  have "holds (\<lambda>x. R (put_sender a ?t g) (snd x)) (pop_data_packet h pp a (put_sender a ?t g))"
    using R_I[OF I step(1)] by (intro R_of_R0 R0_pop_data_packet pp)
  then have "R g g'" if "pop_data_packet h pp a (put_sender a ?t g) = Inr (b, g')" for b g'
    using that R_trans[OF step(1)] by auto
  then show "holds (R g)
      (if next_output_data_packet s = next_output_packet s
       then andthen (data_fields p) (\<lambda>(flags, _, _).
         if has_flag flags DATA_PACKET_END
         then andthen (pop_data_packet h pp a (put_sender a ?t g)) (\<lambda>(_, g). Inr g)
         else Inr (put_sender a (?t\<lparr>next_output_data_packet := next_output_data_packet ?t + 1\<rparr>) g))
       else Inr (put_sender a ?t g))"
    using step by (auto simp: holds_iff andthen_eq_Inr split: if_splits)
qed

lemma R_pop_next_control:
  assumes I: "I g" and c: "cand a p g" "deps_met False p g" "pkt_type p \<noteq> PACKET_TYPE_DATA"
  shows "holds (R g) (pop_next_control h a info p g)"
  unfolding pop_next_control_def
  by (rule R_then1[OF I R_control[OF I c]])
     (auto intro!: R_of_R0[where p = "\<lambda>x. x"] R0_upd stutter_set_popped)

lemma R_pop_found_packet:
  assumes pp: "\<And>b g. I g \<Longrightarrow> g_store g b \<noteq> None \<Longrightarrow> holds (R0 g) (pp b g)" and I: "I g" and c: "cand a p g"
  shows "holds (\<lambda>x. R g (snd x)) (pop_found_packet h pp a info p g)"
  unfolding pop_found_packet_def
  proof (rule R_then_pair[OF I R_of_R0[OF I R0_update_acks[OF I]]])
    fix g' assume u: "update_acks h a p g = Inr g'" and I': "I g'"
    have c': "cand a p g'" using R0_update_acks[OF I, of a p] u by (auto intro: cand_R0[OF I c])
    show "holds (\<lambda>x. R g' (snd x)) (andthen (check_depends pp p False g') (\<lambda>(ok, g).
        if \<not> ok then Inr (False, g)
        else andthen (if pkt_type p = PACKET_TYPE_DATA then pop_next_data h pp a p g
                      else pop_next_control h a info p g) (\<lambda>g.
             andthen (upd_sender a (\<lambda>s. Inr (schedule_progress_timer s)) g) (\<lambda>g.
             Inr (True, g)))))"
    proof (rule R_pair_pair[OF I' R_of_R0[OF I' R0_check_depends[where pp = pp, OF pp I']]])
      fix x assume dep: "check_depends pp p False g' = Inr x" and I'': "I (snd x)"
      show "holds (\<lambda>y. R (snd x) (snd y)) (case x of (ok, g) \<Rightarrow>
        if \<not> ok then Inr (False, g)
        else andthen (if pkt_type p = PACKET_TYPE_DATA then pop_next_data h pp a p g
                      else pop_next_control h a info p g) (\<lambda>g.
             andthen (upd_sender a (\<lambda>s. Inr (schedule_progress_timer s)) g) (\<lambda>g.
             Inr (True, g))))"
      proof (cases "fst x")
        case False
        then show ?thesis using I'' by (cases x) (simp add: R_refl)
      next
        case True
        then have x: "x = (True, g')" and deps: "deps_met False p g'"
          using dep by (cases x; auto dest!: check_depends_True)+
        have "holds (R g') (if pkt_type p = PACKET_TYPE_DATA then pop_next_data h pp a p g'
                      else pop_next_control h a info p g')"
          using R_pop_next_data[where pp = pp, OF pp I' c' deps] R_pop_next_control[OF I' c' deps]
          by auto
        then have "holds (\<lambda>y. R g' (snd y))
          (andthen (if pkt_type p = PACKET_TYPE_DATA then pop_next_data h pp a p g'
                    else pop_next_control h a info p g') (\<lambda>g.
             andthen (upd_sender a (\<lambda>s. Inr (schedule_progress_timer s)) g) (\<lambda>g.
             Inr (True, g))))"
          by (rule R_then_pair[OF I'])
             (auto simp: R_refl simp del: holds_simps(3)
               intro!: R_then_pair R_of_R0[where p = "\<lambda>x. x"] R0_upd)
        then show ?thesis by (simp add: x del: holds_simps(3))
      qed
    qed
  qed

lemma R_pop_next_packet:
  assumes pp: "\<And>b g. I g \<Longrightarrow> g_store g b \<noteq> None \<Longrightarrow> holds (R0 g) (pp b g)" and I: "I g"
  shows "holds (\<lambda>x. R g (snd x)) (pop_next_packet h pp a g)"
proof -
  have found: "holds (\<lambda>x. R g (snd x)) (pop_found_packet h pp a info p g)"
    if "g_store g a = Some s" "cached s (next_output_packet s) = Some info" "pi_packet info = Some p"
      "is_reliable_packet p"
      "\<not> (s_state s = STATE_FAILED \<and> packet_diff (end_point s) (next_output_packet s) \<ge> 0)"
    for s info p
    by (rule R_pop_found_packet[where pp = pp, OF pp I cand_intro[OF I that]])
  show ?thesis
    unfolding pop_next_packet_def using I found
    by (auto simp: R_refl simp del: holds_simps(3) split: option.split intro!: holds_andthenI)
qed

lemma R_pop_packet:
  assumes pp: "\<And>b g. I g \<Longrightarrow> g_store g b \<noteq> None \<Longrightarrow> holds (R0 g) (pp b g)" and I: "I g"
  shows "holds (\<lambda>x. R g (snd x)) (pop_packet h pp a g)"
  unfolding pop_packet_def
proof (rule holds_andthenI)
  fix s
  have "holds (\<lambda>x. R g (snd x)) (if next_output_data_packet s \<noteq> next_output_packet s
      then pop_data_packet h pp a g else Inr (False, g))"
    using R_of_R0[OF I R0_pop_data_packet[where pp = pp, OF pp I]] R_refl[OF I] by simp
  then show "holds (\<lambda>x. R g (snd x))
      (andthen (if next_output_data_packet s \<noteq> next_output_packet s
         then pop_data_packet h pp a g else Inr (False, g)) (\<lambda>(popped, g).
       if popped then Inr (True, g) else pop_next_packet h pp a g))"
    by (rule R_pair_pair[OF I]) (auto simp: R_refl intro: R_pop_next_packet[where pp = pp, OF pp])
qed

lemma R_do_pop_loop:
  assumes pp: "\<And>b g. I g \<Longrightarrow> g_store g b \<noteq> None \<Longrightarrow> holds (R0 g) (pp b g)" and "I g"
  shows "holds (\<lambda>x. R g (snd x)) (do_pop_loop h pp n a popped g)"
  using \<open>I g\<close>
proof (induction n arbitrary: g popped)
  case (Suc n)
  have "holds (\<lambda>x. R g (snd x)) (andthen (pop_packet h pp a g) (\<lambda>(b, g).
      if b then do_pop_loop h pp n a True g else Inr (popped, g)))"
    by (rule R_pair_pair[OF Suc.prems R_pop_packet[where pp = pp, OF pp Suc.prems]])
       (auto simp: R_refl intro: Suc.IH)
  then show ?case
    by (auto simp: R_refl Suc.prems simp del: holds_simps(3) intro!: holds_andthenI)
qed simp

lemma R_do_pop_packets:
  assumes pp: "\<And>b g. I g \<Longrightarrow> g_store g b \<noteq> None \<Longrightarrow> holds (R0 g) (pp b g)" and "I g"
  shows "holds (\<lambda>x. R g (snd x)) (do_pop_packets h pp n a g)"
  using R_do_pop_loop[where pp = pp, OF pp] \<open>I g\<close>
  by (auto simp: do_pop_packets_def R_refl simp del: holds_simps(3) intro!: holds_andthenI)

lemma R_queue:
  "I g \<Longrightarrow> (\<And>b. b \<in> set q \<Longrightarrow> b \<in> set (g_pop_queue g) \<or> g_store g b \<noteq> None) \<Longrightarrow>
     R g (g\<lparr>g_pop_queue := q\<rparr>)"
  by (rule R0_R[OF _ R0_queue])

lemma R_pop_queue_loop:
  assumes pp: "\<And>b g. I g \<Longrightarrow> g_store g b \<noteq> None \<Longrightarrow> holds (R0 g) (pp b g)" and "I g"
  shows "holds (\<lambda>x. R g (snd x)) (pop_queue_loop h pp m n pop g)"
  using \<open>I g\<close>
proof (induction n arbitrary: g pop)
  case (Suc n)
  show ?case
  proof (cases "g_pop_queue g")
    case (Cons a q)
    let ?g = "g\<lparr>g_pop_queue := q\<rparr>"
    have q: "R g ?g" by (rule R_queue[OF Suc.prems]) (simp add: Cons)
    have I: "I ?g" using Suc.prems q by (rule R_I)
    have "holds (\<lambda>x. R ?g (snd x)) (andthen (do_pop_packets h pp m a ?g) (\<lambda>(b, g).
        pop_queue_loop h pp m n (pop \<or> b) g))"
      by (rule R_pair_pair[OF I R_do_pop_packets[where pp = pp, OF pp I]])
         (auto intro: Suc.IH)
    with Cons show ?thesis by (auto simp del: holds_simps(3) intro: holds_mono R_trans[OF q])
  qed (simp add: R_refl Suc.prems)
qed simp

lemma R_collect: "I g \<Longrightarrow> holds (R g) (foreach_sender senders_collect g)"
  unfolding foreach_sender_def
  by (intro R_of_R0[where p = "\<lambda>x. x"] R0_foldo)
     (auto simp: senders_collect_def R0_refl holds_iff andthen_eq_Inr intro: R0_queue)

lemma R_pop_rounds:
  assumes pp: "\<And>b g. I g \<Longrightarrow> g_store g b \<noteq> None \<Longrightarrow> holds (R0 g) (pp b g)" and "I g"
  shows "holds (R g) (pop_rounds h pp m n pop g)"
  using \<open>I g\<close>
proof (induction n arbitrary: g pop)
  case (Suc n)
  have empty: "R g (g\<lparr>g_pop_queue := []\<rparr>)" by (rule R_queue[OF Suc.prems]) simp
  have q: "I (g\<lparr>g_pop_queue := []\<rparr>)" using Suc.prems empty by (rule R_I)
  have collect: "holds (R g) (if pop then foreach_sender senders_collect (g\<lparr>g_pop_queue := []\<rparr>) else Inr g)"
    using R_collect[OF q] R_trans[OF empty] Suc.prems
    by (auto simp: R_refl intro: holds_mono)
  have "holds (R g)
      (andthen (if pop then foreach_sender senders_collect (g\<lparr>g_pop_queue := []\<rparr>) else Inr g) (\<lambda>g.
       andthen (pop_queue_loop h pp m m False g) (\<lambda>(pop, g). pop_rounds h pp m n pop g)))"
    by (rule R_then1[OF Suc.prems collect],
        rule R_pair_then[OF _ R_pop_queue_loop[where pp = pp, OF pp]])
       (auto intro: Suc.IH)
  then show ?case by (simp add: R_refl Suc.prems del: holds_simps(3))
qed simp

text \<open>The run a call of \<open>pop_packets\<close> starts when none is under way.\<close>

lemma R_pop_packets:
  assumes pp: "\<And>b g. I g \<Longrightarrow> g_store g b \<noteq> None \<Longrightarrow> holds (R0 g) (pop_packets h n b g)"
    and I: "I (g\<lparr>g_popping := True\<rparr>)" and idle: "\<not> g_popping g"
  shows "holds (\<lambda>g'. \<exists>g''. R (g\<lparr>g_popping := True\<rparr>) g'' \<and> I g'' \<and> g' = g''\<lparr>g_popping := False\<rparr>)
    (pop_packets h (Suc n) a g)"
proof -
  have "holds (R (g\<lparr>g_popping := True\<rparr>))
      (andthen (do_pop_packets h (pop_packets h n) n a (g\<lparr>g_popping := True\<rparr>)) (\<lambda>(pop, g).
       pop_rounds h (pop_packets h n) n n pop g))"
    by (rule R_pair_then[OF I R_do_pop_packets[where pp = "pop_packets h n", OF pp I]])
       (auto intro: R_pop_rounds[where pp = "pop_packets h n", OF pp])
  then show ?thesis using idle I
    by (auto simp: holds_iff andthen_eq_Inr split_def intro: R_I)
qed

end

end
