(* ===== verification/Delivery.thy ===== *)
theory Delivery
  imports Engine_Run "HOL-Library.Sublist"
begin

text \<open>
  What the delivery engine hands out. Every sender is a stream of packets, \<open>src a i\<close> being the
  packet that the sender at address \<open>a\<close> numbered \<open>i\<close>; the network may lose, repeat and reorder
  them. \<open>delivers\<close> is the specification: the control packets of each sender come out in the order
  they were numbered, without gaps or repetitions, none before the packets it causally depends on,
  and every data message is made of fragments of the sender's stream. \<open>quiet_handler\<close> is the
  contract of handlers that only record what they see; the engine is shown to meet the specification
  under it.
\<close>

section \<open>The specification\<close>

definition is_control :: "packet \<Rightarrow> bool" where
  "is_control p \<longleftrightarrow> pkt_type p \<noteq> PACKET_TYPE_DATA \<and> pkt_type p \<noteq> PACKET_TYPE_NO_DATA"

text \<open>The control packets among the \<open>k\<close> packets of a stream from number \<open>i\<close> on.\<close>

definition controls :: "(u32 \<Rightarrow> packet) \<Rightarrow> u32 \<Rightarrow> nat \<Rightarrow> packet list" where
  "controls f i k = filter is_control (map (\<lambda>j. f (i + of_nat j)) [0..<k])"

text \<open>The control packets of the sender \<open>a\<close> in a log.\<close>

fun control_of :: "saddr \<Rightarrow> saddr \<times> signal \<Rightarrow> packet list" where
  "control_of a (b, Received_control_packet_signal p) = (if b = a then [p] else [])"
| "control_of a _ = []"

definition control_log :: "saddr \<Rightarrow> (saddr \<times> signal) list \<Rightarrow> packet list" where
  "control_log a log = concat (map (control_of a) log)"

definition payload_of :: "packet \<Rightarrow> u8 list" where
  "payload_of p = (case pkt_data p of Data _ _ _ payload \<Rightarrow> payload | _ \<Rightarrow> [])"

text \<open>
  \<open>data\<close> is made of packets of the stream \<open>stream\<close> of \<open>f\<close>, in order, from a packet with the
  START flag, which says how long it is, to a packet with the END flag.
\<close>

definition message_from :: "(u32 \<Rightarrow> packet) \<Rightarrow> u16 \<Rightarrow> u8 list \<Rightarrow> bool" where
  "message_from f stream data \<longleftrightarrow>
     (\<exists>start last ids flags total_size.
        is_data_start stream (f start) \<and> is_data_end (f last)
        \<and> data_fields (f start) = Inr (flags, total_size, stream)
        \<and> length data = unat total_size
        \<and> subseq ids (seq_range start (last + 1))
        \<and> (\<forall>i \<in> set ids. is_data_of_stream stream (f i))
        \<and> data = concat (map (\<lambda>i. payload_of (f i)) ids))"

text \<open>The fragments of a stream between two packet numbers.\<close>

definition fragments :: "(u32 \<Rightarrow> packet) \<Rightarrow> u16 \<Rightarrow> u32 \<Rightarrow> u32 \<Rightarrow> packet list" where
  "fragments f stream start final = filter (is_data_of_stream stream) (map f (seq_range start (final + 1)))"

definition justified :: "(saddr \<Rightarrow> u32 \<Rightarrow> packet) \<Rightarrow> (saddr \<times> signal) list \<Rightarrow> bool" where
  "justified src log \<longleftrightarrow>
     (\<forall>a stream data. (a, Received_data_signal stream data) \<in> set log \<longrightarrow>
        message_from (src a) stream data)"

text \<open>Every control packet in the log comes after the packets it depends on.\<close>

definition causally_ordered :: "(saddr \<Rightarrow> u32 \<Rightarrow> packet) \<Rightarrow> 'a group_scheme \<Rightarrow> (saddr \<times> signal) list \<Rightarrow> bool" where
  "causally_ordered src g log \<longleftrightarrow>
     (\<forall>pre a p post. log = pre @ (a, Received_control_packet_signal p) # post \<longrightarrow>
        (\<forall>(i, pid) \<in> set (pkt_depends p). \<forall>b s.
           group_lookup i g = Some b \<longrightarrow> g_store g b = Some s \<longrightarrow>
           STATE_PREPARING \<le> s_state s \<longrightarrow> s_state s \<le> STATE_FAILED \<longrightarrow>
           (\<exists>k. control_log b pre = controls (src b) (next_output_packet s) k
              \<and> packet_diff pid (next_output_packet s + of_nat k) \<ge> 0)))"

definition advanced ::
    "(saddr \<Rightarrow> u32 \<Rightarrow> packet) \<Rightarrow> 'a group_scheme \<Rightarrow> 'a group_scheme \<Rightarrow> (saddr \<times> signal) list \<Rightarrow> bool" where
  "advanced src g g' log \<longleftrightarrow>
     g_senders g' = g_senders g
     \<and> (\<forall>a. g_store g a = None \<longrightarrow> g_store g' a = None \<and> control_log a log = [])
     \<and> (\<forall>a s. g_store g a = Some s \<longrightarrow> (\<exists>t k. g_store g' a = Some t
           \<and> s_id t = s_id s \<and> s_state s \<le> s_state t
           \<and> (s_state s \<le> STATE_FAILED \<longrightarrow> s_state t \<le> STATE_FAILED)
           \<and> next_output_packet t = next_output_packet s + of_nat k
           \<and> control_log a log = controls (src a) (next_output_packet s) k))"

text \<open>What is in the caches is what the senders sent.\<close>

definition from_src :: "(saddr \<Rightarrow> u32 \<Rightarrow> packet) \<Rightarrow> 'a group_scheme \<Rightarrow> bool" where
  "from_src src g \<longleftrightarrow>
     (\<forall>a s i info. g_store g a = Some s \<longrightarrow> cached s i = Some info \<longrightarrow>
        pi_packet_id info = i \<and> (\<forall>p. pi_packet info = Some p \<longrightarrow> p = src a i \<and> pkt_packet_id p = i))"

section \<open>Logs\<close>

lemma control_log_simps [simp]:
  "control_log a [] = []"
  "control_log a (x # xs) = control_of a x @ control_log a xs"
  "control_log a (xs @ ys) = control_log a xs @ control_log a ys"
  by (simp_all add: control_log_def)

lemma controls_0 [simp]: "controls f i 0 = []"
  by (simp add: controls_def)

lemma controls_add: "controls f i (k + l) = controls f i k @ controls f (i + of_nat k) l"
  by (induction l) (simp_all add: controls_def add.assoc)

lemma controls_1:
  "controls f i 1 = (if is_control (f i) then [f i] else [])"
  "controls f i (Suc 0) = (if is_control (f i) then [f i] else [])"
  by (simp_all add: controls_def)

lemma justified_append [simp]: "justified src (xs @ ys) \<longleftrightarrow> justified src xs \<and> justified src ys"
  by (auto simp: justified_def)

lemma justified_Nil [simp]: "justified src []"
  by (simp add: justified_def)

lemma causally_ordered_Nil [simp]: "causally_ordered src g []"
  by (simp add: causally_ordered_def)

lemma causal_no_control: "(\<And>b p. (b, Received_control_packet_signal p) \<notin> set log) \<Longrightarrow> causally_ordered src g log"
  unfolding causally_ordered_def by (metis in_set_conv_decomp)

lemma advanced_refl [simp]: "advanced src g g []"
  unfolding advanced_def by (auto intro!: exI[of _ 0])

lemma advanced_trans:
  assumes "advanced src g g' xs" "advanced src g' g'' ys"
  shows "advanced src g g'' (xs @ ys)"
  unfolding advanced_def
proof (intro conjI allI impI)
  show "g_senders g'' = g_senders g" using assms by (simp add: advanced_def)
next
  fix a assume "g_store g a = None"
  with assms have "g_store g' a = None" "control_log a xs = []" by (auto simp: advanced_def)
  with assms show "g_store g'' a = None" "control_log a (xs @ ys) = []"
    by (auto simp: advanced_def)
next
  fix a s assume "g_store g a = Some s"
  then obtain t k where t: "g_store g' a = Some t" "s_id t = s_id s" "s_state s \<le> s_state t"
    "s_state s \<le> STATE_FAILED \<longrightarrow> s_state t \<le> STATE_FAILED"
    "next_output_packet t = next_output_packet s + of_nat k"
    "control_log a xs = controls (src a) (next_output_packet s) k"
    using assms(1) unfolding advanced_def by blast
  then obtain u l where u: "g_store g'' a = Some u" "s_id u = s_id t" "s_state t \<le> s_state u"
    "s_state t \<le> STATE_FAILED \<longrightarrow> s_state u \<le> STATE_FAILED"
    "next_output_packet u = next_output_packet t + of_nat l"
    "control_log a ys = controls (src a) (next_output_packet t) l"
    using assms(2) unfolding advanced_def by blast
  from t u have "next_output_packet u = next_output_packet s + of_nat (k + l)"
    "control_log a (xs @ ys) = controls (src a) (next_output_packet s) (k + l)"
    by (simp_all add: controls_add algebra_simps)
  with t u show "\<exists>t k. g_store g'' a = Some t \<and> s_id t = s_id s \<and> s_state s \<le> s_state t
      \<and> (s_state s \<le> STATE_FAILED \<longrightarrow> s_state t \<le> STATE_FAILED)
      \<and> next_output_packet t = next_output_packet s + of_nat k
      \<and> control_log a (xs @ ys) = controls (src a) (next_output_packet s) k"
    by (intro exI[of _ u] exI[of _ "k + l"]) auto
qed

text \<open>Causal order composes: the second log starts where the first one ended.\<close>

lemma causal_append:
  assumes adv: "advanced src g g' xs" and xs: "causally_ordered src g xs" and ys: "causally_ordered src g' ys"
  shows "causally_ordered src g (xs @ ys)"
  unfolding causally_ordered_def
proof (intro allI impI ballI, clarify)
  fix pre a p post i pid b s
  assume split: "xs @ ys = pre @ (a, Received_control_packet_signal p) # post"
    and dep: "(i, pid) \<in> set (pkt_depends p)"
    and b: "group_lookup i g = Some b" "g_store g b = Some s"
    and st: "STATE_PREPARING \<le> s_state s" "s_state s \<le> STATE_FAILED"
  let ?goal = "\<exists>k. control_log b pre = controls (src b) (next_output_packet s) k
      \<and> packet_diff pid (next_output_packet s + of_nat k) \<ge> 0"
  consider us where "xs = pre @ (a, Received_control_packet_signal p) # us"
    | vs where "pre = xs @ vs" "ys = vs @ (a, Received_control_packet_signal p) # post"
    using split by (auto simp: append_eq_append_conv2 append_eq_Cons_conv)
  then show ?goal
  proof cases
    case 1
    with xs dep b st show ?thesis unfolding causally_ordered_def by blast
  next
    case 2
    obtain t k where t: "g_store g' b = Some t" "s_state s \<le> s_state t"
      "s_state t \<le> STATE_FAILED" "next_output_packet t = next_output_packet s + of_nat k"
      "control_log b xs = controls (src b) (next_output_packet s) k"
      using adv b st unfolding advanced_def by blast
    have "group_lookup i g' = Some b" using adv b by (simp add: group_lookup_def advanced_def)
    moreover have "STATE_PREPARING \<le> s_state t" using st(1) t(2) by (rule order_trans)
    ultimately obtain l where "control_log b vs = controls (src b) (next_output_packet t) l"
      "packet_diff pid (next_output_packet t + of_nat l) \<ge> 0"
      using ys 2 dep t unfolding causally_ordered_def by blast
    with t 2 show ?thesis
      by (intro exI[of _ "k + l"]) (simp add: controls_add add.assoc)
  qed
qed

lemma subseq_concat_length: "subseq us vs \<Longrightarrow> length (concat us) \<le> length (concat vs)"
  by (induction rule: list_emb.induct) auto

lemma subseq_concat_eq: "subseq us vs \<Longrightarrow> length (concat us) = length (concat vs) \<Longrightarrow> concat us = concat vs"
proof (induction rule: list_emb.induct)
  case (list_emb_Cons us vs v)
  then show ?case using subseq_concat_length[of us vs] by auto
qed auto

text \<open>A message whose size is that of all its fragments is all of them, in order.\<close>

lemma message_from_complete:
  assumes "message_from f stream data"
  shows "\<exists>start last flags total_size.
     is_data_start stream (f start) \<and> is_data_end (f last)
     \<and> data_fields (f start) = Inr (flags, total_size, stream) \<and> length data = unat total_size
     \<and> (length (concat (map payload_of (fragments f stream start last))) = unat total_size \<longrightarrow>
          data = concat (map payload_of (fragments f stream start last)))"
proof -
  obtain start last ids flags total_size where m: "is_data_start stream (f start)" "is_data_end (f last)"
    "data_fields (f start) = Inr (flags, total_size, stream)" "length data = unat total_size"
    and ids: "subseq ids (seq_range start (last + 1))" "\<forall>i \<in> set ids. is_data_of_stream stream (f i)"
    and data: "data = concat (map (\<lambda>i. payload_of (f i)) ids)"
    using assms unfolding message_from_def by blast
  have all: "filter (is_data_of_stream stream) (map f ids) = map f ids"
    using ids(2) by (simp add: filter_id_conv)
  have "subseq (filter (is_data_of_stream stream) (map f ids)) (fragments f stream start last)"
    unfolding fragments_def by (intro subseq_filter subseq_map ids(1))
  then have "subseq (map payload_of (map f ids)) (map payload_of (fragments f stream start last))"
    unfolding all by (rule subseq_map)
  then have "length (concat (map payload_of (fragments f stream start last))) = unat total_size \<Longrightarrow>
      data = concat (map payload_of (fragments f stream start last))"
    using m(4) data subseq_concat_eq by (force simp: o_def)
  with m show ?thesis by blast
qed

section \<open>Messages in the cache\<close>

lemma find_data_start_found:
  "find_data_start s stream i = Inr (Some info) \<Longrightarrow>
     \<exists>j p. cached s j = Some info \<and> pi_packet info = Some p \<and> is_data_start stream p"
proof (induction s stream i rule: find_data_start.induct)
  case (1 s stream i)
  then show ?case
    by (subst (asm) (3) find_data_start.simps)
       (auto split: if_splits option.splits simp: andthen_eq_Inr)
qed

lemma locate_data_found:
  assumes "locate_data s = Inr (stream, Some info)"
  shows "\<exists>j p q. cached s j = Some info \<and> pi_packet info = Some p \<and> is_data_start stream p
    \<and> (\<exists>einfo. cached s (next_output_data_packet s) = Some einfo \<and> pi_packet einfo = Some q \<and> is_data_end q)"
proof -
  obtain einfo q flags w where e: "cached s (next_output_data_packet s) = Some einfo"
      "pi_packet einfo = Some q" "data_fields q = Inr (flags, w, stream)" "has_flag flags DATA_PACKET_END"
    and start: "if has_flag flags DATA_PACKET_START then info = einfo
      else find_data_start s stream (pkt_packet_id q - 1) = Inr (Some info)"
    using assms by (auto simp: locate_data_def andthen_eq_Inr split: option.splits if_splits)
  have "is_data_end q" using e by (auto simp: is_data_end_def data_fields_def split: packet_data.splits)
  moreover have "\<exists>j p. cached s j = Some info \<and> pi_packet info = Some p \<and> is_data_start stream p"
    using e start find_data_start_found
    by (auto simp: is_data_start_def data_fields_def split: if_splits packet_data.splits)
  ultimately show ?thesis using e by blast
qed

text \<open>The forward pass copies the payloads of packets of the stream, in the order of the range.\<close>

lemma gather_data_ids:
  assumes "gather_data stream n is (off, d, s) = Inr (off', data, t)"
    and "\<forall>i info p. cached s i = Some info \<longrightarrow> pi_packet info = Some p \<longrightarrow> p = f i"
  shows "\<exists>ids. subseq ids is \<and> (\<forall>i \<in> set ids. is_data_of_stream stream (f i))
    \<and> data = d @ concat (map (\<lambda>i. payload_of (f i)) ids)"
  using assms
proof (induction "is" arbitrary: off d s)
  case Nil
  then show ?case by (auto intro: exI[of _ "[]"])
next
  case (Cons i "is")
  have skip: "\<exists>ids. subseq ids (i # is) \<and> (\<forall>i \<in> set ids. is_data_of_stream stream (f i))
    \<and> data = d @ concat (map (\<lambda>i. payload_of (f i)) ids)"
    if loop: "gather_data stream n is (off, d, s) = Inr (off', data, t)"
  proof -
    obtain ids where "subseq ids is" "\<forall>i \<in> set ids. is_data_of_stream stream (f i)"
      "data = d @ concat (map (\<lambda>i. payload_of (f i)) ids)"
      using Cons.IH[OF loop Cons.prems(2)] by blast
    then show ?thesis by (intro exI[of _ ids]) auto
  qed
  show ?case
  proof (cases "cached s i")
    case None
    with Cons.prems(1) skip show ?thesis by simp
  next
    case (Some tp)
    with Cons.prems(1) obtain q where q: "pi_packet tp = Some q" by (auto simp: andthen_eq_Inr)
    then have f: "f i = q" using Cons.prems(2) Some by simp
    show ?thesis
    proof (cases "is_data_of_stream stream q")
      case False
      with Cons.prems(1) skip Some q show ?thesis by simp
    next
      case True
      then have pl: "packet_get_payload q = Inr (payload_of q)"
        by (auto simp: is_data_of_stream_def packet_get_payload_def payload_of_def split: packet_data.splits)
      show ?thesis
      proof (cases "off + length (payload_of q) > n")
        case True
        with Cons.prems(1) Some q pl \<open>is_data_of_stream stream q\<close> show ?thesis
          by (auto intro: exI[of _ "[]"])
      next
        case False
        then obtain u where u: "set_popped i s = Inr u"
          and g: "gather_data stream n is (off + length (payload_of q), d @ payload_of q, u)
            = Inr (off', data, t)"
          using Cons.prems(1) Some q pl True by (auto simp: andthen_eq_Inr)
        have "stutter s u" using stutter_set_popped[of s i] u by simp
        then have "\<forall>j info p. cached u j = Some info \<longrightarrow> pi_packet info = Some p \<longrightarrow> p = f j"
          using entry_kept_Some Cons.prems(2) by (metis stutter_cached)
        from Cons.IH[OF g this] obtain ids where "subseq ids is"
          "\<forall>i \<in> set ids. is_data_of_stream stream (f i)"
          "data = d @ payload_of q @ concat (map (\<lambda>i. payload_of (f i)) ids)" by auto
        with f True show ?thesis by (intro exI[of _ "i # ids"]) simp
      qed
    qed
  qed
qed

lemma complete_message_from:
  assumes src: "from_src src g" and s: "g_store g a = Some s" and m: "complete_message s stream data"
  shows "message_from (src a) stream data"
proof -
  obtain info p flags w where loc: "locate_data s = Inr (stream, Some info)"
    and p: "pi_packet info = Some p" "data_fields p = Inr (flags, w, stream)"
    and len: "length data = unat w"
    and body: "if pkt_packet_id p = next_output_data_packet s then packet_get_payload p = Inr data
       else \<exists>s'. gather_data stream (unat w)
              (seq_range (pi_packet_id info) (next_output_data_packet s + 1)) (0, [], s)
            = Inr (length data, data, s')"
    using m unfolding complete_message_def by blast
  obtain j q einfo where j: "cached s j = Some info" "is_data_start stream p"
    and e: "cached s (next_output_data_packet s) = Some einfo" "pi_packet einfo = Some q" "is_data_end q"
    using locate_data_found[OF loc] p(1) by auto
  let ?e = "next_output_data_packet s"
  have ids: "pi_packet_id info = j" "p = src a j" "pkt_packet_id p = j" "q = src a ?e"
    using src s j e p unfolding from_src_def by blast+
  have "\<exists>ids. subseq ids (seq_range j (?e + 1)) \<and> (\<forall>i \<in> set ids. is_data_of_stream stream (src a i))
      \<and> data = concat (map (\<lambda>i. payload_of (src a i)) ids)"
  proof (cases "j = ?e")
    case True
    have "seq_range j (j + 1) = [j]" by (simp add: seq_range_def)
    moreover have "is_data_of_stream stream p" "payload_of p = data"
      using j(2) body True ids
      by (auto simp: is_data_start_def is_data_of_stream_def payload_of_def packet_get_payload_def
          split: packet_data.splits)
    ultimately show ?thesis using ids True by (intro exI[of _ "[j]"]) auto
  next
    case False
    then obtain s' where g: "gather_data stream (unat w) (seq_range j (?e + 1)) (0, [], s)
        = Inr (length data, data, s')" using body ids by auto
    have "\<forall>i info' p'. cached s i = Some info' \<longrightarrow> pi_packet info' = Some p' \<longrightarrow> p' = src a i"
      using src s unfolding from_src_def by blast
    from gather_data_ids[OF g this] show ?thesis by simp
  qed
  then obtain is' where "subseq is' (seq_range j (?e + 1))"
    "\<forall>i \<in> set is'. is_data_of_stream stream (src a i)" "data = concat (map (\<lambda>i. payload_of (src a i)) is')"
    by blast
  moreover have "is_data_start stream (src a j)" using j(2) unfolding ids(2) .
  moreover have "is_data_end (src a ?e)" using e(3) unfolding ids(4) .
  moreover have "data_fields (src a j) = Inr (flags, w, stream)" using p(2) unfolding ids(2) .
  ultimately show ?thesis unfolding message_from_def using len
    by (intro exI[of _ j] exI[of _ ?e] exI[of _ is'] exI[of _ flags] exI[of _ w] conjI)
qed

section \<open>Runs\<close>

text \<open>\<open>obs\<close> reads the log of the signals seen so far out of the state of the layers above.\<close>

definition idle_step ::
    "('a \<Rightarrow> (saddr \<times> signal) list) \<Rightarrow> (saddr \<Rightarrow> u32 \<Rightarrow> packet) \<Rightarrow> 'a group_scheme \<Rightarrow> 'a group_scheme \<Rightarrow> bool" where
  "idle_step obs src g g' \<longleftrightarrow>
     g_senders g' = g_senders g \<and> g_popping g' = g_popping g
     \<and> (\<forall>a. g_store g a = None \<longrightarrow> g_store g' a = None)
     \<and> (\<forall>a s. g_store g a = Some s \<longrightarrow> (\<exists>t. g_store g' a = Some t \<and> stutter s t))
     \<and> (\<exists>new. obs (group.more g') = obs (group.more g) @ new
          \<and> (\<forall>b p. (b, Received_control_packet_signal p) \<notin> set new) \<and> justified src new)"

definition delivers ::
    "('a \<Rightarrow> (saddr \<times> signal) list) \<Rightarrow> (saddr \<Rightarrow> u32 \<Rightarrow> packet) \<Rightarrow> 'a group_scheme \<Rightarrow> 'a group_scheme \<Rightarrow> bool" where
  "delivers obs src g g' \<longleftrightarrow>
     g_popping g' = g_popping g \<and> (from_src src g \<longrightarrow> from_src src g')
     \<and> (\<exists>new. obs (group.more g') = obs (group.more g) @ new
          \<and> advanced src g g' new \<and> causally_ordered src g new \<and> justified src new)"

lemma delivers_trans: "delivers obs src g g' \<Longrightarrow> delivers obs src g' g'' \<Longrightarrow> delivers obs src g g''"
proof -
  assume 1: "delivers obs src g g'" and 2: "delivers obs src g' g''"
  obtain xs ys where x: "obs (group.more g') = obs (group.more g) @ xs" "advanced src g g' xs"
      "causally_ordered src g xs" "justified src xs"
    and y: "obs (group.more g'') = obs (group.more g') @ ys" "advanced src g' g'' ys"
      "causally_ordered src g' ys" "justified src ys"
    using 1 2 unfolding delivers_def by blast
  have "advanced src g g'' (xs @ ys)" using x(2) y(2) by (rule advanced_trans)
  moreover have "causally_ordered src g (xs @ ys)" using x(2,3) y(3) by (rule causal_append)
  ultimately show ?thesis
    using 1 2 x y unfolding delivers_def by (auto intro!: exI[of _ "xs @ ys"])
qed

lemma control_log_none: "(\<And>b p. (b, Received_control_packet_signal p) \<notin> set log) \<Longrightarrow> control_log a log = []"
proof (induction log)
  case (Cons x log)
  then show ?case by (cases "snd x"; cases x) (auto simp: split_paired_all)
qed simp

lemma stutter_from:
  assumes "stutter s t"
    and "\<And>i info. cached s i = Some info \<Longrightarrow>
        pi_packet_id info = i \<and> (\<forall>p. pi_packet info = Some p \<longrightarrow> p = f i \<and> pkt_packet_id p = i)"
    and "cached t i = Some info"
  shows "pi_packet_id info = i \<and> (\<forall>p. pi_packet info = Some p \<longrightarrow> p = f i \<and> pkt_packet_id p = i)"
  using entry_kept_Some[of "cached s i" info] stutter_cached[OF assms(1), of i] assms(2,3) by auto

lemma idle_store:
  "idle_step obs src g g' \<Longrightarrow> g_store g a = Some s \<Longrightarrow> \<exists>t. g_store g' a = Some t \<and> stutter s t"
  by (simp add: idle_step_def)

lemma idle_store_back:
  "idle_step obs src g g' \<Longrightarrow> g_store g' a = Some t \<Longrightarrow> \<exists>s. g_store g a = Some s \<and> stutter s t"
  using idle_store[of obs src g g' a] by (cases "g_store g a") (auto simp: idle_step_def)

lemma idle_from:
  assumes step: "idle_step obs src g g'" and src: "from_src src g"
  shows "from_src src g'"
  unfolding from_src_def
proof (intro allI impI)
  fix a t i info assume t: "g_store g' a = Some t" "cached t i = Some info"
  then obtain s where s: "g_store g a = Some s" "stutter s t"
    using idle_store_back[OF step] by blast
  have "pi_packet_id info' = j \<and> (\<forall>p. pi_packet info' = Some p \<longrightarrow> p = src a j \<and> pkt_packet_id p = j)"
    if "cached s j = Some info'" for j info'
    using src s(1) that unfolding from_src_def by blast
  then show "pi_packet_id info = i \<and> (\<forall>p. pi_packet info = Some p \<longrightarrow> p = src a i \<and> pkt_packet_id p = i)"
    by (rule stutter_from[OF s(2) _ t(2)])
qed

lemma idle_delivers:
  assumes "idle_step obs src g g'"
  shows "delivers obs src g g'"
proof -
  obtain new where new: "obs (group.more g') = obs (group.more g) @ new"
    "\<And>b p. (b, Received_control_packet_signal p) \<notin> set new" "justified src new"
    using assms unfolding idle_step_def by blast
  have "advanced src g g' new"
    unfolding advanced_def control_log_none[OF new(2)]
  proof (intro conjI allI impI)
    fix a s assume "g_store g a = Some s"
    then obtain t where "g_store g' a = Some t" "stutter s t" using idle_store[OF assms] by blast
    then show "\<exists>t k. g_store g' a = Some t \<and> s_id t = s_id s \<and> s_state s \<le> s_state t
        \<and> (s_state s \<le> STATE_FAILED \<longrightarrow> s_state t \<le> STATE_FAILED)
        \<and> next_output_packet t = next_output_packet s + of_nat k
        \<and> [] = controls (src a) (next_output_packet s) k"
      by (intro exI[of _ t] exI[of _ 0]) (simp add: stutter_def)
  qed (use assms in \<open>simp_all add: idle_step_def\<close>)
  with new idle_from[OF assms] assms show ?thesis
    unfolding delivers_def by (auto simp: idle_step_def intro!: exI[of _ new] causal_no_control)
qed

lemma schedule_repair_fields [simp]:
  "next_output_packet (schedule_repair j s) = next_output_packet s"
  "s_id (schedule_repair j s) = s_id s"
  "s_state (schedule_repair j s) = s_state s"
  by (simp_all add: schedule_repair_def split: option.split)

lemma schedule_repairs_fields [simp]:
  "next_output_packet (fold schedule_repair xs s) = next_output_packet s"
  "s_id (fold schedule_repair xs s) = s_id s"
  "s_state (fold schedule_repair xs s) = s_state s"
  by (induction xs arbitrary: s) simp_all

lemma store_packet_fields:
  "next_output_packet (store_packet p s) = next_output_packet s" "s_id (store_packet p s) = s_id s"
  "s_state (store_packet p s) = s_state s"
  by (simp_all add: store_packet_def Let_def)

definition cache_from :: "(u32 \<Rightarrow> packet) \<Rightarrow> sender \<Rightarrow> bool" where
  "cache_from f s \<longleftrightarrow> (\<forall>i info. cached s i = Some info \<longrightarrow>
      pi_packet_id info = i \<and> (\<forall>p. pi_packet info = Some p \<longrightarrow> p = f i \<and> pkt_packet_id p = i))"

lemma cache_from_put:
  assumes "cache_from f s" "pi_packet_id info = i"
    "\<forall>p. pi_packet info = Some p \<longrightarrow> p = f i \<and> pkt_packet_id p = i"
  shows "cache_from f (s\<lparr>packet_cache := AList.update i info (packet_cache s)\<rparr>)"
  using assms by (simp add: cache_from_def cached_def update_conv')

lemma cache_from_store:
  assumes "cache_from f s" "pi_packet_id info = i" "pkt_packet_id p = i" "f i = p"
  shows "cache_from f (s\<lparr>packet_cache := AList.update i
    (info\<lparr>pi_timeout := None, pi_packet := Some p\<rparr>) (packet_cache s)\<rparr>)"
  by (rule cache_from_put[OF assms(1)]) (simp_all add: assms)

lemma cache_from_input: "cache_from f (s\<lparr>next_input_packet := i\<rparr>) \<longleftrightarrow> cache_from f s"
  by (simp add: cache_from_def cached_def)

lemma cache_from_schedule_repair:
  assumes "cache_from f s"
  shows "cache_from f (schedule_repair j s)"
proof (cases "cached s j")
  case None
  then show ?thesis using assms
    by (simp add: schedule_repair_def cache_from_put packet_info_new_def)
next
  case (Some info)
  then have "pi_packet_id info = j" using assms by (simp add: cache_from_def)
  with Some show ?thesis using assms
    by (simp add: schedule_repair_def cache_from_put)
qed

lemma cache_from_schedule_repairs:
  "cache_from f s \<Longrightarrow> cache_from f (fold schedule_repair xs s)"
  by (induction xs arbitrary: s) (simp_all add: cache_from_schedule_repair)

lemma store_packet_from:
  assumes s: "cache_from f s" and p: "p = f (pkt_packet_id p)"
  shows "cache_from f (store_packet p s)"
proof -
  let ?i = "pkt_packet_id p"
  let ?info = "case cached s ?i of Some info \<Rightarrow> info | None \<Rightarrow> packet_info_new ?i"
  have "pi_packet_id ?info = ?i"
    using s by (auto simp: cache_from_def packet_info_new_def split: option.split)
  then have "cache_from f (s\<lparr>packet_cache := AList.update ?i
      (?info\<lparr>pi_timeout := None, pi_packet := Some p\<rparr>) (packet_cache s)\<rparr>)"
    by (rule cache_from_store[OF s _ refl p[symmetric]])
  then show ?thesis
    by (simp add: store_packet_def Let_def cache_from_input cache_from_schedule_repairs)
qed

locale quiet_handler =
  fixes h :: "'a handler" and obs :: "'a \<Rightarrow> (saddr \<times> signal) list"
  assumes quiet: "h a sig g = Inr g' \<Longrightarrow>
      g_store g' = g_store g \<and> g_fresh g' = g_fresh g \<and> g_senders g' = g_senders g
      \<and> g_popping g' = g_popping g \<and> g_stopped g' = g_stopped g
      \<and> g_pop_queue g' = g_pop_queue g \<and> g_pending_removal g' = g_pending_removal g
      \<and> obs (group.more g') = obs (group.more g) @ [(a, sig)]"

locale delivery = quiet_handler h obs for h :: "'a handler" and obs +
  fixes src :: "saddr \<Rightarrow> u32 \<Rightarrow> packet"
begin

lemma put_idle:
  "g_store g a = Some s \<Longrightarrow> stutter s t \<Longrightarrow> idle_step obs src g (put_sender a t g)"
  unfolding idle_step_def by auto

lemma same_idle:
  "g_store g' = g_store g \<Longrightarrow> g_senders g' = g_senders g \<Longrightarrow> g_popping g' = g_popping g \<Longrightarrow>
   group.more g' = group.more g \<Longrightarrow> idle_step obs src g g'"
  unfolding idle_step_def by auto

lemma idle_trans: "idle_step obs src g g' \<Longrightarrow> idle_step obs src g' g'' \<Longrightarrow> idle_step obs src g g''"
proof -
  assume 1: "idle_step obs src g g'" and 2: "idle_step obs src g' g''"
  have "\<exists>u. g_store g'' a = Some u \<and> stutter s u" if "g_store g a = Some s" for a s
    using 1 2 that unfolding idle_step_def by (metis stutter_trans)
  moreover obtain xs ys where "obs (group.more g') = obs (group.more g) @ xs"
      "\<And>b p. (b, Received_control_packet_signal p) \<notin> set xs" "justified src xs"
      "obs (group.more g'') = obs (group.more g') @ ys"
      "\<And>b p. (b, Received_control_packet_signal p) \<notin> set ys" "justified src ys"
    using 1 2 unfolding idle_step_def by blast
  ultimately show ?thesis using 1 2 unfolding idle_step_def
    by (auto intro!: exI[of _ "xs @ ys"])
qed

lemma control_delivers:
  assumes s: "g_store g a = Some s" "p = src a (next_output_packet s)"
    and deps: "deps_met False p g" and type: "pkt_type p \<noteq> PACKET_TYPE_DATA"
    and src: "from_src src g"
  shows "holds (delivers obs src g) (output_control h a p g)"
proof -
  have adv: "advance_control s = s\<lparr>next_output_packet := next_output_packet s + 1,
      next_output_data_packet := (if next_output_packet s = next_output_data_packet s
        then next_output_data_packet s + 1 else next_output_data_packet s)\<rparr>"
    by (simp add: advance_control_def Let_def)
  have store: "from_src src g'" if "g_store g' = (g_store g)(a \<mapsto> t)"
    "\<And>i. cached t i = cached s i" for t and g' :: "'a group_scheme"
    using src s(1) that unfolding from_src_def by (auto split: if_splits)
  have advd: "advanced src g g' log"
    if "g_store g' = (g_store g)(a \<mapsto> t)" "g_senders g' = g_senders g"
      "next_output_packet t = next_output_packet s + 1" "s_id t = s_id s" "s_state s \<le> s_state t"
      "s_state s \<le> STATE_FAILED \<longrightarrow> s_state t \<le> STATE_FAILED"
      "control_log a log = controls (src a) (next_output_packet s) 1"
      "\<And>b. b \<noteq> a \<Longrightarrow> control_log b log = []" for t log and g' :: "'a group_scheme"
    using that s(1) unfolding advanced_def
    by (auto intro: exI[of _ "1::nat"] exI[of _ "0::nat"])
  show ?thesis
  proof (cases "pkt_type p = PACKET_TYPE_NO_DATA")
    case True
    then have "\<not> is_control p" by (simp add: is_control_def)
    with True show ?thesis using s src adv
      by (auto simp: output_control_def upd_sender_def get_sender_def delivers_def controls_1
          intro!: exI[of _ "[]"] store advd)
  next
    case False
    let ?log = "[(a, Received_control_packet_signal p)]"
    have "causally_ordered src g ?log"
      unfolding causally_ordered_def
    proof (intro allI impI ballI, clarify)
      fix pre b q post i pid c u
      assume eq: "[(a, Received_control_packet_signal p)] = pre @ (b, Received_control_packet_signal q) # post"
        and d: "(i, pid) \<in> set (pkt_depends q)" and c: "group_lookup i g = Some c" "g_store g c = Some u"
        and st: "STATE_PREPARING \<le> s_state u" "s_state u \<le> STATE_FAILED"
      have "pre = []" "q = p" using eq by (auto simp: Cons_eq_append_conv)
      moreover have "packet_diff pid (next_output_packet u) \<ge> 0"
        using deps d c st \<open>q = p\<close> by (force simp: deps_met_def dep_met_def state_order)
      ultimately show "\<exists>k. control_log c pre = controls (src c) (next_output_packet u) k
          \<and> packet_diff pid (next_output_packet u + of_nat k) \<ge> 0"
        by (intro exI[of _ 0]) simp
    qed
    moreover have "is_control p" using False type by (simp add: is_control_def)
    ultimately show ?thesis using s src adv False
      by (auto simp: output_control_def signal_control_packet_def upd_sender_def get_sender_def
          set_state_def delivers_def controls_1 justified_def holds_iff dest!: quiet
          intro!: exI[of _ ?log] store advd)
  qed
qed

lemma data_delivers:
  assumes s: "g_store g a = Some s" "p = src a (next_output_packet s)"
    and type: "pkt_type p = PACKET_TYPE_DATA" and src: "from_src src g"
    and t: "next_output_packet t = next_output_packet s + 1" "s_id t = s_id s" "s_state t = s_state s"
      "\<And>i. cached t i = cached s i"
  shows "delivers obs src g (put_sender a t g)"
proof -
  have "\<not> is_control p" using type by (simp add: is_control_def)
  then have c: "controls (src a) (next_output_packet s) 1 = []" using s unfolding controls_1 by simp
  have "\<exists>k. next_output_packet s + 1 = next_output_packet s + of_nat k
      \<and> [] = controls (src a) (next_output_packet s) k"
    using c by (intro exI[of _ 1]) simp
  then have "advanced src g (put_sender a t g) []"
    using s(1) t unfolding advanced_def by (auto intro!: exI[of _ "0::nat"])
  moreover have "from_src src (put_sender a t g)"
    using src s(1) t(4) unfolding from_src_def by (auto split: if_splits)
  ultimately show ?thesis by (auto simp: delivers_def intro!: exI[of _ "[]"])
qed

sublocale engine: pop_engine h "\<lambda>g. g_popping g \<and> from_src src g" "idle_step obs src"
  "\<lambda>a. message_from (src a)" "delivers obs src"
  "\<lambda>a p g. \<exists>s. g_store g a = Some s \<and> p = src a (next_output_packet s)"
proof unfold_locales
  show "idle_step obs src g g" for g :: "'a group_scheme" by (rule same_idle) simp_all
next
  fix g g' g'' :: "'a group_scheme" assume "idle_step obs src g g'" "idle_step obs src g' g''"
  then show "idle_step obs src g g''" by (rule idle_trans)
next
  fix g g' :: "'a group_scheme" assume "g_popping g \<and> from_src src g" "idle_step obs src g g'"
  moreover from this have "from_src src g'" using idle_from by blast
  ultimately show "g_popping g' \<and> from_src src g'" by (simp add: idle_step_def)
next
  fix g :: "'a group_scheme" and a stream data
  assume "message_from (src a) stream data"
  then show "holds (idle_step obs src g) (h a (Received_data_signal stream data) g)"
    by (auto simp: holds_iff idle_step_def justified_def dest!: quiet)
next
  show "holds (idle_step obs src g) (h a Failed_signal g)" for g :: "'a group_scheme" and a
    by (auto simp: holds_iff idle_step_def justified_def dest!: quiet)
next
  fix g :: "'a group_scheme" and a s stream data
  assume "g_popping g \<and> from_src src g" "g_store g a = Some s" "complete_message s stream data"
  then show "message_from (src a) stream data" by (auto intro: complete_message_from)
next
  fix g :: "'a group_scheme" and a s info p
  assume "g_popping g \<and> from_src src g" "g_store g a = Some s"
    "cached s (next_output_packet s) = Some info" "pi_packet info = Some p"
  then show "\<exists>s. g_store g a = Some s \<and> p = src a (next_output_packet s)"
    unfolding from_src_def by blast
next
  fix g g' :: "'a group_scheme" and a p
  assume "\<exists>s. g_store g a = Some s \<and> p = src a (next_output_packet s)"
    and step: "idle_step obs src g g'"
  then obtain s where s: "g_store g a = Some s" "p = src a (next_output_packet s)" by blast
  obtain t where "g_store g' a = Some t" "stutter s t" using idle_store[OF step s(1)] by blast
  with s show "\<exists>s. g_store g' a = Some s \<and> p = src a (next_output_packet s)"
    by (auto simp: stutter_def)
next
  fix g :: "'a group_scheme" and a p s t
  assume g: "g_popping g \<and> from_src src g" and "pkt_type p = PACKET_TYPE_DATA"
    and s: "g_store g a = Some s" and "\<exists>s. g_store g a = Some s \<and> p = src a (next_output_packet s)"
    and t: "t = s\<lparr>next_output_packet := next_output_packet s + 1\<rparr> \<or>
        t = s\<lparr>next_output_packet := next_output_packet s + 1,
              next_output_data_packet := next_output_data_packet s + 1\<rparr>"
  then show "delivers obs src g (put_sender a t g)"
    using data_delivers[OF s, of p t] by auto
next
  fix g :: "'a group_scheme" and a p
  assume "g_popping g \<and> from_src src g" "\<exists>s. g_store g a = Some s \<and> p = src a (next_output_packet s)"
    "deps_met False p g" "pkt_type p \<noteq> PACKET_TYPE_DATA"
  then show "holds (delivers obs src g) (output_control h a p g)"
    using control_delivers by blast
next
  fix g g' g'' :: "'a group_scheme" assume "delivers obs src g g'" "delivers obs src g' g''"
  then show "delivers obs src g g''" by (rule delivers_trans)
next
  fix g g' :: "'a group_scheme" assume "idle_step obs src g g'"
  then show "delivers obs src g g'" by (rule idle_delivers)
next
  fix g g' :: "'a group_scheme" assume "g_popping g \<and> from_src src g" "delivers obs src g g'"
  then show "g_popping g' \<and> from_src src g'" by (simp add: delivers_def)
qed (auto intro: put_idle same_idle)

lemma queue_delivers: "delivers obs src g (g\<lparr>g_pop_queue := q\<rparr>)"
  by (rule idle_delivers, rule same_idle) simp_all

lemma pop_off_delivers:
  assumes run: "delivers obs src (g\<lparr>g_popping := True\<rparr>) g''" and g: "\<not> g_popping g" "from_src src g"
  shows "delivers obs src g (g''\<lparr>g_popping := False\<rparr>)"
proof -
  obtain new where new: "obs (group.more g'') = obs (group.more (g\<lparr>g_popping := True\<rparr>)) @ new"
    "advanced src (g\<lparr>g_popping := True\<rparr>) g'' new" "causally_ordered src (g\<lparr>g_popping := True\<rparr>) new"
    "justified src new"
    using run unfolding delivers_def by blast
  have "from_src src (g\<lparr>g_popping := True\<rparr>)" using g(2) by (simp add: from_src_def)
  then have "from_src src g''" using run unfolding delivers_def by blast
  then have fs: "from_src src (g''\<lparr>g_popping := False\<rparr>)" by (simp add: from_src_def)
  have "advanced src g (g''\<lparr>g_popping := False\<rparr>) new" using new(2) by (simp add: advanced_def)
  moreover have "causally_ordered src g new" using new(3) by (simp add: causally_ordered_def group_lookup_def)
  ultimately show ?thesis using g(1) fs new(1,4) unfolding delivers_def
    by (intro conjI impI exI[of _ new]) simp_all
qed

lemma pop_packets_delivers:
  assumes src: "from_src src g" and a: "g_store g a \<noteq> None"
  shows "holds (delivers obs src g) (pop_packets h n a g)"
proof (cases n)
  case (Suc m)
  show ?thesis
  proof (cases "g_popping g")
    case True
    then have "pop_packets h (Suc m) a g = Inr (if a \<in> set (g_pop_queue g) then g
        else g\<lparr>g_pop_queue := g_pop_queue g @ [a]\<rparr>)" by simp
    moreover have "delivers obs src g g" by (rule idle_delivers, rule same_idle) simp_all
    ultimately show ?thesis unfolding Suc by (simp add: queue_delivers)
  next
    case False
    let ?on = "g\<lparr>g_popping := True\<rparr>"
    have nested: "holds (idle_step obs src g') (pop_packets h m b g')"
      if "g_popping g' \<and> from_src src g'" for b g'
      using that by (cases m) (auto intro: same_idle)
    have on: "g_popping ?on \<and> from_src src ?on" using src by (simp add: from_src_def)
    have "holds (\<lambda>g'. \<exists>g''. delivers obs src ?on g'' \<and> (g_popping g'' \<and> from_src src g'')
        \<and> g' = g''\<lparr>g_popping := False\<rparr>) (pop_packets h (Suc m) a g)"
      by (rule engine.R_pop_packets[OF nested on False])
    then show ?thesis unfolding Suc
      by (rule holds_mono) (use pop_off_delivers[OF _ False src] in blast)
  qed
qed simp

lemma push_delivers:
  assumes src: "from_src src g" and p: "p = src a (pkt_packet_id p)"
  shows "holds (delivers obs src g) (sender_push h n a p g)"
proof (cases "g_store g a")
  case (Some s)
  let ?g = "put_sender a (store_packet p s) g"
  have "cache_from (src a) s" using src Some unfolding from_src_def cache_from_def by blast
  then have cache: "cache_from (src a) (store_packet p s)" using p by (rule store_packet_from)
  have fs: "from_src src ?g"
    using src cache unfolding from_src_def cache_from_def by simp
  have "advanced src g ?g []"
    using Some unfolding advanced_def by (auto simp: store_packet_fields intro!: exI[of _ "0::nat"])
  with fs have put: "delivers obs src g ?g" by (auto simp: delivers_def intro!: exI[of _ "[]"])
  have ins: "holds (delivers obs src g) (pop_packets h n a ?g)"
    by (rule holds_mono[OF pop_packets_delivers[OF fs]], simp, rule delivers_trans[OF put])
  have same: "delivers obs src g g" by (rule idle_delivers, rule same_idle) simp_all
  show ?thesis
  proof (rule holdsI)
    fix g' assume "sender_push h n a p g = Inr g'"
    then have "g' = g \<or> pop_packets h n a ?g = Inr g'"
      using Some by (auto simp: sender_push_def insert_packet_def get_sender_def Let_def
          andthen_eq_Inr split: if_splits option.splits)
    then show "delivers obs src g g'" using same ins by auto
  qed
qed (simp add: sender_push_def get_sender_def)

end

section \<open>The recording handler\<close>

text \<open>A group whose upper layer is just a log of all signals.\<close>

definition record_signal :: "(saddr \<times> signal) list handler" where
  "record_signal a sig g = Inr (group.more_update (\<lambda>log. log @ [(a, sig)]) g)"

interpretation recording: quiet_handler record_signal "\<lambda>log. log"
  by unfold_locales (auto simp: record_signal_def)

interpretation recorded: delivery record_signal "\<lambda>log. log" src for src
  by unfold_locales

text \<open>A network run: packets are pushed to the senders they come from, in any order.\<close>

definition push_all ::
    "nat \<Rightarrow> (saddr \<times> packet) list \<Rightarrow> (saddr \<times> signal) list group_scheme \<Rightarrow>
     (saddr \<times> signal) list group_scheme outcome" where
  "push_all n arrivals g = foldo (\<lambda>(a, p). sender_push record_signal n a p) arrivals g"

lemma push_all_delivers:
  assumes "from_src src g" "\<forall>(a, p) \<in> set arrivals. p = src a (pkt_packet_id p)"
  shows "holds (delivers (\<lambda>log. log) src g) (push_all n arrivals g)"
  using assms unfolding push_all_def
proof (induction arrivals arbitrary: g)
  case Nil
  show ?case by (simp add: idle_delivers recorded.same_idle)
next
  case (Cons x arrivals)
  obtain a p where x: "x = (a, p)" by (cases x)
  have push: "holds (delivers (\<lambda>log. log) src g) (sender_push record_signal n a p g)"
    using Cons.prems by (intro recorded.push_delivers) (auto simp: x)
  show ?case
  proof (cases "sender_push record_signal n a p g")
    case (Inr g')
    with push have step: "delivers (\<lambda>log. log) src g g'" by simp
    with Cons.prems(1) have "from_src src g'" by (simp add: delivers_def)
    then have "holds (delivers (\<lambda>log. log) src g')
        (foldo (\<lambda>(a, p). sender_push record_signal n a p) arrivals g')"
      using Cons.prems(2) by (intro Cons.IH) simp_all
    then show ?thesis unfolding x using Inr
      by (auto intro: holds_mono delivers_trans[OF step])
  qed (simp add: x)
qed

end
