(* ===== verification/Sender_Properties.thy ===== *)
theory Sender_Properties
  imports Delivery
begin

text \<open>
  What the delivery engine of \<open>lib/gibber/gibber-r-multicast-sender.c\<close> promises, over network runs:
  any number of packets of the senders' streams pushed in any order, with losses and repetitions.
\<close>

section \<open>An example network\<close>

text \<open>
  Two senders, 7 at address 0 and 9 at address 1, both named and prepared. Sender 7's second packet
  depends on the first packet of sender 9; its third packet is a data message.
\<close>

definition example_src :: "saddr \<Rightarrow> u32 \<Rightarrow> packet" where
  "example_src a i =
     \<lparr>pkt_version = 1, pkt_sender = (if a = 0 then 7 else 9), pkt_packet_id = i,
      pkt_depends = (if a = 0 \<and> i = 1 then [(9, 1)] else []),
      pkt_data = (if i = 2 then Data 3 2 0 [104, 105] else Join []),
      pkt_max_data = 1500, pkt_raw = None\<rparr>"

definition example_sender :: "u32 \<Rightarrow> sender" where
  "example_sender i =
     (sender_init i (Some [110]))\<lparr>s_state := STATE_PREPARING, start_data := True\<rparr>"

definition example_group :: "(saddr \<times> signal) list group_scheme" where
  "example_group =
     \<lparr>g_store = [0 \<mapsto> example_sender 7, 1 \<mapsto> example_sender 9], g_fresh = 2,
      g_senders = [(7, 0), (9, 1)], g_popping = False, g_stopped = False, g_pop_queue = [],
      g_pending_removal = [], \<dots> = []\<rparr>"

definition example_arrivals :: "(saddr \<times> packet) list" where
  "example_arrivals = map (\<lambda>(a, i). (a, example_src a i)) [(0, 1), (0, 0), (0, 0), (1, 0), (0, 2)]"

definition example_fuel :: nat where
  "example_fuel = Suc (Suc (Suc (Suc (Suc 0))))"

lemmas example_defs = example_src_def example_sender_def sender_init_def example_group_def
  example_arrivals_def example_fuel_def

text \<open>Evaluation of the engine on concrete states.\<close>

lemmas sender_eval = get_sender_def upd_sender_def put_sender_def set_popped_def packet_info_try_gc_def
  upd_info_def cached_def set_state_def schedule_progress_timer_def packet_info_new_def
  get_ackinfo_def schedule_repair_def advance_control_def update_next_data_output_state_def
  state_order max_def

lemmas group_eval = group_gc_def group_gc_array_def create_sender_array_def update_sender_acks_def
  update_sender_acks_loop.simps group_gc_ack_def sender_ack_def group_gc_pending.simps
  remove_index_fast_def group_lookup_def foreach_sender_def senders_collect_def

lemmas pop_eval = sender_push_def insert_packet_def store_packet_def do_pop_packets_def
  pop_packet_def pop_next_packet_def pop_found_packet_def update_acks_def check_depends_def
  pop_next_data_def pop_next_control_def output_control_def signal_control_packet_def
  signal_data_def signal_failure_def pop_data_packet_def locate_data_def output_message_def
  output_single_def skip_data_def data_fields_def has_flag_def packet_get_payload_def
  is_reliable_packet_def pkt_type_def seq_range_def PACKET_CACHE_SIZE_def DATA_PACKET_START_def
  DATA_PACKET_END_def packet_diff_def min_def Let_def

lemmas engine_eval = sender_eval group_eval pop_eval push_all_def record_signal_def

lemma example_run:
  "returns (\<lambda>g. group.more g =
       [(0, Received_control_packet_signal (example_src 0 0)),
        (1, Received_control_packet_signal (example_src 1 0)),
        (0, Received_control_packet_signal (example_src 0 1)),
        (0, Received_data_signal 0 [104, 105])])
     (push_all example_fuel example_arrivals example_group)"
  by (simp add: example_defs engine_eval cong: andthen_weak let_weak_cong del: returns_simps(3))

lemma example_from_src: "from_src example_src example_group"
  by (auto simp: from_src_def example_defs cached_def split: if_splits)

lemma example_arrivals_src: "\<forall>(a, p) \<in> set example_arrivals. p = example_src a (pkt_packet_id p)"
  by (simp add: example_defs)

section \<open>Delivery\<close>

text \<open>What a network run leaves behind, in one place.\<close>

lemma push_all_log:
  assumes "from_src src g" "\<forall>(a, p) \<in> set arrivals. p = src a (pkt_packet_id p)"
  shows "holds (\<lambda>g'. \<exists>new. group.more g' = group.more g @ new \<and> advanced src g g' new
      \<and> causally_ordered src g new \<and> justified src new) (push_all n arrivals g)"
  by (rule holds_mono[OF push_all_delivers[OF assms]]) (auto simp: delivers_def)

lemma example_delivered:
  obtains g' where "push_all example_fuel example_arrivals example_group = Inr g'"
    and "group.more g' = [(0, Received_control_packet_signal (example_src 0 0)),
        (1, Received_control_packet_signal (example_src 1 0)),
        (0, Received_control_packet_signal (example_src 0 1)),
        (0, Received_data_signal 0 [104, 105])]"
  using example_run unfolding returns_iff by blast



text \<open>
  C2. Causal order: when a control packet is handed to the upper layer, every packet it depends on
  has been delivered before it. For each entry of its dependency list whose sender is known and has
  not stopped, the control packets of that sender logged so far reach beyond the entry's packet id.
\<close>

theorem control_packets_causal:
  assumes "from_src src g" "\<forall>(a, p) \<in> set arrivals. p = src a (pkt_packet_id p)"
  shows "holds (\<lambda>g'. \<exists>new. group.more g' = group.more g @ new \<and>
     (\<forall>pre a p post i pid b s. new = pre @ (a, Received_control_packet_signal p) # post \<longrightarrow>
        (i, pid) \<in> set (pkt_depends p) \<longrightarrow> group_lookup i g = Some b \<longrightarrow> g_store g b = Some s \<longrightarrow>
        STATE_PREPARING \<le> s_state s \<longrightarrow> s_state s \<le> STATE_FAILED \<longrightarrow>
        (\<exists>k. control_log b pre = controls (src b) (next_output_packet s) k
           \<and> packet_diff pid (next_output_packet s + of_nat k) \<ge> 0))) (push_all n arrivals g)"
proof (rule holds_mono[OF push_all_log[OF assms]])
  fix g' assume "\<exists>new. group.more g' = group.more g @ new \<and> advanced src g g' new
      \<and> causally_ordered src g new \<and> justified src new"
  then obtain new where new: "group.more g' = group.more g @ new" "causally_ordered src g new" by blast
  show "\<exists>new. group.more g' = group.more g @ new \<and>
     (\<forall>pre a p post i pid b s. new = pre @ (a, Received_control_packet_signal p) # post \<longrightarrow>
        (i, pid) \<in> set (pkt_depends p) \<longrightarrow> group_lookup i g = Some b \<longrightarrow> g_store g b = Some s \<longrightarrow>
        STATE_PREPARING \<le> s_state s \<longrightarrow> s_state s \<le> STATE_FAILED \<longrightarrow>
        (\<exists>k. control_log b pre = controls (src b) (next_output_packet s) k
           \<and> packet_diff pid (next_output_packet s + of_nat k) \<ge> 0))"
    by (rule exI[of _ new], rule conjI[OF new(1)]) (use new(2) in \<open>unfold causally_ordered_def, blast\<close>)
qed

lemma control_packets_causal_witness:
  "\<exists>g' k. push_all example_fuel example_arrivals example_group = Inr g'
     \<and> control_log 1 [(0, Received_control_packet_signal (example_src 0 0)),
                      (1, Received_control_packet_signal (example_src 1 0))]
       = controls (example_src 1) 0 k
     \<and> packet_diff 1 (of_nat k) \<ge> 0"
proof (rule example_delivered)
  fix g' assume run: "push_all example_fuel example_arrivals example_group = Inr g'"
    and log: "group.more g' = [(0, Received_control_packet_signal (example_src 0 0)),
        (1, Received_control_packet_signal (example_src 1 0)),
        (0, Received_control_packet_signal (example_src 0 1)),
        (0, Received_data_signal 0 [104, 105])]"
  have g: "group.more example_group = []" "(9, 1) \<in> set (pkt_depends (example_src 0 1))"
    "group_lookup 9 example_group = Some 1" "g_store example_group 1 = Some (example_sender 9)"
    "STATE_PREPARING \<le> s_state (example_sender 9)" "s_state (example_sender 9) \<le> STATE_FAILED"
    "next_output_packet (example_sender 9) = 0"
    by (simp_all add: example_defs group_lookup_def state_order)
  have split: "group.more g' = [(0, Received_control_packet_signal (example_src 0 0)),
        (1, Received_control_packet_signal (example_src 1 0))] @
      (0, Received_control_packet_signal (example_src 0 1)) # [(0, Received_data_signal 0 [104, 105])]"
    by (simp add: log)
  obtain new where new: "group.more g' = new" "\<forall>pre a p post i pid b s. new = pre @ (a, Received_control_packet_signal p) # post \<longrightarrow>
        (i, pid) \<in> set (pkt_depends p) \<longrightarrow> group_lookup i example_group = Some b \<longrightarrow> g_store example_group b = Some s \<longrightarrow>
        STATE_PREPARING \<le> s_state s \<longrightarrow> s_state s \<le> STATE_FAILED \<longrightarrow>
        (\<exists>k. control_log b pre = controls (example_src b) (next_output_packet s) k
           \<and> packet_diff pid (next_output_packet s + of_nat k) \<ge> 0)"
    using control_packets_causal[OF example_from_src example_arrivals_src, of example_fuel]
    unfolding run holds_simps g(1) append_Nil by blast
  have "\<exists>k. control_log 1 [(0, Received_control_packet_signal (example_src 0 0)),
        (1, Received_control_packet_signal (example_src 1 0))]
      = controls (example_src 1) (next_output_packet (example_sender 9)) k
      \<and> packet_diff 1 (next_output_packet (example_sender 9) + of_nat k) \<ge> 0"
    using new(2)[rule_format, OF _ g(2-6)] split unfolding new(1) by blast
  with run show ?thesis by (simp add: g(7))
qed



end
