(* ===== verification/Sender_Invariant.thy ===== *)
theory Sender_Invariant
  imports Engine_Run
begin

text \<open>
  The representation invariant of a sender group, and the relation every operation of the library
  keeps between the group before and after it: no sender disappears from the store, changes its id
  or goes back in its life cycle. \<open>evolving_handler\<close> is what the group asks of signal handlers;
  under it, every entry point of the sender and of the group keeps the invariant.
\<close>

definition wf_sender :: "sender \<Rightarrow> bool" where
  "wf_sender s \<longleftrightarrow>
     (\<forall>i info. cached s i = Some info \<longrightarrow> pi_packet_id info = i
        \<and> (\<forall>p. pi_packet info = Some p \<longrightarrow>
              pkt_packet_id p = i \<and> pkt_sender p = s_id s \<and> is_reliable_packet p))"

definition wf_group :: "'a group_scheme \<Rightarrow> bool" where
  "wf_group g \<longleftrightarrow>
     distinct (map fst (g_senders g))
     \<and> (\<forall>(i, a) \<in> set (g_senders g). \<exists>s. g_store g a = Some s \<and> s_id s = i)
     \<and> (\<forall>a \<in> set (g_pop_queue g). g_store g a \<noteq> None)
     \<and> (\<forall>a \<in> set (g_pending_removal g). \<exists>s. g_store g a = Some s \<and> s_state s = STATE_PENDING_REMOVAL)
     \<and> (\<forall>a s. g_store g a = Some s \<longrightarrow> a < g_fresh g \<and> wf_sender s)"

definition sender_evolves :: "sender \<Rightarrow> sender \<Rightarrow> bool" where
  "sender_evolves s t \<longleftrightarrow> s_id t = s_id s \<and> s_state s \<le> s_state t \<and> (wf_sender s \<longrightarrow> wf_sender t)"

definition evolve :: "'a group_scheme \<Rightarrow> 'a group_scheme \<Rightarrow> bool" where
  "evolve g g' \<longleftrightarrow>
     (wf_group g \<longrightarrow> wf_group g')
     \<and> (\<forall>a s. g_store g a = Some s \<longrightarrow>
          (\<exists>t. g_store g' a = Some t \<and> s_id t = s_id s \<and> s_state s \<le> s_state t))"

lemma evolve_refl [simp]: "evolve g g"
  by (simp add: evolve_def)

lemma evolve_trans: "evolve g g' \<Longrightarrow> evolve g' g'' \<Longrightarrow> evolve g g''"
proof -
  assume 1: "evolve g g'" and 2: "evolve g' g''"
  have "\<exists>u. g_store g'' a = Some u \<and> s_id u = s_id s \<and> s_state s \<le> s_state u"
    if s: "g_store g a = Some s" for a s
  proof -
    obtain t where t: "g_store g' a = Some t" "s_id t = s_id s" "s_state s \<le> s_state t"
      using 1 s unfolding evolve_def by blast
    then obtain u where "g_store g'' a = Some u" "s_id u = s_id t" "s_state t \<le> s_state u"
      using 2 unfolding evolve_def by blast
    with t show ?thesis by auto
  qed
  with 1 2 show ?thesis by (simp add: evolve_def)
qed

lemma evolve_wf: "wf_group g \<Longrightarrow> evolve g g' \<Longrightarrow> wf_group g'"
  by (simp add: evolve_def)

text \<open>States that differ in fields the invariant does not read.\<close>

lemma evolve_same:
  assumes "g_store g' = g_store g" "g_fresh g' = g_fresh g" "g_senders g' = g_senders g"
    "set (g_pop_queue g') \<subseteq> set (g_pop_queue g)"
    "set (g_pending_removal g') \<subseteq> set (g_pending_removal g)"
  shows "evolve g g'"
  using assms unfolding evolve_def wf_group_def by auto

lemma max_pending: "s_state s = STATE_PENDING_REMOVAL \<Longrightarrow> s_state s \<le> t \<Longrightarrow> t = STATE_PENDING_REMOVAL"
  by (cases t) (simp_all add: state_order)

lemma evolve_put:
  assumes "g_store g a = Some s" "sender_evolves s t"
  shows "evolve g (put_sender a t g)"
proof -
  have "wf_group (put_sender a t g)" if "wf_group g"
  proof -
    have "s_state t = STATE_PENDING_REMOVAL" if "a \<in> set (g_pending_removal g)"
      using that \<open>wf_group g\<close> assms max_pending[of s "s_state t"]
      by (auto simp: wf_group_def sender_evolves_def)
    with that assms show ?thesis unfolding wf_group_def sender_evolves_def by auto
  qed
  then show ?thesis using assms unfolding evolve_def sender_evolves_def by auto
qed

lemma stutter_evolves: "stutter s t \<Longrightarrow> sender_evolves s t"
proof -
  assume st: "stutter s t"
  have "wf_sender t" if "wf_sender s"
    unfolding wf_sender_def
  proof (intro allI impI)
    fix i info assume "cached t i = Some info"
    then obtain x where "cached s i = Some x" "pi_packet info = pi_packet x"
      "pi_packet_id info = pi_packet_id x"
      using stutter_cached[OF st, of i] by (auto dest: entry_kept_Some)
    with that st show "pi_packet_id info = i \<and> (\<forall>p. pi_packet info = Some p \<longrightarrow>
        pkt_packet_id p = i \<and> pkt_sender p = s_id t \<and> is_reliable_packet p)"
      by (simp add: wf_sender_def stutter_def)
  qed
  with st show ?thesis by (simp add: sender_evolves_def stutter_def)
qed

lemma evolve_upd:
  "(\<And>s. g_store g a = Some s \<Longrightarrow> holds (sender_evolves s) (f s)) \<Longrightarrow> holds (evolve g) (upd_sender a f g)"
  unfolding upd_sender_def
  by (intro holds_andthenI) (auto simp: holds_iff intro: evolve_put)

lemma evolve_then:
  "holds (\<lambda>x. evolve g (p x)) m \<Longrightarrow>
    (\<And>x. m = Inr x \<Longrightarrow> evolve g (p x) \<Longrightarrow> holds (\<lambda>y. evolve (p x) (q y)) (f x)) \<Longrightarrow>
    holds (\<lambda>y. evolve g (q y)) (andthen m f)"
  by (cases m) (auto intro: holds_mono evolve_trans)

lemmas evolve_then1 = evolve_then[where p = "\<lambda>x. x" and q = "\<lambda>x. x"]
lemmas evolve_then_pair = evolve_then[where p = "\<lambda>x. x" and q = snd]
lemmas evolve_pair_then = evolve_then[where p = snd and q = "\<lambda>x. x"]
lemmas evolve_pair_pair = evolve_then[where p = snd and q = snd]

lemma evolve_foldo:
  "(\<And>x g. holds (evolve g) (f x g)) \<Longrightarrow> holds (evolve g) (foldo f xs g)"
  by (rule foldo_holds) (auto intro: holds_mono evolve_trans)

section \<open>Operations on one sender\<close>

text \<open>The fields the invariant does not read.\<close>

lemma evolves_fields [simp]:
  "sender_evolves s s"
  "sender_evolves s (s\<lparr>s_name := n\<rparr>)"
  "sender_evolves s (s\<lparr>holding_data := b\<rparr>)"
  "sender_evolves s (s\<lparr>holding_data := b, holding_point := w\<rparr>)"
  "sender_evolves s (s\<lparr>start_data := b, start_point := w\<rparr>)"
  "sender_evolves s (s\<lparr>next_output_packet := w\<rparr>)"
  "sender_evolves s (s\<lparr>next_output_packet := w, next_output_data_packet := v\<rparr>)"
  "sender_evolves s (s\<lparr>next_input_packet := w\<rparr>)"
  "sender_evolves s (s\<lparr>next_input_packet := w, next_output_packet := x, next_output_data_packet := y\<rparr>)"
  "sender_evolves s (s\<lparr>whois_timer := tm\<rparr>)"
  "sender_evolves s (s\<lparr>fail_timer := tm\<rparr>)"
  "sender_evolves s (s\<lparr>end_point := w\<rparr>)"
  by (simp_all add: sender_evolves_def wf_sender_def)

lemma evolves_trans: "sender_evolves s t \<Longrightarrow> sender_evolves t u \<Longrightarrow> sender_evolves s u"
  unfolding sender_evolves_def by auto

lemma evolves_andthen:
  "holds (sender_evolves s) m \<Longrightarrow> (\<And>t. m = Inr t \<Longrightarrow> holds (sender_evolves t) (f t)) \<Longrightarrow>
    holds (sender_evolves s) (andthen m f)"
  by (cases m) (auto intro: holds_mono evolves_trans)

lemma evolves_foldo:
  "(\<And>x s. holds (sender_evolves s) (f x s)) \<Longrightarrow> holds (sender_evolves s) (foldo f xs s)"
  by (rule foldo_holds) (auto intro: holds_mono evolves_trans)

lemma evolves_fold: "(\<And>x s. sender_evolves s (f x s)) \<Longrightarrow> sender_evolves s (fold f xs s)"
proof (induction xs arbitrary: s)
  case (Cons x xs)
  show ?case using evolves_trans[of s "f x s"] Cons by simp
qed simp

lemma holds_stutter_evolves: "holds (stutter s) m \<Longrightarrow> holds (sender_evolves s) m"
  by (erule holds_mono) (rule stutter_evolves)

lemma evolves_set_state: "holds (sender_evolves s) (set_state st s)"
  by (simp add: set_state_def sender_evolves_def wf_sender_def)

lemma evolves_upd_info:
  "(\<And>x. pi_packet (f x) = pi_packet x \<and> pi_packet_id (f x) = pi_packet_id x) \<Longrightarrow>
     holds (sender_evolves s) (upd_info i f s)"
  by (auto simp: upd_info_def sender_evolves_def wf_sender_def update_conv' cached_def
      split: if_splits)

lemma evolves_schedule_repair: "sender_evolves s (schedule_repair i s)"
  by (auto simp: schedule_repair_def sender_evolves_def wf_sender_def cached_def update_conv'
      packet_info_new_def split: option.splits if_splits)

lemma evolves_schedule_do_repair: "holds (sender_evolves s) (schedule_do_repair i s)"
  unfolding schedule_do_repair_def
  by (auto intro!: holds_andthenI evolves_upd_info simp del: holds_simps(3))

lemma evolves_schedule_whois [simp]: "sender_evolves s (schedule_whois_request b s)"
  by (simp add: schedule_whois_request_def)

lemma evolves_progress [simp]: "sender_evolves s (schedule_progress_timer s)"
  by (simp add: schedule_progress_timer_def)

lemma evolves_stop_whois [simp]: "sender_evolves s (stop_whois_discovery s)"
  by (simp add: stop_whois_discovery_def sender_evolves_def wf_sender_def)

lemma evolves_update_start: "holds (sender_evolves s) (sender_update_start i s)"
proof -
  have "holds (sender_evolves s) (set_state STATE_PREPARING s)" by (rule evolves_set_state)
  then have "holds (sender_evolves s) (andthen (set_state STATE_PREPARING s) (\<lambda>s.
      Inr (s\<lparr>next_input_packet := i, next_output_packet := i, next_output_data_packet := i,
             first_packet := i\<rparr>)))"
    by (rule evolves_andthen) (simp add: sender_evolves_def wf_sender_def)
  moreover have "holds (sender_evolves s) (andthen (foldo (\<lambda>i s.
           case cached s i of
             None \<Rightarrow> Inr s
           | Some info \<Rightarrow>
               if pi_packet info = None \<and> pi_timeout info \<noteq> None
               then upd_info i (\<lambda>info. info\<lparr>pi_timeout := None\<rparr>) s
               else Inr s) xs s) (\<lambda>s.
       Inr (s\<lparr>next_input_packet := i, next_output_packet := i, next_output_data_packet := i\<rparr>)))" for xs
    by (rule evolves_andthen[OF evolves_foldo]) (auto split: option.split intro: evolves_upd_info)
  ultimately show ?thesis
    by (auto simp: sender_update_start_def simp del: holds_simps(3)
        intro!: holds_andthenI[where m = "assert_that _"])
qed

lemma evolves_set_failed: "holds (sender_evolves s) (sender_set_failed s)"
proof -
  have "holds (sender_evolves s) (andthen (set_state STATE_FAILED s) (\<lambda>s.
      Inr (s\<lparr>end_point := next_output_packet s\<rparr>)))"
    by (rule evolves_andthen[OF evolves_set_state]) simp
  then show ?thesis
    by (auto simp: sender_set_failed_def simp del: holds_simps(3) intro!: evolves_andthen
        evolves_set_state stutter_evolves)
qed

lemma evolves_set_data_start: "holds (sender_evolves s) (sender_set_data_start i s)"
  by (simp add: sender_set_data_start_def)

lemma evolves_repair_request:
  "holds (\<lambda>x. sender_evolves s (snd x)) (sender_repair_request i s)"
proof -
  have sched: "holds (\<lambda>x. sender_evolves s (snd x)) (andthen m (\<lambda>s. Inr (True, s)))"
    if "holds (sender_evolves s) m" for m using that by simp
  have loop: "holds (sender_evolves s) (foldo (\<lambda>j s. Inr (schedule_repair j s)) xs s)" for xs
    by (rule evolves_foldo) (simp add: evolves_schedule_repair)
  have again: "holds (\<lambda>x. sender_evolves s (snd x))
      (andthen (upd_info i (\<lambda>info. info\<lparr>pi_timeout := None\<rparr>) s) (\<lambda>s. Inr (True, schedule_repair i s)))"
    using evolves_upd_info[of "\<lambda>info. info\<lparr>pi_timeout := None\<rparr>" s i]
    by (auto simp: holds_iff andthen_eq_Inr intro: evolves_trans[OF _ evolves_schedule_repair])
  show ?thesis
    by (auto simp: sender_repair_request_def Let_def simp del: holds_simps(3) split: option.split
        intro!: sched loop again evolves_schedule_do_repair holds_andthenI[where m = "assert_that _"])
qed

lemma evolves_seen: "sender_evolves s (snd (sender_seen i s))"
  by (simp add: sender_seen_def Let_def evolves_fold evolves_schedule_repair)

lemma evolves_set_packet_repeat: "holds (sender_evolves s) (sender_set_packet_repeat i b s)"
proof -
  have step: "holds (sender_evolves t) (if b then if tm = None then schedule_do_repair i t else Inr t
      else packet_info_try_gc i t)" for t and tm :: "timer option"
    by (simp add: evolves_schedule_do_repair holds_stutter_evolves stutter_try_gc)
  have "holds (sender_evolves s) (andthen (upd_info i (\<lambda>info. info\<lparr>pi_repeating := b\<rparr>) s) (\<lambda>s.
      if b then if tm = None then schedule_do_repair i s else Inr s else packet_info_try_gc i s))" for tm :: "timer option"
    by (rule evolves_andthen[OF evolves_upd_info]) (simp, rule step)
  then show ?thesis
    by (auto simp: sender_set_packet_repeat_def simp del: holds_simps(3) intro!: holds_andthenI)
qed

lemma evolves_stop: "holds (sender_evolves s) (sender_stop s)"
proof -
  let ?t = "s\<lparr>whois_timer := None,
    packet_cache := map (\<lambda>(i, info). (i, info\<lparr>pi_timeout := None\<rparr>)) (packet_cache s)\<rparr>"
  have "cached ?t i = map_option (\<lambda>info. info\<lparr>pi_timeout := None\<rparr>) (cached s i)" for i
    by (simp add: cached_def map_of_map)
  then have "sender_evolves s ?t" by (auto simp: sender_evolves_def wf_sender_def)
  then show ?thesis using evolves_set_state[of ?t STATE_STOPPED]
    by (auto simp: sender_stop_def simp del: holds_simps(3) intro: holds_mono evolves_trans)
qed

lemma evolves_store_packet:
  assumes "is_reliable_packet p" "pkt_sender p = s_id s"
  shows "sender_evolves s (store_packet p s)"
proof -
  let ?info = "case cached s (pkt_packet_id p) of Some info \<Rightarrow> info
    | None \<Rightarrow> packet_info_new (pkt_packet_id p)"
  let ?t = "s\<lparr>packet_cache := AList.update (pkt_packet_id p)
    (?info\<lparr>pi_timeout := None, pi_packet := Some p\<rparr>) (packet_cache s)\<rparr>"
  have "wf_sender ?t" if "wf_sender s"
    using that assms unfolding wf_sender_def
    by (auto simp: update_conv' packet_info_new_def split: option.splits if_splits) (auto simp: cached_def)
  then have t: "sender_evolves s ?t" by (simp add: sender_evolves_def)
  then have "sender_evolves s (fold schedule_repair xs ?t)" for xs
    by (rule evolves_trans) (rule evolves_fold, rule evolves_schedule_repair)
  then show ?thesis using t
    by (simp add: store_packet_def Let_def evolves_trans[OF _ evolves_fields(8)])
qed

end
