(* ===== verification/Sender_Evolve.thy ===== *)
theory Sender_Evolve
  imports Sender_Invariant
begin

text \<open>
  Every operation of the sender group keeps the invariant of \<open>Sender_Invariant\<close> and lets the
  senders evolve, given that the signal handlers do. The operations without signals come first; the
  others are lemmas of the locale \<open>evolving_handler\<close>, over the run lemmas of \<open>pop_engine\<close>.
\<close>

section \<open>Operations that emit no signal\<close>

lemma set_AList_update: "x \<in> set (AList.update k v al) \<Longrightarrow> x = (k, v) \<or> x \<in> set al"
  by (induction al) (auto split: if_splits)

lemma wf_group_new: "wf_group group_new"
  by (simp add: wf_group_def group_new_def)

lemma wf_sender_init [simp]: "wf_sender (sender_init i name)"
  by (simp add: wf_sender_def sender_init_def cached_def)

lemma sender_new_evolves:
  assumes "wf_group g" "sender_new i name g = (a, g')"
  shows "evolve g g'" "\<exists>s. g_store g' a = Some s \<and> s_id s = i"
    "g_senders g' = g_senders g" "g_pending_removal g' = g_pending_removal g"
proof -
  obtain s where a: "a = g_fresh g" and g': "g' = put_sender a s (g\<lparr>g_fresh := Suc (g_fresh g)\<rparr>)"
    and s: "wf_sender s" "s_id s = i"
    using assms(2)
    by (auto simp: sender_new_def Let_def schedule_whois_request_def schedule_progress_timer_def
        wf_sender_def sender_init_def cached_def split: if_splits)
  have fresh: "g_store g a = None"
    using assms(1) by (cases "g_store g a") (auto simp: wf_group_def a)
  have "wf_group g'"
    using assms(1) fresh s unfolding wf_group_def g' a
    by (auto simp: less_Suc_eq)
  then show "evolve g g'" using fresh by (auto simp: evolve_def g')
  show "\<exists>s. g_store g' a = Some s \<and> s_id s = i" "g_senders g' = g_senders g"
    "g_pending_removal g' = g_pending_removal g"
    using s by (simp_all add: g')
qed

lemma evolve_table:
  assumes "distinct (map fst (g_senders g)) \<Longrightarrow> distinct (map fst q)"
    and "\<And>i a. (i, a) \<in> set q \<Longrightarrow> (i, a) \<in> set (g_senders g) \<or> (\<exists>s. g_store g a = Some s \<and> s_id s = i)"
  shows "evolve g (g\<lparr>g_senders := q\<rparr>)"
  using assms unfolding evolve_def wf_group_def by fastforce

lemma group_add_evolves: "holds (evolve g) (group_add a g)"
  unfolding group_add_def
  by (rule holds_andthenI)
     (auto intro!: evolve_table AList.distinct_update dest!: set_AList_update)

lemma evolve_delete: "evolve g (g\<lparr>g_senders := AList.delete i (g_senders g)\<rparr>)"
proof (rule evolve_table)
  show "distinct (map fst (g_senders g)) \<Longrightarrow> distinct (map fst (AList.delete i (g_senders g)))"
    by (rule AList.distinct_delete)
qed (auto simp: AList.delete_eq)

lemma foreach_sender_evolves:
  "(\<And>s. holds (sender_evolves s) (f s)) \<Longrightarrow> holds (evolve g) (foreach_sender (\<lambda>a. upd_sender a f) g)"
  unfolding foreach_sender_def by (intro evolve_foldo evolve_upd)

lemma group_stop_evolves: "holds (evolve g) (group_stop g)"
  unfolding group_stop_def
  by (rule evolve_then1[OF foreach_sender_evolves[OF evolves_stop]])
     (auto intro: evolve_same)

lemma group_gc_acks_evolves: "holds (evolve g) (group_gc_acks i g)"
  unfolding group_gc_acks_def
  by (auto intro!: holds_andthenI foreach_sender_evolves stutter_evolves simp del: holds_simps(3))

lemma evolve_pending:
  assumes "g_store g a = Some s" "s_state s = STATE_PENDING_REMOVAL"
  shows "evolve g (g\<lparr>g_pending_removal := g_pending_removal g @ [a]\<rparr>)"
  using assms unfolding evolve_def wf_group_def by auto

lemma group_remove_evolves: "holds (evolve g) (group_remove i g)"
proof (cases "group_lookup i g")
  case (Some a)
  let ?q = "g\<lparr>g_pop_queue := remove1 a (g_pop_queue g)\<rparr>"
  have q: "evolve g ?q" by (rule evolve_same) (simp_all add: set_remove1_subset)
  have sent: "evolve x (x\<lparr>g_senders := AList.delete i (g_senders x),
      g_pending_removal := g_pending_removal x @ [a]\<rparr>)"
    if "g_store x a = Some s" "s_state s = STATE_PENDING_REMOVAL" for x :: "'a group_scheme" and s
    using evolve_trans[OF evolve_delete[of x i] evolve_pending[of _ a s]] that by simp
  have rest: "holds (evolve x) (andthen (get_sender a x) (\<lambda>s.
          if sender_packet_cache_size s > 0 then
            andthen (upd_sender a sender_stop x) (\<lambda>g.
            Inr (g\<lparr>g_senders := AList.delete i (g_senders g),
                   g_pending_removal := g_pending_removal g @ [a]\<rparr>))
          else
            group_gc_acks i (x\<lparr>g_senders := AList.delete i (g_senders x)\<rparr>)))"
    if x: "g_store x a = Some s" "s_state s = STATE_PENDING_REMOVAL" for x :: "'a group_scheme" and s
  proof -
    have stop: "sender_stop s = Inr s" using x by (simp add: sender_stop_def state_order)
    have "put_sender a s x = x" using x by (simp add: put_sender_def fun_upd_idem)
    then have "upd_sender a sender_stop x = Inr x" using x stop by (simp add: upd_sender_def get_sender_def)
    moreover have "holds (evolve x) (group_gc_acks i (x\<lparr>g_senders := AList.delete i (g_senders x)\<rparr>))"
      by (rule holds_mono[OF group_gc_acks_evolves]) (rule evolve_trans[OF evolve_delete])
    ultimately show ?thesis using x sent[OF x] by (simp add: get_sender_def)
  qed
  have "holds (evolve ?q) (andthen (upd_sender a (set_state STATE_PENDING_REMOVAL) ?q) (\<lambda>g.
          andthen (get_sender a g) (\<lambda>s.
          if sender_packet_cache_size s > 0 then
            andthen (upd_sender a sender_stop g) (\<lambda>g.
            Inr (g\<lparr>g_senders := AList.delete i (g_senders g),
                   g_pending_removal := g_pending_removal g @ [a]\<rparr>))
          else
            group_gc_acks i (g\<lparr>g_senders := AList.delete i (g_senders g)\<rparr>))))"
  proof (rule evolve_then1[OF evolve_upd[OF evolves_set_state]])
    fix x assume "upd_sender a (set_state STATE_PENDING_REMOVAL) ?q = Inr x"
    then obtain s where "g_store x a = Some s" "s_state s = STATE_PENDING_REMOVAL"
      by (auto simp: upd_sender_def andthen_eq_Inr set_state_def)
    then show "holds (evolve x) (andthen (get_sender a x) (\<lambda>s.
          if sender_packet_cache_size s > 0 then
            andthen (upd_sender a sender_stop x) (\<lambda>g.
            Inr (g\<lparr>g_senders := AList.delete i (g_senders g),
                   g_pending_removal := g_pending_removal g @ [a]\<rparr>))
          else
            group_gc_acks i (x\<lparr>g_senders := AList.delete i (g_senders x)\<rparr>)))"
      by (rule rest)
  qed
  with q Some show ?thesis by (auto simp: group_remove_def simp del: holds_simps(3)
        intro: holds_mono evolve_trans)
qed (simp add: group_remove_def)

lemma repair_pending_evolves: "holds (\<lambda>x. evolve g (snd x)) (repair_pending i j as g)"
proof (induction as arbitrary: g)
  case (Cons a as)
  have "holds (\<lambda>x. evolve g (snd x)) (andthen (sender_repair_request j s) (\<lambda>(b, s).
       if b then Inr (True, put_sender a s g) else repair_pending i j as (put_sender a s g)))"
    if "g_store g a = Some s" for s
  proof (rule holds_andthenI)
    fix x assume "sender_repair_request j s = Inr x"
    then have "sender_evolves s (snd x)" using evolves_repair_request[of s j] by simp
    then have "evolve g (put_sender a (snd x) g)" by (rule evolve_put[OF that])
    then show "holds (\<lambda>y. evolve g (snd y)) (case x of (b, s) \<Rightarrow>
       if b then Inr (True, put_sender a s g) else repair_pending i j as (put_sender a s g))"
      using Cons.IH by (auto simp: split_def intro: holds_mono evolve_trans)
  qed
  with Cons.IH show ?case
    by (auto simp del: holds_simps(3) intro!: holds_andthenI[where m = "get_sender _ _"])
qed simp

lemma sender_repair_put:
  "holds (\<lambda>x. evolve g (snd x)) (andthen (get_sender a g) (\<lambda>s.
     andthen (sender_repair_request j s) (\<lambda>(b, s). Inr (b, put_sender a s g))))"
proof (rule holds_andthenI, rule holds_andthenI)
  fix s x assume "get_sender a g = Inr s" "sender_repair_request j s = Inr x"
  then show "holds (\<lambda>x. evolve g (snd x)) (case x of (b, s) \<Rightarrow> Inr (b, put_sender a s g))"
    using evolves_repair_request[of s j] by (auto simp: split_def intro: evolve_put)
qed

lemma group_repair_request_evolves: "holds (\<lambda>x. evolve g (snd x)) (group_repair_request i j g)"
proof -
  have "holds (\<lambda>x. evolve g (snd x)) (case group_lookup i g of None \<Rightarrow> Inr (False, g)
      | Some a \<Rightarrow> andthen (get_sender a g) (\<lambda>s.
          andthen (sender_repair_request j s) (\<lambda>(b, s). Inr (b, put_sender a s g))))"
    by (auto split: option.split simp del: holds_simps(3) intro: sender_repair_put)
  then have "holds (\<lambda>x. evolve g (snd x)) (andthen (case group_lookup i g of None \<Rightarrow> Inr (False, g)
      | Some a \<Rightarrow> andthen (get_sender a g) (\<lambda>s.
          andthen (sender_repair_request j s) (\<lambda>(b, s). Inr (b, put_sender a s g)))) (\<lambda>(b, g).
     if b then Inr (True, g) else repair_pending i j (g_pending_removal g) g))"
    by (rule evolve_pair_pair) (auto simp: split_def intro: repair_pending_evolves)
  then show ?thesis
    unfolding group_repair_request_def by (rule holds_andthenI[where m = "assert_that _"])
qed

section \<open>Operations that emit signals\<close>

locale evolving_handler =
  fixes h :: "'a handler"
  assumes handler: "wf_group g \<Longrightarrow> holds (evolve g) (h a sig g)"
begin

sublocale engine: pop_engine h wf_group evolve "\<lambda>_ _ _. True" evolve "\<lambda>_ _ _. True"
proof unfold_locales
  fix g :: "'a group_scheme" and q
  assume q: "\<And>b. b \<in> set q \<Longrightarrow> b \<in> set (g_pop_queue g) \<or> g_store g b \<noteq> None"
  have "wf_group (g\<lparr>g_pop_queue := q\<rparr>)" if "wf_group g"
  proof -
    have "g_store g b \<noteq> None" if "b \<in> set q" for b
      using q[OF that] \<open>wf_group g\<close> unfolding wf_group_def by blast
    with that show ?thesis unfolding wf_group_def by simp
  qed
  then show "evolve g (g\<lparr>g_pop_queue := q\<rparr>)" by (simp add: evolve_def)
next
  fix g :: "'a group_scheme" and a p
  assume "wf_group g"
  have adv: "holds (evolve g) (upd_sender a (\<lambda>s. Inr (advance_control s)) g)"
    by (rule evolve_upd) (auto simp: advance_control_def Let_def sender_evolves_def wf_sender_def)
  have "holds (evolve x) (signal_control_packet h a p x)" if "wf_group x" for x
    unfolding signal_control_packet_def
    by (rule evolve_then1[OF evolve_upd[OF evolves_set_state]])
       (auto intro: handler evolve_wf[OF that])
  with \<open>wf_group g\<close> show "holds (evolve g) (output_control h a p g)"
    unfolding output_control_def
    by (intro evolve_then1[OF adv]) (auto intro: evolve_wf)
next
  fix g :: "'a group_scheme" and q
  assume "set q \<subseteq> set (g_pending_removal g)"
  then show "evolve g (g\<lparr>g_pending_removal := q\<rparr>)" by (intro evolve_same) auto
qed (auto intro: evolve_trans evolve_wf evolve_put stutter_evolves handler)

lemma pop_packets_evolves:
  "wf_group g \<Longrightarrow> g_store g a \<noteq> None \<Longrightarrow> holds (evolve g) (pop_packets h n a g)"
proof (induction n arbitrary: a g)
  case (Suc n)
  show ?case
  proof (cases "g_popping g")
    case True
    then show ?thesis using Suc.prems by (auto intro: engine.R0_queue)
  next
    case False
    let ?g = "g\<lparr>g_popping := True\<rparr>"
    have on: "evolve g ?g" by (rule evolve_same) auto
    have "evolve g (g''\<lparr>g_popping := False\<rparr>)" if "evolve ?g g''" for g''
    proof -
      have "evolve g'' (g''\<lparr>g_popping := False\<rparr>)" by (rule evolve_same) auto
      with on that show ?thesis by (blast intro: evolve_trans)
    qed
    then show ?thesis
      using engine.R_pop_packets[OF Suc.IH evolve_wf[OF Suc.prems(1) on] False, of a]
      by (auto simp del: pop_packets.simps intro: holds_mono)
  qed
qed simp

lemma upd_pop_evolves:
  assumes "wf_group g" "\<And>s. g_store g a = Some s \<Longrightarrow> holds (sender_evolves s) (f s)"
  shows "holds (evolve g) (andthen (upd_sender a f g) (pop_packets h n a))"
proof (rule evolve_then1[OF evolve_upd[OF assms(2)]])
  fix x assume "upd_sender a f g = Inr x" "evolve g x"
  then show "holds (evolve x) (pop_packets h n a x)"
    using assms(1) by (intro pop_packets_evolves)
      (auto simp: upd_sender_def andthen_eq_Inr intro: evolve_wf)
qed

lemma hold_data_evolves: "wf_group g \<Longrightarrow> holds (evolve g) (sender_hold_data h n a i g)"
  unfolding sender_hold_data_def by (rule upd_pop_evolves) auto

lemma release_data_evolves: "wf_group g \<Longrightarrow> holds (evolve g) (sender_release_data h n a g)"
  unfolding sender_release_data_def by (rule upd_pop_evolves) auto

lemma insert_packet_evolves:
  assumes "wf_group g" "g_store g a = Some s" "is_reliable_packet p" "pkt_sender p = s_id s"
  shows "holds (evolve g) (insert_packet h n a p g)"
proof -
  let ?g = "put_sender a (store_packet p s) g"
  have put: "evolve g ?g" using assms(2) evolves_store_packet[OF assms(3,4)] by (rule evolve_put)
  have "holds (evolve ?g) (pop_packets h n a ?g)"
    using assms(1) put by (intro pop_packets_evolves evolve_wf[OF _ put]) auto
  with put show ?thesis using assms(2)
    by (auto simp: insert_packet_def get_sender_def simp del: holds_simps(3)
        intro!: holds_andthenI[where m = "assert_that _"] intro: holds_mono evolve_trans)
qed

lemma push_evolves:
  assumes "wf_group g" "is_reliable_packet p"
  shows "holds (evolve g) (sender_push h n a p g)"
  unfolding sender_push_def using insert_packet_evolves[OF assms(1) _ assms(2)]
  by (auto simp: Let_def simp del: holds_simps(3) intro!: holds_andthenI)

lemma whois_push_evolves:
  assumes "wf_group g"
  shows "holds (evolve g) (sender_whois_push h n a p g)"
proof (cases "g_store g a")
  case (Some s)
  have put: "evolve g (put_sender a t g)" if "sender_evolves s t" for t
    by (rule evolve_put[OF Some that])
  have name: "holds (evolve g) (name_discovered h a name g)" for name
  proof -
    have "sender_evolves s (stop_whois_discovery s\<lparr>s_name := name\<rparr>)" for s
      using evolves_trans[OF evolves_stop_whois] by simp
    then show ?thesis unfolding name_discovered_def
      by (auto intro!: evolve_then1 evolve_upd handler intro: evolve_wf[OF assms]
          simp del: holds_simps(3))
  qed
  have pop: "holds (evolve g) (andthen m (pop_packets h n a))" if "holds (evolve g) m" for m
  proof (rule evolve_then1[OF that])
    fix x assume x: "evolve g x"
    then have "g_store x a \<noteq> None" using Some unfolding evolve_def by blast
    then show "holds (evolve x) (pop_packets h n a x)"
      using evolve_wf[OF assms x] by (intro pop_packets_evolves) auto
  qed
  show ?thesis using Some put name pop[of "Inr (put_sender a (stop_whois_discovery s) g)"]
    by (auto simp: sender_whois_push_def get_sender_def simp del: holds_simps(3)
        split: packet_data.split intro!: holds_andthenI[where m = "assert_that _"] pop)
qed (simp add: sender_whois_push_def get_sender_def)

lemma group_push_evolves:
  assumes "wf_group g"
  shows "holds (\<lambda>x. evolve g (snd x)) (group_push_packet h n p g)"
proof -
  have whois: "holds (\<lambda>x. evolve g (snd x)) (group_push_whois h n p sender g)" for sender
    unfolding group_push_whois_def using whois_push_evolves[OF assms]
    by (auto split: option.split)
  have reliable: "holds (\<lambda>x. evolve g (snd x)) (group_push_reliable h n p g)"
    if "is_reliable_packet p"
    unfolding group_push_reliable_def
    by (rule holds_andthenI) (auto split: option.split intro: holds_mono[OF push_evolves[OF assms that]])
  show ?thesis
    unfolding group_push_packet_def using whois reliable group_repair_request_evolves
    by (auto split: packet_data.split simp del: holds_simps(3) intro!: holds_andthenI)
qed

subsection \<open>Timer callbacks\<close>

lemma signal_failure_evolves: "wf_group g \<Longrightarrow> holds (evolve g) (signal_failure h a g)"
  by (rule engine.R0_signal_failure)

lemma signal_failure_put:
  assumes "wf_group g" "g_store g a = Some s" "sender_evolves s t"
  shows "holds (evolve g) (signal_failure h a (put_sender a t g))"
proof -
  have put: "evolve g (put_sender a t g)" using assms(2,3) by (rule evolve_put)
  show ?thesis
    by (rule holds_mono[OF signal_failure_evolves[OF evolve_wf[OF assms(1) put]]])
       (rule evolve_trans[OF put])
qed

lemma fail_timers_evolve:
  assumes "wf_group g"
  shows "holds (evolve g) (name_discovery_failed_cb h a g)" "holds (evolve g) (progress_failed_cb h a g)"
  unfolding name_discovery_failed_cb_def progress_failed_cb_def
  by (auto simp: sender_evolves_def wf_sender_def simp del: holds_simps(3)
      intro!: holds_andthenI signal_failure_put[OF assms])

lemma upd_handler_evolves:
  assumes "wf_group g" "\<And>s. holds (sender_evolves s) (f s)"
    and "\<And>g'. wf_group g' \<Longrightarrow> holds (evolve g') (k g')"
  shows "holds (evolve g) (andthen (upd_sender a f g) (\<lambda>g. andthen (h a sig g) k))"
  by (auto simp del: holds_simps(3) intro!: evolve_then1 evolve_upd assms(2,3) handler
      intro: evolve_wf[OF assms(1)] evolve_wf)

lemma request_repair_evolves: "wf_group g \<Longrightarrow> holds (evolve g) (request_repair h a i g)"
  unfolding request_repair_def
  by (rule upd_handler_evolves) (auto intro!: evolves_upd_info evolve_upd simp: evolves_schedule_repair)

lemma do_repair_evolves: "wf_group g \<Longrightarrow> holds (evolve g) (do_repair h a i g)"
  unfolding do_repair_def
  by (auto simp del: holds_simps(3) split: option.split
      intro!: holds_andthenI[where m = "get_sender _ _"] holds_andthenI[where m = "deref _"]
        upd_handler_evolves evolves_upd_info evolve_upd evolves_schedule_do_repair)

lemma whois_timers_evolve:
  assumes "wf_group g"
  shows "holds (evolve g) (do_whois_reply h a g)" "holds (evolve g) (do_whois_request h a g)"
  unfolding do_whois_reply_def do_whois_request_def
  by (auto simp del: holds_simps(3) intro!: evolve_then1 evolve_upd handler intro: evolve_wf[OF assms] assms)

end

end
