(* ===== verification/Transport.thy ===== *)
theory Transport
  imports Prelude
begin

text \<open>
  What the transports of \<open>lib/gibber\<close> share, \<open>gibber-transport.h\<close>: the states, and what a
  transport tells its user, through signals and through the handler for received data.
\<close>

datatype transport_state =
    TRANSPORT_DISCONNECTED | TRANSPORT_CONNECTING | TRANSPORT_CONNECTED | TRANSPORT_DISCONNECTING

datatype transport_event =
    State_signal transport_state
  | Buffer_empty_signal
  | Error_signal
  | Received_data "u8 list"

end
