(* ===== verification/Causal_Transport.thy ===== *)
theory Causal_Transport
  imports Sender_Pop Packet_Codec Transport
begin

text \<open>
  \<open>lib/gibber/gibber-r-multicast-causal-transport.c\<close>: a node of the causal multicast group. It
  joins under a random id that nobody else uses, feeds the packets it receives to the sender group,
  numbers and sends its own packets with the packets they causally depend on, and leaves with three
  BYE packets. The record extends the sender group, which the transport owns. The layers around it
  are arguments or fields: \<open>up\<close> is what the upper layer does on an event (a signal, a data buffer
  or a change of state), \<open>ct_sent\<close> is the list of the raw packets given to the transport below,
  \<open>ct_lower_accepts\<close> says for which of them its \<open>send\<close> returns TRUE, and \<open>ct_random\<close> holds
  the results that the next calls of \<open>g_random_int\<close> return. Leaving asserts that the transport below is still
  connected.
\<close>

section \<open>State\<close>

datatype transport_callback = Next_join_step_cb | Sendout_session_cb | Send_next_bye_cb

datatype transport_timer = Transport_timer transport_callback nat nat

record causal = group +
  ct_sender_id :: u32
  ct_state :: transport_state
  ct_packet_id :: u32
  ct_self :: "saddr option"
  ct_timer :: "transport_timer option"
  ct_keepalive_timer :: "nat option"
  ct_name :: "u8 list"
  ct_nr_join_requests :: nat
  ct_nr_join_requests_seen :: nat
  ct_nr_bye :: nat
  ct_resetting :: bool
  ct_max_packet_size :: nat
  ct_lower_connected :: bool
  ct_lower_accepts :: "u8 list \<Rightarrow> bool"
  ct_sent :: "u8 list list"
  ct_random :: "u32 list"

datatype event =
    Data_event "u8 list option" u32 u16 "u8 list" \<comment> \<open>sender name and id, stream id, data\<close>
  | Control_event saddr packet
  | Foreign_event packet
  | Sender_failed_event saddr
  | State_event transport_state

type_synonym 'a upper = "event \<Rightarrow> 'a causal_scheme \<Rightarrow> 'a causal_scheme outcome"

definition NR_JOIN_REQUESTS_TO_SEND :: nat where "NR_JOIN_REQUESTS_TO_SEND = 3"
definition NR_BYE_TO_SEND :: nat where "NR_BYE_TO_SEND = 3"

fun random_nonzero_uint :: "u32 list \<Rightarrow> (u32 \<times> u32 list) outcome" where
  "random_nonzero_uint [] = Inl Out_of_fuel"
| "random_nonzero_uint (r # rs) = (if r = 0 then random_nonzero_uint rs else Inr (r, rs))"

definition self_sender :: "'a causal_scheme \<Rightarrow> sender outcome" where
  "self_sender g = andthen (deref (ct_self g)) (\<lambda>a. get_sender a g)"

definition transport_set_state ::
    "'a upper \<Rightarrow> transport_state \<Rightarrow> 'a causal_scheme \<Rightarrow> 'a causal_scheme outcome" where
  "transport_set_state up st g =
     (if st \<noteq> ct_state g then up (State_event st) (g\<lparr>ct_state := st\<rparr>) else Inr g)"

section \<open>Sending packets\<close>

definition schedule_session_message :: "'a causal_scheme \<Rightarrow> 'a causal_scheme" where
  "schedule_session_message g = g\<lparr>ct_timer := Some (Transport_timer Sendout_session_cb 1500 3000)\<rparr>"

definition schedule_keepalive_message :: "'a causal_scheme \<Rightarrow> 'a causal_scheme" where
  "schedule_keepalive_message g = g\<lparr>ct_keepalive_timer := Some 180000\<rparr>"

definition sendout_packet :: "packet \<Rightarrow> 'a causal_scheme \<Rightarrow> (bool \<times> 'a causal_scheme) outcome" where
  "sendout_packet p g =
     (let g = (if is_reliable_packet p \<and> (pkt_depends p \<noteq> [] \<or> g_senders g = [])
               then schedule_keepalive_message g else g)
      in andthen (packet_get_raw_data p) (\<lambda>(_, raw).
         andthen (assert_that (ct_lower_connected g)) (\<lambda>_.
         Inr (ct_lower_accepts g raw, g\<lparr>ct_sent := ct_sent g @ [raw]\<rparr>))))"

definition sendout :: "packet \<Rightarrow> 'a causal_scheme \<Rightarrow> 'a causal_scheme outcome" where
  "sendout p g = andthen (sendout_packet p g) (\<lambda>(_, g). Inr g)"

definition foreach_add ::
    "(saddr \<Rightarrow> sender \<Rightarrow> packet \<Rightarrow> packet outcome) \<Rightarrow> 'a group_scheme \<Rightarrow> packet \<Rightarrow> packet outcome" where
  "foreach_add f g p =
     foldo (\<lambda>a p. andthen (get_sender a g) (\<lambda>s. f a s p)) (map snd (g_senders g)) p"

definition add_session_info :: "saddr \<Rightarrow> sender \<Rightarrow> packet \<Rightarrow> packet outcome" where
  "add_session_info a s p =
     (if s_state s = STATE_NEW \<or> s_state s \<ge> STATE_FAILED then Inr p
      else packet_add_sender_info p (s_id s) (next_input_packet s))"

definition sendout_session_cb :: "'a causal_scheme \<Rightarrow> 'a causal_scheme outcome" where
  "sendout_session_cb g =
     andthen (self_sender g) (\<lambda>self.
     andthen (foreach_add add_session_info g
                (packet_new PACKET_TYPE_SESSION (s_id self) (ct_max_packet_size g))) (\<lambda>p.
     andthen (sendout p g) (\<lambda>g.
     Inr (schedule_session_message (g\<lparr>ct_timer := None\<rparr>)))))"

section \<open>Signal handlers\<close>

definition repair_request_cb :: "saddr \<Rightarrow> u32 \<Rightarrow> 'a causal_scheme \<Rightarrow> 'a causal_scheme outcome" where
  "repair_request_cb a i g =
     andthen (self_sender g) (\<lambda>self.
     andthen (get_sender a g) (\<lambda>s.
     andthen (packet_set_repair_request_info
                (packet_new PACKET_TYPE_REPAIR_REQUEST (s_id self) (ct_max_packet_size g))
                (s_id s) i) (\<lambda>p.
     sendout p g)))"

definition whois_reply_cb :: "saddr \<Rightarrow> 'a causal_scheme \<Rightarrow> 'a causal_scheme outcome" where
  "whois_reply_cb a g =
     andthen (get_sender a g) (\<lambda>s.
     andthen (packet_set_whois_reply_info
                (packet_new PACKET_TYPE_WHOIS_REPLY (s_id s) (ct_max_packet_size g)) (s_name s)) (\<lambda>p.
     sendout p g))"

definition whois_request_cb :: "saddr \<Rightarrow> 'a causal_scheme \<Rightarrow> 'a causal_scheme outcome" where
  "whois_request_cb a g =
     andthen (self_sender g) (\<lambda>self.
     andthen (get_sender a g) (\<lambda>s.
     andthen (packet_set_whois_request_info
                (packet_new PACKET_TYPE_WHOIS_REQUEST (s_id self) (ct_max_packet_size g))
                (s_id s)) (\<lambda>p.
     sendout p g)))"

text \<open>
  The handlers \<open>connected\<close> and \<open>add_sender\<close> connect: the transport's own sender only has
  handlers for two signals, every other sender for all but \<open>name-discovered\<close>.
\<close>

definition causal_handler :: "'a upper \<Rightarrow> 'a causal_ext handler" where
  "causal_handler up a sig g =
     (case sig of
        Repair_message_signal p \<Rightarrow> sendout p g
      | Whois_reply_signal \<Rightarrow> whois_reply_cb a g
      | Name_discovered_signal _ \<Rightarrow> Inr g
      | _ \<Rightarrow>
          if ct_self g = Some a then Inr g
          else case sig of
            Repair_request_signal i \<Rightarrow> repair_request_cb a i g
          | Whois_request_signal \<Rightarrow> whois_request_cb a g
          | Received_data_signal stream_id data \<Rightarrow>
              andthen (get_sender a g) (\<lambda>s. up (Data_event (s_name s) (s_id s) stream_id data) g)
          | Received_control_packet_signal p \<Rightarrow> up (Control_event a p) g
          | Failed_signal \<Rightarrow> up (Sender_failed_event a) g
          | _ \<Rightarrow> Inr g)"

section \<open>Joining\<close>

definition causal_connected :: "'a upper \<Rightarrow> 'a causal_scheme \<Rightarrow> 'a causal_scheme outcome" where
  "causal_connected up g =
     (let (a, g) = sender_new (ct_sender_id g) (Some (ct_name g)) g in
      andthen (upd_sender a (sender_update_start (ct_packet_id g)) g) (\<lambda>g.
      andthen (upd_sender a (sender_set_data_start (ct_packet_id g)) g) (\<lambda>g.
      andthen (group_add a g) (\<lambda>g.
      andthen (transport_set_state up TRANSPORT_CONNECTED (g\<lparr>ct_self := Some a\<rparr>)) (\<lambda>g.
      andthen (packet_set_whois_reply_info
                 (packet_new PACKET_TYPE_WHOIS_REPLY (ct_sender_id g) (ct_max_packet_size g))
                 (Some (ct_name g))) (\<lambda>p.
      andthen (sendout p g) (\<lambda>g.
      Inr (schedule_keepalive_message (schedule_session_message g)))))))))"

definition next_join_step :: "'a upper \<Rightarrow> 'a causal_scheme \<Rightarrow> 'a causal_scheme outcome" where
  "next_join_step up g =
     (if ct_nr_join_requests g < NR_JOIN_REQUESTS_TO_SEND then
        let g = g\<lparr>ct_nr_join_requests := ct_nr_join_requests g + 1\<rparr> in
        andthen (packet_set_whois_request_info
                   (packet_new PACKET_TYPE_WHOIS_REQUEST 0 (ct_max_packet_size g))
                   (ct_sender_id g)) (\<lambda>p.
        andthen (sendout p g) (\<lambda>g.
        Inr (g\<lparr>ct_timer := Some (Transport_timer Next_join_step_cb 250 250)\<rparr>)))
      else causal_connected up g)"

definition start_joining :: "'a causal_scheme \<Rightarrow> 'a causal_scheme outcome" where
  "start_joining g =
     andthen (random_nonzero_uint (ct_random g)) (\<lambda>(r, rs).
     Inr (g\<lparr>ct_sender_id := r, ct_random := rs, ct_nr_join_requests := 0,
           ct_nr_join_requests_seen := 0,
           ct_timer := Some (Transport_timer Next_join_step_cb 500 500)\<rparr>))"

definition causal_connect :: "'a upper \<Rightarrow> 'a causal_scheme \<Rightarrow> 'a causal_scheme outcome" where
  "causal_connect up g =
     andthen (assert_that (ct_max_packet_size g > 128)) (\<lambda>_.
     andthen (transport_set_state up TRANSPORT_CONNECTING g) start_joining)"

definition joining_multicast_receive :: "packet \<Rightarrow> 'a causal_scheme \<Rightarrow> 'a causal_scheme outcome" where
  "joining_multicast_receive p g =
     (if pkt_sender p = ct_sender_id g then start_joining g
      else case pkt_data p of
        Whois_request sender_id \<Rightarrow>
          if sender_id = ct_sender_id g then
            (if pkt_sender p \<noteq> 0 then start_joining g
             else
               let g = g\<lparr>ct_nr_join_requests_seen := ct_nr_join_requests_seen g + 1\<rparr>
               in if ct_nr_join_requests g < ct_nr_join_requests_seen g then start_joining g
                  else Inr g)
          else Inr g
      | _ \<Rightarrow> Inr g)"

section \<open>Members of the group\<close>

definition causal_add_sender ::
    "u32 \<Rightarrow> 'a causal_scheme \<Rightarrow> (saddr \<times> 'a causal_scheme) outcome" where
  "causal_add_sender sender_id g =
     (case group_lookup sender_id g of
        Some a \<Rightarrow> Inr (a, g)
      | None \<Rightarrow>
          let (a, g) = sender_new sender_id None g
          in andthen (group_add a g) (\<lambda>g. Inr (a, g)))"

definition causal_update_sender_start ::
    "u32 \<Rightarrow> u32 \<Rightarrow> 'a causal_scheme \<Rightarrow> 'a causal_scheme outcome" where
  "causal_update_sender_start sender_id packet_id g =
     (case group_lookup sender_id g of
        None \<Rightarrow> Inl Assertion_failed
      | Some a \<Rightarrow> upd_sender a (sender_update_start packet_id) g)"

definition causal_get_sender :: "u32 \<Rightarrow> 'a causal_scheme \<Rightarrow> saddr outcome" where
  "causal_get_sender sender_id g =
     (case group_lookup sender_id g of None \<Rightarrow> Inl Assertion_failed | Some a \<Rightarrow> Inr a)"

definition causal_get_sender_by_name ::
    "u8 list option \<Rightarrow> 'a causal_scheme \<Rightarrow> saddr option outcome" where
  "causal_get_sender_by_name name g = group_lookup_by_name name g"

definition causal_remove_sender :: "u32 \<Rightarrow> 'a causal_scheme \<Rightarrow> 'a causal_scheme outcome" where
  "causal_remove_sender sender_id g = group_remove sender_id g"

section \<open>Receiving\<close>

definition upd_seen :: "u32 \<Rightarrow> saddr \<Rightarrow> 'a group_scheme \<Rightarrow> 'a group_scheme outcome" where
  "upd_seen packet_id a = upd_sender a (\<lambda>s. Inr (snd (sender_seen packet_id s)))"

fun session_infos ::
    "sender_info list \<Rightarrow> bool \<Rightarrow> 'a causal_scheme \<Rightarrow> (bool \<times> 'a causal_scheme) outcome" where
  "session_infos [] outdated g = Inr (outdated, g)"
| "session_infos ((sender_id, packet_id) # infos) outdated g =
     (case group_lookup sender_id g of
        None \<Rightarrow> session_infos infos outdated g
      | Some a \<Rightarrow>
          andthen (get_sender a g) (\<lambda>s.
          let newer = packet_diff packet_id (next_input_packet s) > 0 in
          andthen (assert_that (newer \<longrightarrow> s_state s > STATE_NEW)) (\<lambda>_.
          andthen (upd_seen packet_id a g) (\<lambda>g.
          session_infos infos (outdated \<or> newer) g))))"

definition handle_session_message :: "packet \<Rightarrow> 'a causal_scheme \<Rightarrow> 'a causal_scheme outcome" where
  "handle_session_message p g =
     andthen (assert_that (pkt_type p = PACKET_TYPE_SESSION)) (\<lambda>_.
     andthen (session_infos (pkt_depends p) False g) (\<lambda>(outdated, g).
     Inr (if \<not> outdated \<and> length (g_senders g) = length (pkt_depends p)
          then schedule_session_message g else g)))"

definition handle_packet_depends :: "packet \<Rightarrow> 'a causal_scheme \<Rightarrow> 'a causal_scheme outcome" where
  "handle_packet_depends p g =
     andthen (assert_that (is_reliable_packet p)) (\<lambda>_.
     foldo (\<lambda>(sender_id, packet_id) g.
         case group_lookup sender_id g of
           None \<Rightarrow> Inr g
         | Some a \<Rightarrow> upd_seen packet_id a g)
       (pkt_depends p) g)"

definition postprocess_packet :: "packet \<Rightarrow> 'a causal_scheme \<Rightarrow> 'a causal_scheme outcome" where
  "postprocess_packet p g =
     (case pkt_data p of
        Whois_request _ \<Rightarrow> Inr g
      | Whois_reply _ \<Rightarrow> Inr g
      | Repair_request _ _ \<Rightarrow> Inr g
      | Session \<Rightarrow> handle_session_message p g
      | _ \<Rightarrow> if is_reliable_packet p then handle_packet_depends p g else Inr g)"

definition joined_multicast_receive ::
    "'a upper \<Rightarrow> nat \<Rightarrow> packet \<Rightarrow> 'a causal_scheme \<Rightarrow> 'a causal_scheme outcome" where
  "joined_multicast_receive up n p g =
     (let push = group_push_packet (causal_handler up) n p in
      if pkt_sender p = 0 then
        (if pkt_type p \<noteq> PACKET_TYPE_WHOIS_REQUEST then Inr g
         else andthen (push g) (\<lambda>(_, g). Inr g))
      else if pkt_sender p = ct_sender_id g then Inr g
      else
        andthen (push g) (\<lambda>(handled, g).
        andthen (if handled then Inr (True, g)
                 else andthen (up (Foreign_event p) g) push) (\<lambda>(handled, g).
        if handled then postprocess_packet p g else Inr g)))"

definition disconnecting_multicast_receive ::
    "'a upper \<Rightarrow> nat \<Rightarrow> packet \<Rightarrow> 'a causal_scheme \<Rightarrow> 'a causal_scheme outcome" where
  "disconnecting_multicast_receive up n p g =
     (if pkt_sender p = 0 then Inr g
      else case group_lookup (pkt_sender p) g of
        None \<Rightarrow> Inr g
      | Some a \<Rightarrow>
          andthen (case pkt_data p of
              Repair_request sender_id packet_id \<Rightarrow>
                (case group_lookup sender_id g of
                   None \<Rightarrow> Inr g
                 | Some b \<Rightarrow> upd_sender b (\<lambda>s. andthen (sender_repair_request packet_id s)
                                                 (\<lambda>(_, s). Inr s)) g)
            | _ \<Rightarrow> Inr g) (\<lambda>g.
          if is_reliable_packet p then sender_push (causal_handler up) n a p g else Inr g))"

definition r_multicast_receive ::
    "'a upper \<Rightarrow> nat \<Rightarrow> u8 list \<Rightarrow> 'a causal_scheme \<Rightarrow> 'a causal_scheme outcome" where
  "r_multicast_receive up n buffer g =
     (case packet_parse buffer of
        Inl Parse_error \<Rightarrow> Inr g
      | Inl e \<Rightarrow> Inl e
      | Inr p \<Rightarrow>
          (case ct_state g of
             TRANSPORT_CONNECTING \<Rightarrow> joining_multicast_receive p g
           | TRANSPORT_CONNECTED \<Rightarrow> joined_multicast_receive up n p g
           | TRANSPORT_DISCONNECTING \<Rightarrow> disconnecting_multicast_receive up n p g
           | TRANSPORT_DISCONNECTED \<Rightarrow> Inl Assertion_failed))"

section \<open>Sending reliable packets\<close>

definition add_depend :: "saddr option \<Rightarrow> saddr \<Rightarrow> sender \<Rightarrow> packet \<Rightarrow> packet outcome" where
  "add_depend self a s p =
     (if s_state s < STATE_PREPARING \<or> s_state s \<ge> STATE_FAILED then Inr p
      else if self = Some a then Inr p
      else packet_add_sender_info p (s_id s) (next_output_packet s))"

definition add_packet_depends :: "packet \<Rightarrow> 'a causal_scheme \<Rightarrow> packet outcome" where
  "add_packet_depends p g = foreach_add (add_depend (ct_self g)) g p"

text \<open>\<open>priv->packet_id++\<close>\<close>

definition take_packet_id :: "packet \<Rightarrow> 'a causal_scheme \<Rightarrow> (packet \<times> 'a causal_scheme) outcome" where
  "take_packet_id p g =
     andthen (packet_set_packet_id p (ct_packet_id g)) (\<lambda>p.
     Inr (p, g\<lparr>ct_packet_id := ct_packet_id g + 1\<rparr>))"

definition push_self ::
    "'a upper \<Rightarrow> nat \<Rightarrow> packet \<Rightarrow> 'a causal_scheme \<Rightarrow> 'a causal_scheme outcome" where
  "push_self up n p g =
     andthen (deref (ct_self g)) (\<lambda>a. sender_push (causal_handler up) n a p g)"

definition send_keepalive_cb :: "'a upper \<Rightarrow> nat \<Rightarrow> 'a causal_scheme \<Rightarrow> 'a causal_scheme outcome" where
  "send_keepalive_cb up n g =
     (let g = g\<lparr>ct_keepalive_timer := None\<rparr> in
      andthen (self_sender g) (\<lambda>self.
      andthen (take_packet_id
                 (packet_new PACKET_TYPE_NO_DATA (s_id self) (ct_max_packet_size g)) g) (\<lambda>(p, g).
      andthen (add_packet_depends p g) (\<lambda>p.
      andthen (push_self up n p g) (\<lambda>g.
      sendout p g)))))"

text \<open>
  The \<open>do ... while\<close> loop of \<open>send\<close>: it sends the packet at hand and fills the next one. The
  result is the last packet, that has not been sent.
\<close>

primrec send_fragments ::
    "'a upper \<Rightarrow> nat \<Rightarrow> nat \<Rightarrow> u16 \<Rightarrow> u8 list \<Rightarrow> packet \<Rightarrow> nat \<Rightarrow> 'a causal_scheme \<Rightarrow>
     (packet \<times> 'a causal_scheme) outcome" where
  "send_fragments up n 0 stream_id data p payloaded g = Inl Out_of_fuel"
| "send_fragments up n (Suc k) stream_id data p payloaded g =
     andthen (take_packet_id p g) (\<lambda>(p, g).
     andthen (sendout p g) (\<lambda>g.
     andthen (push_self up n p g) (\<lambda>g.
     andthen (self_sender g) (\<lambda>self.
     andthen (packet_add_payload (packet_new PACKET_TYPE_DATA (s_id self) (ct_max_packet_size g))
                (drop payloaded data)) (\<lambda>(p, added).
     andthen (packet_set_data_info p stream_id 0 (of_nat (length data))) (\<lambda>p.
     let payloaded = payloaded + added in
     if payloaded < length data then send_fragments up n k stream_id data p payloaded g
     else Inr (p, g)))))))"

definition causal_send ::
    "'a upper \<Rightarrow> nat \<Rightarrow> u16 \<Rightarrow> u8 list \<Rightarrow> 'a causal_scheme \<Rightarrow> (bool \<times> 'a causal_scheme) outcome" where
  "causal_send up n stream_id data g =
     (if ct_resetting g then Inr (True, g)
      else
        andthen (assert_that (ct_self g \<noteq> None)) (\<lambda>_.
        andthen (self_sender g) (\<lambda>self.
        andthen (add_packet_depends
                   (packet_new PACKET_TYPE_DATA (s_id self) (ct_max_packet_size g)) g) (\<lambda>p.
        andthen (packet_add_payload p data) (\<lambda>(p, payloaded).
        andthen (packet_set_data_info p stream_id DATA_PACKET_START (of_nat (length data))) (\<lambda>p.
        andthen (if payloaded < length data then
                   andthen (send_fragments up n n stream_id data p payloaded g) (\<lambda>(p, g).
                   andthen (packet_set_data_info p stream_id DATA_PACKET_END
                              (of_nat (length data))) (\<lambda>p. Inr (p, g)))
                 else
                   andthen (packet_set_data_info p stream_id
                              (DATA_PACKET_START OR DATA_PACKET_END) (of_nat (length data))) (\<lambda>p.
                   Inr (p, g))) (\<lambda>(p, g).
        andthen (take_packet_id p g) (\<lambda>(p, g).
        andthen (push_self up n p g) (\<lambda>g.
        sendout_packet p g)))))))))"

definition CAUSAL_DEFAULT_STREAM :: u16 where "CAUSAL_DEFAULT_STREAM = 0"

definition causal_do_send ::
    "'a upper \<Rightarrow> nat \<Rightarrow> u8 list \<Rightarrow> 'a causal_scheme \<Rightarrow> (bool \<times> 'a causal_scheme) outcome" where
  "causal_do_send up n data g = causal_send up n CAUSAL_DEFAULT_STREAM data g"

definition causal_send_attempt_join ::
    "'a upper \<Rightarrow> nat \<Rightarrow> u32 list \<Rightarrow> bool \<Rightarrow> 'a causal_scheme \<Rightarrow> (u32 \<times> 'a causal_scheme) outcome" where
  "causal_send_attempt_join up n new_senders repeat g =
     andthen (self_sender g) (\<lambda>self.
     andthen (take_packet_id
                (packet_new PACKET_TYPE_ATTEMPT_JOIN (s_id self) (ct_max_packet_size g)) g) (\<lambda>(p, g).
     andthen (packet_attempt_join_add_senders p new_senders) (\<lambda>p.
     andthen (add_packet_depends p g) (\<lambda>p.
     andthen (push_self up n p g) (\<lambda>g.
     andthen (deref (ct_self g)) (\<lambda>a.
     andthen (upd_sender a (sender_set_packet_repeat (pkt_packet_id p) repeat) g) (\<lambda>g.
     andthen (sendout p g) (\<lambda>g.
     Inr (pkt_packet_id p, g)))))))))"

definition causal_stop_attempt_join ::
    "u32 \<Rightarrow> 'a causal_scheme \<Rightarrow> 'a causal_scheme outcome" where
  "causal_stop_attempt_join attempt_join_id g =
     andthen (deref (ct_self g)) (\<lambda>a.
     upd_sender a (sender_set_packet_repeat attempt_join_id False) g)"

definition causal_send_failure ::
    "'a upper \<Rightarrow> nat \<Rightarrow> u32 list \<Rightarrow> 'a causal_scheme \<Rightarrow> 'a causal_scheme outcome" where
  "causal_send_failure up n failures g =
     andthen (self_sender g) (\<lambda>self.
     andthen (take_packet_id
                (packet_new PACKET_TYPE_FAILURE (s_id self) (ct_max_packet_size g)) g) (\<lambda>(p, g).
     andthen (packet_failure_add_senders p failures) (\<lambda>p.
     andthen (add_packet_depends p g) (\<lambda>p.
     andthen (push_self up n p g) (\<lambda>g.
     sendout p g)))))"

definition causal_send_join ::
    "'a upper \<Rightarrow> nat \<Rightarrow> u32 list \<Rightarrow> 'a causal_scheme \<Rightarrow> 'a causal_scheme outcome" where
  "causal_send_join up n failures g =
     andthen (self_sender g) (\<lambda>self.
     andthen (take_packet_id
                (packet_new PACKET_TYPE_JOIN (s_id self) (ct_max_packet_size g)) g) (\<lambda>(p, g).
     andthen (add_packet_depends p g) (\<lambda>p.
     andthen (packet_join_add_failures p failures) (\<lambda>p.
     andthen (push_self up n p g) (\<lambda>g.
     sendout p g)))))"

section \<open>Leaving\<close>

definition causal_reconnect :: "'a upper \<Rightarrow> 'a causal_scheme \<Rightarrow> 'a causal_scheme outcome" where
  "causal_reconnect up g =
     andthen (assert_that (\<not> g_popping g)) (\<lambda>_.
     case ct_random g of
       [] \<Rightarrow> Inl Out_of_fuel
     | r # rs \<Rightarrow>
         causal_connect up
           (g\<lparr>g_senders := [], g_pop_queue := [], g_pending_removal := [], g_stopped := False,
              ct_packet_id := r, ct_random := rs, ct_resetting := False\<rparr>))"

definition causal_disconnect_done :: "'a upper \<Rightarrow> 'a causal_scheme \<Rightarrow> 'a causal_scheme outcome" where
  "causal_disconnect_done up g =
     andthen (assert_that (ct_lower_connected g)) (\<lambda>_.
     transport_set_state up TRANSPORT_DISCONNECTED
       (g\<lparr>ct_timer := None, ct_lower_connected := False, ct_self := None\<rparr>))"

definition send_next_bye :: "'a upper \<Rightarrow> 'a causal_scheme \<Rightarrow> 'a causal_scheme outcome" where
  "send_next_bye up g =
     andthen (self_sender g) (\<lambda>self.
     andthen (packet_set_packet_id
                (packet_new PACKET_TYPE_BYE (s_id self) (ct_max_packet_size g)) (ct_packet_id g)) (\<lambda>p.
     andthen (sendout p g) (\<lambda>g.
     let g = g\<lparr>ct_nr_bye := ct_nr_bye g + 1\<rparr> in
     if ct_nr_bye g < NR_BYE_TO_SEND
     then Inr (g\<lparr>ct_timer := Some (Transport_timer Send_next_bye_cb 500 500)\<rparr>)
     else if ct_resetting g then causal_reconnect up g
     else causal_disconnect_done up g)))"

definition causal_do_disconnect :: "'a upper \<Rightarrow> 'a causal_scheme \<Rightarrow> 'a causal_scheme outcome" where
  "causal_do_disconnect up g =
     (if ct_state g = TRANSPORT_DISCONNECTING then Inr g
      else
        andthen (transport_set_state up TRANSPORT_DISCONNECTING
                   (g\<lparr>ct_timer := None, ct_keepalive_timer := None\<rparr>)) (\<lambda>g.
        andthen (group_stop g) (\<lambda>g.
        send_next_bye up (g\<lparr>ct_nr_bye := 0\<rparr>))))"

definition causal_disconnect :: "'a upper \<Rightarrow> 'a causal_scheme \<Rightarrow> 'a causal_scheme outcome" where
  "causal_disconnect up g =
     (let g = g\<lparr>ct_resetting := False\<rparr> in
      if ct_state g = TRANSPORT_DISCONNECTED \<or> ct_state g = TRANSPORT_CONNECTING
      then causal_disconnect_done up g
      else causal_do_disconnect up g)"

definition causal_reset :: "'a upper \<Rightarrow> 'a causal_scheme \<Rightarrow> 'a causal_scheme outcome" where
  "causal_reset up g = causal_do_disconnect up (g\<lparr>ct_resetting := True\<rparr>)"

end
