(* ===== verification/Causal_Evolve.thy ===== *)
theory Causal_Evolve
  imports Sender_Evolve Causal_Transport
begin

text \<open>
  The causal transport keeps the invariant of its sender group, whatever it receives and whatever
  the upper layer does, as long as the upper layer's handlers keep it (\<open>evolving_upper\<close>). The
  relation \<open>keeps\<close> is \<open>evolve\<close> with the invariant as its premise, so that it composes without
  side conditions; the rules of this theory step through an operation, over values that are not
  states with \<open>pure_steps\<close> and over states with \<open>state_steps\<close>.
\<close>

section \<open>Stepping through an operation\<close>

definition keeps :: "'a group_scheme \<Rightarrow> 'a group_scheme \<Rightarrow> bool" where
  "keeps g g' \<longleftrightarrow> (wf_group g \<longrightarrow> evolve g g')"

lemmas keeps_evolve = keeps_def

lemma keeps_refl [simp]: "keeps g g"
  by (simp add: keeps_evolve)

lemma keeps_trans: "keeps g g' \<Longrightarrow> keeps g' g'' \<Longrightarrow> keeps g g''"
  unfolding keeps_evolve by (blast intro: evolve_trans evolve_wf)

lemma keeps_same [simp]:
  "g_store g' = g_store g \<Longrightarrow> g_fresh g' = g_fresh g \<Longrightarrow> g_senders g' = g_senders g \<Longrightarrow>
   g_pop_queue g' = g_pop_queue g \<Longrightarrow> g_pending_removal g' = g_pending_removal g \<Longrightarrow> keeps g g'"
  by (simp add: keeps_evolve evolve_same)

lemma keeps_first: "keeps g g' \<Longrightarrow> holds (\<lambda>y. keeps g' (q y)) m \<Longrightarrow> holds (\<lambda>y. keeps g (q y)) m"
  by (erule holds_mono) (rule keeps_trans)

text \<open>Only fields of the layers above change before or after the step.\<close>

lemma keeps_before:
  "keeps g' x \<Longrightarrow> g_store g' = g_store g \<Longrightarrow> g_fresh g' = g_fresh g \<Longrightarrow> g_senders g' = g_senders g \<Longrightarrow>
   g_pop_queue g' = g_pop_queue g \<Longrightarrow> g_pending_removal g' = g_pending_removal g \<Longrightarrow> keeps g x"
  using keeps_trans[OF keeps_same] by blast

lemma holds_keeps_before:
  "holds (\<lambda>y. keeps g' (q y)) m \<Longrightarrow> g_store g' = g_store g \<Longrightarrow> g_fresh g' = g_fresh g \<Longrightarrow>
   g_senders g' = g_senders g \<Longrightarrow> g_pop_queue g' = g_pop_queue g \<Longrightarrow>
   g_pending_removal g' = g_pending_removal g \<Longrightarrow> holds (\<lambda>y. keeps g (q y)) m"
  by (erule holds_mono) (rule keeps_before)

lemmas before1 = holds_keeps_before[where q = "\<lambda>x. x"]
lemmas before_snd = holds_keeps_before[where q = snd]

lemma keeps_holds: "(wf_group g \<Longrightarrow> holds (\<lambda>x. evolve g (p x)) m) \<Longrightarrow> holds (\<lambda>x. keeps g (p x)) m"
  by (cases m) (auto simp: keeps_evolve)

lemma keeps_holds_iff: "holds (\<lambda>x. keeps g (p x)) m \<longleftrightarrow> (wf_group g \<longrightarrow> holds (\<lambda>x. evolve g (p x)) m)"
  by (cases m) (auto simp: keeps_evolve)

lemma keeps_then:
  "holds (\<lambda>x. keeps g (p x)) m \<Longrightarrow> (\<And>x. m = Inr x \<Longrightarrow> holds (\<lambda>y. keeps (p x) (q y)) (f x)) \<Longrightarrow>
    holds (\<lambda>y. keeps g (q y)) (andthen m f)"
  by (cases m) (auto intro: holds_mono keeps_trans)

lemmas state_steps =
  keeps_then[where p = "\<lambda>x. x" and q = "\<lambda>x. x"]
  keeps_then[where p = "\<lambda>x. x" and q = snd]
  keeps_then[where p = snd and q = "\<lambda>x. x"]
  keeps_then[where p = snd and q = snd]

lemmas pure_steps =
  holds_andthenI[where m = "m :: unit outcome" for m]
  holds_andthenI[where m = "m :: packet outcome" for m]
  holds_andthenI[where m = "m :: sender outcome" for m]
  holds_andthenI[where m = "m :: nat outcome" for m]
  holds_andthenI[where m = "m :: nat option outcome" for m]
  holds_andthenI[where m = "m :: (packet \<times> nat) outcome" for m]
  holds_andthenI[where m = "m :: (u32 \<times> u32 list) outcome" for m]
  holds_andthenI[where m = "m :: (packet \<times> u8 list) outcome" for m]

lemma keeps_upd:
  "(\<And>s. holds (sender_evolves s) (f s)) \<Longrightarrow> holds (keeps g) (upd_sender a f g)"
  by (auto intro!: keeps_holds[where p = "\<lambda>x. x"] evolve_upd)

lemma keeps_foldo: "(\<And>x g. holds (keeps g) (f x g)) \<Longrightarrow> holds (keeps g) (foldo f xs g)"
  by (rule foldo_holds) (auto intro: holds_mono keeps_trans)

section \<open>Packets of the transport\<close>

lemma type_of_setters:
  "packet_set_packet_id p i = Inr p' \<Longrightarrow> pkt_type p' = pkt_type p"
  "packet_set_data_info p sid fl w = Inr p' \<Longrightarrow> pkt_type p' = pkt_type p"
  "packet_add_payload p data = Inr (p', k) \<Longrightarrow> pkt_type p' = pkt_type p"
  "packet_attempt_join_add_senders p ids = Inr p' \<Longrightarrow> pkt_type p' = pkt_type p"
  "packet_failure_add_senders p ids = Inr p' \<Longrightarrow> pkt_type p' = pkt_type p"
  "packet_join_add_failures p ids = Inr p' \<Longrightarrow> pkt_type p' = pkt_type p"
  by (auto simp: pkt_type_def packet_set_packet_id_def packet_set_data_info_def
      packet_add_payload_def packet_attempt_join_add_senders_def packet_failure_add_senders_def
      packet_join_add_failures_def andthen_eq_Inr Let_def split: packet_data.splits)

lemma add_depends_type: "add_packet_depends p g = Inr p' \<Longrightarrow> pkt_type p' = pkt_type p"
proof -
  have "holds (\<lambda>p'. pkt_type p' = pkt_type p) (add_packet_depends p g)"
    unfolding add_packet_depends_def foreach_add_def
    by (rule foldo_holds)
       (auto simp: add_depend_def packet_add_sender_info_def pkt_type_def holds_iff andthen_eq_Inr)
  then show "add_packet_depends p g = Inr p' \<Longrightarrow> pkt_type p' = pkt_type p" by simp
qed

lemma new_type [simp]: "pkt_type (packet_new t i n) = t"
  by (simp add: packet_new_def pkt_type_def)

lemma take_packet_id_keeps: "holds (\<lambda>x. keeps g (snd x)) (take_packet_id p g)"
  by (auto simp: take_packet_id_def holds_iff andthen_eq_Inr intro: keeps_same)

lemma take_packet_id_type: "take_packet_id p g = Inr (p', g') \<Longrightarrow> pkt_type p' = pkt_type p"
  by (auto simp: take_packet_id_def andthen_eq_Inr dest: type_of_setters)

lemmas type_dests = type_of_setters add_depends_type take_packet_id_type

section \<open>Steps without handlers\<close>

lemma sendout_packet_keeps: "holds (\<lambda>x. keeps g (snd x)) (sendout_packet p g)"
  unfolding sendout_packet_def Let_def
  by (auto simp: schedule_keepalive_message_def simp del: holds_simps(3)
      intro!: pure_steps intro: keeps_same)

lemma sendout_keeps: "holds (keeps g) (sendout p g)"
  using sendout_packet_keeps[of g p] by (auto simp: sendout_def holds_iff andthen_eq_Inr)

lemma start_joining_keeps: "holds (keeps g) (start_joining g)"
  unfolding start_joining_def
  by (auto simp del: holds_simps(3) intro!: pure_steps intro: keeps_same)

lemma joining_keeps: "holds (keeps g) (joining_multicast_receive p g)"
  unfolding joining_multicast_receive_def Let_def using start_joining_keeps
  by (auto split: packet_data.split intro!: before1[OF start_joining_keeps])

lemma session_cb_keeps: "holds (keeps g) (sendout_session_cb g)"
  unfolding sendout_session_cb_def schedule_session_message_def
  by (auto simp del: holds_simps(3) intro!: pure_steps state_steps sendout_keeps intro: keeps_same)

lemma sender_new_keeps: "sender_new i name g = (a, g') \<Longrightarrow> keeps g g'"
  by (simp add: keeps_evolve sender_new_evolves(1))

lemma add_sender_keeps: "holds (\<lambda>x. keeps g (snd x)) (causal_add_sender i g)"
proof -
  obtain a g' where n: "sender_new i None g = (a, g')" by fastforce
  have "holds (keeps g') (group_add a g')"
    using group_add_evolves[of g' a] by (auto intro: keeps_holds[where p = "\<lambda>x. x"])
  with sender_new_keeps[OF n] show ?thesis
    by (auto simp: causal_add_sender_def n split: option.split intro: holds_mono keeps_trans)
qed

lemma causal_update_start_keeps: "holds (keeps g) (causal_update_sender_start i j g)"
  by (auto simp: causal_update_sender_start_def split: option.split
      intro: keeps_upd evolves_update_start)

lemma remove_sender_keeps: "holds (keeps g) (causal_remove_sender i g)"
  using group_remove_evolves[of g i]
  by (auto simp: causal_remove_sender_def intro: keeps_holds[where p = "\<lambda>x. x"])

lemma upd_seen_keeps: "holds (keeps g) (upd_seen i a g)"
  by (auto simp: upd_seen_def intro!: keeps_upd evolves_seen)

lemma session_infos_keeps: "holds (\<lambda>x. keeps g (snd x)) (session_infos infos b g)"
proof (induction infos arbitrary: b g)
  case (Cons info infos)
  then show ?case
    by (cases info)
       (auto simp: Let_def split: option.split simp del: holds_simps(3)
         intro!: pure_steps state_steps upd_seen_keeps)
qed simp

lemma postprocess_keeps: "holds (keeps g) (postprocess_packet p g)"
proof -
  have session: "holds (keeps g) (handle_session_message p g)"
    unfolding handle_session_message_def schedule_session_message_def
    by (auto simp del: holds_simps(3) intro!: pure_steps state_steps session_infos_keeps
        intro: keeps_same)
  have "holds (keeps g) (handle_packet_depends p g)"
    unfolding handle_packet_depends_def
    by (auto simp del: holds_simps(3) split: option.split
        intro!: pure_steps keeps_foldo upd_seen_keeps)
  with session show ?thesis by (auto simp: postprocess_packet_def split: packet_data.split)
qed

lemma repeat_keeps: "holds (keeps g) (upd_sender a (sender_set_packet_repeat i b) g)"
  by (rule keeps_upd) (rule evolves_set_packet_repeat)

lemma stop_attempt_join_keeps: "holds (keeps g) (causal_stop_attempt_join i g)"
  unfolding causal_stop_attempt_join_def
  by (auto simp del: holds_simps(3) intro!: pure_steps repeat_keeps)

section \<open>Steps with handlers\<close>

locale evolving_upper =
  fixes up :: "'a upper"
  assumes upper: "holds (keeps g) (up ev g)"
begin

lemma causal_handler_keeps: "holds (keeps g) (causal_handler up a sig g)"
proof -
  have "holds (keeps g) (repair_request_cb b i g)" "holds (keeps g) (whois_reply_cb b g)"
    "holds (keeps g) (whois_request_cb b g)" for b i
    unfolding repair_request_cb_def whois_reply_cb_def whois_request_cb_def
    by (auto simp del: holds_simps(3) intro!: pure_steps sendout_keeps)
  then show ?thesis
    by (auto simp: causal_handler_def sendout_keeps upper split: signal.split
        simp del: holds_simps(3) intro!: pure_steps)
qed

sublocale group: evolving_handler "causal_handler up"
  by unfold_locales (use causal_handler_keeps in \<open>simp add: keeps_holds_iff[where p = "\<lambda>x. x"]\<close>)

lemma push_keeps: "is_reliable_packet p \<Longrightarrow> holds (keeps g) (sender_push (causal_handler up) n a p g)"
  by (auto intro: keeps_holds[where p = "\<lambda>x. x"] group.push_evolves)

lemma push_self_keeps: "is_reliable_type (pkt_type p) \<Longrightarrow> holds (keeps g) (push_self up n p g)"
  unfolding push_self_def
  by (auto simp: is_reliable_packet_def simp del: holds_simps(3) intro!: pure_steps push_keeps)

lemma group_push_keeps: "holds (\<lambda>x. keeps g (snd x)) (group_push_packet (causal_handler up) n p g)"
  by (auto intro: keeps_holds group.group_push_evolves)

lemma set_state_keeps: "holds (keeps g) (transport_set_state up st g)"
  unfolding transport_set_state_def
  by (auto intro: before1[OF upper])

lemma connect_keeps: "holds (keeps g) (causal_connect up g)"
  unfolding causal_connect_def
  by (auto simp del: holds_simps(3) intro!: pure_steps state_steps set_state_keeps start_joining_keeps)

lemma connected_keeps: "holds (keeps g) (causal_connected up g)"
proof -
  obtain a g' where n: "sender_new (ct_sender_id g) (Some (ct_name g)) g = (a, g')" by fastforce
  have add: "holds (keeps x) (group_add a x)" for x :: "'a causal_scheme"
    using group_add_evolves[of x a] by (auto intro: keeps_holds[where p = "\<lambda>x. x"])
  have st: "holds (keeps x) (transport_set_state up TRANSPORT_CONNECTED (x\<lparr>ct_self := Some a\<rparr>))" for x
    by (rule before1[OF set_state_keeps]) simp_all
  show ?thesis
    unfolding causal_connected_def n Let_def prod.case
    by (rule keeps_first[OF sender_new_keeps[OF n]])
       (auto simp: schedule_keepalive_message_def schedule_session_message_def
        simp del: holds_simps(3)
        intro!: pure_steps state_steps keeps_upd evolves_update_start evolves_set_data_start add st
          sendout_keeps)
qed

lemma next_join_step_keeps: "holds (keeps g) (next_join_step up g)"
proof -
  have "holds (keeps g) (andthen (sendout p (g\<lparr>ct_nr_join_requests := k\<rparr>)) (\<lambda>g.
        Inr (g\<lparr>ct_timer := t\<rparr>)))" for p k t
    by (auto simp del: holds_simps(3) intro!: state_steps
        before1[OF sendout_keeps] intro: keeps_same)
  then show ?thesis unfolding next_join_step_def Let_def
    by (auto simp del: holds_simps(3) intro!: pure_steps connected_keeps)
qed

lemma joined_keeps: "holds (keeps g) (joined_multicast_receive up n p g)"
  unfolding joined_multicast_receive_def Let_def
  by (auto simp del: holds_simps(3) intro!: state_steps group_push_keeps upper postprocess_keeps)

lemma disconnecting_keeps: "holds (keeps g) (disconnecting_multicast_receive up n p g)"
proof -
  have "holds (sender_evolves s) (andthen (sender_repair_request i s) (\<lambda>(_, s). Inr s))" for i s
    using evolves_repair_request[of s i] by (auto simp: holds_iff andthen_eq_Inr)
  then have "holds (keeps g) (case pkt_data p of
              Repair_request sender_id packet_id \<Rightarrow>
                (case group_lookup sender_id g of
                   None \<Rightarrow> Inr g
                 | Some b \<Rightarrow> upd_sender b (\<lambda>s. andthen (sender_repair_request packet_id s)
                                                 (\<lambda>(_, s). Inr s)) g)
            | _ \<Rightarrow> Inr g)"
    by (auto split: packet_data.split option.split simp del: holds_simps(3) intro!: keeps_upd)
  then show ?thesis unfolding disconnecting_multicast_receive_def
    by (auto split: option.split simp del: holds_simps(3) intro!: state_steps push_keeps)
qed

lemma receive_keeps: "holds (keeps g) (r_multicast_receive up n bytes g)"
  unfolding r_multicast_receive_def
  using joining_keeps joined_keeps disconnecting_keeps
  by (auto split: sum.split fault.split transport_state.split)

lemma keepalive_keeps: "holds (keeps g) (send_keepalive_cb up n g)"
proof -
  show ?thesis
  unfolding send_keepalive_cb_def Let_def
  by (auto simp del: holds_simps(3) dest!: type_dests
      intro!: pure_steps state_steps push_self_keeps sendout_keeps
        before_snd[OF take_packet_id_keeps])
qed

lemma send_fragments_keeps:
  "pkt_type p = PACKET_TYPE_DATA \<Longrightarrow> holds (\<lambda>x. keeps g (snd x)) (send_fragments up n k sid data p m g)"
proof (induction k arbitrary: p m g)
  case (Suc k)
  then show ?case
    by (auto simp: Let_def simp del: holds_simps(3) dest!: type_dests
        intro!: pure_steps state_steps take_packet_id_keeps sendout_keeps push_self_keeps)
qed simp

lemma send_fragments_type:
  "pkt_type p = PACKET_TYPE_DATA \<Longrightarrow> send_fragments up n k sid data p m g = Inr (p', g') \<Longrightarrow>
     pkt_type p' = PACKET_TYPE_DATA"
proof (induction k arbitrary: p m g)
  case (Suc k)
  show ?case using Suc.prems
    by (auto simp: andthen_eq_Inr Let_def split: if_splits dest!: type_dests intro: Suc.IH)
qed simp

lemma send_keeps: "holds (\<lambda>x. keeps g (snd x)) (causal_send up n sid data g)"
proof -
  have last: "holds (\<lambda>x. keeps x' (snd x)) (andthen (take_packet_id p x') (\<lambda>(p, g).
      andthen (push_self up n p g) (sendout_packet p)))"
    if "pkt_type p = PACKET_TYPE_DATA" for p x'
    using that by (auto simp del: holds_simps(3) dest!: type_dests
        intro!: state_steps take_packet_id_keeps push_self_keeps sendout_packet_keeps)
  have parts: "holds (\<lambda>x. keeps g (snd x)) (andthen
      (if m < length data then
         andthen (send_fragments up n n sid data p m g) (\<lambda>(p, g).
         andthen (packet_set_data_info p sid DATA_PACKET_END (of_nat (length data))) (\<lambda>p. Inr (p, g)))
       else
         andthen (packet_set_data_info p sid (DATA_PACKET_START OR DATA_PACKET_END)
                    (of_nat (length data))) (\<lambda>p. Inr (p, g))) (\<lambda>(p, g).
       andthen (take_packet_id p g) (\<lambda>(p, g).
       andthen (push_self up n p g) (sendout_packet p))))"
    if p: "pkt_type p = PACKET_TYPE_DATA" for m p
  proof (rule keeps_then[where p = snd and q = snd])
    show "holds (\<lambda>x. keeps g (snd x)) (if m < length data then
         andthen (send_fragments up n n sid data p m g) (\<lambda>(p, g).
         andthen (packet_set_data_info p sid DATA_PACKET_END (of_nat (length data))) (\<lambda>p. Inr (p, g)))
       else
         andthen (packet_set_data_info p sid (DATA_PACKET_START OR DATA_PACKET_END)
                    (of_nat (length data))) (\<lambda>p. Inr (p, g)))"
      using p by (auto simp del: holds_simps(3) intro!: pure_steps state_steps send_fragments_keeps)
  next
    fix x assume "(if m < length data then
         andthen (send_fragments up n n sid data p m g) (\<lambda>(p, g).
         andthen (packet_set_data_info p sid DATA_PACKET_END (of_nat (length data))) (\<lambda>p. Inr (p, g)))
       else
         andthen (packet_set_data_info p sid (DATA_PACKET_START OR DATA_PACKET_END)
                    (of_nat (length data))) (\<lambda>p. Inr (p, g))) = Inr x"
    then have "pkt_type (fst x) = PACKET_TYPE_DATA"
      using p by (auto simp: andthen_eq_Inr split: if_splits dest!: type_of_setters send_fragments_type[OF p])
    with last show "holds (\<lambda>y. keeps (snd x) (snd y)) (case x of (p, g) \<Rightarrow>
       andthen (take_packet_id p g) (\<lambda>(p, g). andthen (push_self up n p g) (sendout_packet p)))"
      by (cases x) simp
  qed
  show ?thesis unfolding causal_send_def
    by (auto simp del: holds_simps(3) dest!: type_dests intro!: pure_steps parts)
qed

lemma attempt_join_keeps: "holds (\<lambda>x. keeps g (snd x)) (causal_send_attempt_join up n ids b g)"
  unfolding causal_send_attempt_join_def
  by (auto simp del: holds_simps(3) dest!: type_dests
      intro!: pure_steps state_steps take_packet_id_keeps push_self_keeps sendout_keeps repeat_keeps)

lemma send_failure_keeps: "holds (keeps g) (causal_send_failure up n ids g)"
  unfolding causal_send_failure_def
  by (auto simp del: holds_simps(3) dest!: type_dests
      intro!: pure_steps state_steps take_packet_id_keeps push_self_keeps sendout_keeps)

lemma send_join_keeps: "holds (keeps g) (causal_send_join up n ids g)"
  unfolding causal_send_join_def
  by (auto simp del: holds_simps(3) dest!: type_dests
      intro!: pure_steps state_steps take_packet_id_keeps push_self_keeps sendout_keeps)

lemma reconnect_keeps: "holds (keeps g) (causal_reconnect up g)"
proof -
  have "keeps g (g\<lparr>g_senders := [], g_pop_queue := [], g_pending_removal := [], g_stopped := False,
              ct_packet_id := r, ct_random := rs, ct_resetting := False\<rparr>)" for r rs
    by (auto simp: keeps_def evolve_def wf_group_def)
  then show ?thesis unfolding causal_reconnect_def
    by (auto split: list.split simp del: holds_simps(3)
        intro!: pure_steps keeps_first[OF _ connect_keeps])
qed

lemma disconnect_done_keeps: "holds (keeps g) (causal_disconnect_done up g)"
  unfolding causal_disconnect_done_def
  by (auto simp del: holds_simps(3) intro!: pure_steps before1[OF set_state_keeps])

lemma bye_keeps: "holds (keeps g) (send_next_bye up g)"
  unfolding send_next_bye_def Let_def
  by (auto simp del: holds_simps(3) intro!: pure_steps state_steps sendout_keeps
      before1[OF reconnect_keeps] before1[OF disconnect_done_keeps])

lemma do_disconnect_keeps: "holds (keeps g) (causal_do_disconnect up g)"
proof -
  have "holds (keeps x) (group_stop x)" for x :: "'a causal_scheme"
    using group_stop_evolves[of x] by (auto intro: keeps_holds[where p = "\<lambda>x. x"])
  then show ?thesis unfolding causal_do_disconnect_def
    by (auto simp del: holds_simps(3) intro!: state_steps before1[OF set_state_keeps]
        before1[OF bye_keeps])
qed

lemma disconnect_keeps: "holds (keeps g) (causal_disconnect up g)"
  unfolding causal_disconnect_def Let_def
  by (auto intro!: before1[OF disconnect_done_keeps] before1[OF do_disconnect_keeps])

lemma reset_keeps: "holds (keeps g) (causal_reset up g)"
  unfolding causal_reset_def by (rule before1[OF do_disconnect_keeps]) simp_all

lemma hold_data_keeps: "holds (keeps g) (sender_hold_data (causal_handler up) n a i g)"
  by (auto intro: keeps_holds[where p = "\<lambda>x. x"] group.hold_data_evolves)

lemma release_data_keeps: "holds (keeps g) (sender_release_data (causal_handler up) n a g)"
  by (auto intro: keeps_holds[where p = "\<lambda>x. x"] group.release_data_evolves)

end

end
