(* ===== verification/Membership.thy ===== *)
theory Membership
  imports Causal_Transport
begin

text \<open>
  \<open>lib/gibber/gibber-r-multicast-transport.c\<close>: the membership protocol on top of the causal
  transport. Nodes that are heard of are gathered with ATTEMPT_JOIN packets, the group agrees on the
  new list of members with JOIN packets, and members that fail, or are said to have failed, are
  dropped once everybody else has confirmed the failure. The record extends the causal transport's.
  The argument \<open>up\<close> is the transport's own event handler one level of fuel down (sending a packet
  can deliver packets, which can call the handlers again), \<open>app\<close> is what the application does on
  the events the transport emits. \<open>foreach_member\<close> visits the members that are in the table when
  it starts; GLib does not allow a callback to change the table under the iteration, so a member that
  is gone when its turn comes is a fault.
\<close>

section \<open>State\<close>

datatype check_join_return = JOIN_EQUAL | JOIN_LESS_INFO | JOIN_MORE_INFO | JOIN_FAILED

datatype mt_state =
    MT_DISCONNECTED | MT_NORMAL | MT_GATHERING | MT_JOINING | MT_RESETTING

datatype member_state =
    MEMBER_STATE_UNKNOWN | MEMBER_STATE_ATTEMPT_JOIN_STARTED | MEMBER_STATE_ATTEMPT_JOIN_REPEAT
  | MEMBER_STATE_ATTEMPT_JOIN_DONE | MEMBER_STATE_JOINING | MEMBER_STATE_MEMBER
  | MEMBER_STATE_FAILING | MEMBER_STATE_MEMBER_FAILING | MEMBER_STATE_INSTANT_FAILURE

fun member_code :: "member_state \<Rightarrow> nat" where
  "member_code MEMBER_STATE_UNKNOWN = 0"
| "member_code MEMBER_STATE_ATTEMPT_JOIN_STARTED = 1"
| "member_code MEMBER_STATE_ATTEMPT_JOIN_REPEAT = 2"
| "member_code MEMBER_STATE_ATTEMPT_JOIN_DONE = 3"
| "member_code MEMBER_STATE_JOINING = 4"
| "member_code MEMBER_STATE_MEMBER = 5"
| "member_code MEMBER_STATE_FAILING = 6"
| "member_code MEMBER_STATE_MEMBER_FAILING = 7"
| "member_code MEMBER_STATE_INSTANT_FAILURE = 8"

lemma member_code_inj: "member_code s = member_code t \<Longrightarrow> s = t"
  by (cases s; cases t; simp)

instantiation member_state :: linorder
begin

definition less_eq_member_state :: "member_state \<Rightarrow> member_state \<Rightarrow> bool" where
  "less_eq_member_state s t \<longleftrightarrow> member_code s \<le> member_code t"

definition less_member_state :: "member_state \<Rightarrow> member_state \<Rightarrow> bool" where
  "less_member_state s t \<longleftrightarrow> member_code s < member_code t"

instance
  by standard (auto simp: less_eq_member_state_def less_member_state_def intro: member_code_inj)

end

lemmas member_order = less_eq_member_state_def less_member_state_def

record member_info =
  mi_state :: member_state
  mi_id :: u32
  mi_agreed_join :: bool
  mi_join_packet_id :: u32
  mi_failures :: "u32 list"
  mi_fail_timeout :: "nat option"

datatype mt_callback = Do_send_attempt_join_cb | Join_timeout_cb | Do_start_joining_phase_cb

datatype mt_timer = Mt_timer mt_callback nat nat

record membership = causal +
  mt_members :: "(u32 \<times> member_info) list"
  mt_attempt_join_id :: u32
  mt_repeating_join :: bool
  mt_send_empty :: bool
  mt_timeout :: "mt_timer option"
  mt_joining_timeout :: "mt_timer option"
  mt_send_join :: "u32 list option"
  mt_send_join_failures :: "u32 list option"
  mt_pending_failures :: "u32 list"
  mt_state :: mt_state
  mt_transport_state :: transport_state
  mt_reconnect_handler :: bool
  mt_disconnect_handler :: bool
  mt_signals_connected :: bool

datatype mt_event =
    New_senders "u8 list option list"
  | Lost_senders "u8 list option list"
  | Mt_data "u8 list option" u32 u16 "u8 list"
  | Mt_state_event transport_state

type_synonym 'a mt_upper = "mt_event \<Rightarrow> 'a membership_scheme \<Rightarrow> 'a membership_scheme outcome"
type_synonym 'a mt_lower = "'a membership_ext upper"

section \<open>Resetting\<close>

definition flush_state :: "'a membership_scheme \<Rightarrow> 'a membership_scheme" where
  "flush_state g =
     g\<lparr>mt_repeating_join := False, mt_send_empty := False, mt_timeout := None,
       mt_joining_timeout := None, mt_send_join := None, mt_send_join_failures := None,
       mt_pending_failures := [], mt_members := []\<rparr>"

definition mt_set_transport_state ::
    "'a mt_upper \<Rightarrow> transport_state \<Rightarrow> 'a membership_scheme \<Rightarrow> 'a membership_scheme outcome" where
  "mt_set_transport_state app st g =
     (if st \<noteq> mt_transport_state g then app (Mt_state_event st) (g\<lparr>mt_transport_state := st\<rparr>)
      else Inr g)"

definition transport_reconnected :: "'a membership_scheme \<Rightarrow> 'a membership_scheme" where
  "transport_reconnected g = g\<lparr>mt_reconnect_handler := False, mt_state := MT_NORMAL\<rparr>"

definition mt_reset :: "'a mt_lower \<Rightarrow> 'a membership_scheme \<Rightarrow> 'a membership_scheme outcome" where
  "mt_reset up g =
     causal_reset up ((flush_state (g\<lparr>mt_state := MT_RESETTING\<rparr>))\<lparr>mt_reconnect_handler := True\<rparr>)"

section \<open>Members\<close>

definition new_member_info :: "u32 \<Rightarrow> member_info" where
  "new_member_info i =
     \<lparr>mi_state = MEMBER_STATE_UNKNOWN, mi_id = i, mi_agreed_join = False, mi_join_packet_id = 0,
      mi_failures = [], mi_fail_timeout = None\<rparr>"

definition lookup_member :: "u32 \<Rightarrow> 'a membership_scheme \<Rightarrow> member_info option" where
  "lookup_member i g = map_of (mt_members g) i"

definition get_member :: "u32 \<Rightarrow> 'a membership_scheme \<Rightarrow> member_info outcome" where
  "get_member i g = deref (lookup_member i g)"

definition put_member :: "u32 \<Rightarrow> member_info \<Rightarrow> 'a membership_scheme \<Rightarrow> 'a membership_scheme" where
  "put_member i m g = g\<lparr>mt_members := AList.update i m (mt_members g)\<rparr>"

definition upd_member ::
    "u32 \<Rightarrow> (member_info \<Rightarrow> member_info) \<Rightarrow> 'a membership_scheme \<Rightarrow> 'a membership_scheme outcome" where
  "upd_member i f g = andthen (get_member i g) (\<lambda>m. Inr (put_member i (f m) g))"

definition remove_member :: "u32 \<Rightarrow> 'a membership_scheme \<Rightarrow> 'a membership_scheme" where
  "remove_member i g = g\<lparr>mt_members := AList.delete i (mt_members g)\<rparr>"

definition foreach_member ::
    "(u32 \<Rightarrow> 'a membership_scheme \<Rightarrow> 'a membership_scheme outcome) \<Rightarrow>
     'a membership_scheme \<Rightarrow> 'a membership_scheme outcome" where
  "foreach_member f g = foldo f (map fst (mt_members g)) g"

definition find_member :: "(member_info \<Rightarrow> bool) \<Rightarrow> 'a membership_scheme \<Rightarrow> member_info option" where
  "find_member f g = List.find f (map snd (mt_members g))"

definition new_member :: "u32 \<Rightarrow> 'a membership_scheme \<Rightarrow> 'a membership_scheme outcome" where
  "new_member i g =
     andthen (assert_that (i \<noteq> ct_sender_id g)) (\<lambda>_. Inr (put_member i (new_member_info i) g))"

definition member_get_state :: "u32 \<Rightarrow> 'a membership_scheme \<Rightarrow> member_state" where
  "member_get_state i g =
     (case lookup_member i g of None \<Rightarrow> MEMBER_STATE_UNKNOWN | Some m \<Rightarrow> mi_state m)"

definition member_get_info ::
    "u32 \<Rightarrow> 'a membership_scheme \<Rightarrow> (member_info \<times> 'a membership_scheme) outcome" where
  "member_get_info i g =
     andthen (if lookup_member i g = None then new_member i g else Inr g) (\<lambda>g.
     andthen (get_member i g) (\<lambda>m. Inr (m, g)))"

definition member_set_state ::
    "u32 \<Rightarrow> member_state \<Rightarrow> 'a membership_scheme \<Rightarrow> 'a membership_scheme outcome" where
  "member_set_state i st g =
     andthen (member_get_info i g) (\<lambda>(m, g). Inr (put_member i (m\<lparr>mi_state := st\<rparr>) g))"

definition received_data ::
    "'a mt_upper \<Rightarrow> u8 list option \<Rightarrow> u32 \<Rightarrow> u16 \<Rightarrow> u8 list \<Rightarrow>
     'a membership_scheme \<Rightarrow> 'a membership_scheme outcome" where
  "received_data app name sender_id stream_id data g =
     (let st = member_get_state sender_id g in
      andthen (assert_that (st = MEMBER_STATE_MEMBER \<or> st = MEMBER_STATE_MEMBER_FAILING)) (\<lambda>_.
      app (Mt_data name sender_id stream_id data) g))"

text \<open>\<open>guint32_array_remove\<close>: only the first occurrence, the last element takes its place.\<close>

definition guint32_array_remove :: "u32 list \<Rightarrow> u32 \<Rightarrow> u32 list" where
  "guint32_array_remove xs i =
     (if i \<in> set xs then remove_index_fast (length (takeWhile (\<lambda>x. x \<noteq> i) xs)) xs else xs)"

definition depends_list_contains :: "sender_info list \<Rightarrow> u32 \<Rightarrow> bool" where
  "depends_list_contains depends i \<longleftrightarrow> i \<in> set (map fst depends)"

section \<open>The joining phase\<close>

definition add_to_join :: "u32 \<Rightarrow> 'a membership_scheme \<Rightarrow> 'a membership_scheme outcome" where
  "add_to_join i g =
     andthen (get_member i g) (\<lambda>m.
     andthen (assert_that (mi_state m \<ge> MEMBER_STATE_ATTEMPT_JOIN_REPEAT)) (\<lambda>_.
     andthen (if mi_state m < MEMBER_STATE_FAILING
              then andthen (deref (mt_send_join g)) (\<lambda>js.
                   Inr (g\<lparr>mt_send_join := Some (js @ [mi_id m])\<rparr>))
              else andthen (deref (mt_send_join_failures g)) (\<lambda>fs.
                   Inr (g\<lparr>mt_send_join_failures := Some (fs @ [mi_id m])\<rparr>))) (\<lambda>g.
     Inr (put_member i (m\<lparr>mi_agreed_join := False\<rparr>) g))))"

definition fail_duplicated ::
    "u32 \<Rightarrow> u32 \<Rightarrow> 'a membership_scheme \<Rightarrow> 'a membership_scheme outcome" where
  "fail_duplicated c i g =
     (if i = c then Inr g
      else
        andthen (get_member i g) (\<lambda>m.
        if mi_state m < MEMBER_STATE_ATTEMPT_JOIN_REPEAT \<or> mi_state m \<ge> MEMBER_STATE_FAILING
        then Inr g
        else
          andthen (causal_get_sender i g) (\<lambda>a.
          andthen (causal_get_sender c g) (\<lambda>b.
          andthen (get_sender a g) (\<lambda>s.
          andthen (get_sender b g) (\<lambda>cs.
          case s_name s of
            None \<Rightarrow> Inr g
          | Some name \<Rightarrow>
              andthen (deref (s_name cs)) (\<lambda>cname.
              if cname = name
              then Inr ((put_member i (m\<lparr>mi_state := MEMBER_STATE_FAILING\<rparr>) g)
                          \<lparr>mt_pending_failures := mt_pending_failures g @ [mi_id m]\<rparr>)
              else Inr g)))))))"

definition check_join_state :: "u32 \<Rightarrow> 'a membership_scheme \<Rightarrow> 'a membership_scheme outcome" where
  "check_join_state i g =
     andthen (get_member i g) (\<lambda>m.
     andthen (if mi_state m < MEMBER_STATE_ATTEMPT_JOIN_REPEAT
              then causal_remove_sender (mi_id m)
                     (put_member i (m\<lparr>mi_state := MEMBER_STATE_INSTANT_FAILURE\<rparr>) g)
              else Inr g) (\<lambda>g.
     andthen (get_member i g) (\<lambda>m.
     if mi_state m \<ge> MEMBER_STATE_FAILING then Inr g
     else
       andthen (causal_get_sender (mi_id m) g) (\<lambda>a.
       andthen (get_sender a g) (\<lambda>s.
       if s_name s = None
       then Inr ((put_member i (m\<lparr>mi_state := MEMBER_STATE_FAILING\<rparr>) g)
                   \<lparr>mt_pending_failures := mt_pending_failures g @ [mi_id m]\<rparr>)
       else if mi_state m < MEMBER_STATE_MEMBER then foreach_member (fail_duplicated i) g
       else Inr g)))))"

definition stop_send_attempt_join :: "'a membership_scheme \<Rightarrow> 'a membership_scheme outcome" where
  "stop_send_attempt_join g =
     andthen (if mt_repeating_join g
              then andthen (causal_stop_attempt_join (mt_attempt_join_id g) g) (\<lambda>g.
                   Inr (g\<lparr>mt_repeating_join := False\<rparr>))
              else Inr g) (\<lambda>g.
     Inr (g\<lparr>mt_timeout := None\<rparr>))"

definition setup_joining_phase :: "'a membership_scheme \<Rightarrow> 'a membership_scheme outcome" where
  "setup_joining_phase g =
     andthen
       (if mt_state g = MT_GATHERING then
          andthen (stop_send_attempt_join g) (\<lambda>g.
          andthen (assert_that (mt_send_join g = None)) (\<lambda>_.
          andthen (assert_that (mt_send_join_failures g = None)) (\<lambda>_.
          foreach_member check_join_state
            (g\<lparr>mt_joining_timeout := None, mt_send_join := Some [], mt_send_join_failures := Some []\<rparr>))))
        else
          andthen (assert_that (mt_state g = MT_JOINING)) (\<lambda>_.
          andthen (deref (mt_send_join g)) (\<lambda>_.
          andthen (deref (mt_send_join_failures g)) (\<lambda>_.
          Inr (g\<lparr>mt_send_join := Some [], mt_send_join_failures := Some []\<rparr>))))) (\<lambda>g.
     foreach_member add_to_join (g\<lparr>mt_state := MT_JOINING\<rparr>))"

definition set_failed_all :: "u32 list \<Rightarrow> 'a membership_scheme \<Rightarrow> 'a membership_scheme outcome" where
  "set_failed_all ids g =
     foldo (\<lambda>i g. andthen (causal_get_sender i g) (\<lambda>a. upd_sender a sender_set_failed g)) ids g"

definition start_joining_phase ::
    "'a mt_lower \<Rightarrow> nat \<Rightarrow> 'a membership_scheme \<Rightarrow> 'a membership_scheme outcome" where
  "start_joining_phase up n g =
     andthen (setup_joining_phase g) (\<lambda>g.
     andthen (causal_get_sender (ct_sender_id g) g) (\<lambda>a.
     andthen (get_sender a g) (\<lambda>s.
     andthen (sender_hold_data (causal_handler up) n a (next_input_packet s) g) (\<lambda>g.
     andthen (deref (mt_send_join_failures g)) (\<lambda>fs.
     andthen (causal_send_join up n fs g) (\<lambda>g.
     andthen (set_failed_all (mt_pending_failures g) g) (\<lambda>g.
     Inr (g\<lparr>mt_pending_failures := [],
           mt_timeout := Some (Mt_timer Join_timeout_cb 30000 30000)\<rparr>))))))))"

definition remove_failure :: "u32 \<Rightarrow> u32 \<Rightarrow> 'a membership_scheme \<Rightarrow> 'a membership_scheme outcome" where
  "remove_failure f i g =
     upd_member i (\<lambda>m. m\<lparr>mi_failures := guint32_array_remove (mi_failures m) f\<rparr>) g"

text \<open>Whether every node of our JOIN has agreed with it, or its failure is complete.\<close>

definition join_agreed :: "u32 list \<Rightarrow> 'a membership_scheme \<Rightarrow> bool" where
  "join_agreed js g \<longleftrightarrow>
     list_all (\<lambda>i. case lookup_member i g of
         None \<Rightarrow> True
       | Some m \<Rightarrow> mi_state m \<ge> MEMBER_STATE_INSTANT_FAILURE \<or> mi_agreed_join m) js"

text \<open>The loops over \<open>send_join_failures\<close> and \<open>send_join\<close> collect the lost and the new names.\<close>

fun drop_join_failures ::
    "u32 list \<Rightarrow> u8 list option list \<Rightarrow> 'a membership_scheme \<Rightarrow>
     (u8 list option list \<times> 'a membership_scheme) outcome" where
  "drop_join_failures [] lost g = Inr (lost, g)"
| "drop_join_failures (i # is) lost g =
     andthen (member_get_info i g) (\<lambda>(m, g).
     andthen
       (if mi_state m = MEMBER_STATE_MEMBER_FAILING \<or> mi_state m = MEMBER_STATE_FAILING then
          andthen (if mi_state m = MEMBER_STATE_MEMBER_FAILING
                   then andthen (causal_get_sender i g) (\<lambda>a.
                        andthen (get_sender a g) (\<lambda>s. Inr (lost @ [s_name s])))
                   else Inr lost) (\<lambda>lost.
          andthen (foreach_member (remove_failure i) g) (\<lambda>g.
          andthen (causal_remove_sender i g) (\<lambda>g. Inr (lost, g))))
        else
          andthen (assert_that (mi_state m = MEMBER_STATE_INSTANT_FAILURE)) (\<lambda>_. Inr (lost, g)))
       (\<lambda>(lost, g). drop_join_failures is lost (remove_member i g)))"

fun add_new_members ::
    "u32 list \<Rightarrow> u8 list option list \<Rightarrow> 'a membership_scheme \<Rightarrow>
     (u8 list option list \<times> 'a membership_scheme) outcome" where
  "add_new_members [] new g = Inr (new, g)"
| "add_new_members (i # is) new g =
     (case lookup_member i g of
        None \<Rightarrow> add_new_members is new g
      | Some m \<Rightarrow>
          if mi_state m \<ge> MEMBER_STATE_FAILING then add_new_members is new (remove_member i g)
          else if mi_state m \<noteq> MEMBER_STATE_MEMBER then
            andthen (causal_get_sender i g) (\<lambda>a.
            andthen (get_sender a g) (\<lambda>s.
            andthen (upd_sender a (sender_set_data_start (mi_join_packet_id m)) g) (\<lambda>g.
            add_new_members is (new @ [s_name s])
              (put_member i (m\<lparr>mi_state := MEMBER_STATE_MEMBER\<rparr>) g))))
          else add_new_members is new g)"

definition release_data ::
    "'a mt_lower \<Rightarrow> nat \<Rightarrow> u32 \<Rightarrow> 'a membership_scheme \<Rightarrow> 'a membership_scheme outcome" where
  "release_data up n i g =
     andthen (get_member i g) (\<lambda>m.
     andthen (causal_get_sender (mi_id m) g) (\<lambda>a.
     sender_release_data (causal_handler up) n a g))"

definition finish_join ::
    "'a mt_upper \<Rightarrow> 'a mt_lower \<Rightarrow> nat \<Rightarrow> u32 list \<Rightarrow> 'a membership_scheme \<Rightarrow>
     'a membership_scheme outcome" where
  "finish_join app up n js g =
     andthen (deref (mt_send_join_failures g)) (\<lambda>fs.
     andthen (drop_join_failures fs [] g) (\<lambda>(lost, g).
     andthen (add_new_members js [] g) (\<lambda>(new, g).
     andthen (if lost \<noteq> [] then app (Lost_senders lost) g else Inr g) (\<lambda>g.
     andthen (if new \<noteq> [] then app (New_senders new) g else Inr g) (\<lambda>g.
     let g = g\<lparr>mt_send_join := None, mt_send_join_failures := None, mt_state := MT_NORMAL,
               mt_timeout := None\<rparr> in
     andthen (causal_get_sender (ct_sender_id g) g) (\<lambda>a.
     andthen (sender_release_data (causal_handler up) n a g) (\<lambda>g.
     foreach_member (release_data up n) g)))))))"

definition check_join_agreement ::
    "'a mt_upper \<Rightarrow> 'a mt_lower \<Rightarrow> nat \<Rightarrow> 'a membership_scheme \<Rightarrow> 'a membership_scheme outcome" where
  "check_join_agreement app up n g =
     andthen (deref (mt_send_join g)) (\<lambda>js.
     if join_agreed js g then finish_join app up n js g else Inr g)"

definition do_start_joining_phase ::
    "'a mt_upper \<Rightarrow> 'a mt_lower \<Rightarrow> nat \<Rightarrow> 'a membership_scheme \<Rightarrow> 'a membership_scheme outcome" where
  "do_start_joining_phase app up n g =
     andthen (start_joining_phase up n g) (check_join_agreement app up n)"

section \<open>Gathering\<close>

definition continue_gathering_phase :: "'a membership_scheme \<Rightarrow> 'a membership_scheme outcome" where
  "continue_gathering_phase g =
     andthen (assert_that (mt_state g \<noteq> MT_JOINING)) (\<lambda>_.
     Inr (g\<lparr>mt_state := MT_GATHERING,
           mt_joining_timeout := Some (Mt_timer Do_start_joining_phase_cb 4800 5200)\<rparr>))"

text \<open>\<open>add_to_senders\<close> over all members: the ids to ask, and whether to repeat the request.\<close>

fun collect_senders ::
    "u32 list \<Rightarrow> u32 list \<times> bool \<times> 'a membership_scheme \<Rightarrow>
     (u32 list \<times> bool \<times> 'a membership_scheme) outcome" where
  "collect_senders [] acc = Inr acc"
| "collect_senders (i # is) (senders, need_repeat, g) =
     andthen (get_member i g) (\<lambda>m.
     let m = (if mi_state m = MEMBER_STATE_UNKNOWN
              then m\<lparr>mi_state := MEMBER_STATE_ATTEMPT_JOIN_STARTED\<rparr> else m);
         g = put_member i m g
     in if mi_state m = MEMBER_STATE_ATTEMPT_JOIN_STARTED
        then collect_senders is (senders @ [mi_id m], True, g)
        else collect_senders is
          (senders, need_repeat \<or> mi_state m = MEMBER_STATE_ATTEMPT_JOIN_REPEAT, g))"

definition do_send_attempt_join ::
    "'a mt_lower \<Rightarrow> nat \<Rightarrow> 'a membership_scheme \<Rightarrow> 'a membership_scheme outcome" where
  "do_send_attempt_join up n g =
     andthen (stop_send_attempt_join (g\<lparr>mt_timeout := None\<rparr>)) (\<lambda>g.
     andthen (collect_senders (map fst (mt_members g)) ([], False, g)) (\<lambda>(senders, need_repeat, g).
     let g = g\<lparr>mt_repeating_join := need_repeat\<rparr> in
     if mt_send_empty g \<or> mt_repeating_join g then
       andthen (causal_send_attempt_join up n senders (mt_repeating_join g) g) (\<lambda>(i, g).
       Inr (g\<lparr>mt_attempt_join_id := i, mt_send_empty := False\<rparr>))
     else Inr g))"

definition mt_send_attempt_join :: "bool \<Rightarrow> 'a membership_scheme \<Rightarrow> 'a membership_scheme outcome" where
  "mt_send_attempt_join send_empty g =
     andthen (assert_that (mt_state g \<noteq> MT_JOINING)) (\<lambda>_.
     andthen (continue_gathering_phase g) (\<lambda>g.
     let g = g\<lparr>mt_send_empty := mt_send_empty g \<or> send_empty\<rparr>
     in Inr (if mt_timeout g = None
             then g\<lparr>mt_timeout := Some (Mt_timer Do_send_attempt_join_cb 100 400)\<rparr> else g)))"

definition update_member ::
    "u32 \<Rightarrow> member_state \<Rightarrow> u32 \<Rightarrow> 'a membership_scheme \<Rightarrow> (bool \<times> 'a membership_scheme) outcome" where
  "update_member sender_id newstate packet_id g =
     (if sender_id = ct_sender_id g then Inr (False, g)
      else
        andthen (causal_add_sender sender_id g) (\<lambda>(a, g).
        andthen (member_get_info sender_id g) (\<lambda>(m, g).
        let changed = mi_state m < newstate;
            m = m\<lparr>mi_state := max (mi_state m) newstate\<rparr>;
            g = put_member sender_id m g
        in andthen (if changed \<and> mi_state m \<ge> MEMBER_STATE_ATTEMPT_JOIN_REPEAT
                       \<and> mi_state m < MEMBER_STATE_JOINING
                    then upd_sender a (sender_update_start packet_id) g else Inr g) (\<lambda>g.
           Inr (changed, g)))))"

fun update_members ::
    "member_state \<Rightarrow> sender_info list \<Rightarrow> bool \<Rightarrow> 'a membership_scheme \<Rightarrow>
     (bool \<times> 'a membership_scheme) outcome" where
  "update_members st [] changed g = Inr (changed, g)"
| "update_members st ((i, pid) # infos) changed g =
     andthen (update_member i st pid g) (\<lambda>(c, g). update_members st infos (changed \<or> c) g)"

definition update_foreign_member_list ::
    "packet \<Rightarrow> member_state \<Rightarrow> 'a membership_scheme \<Rightarrow> (bool \<times> 'a membership_scheme) outcome" where
  "update_foreign_member_list p st g =
     update_members st ((pkt_sender p, pkt_packet_id p + 1) # pkt_depends p) False g"

text \<open>The \<open>attempt_join.senders\<close> of the union.\<close>

definition attempt_join_senders :: "packet \<Rightarrow> u32 list option" where
  "attempt_join_senders p = (case pkt_data p of Attempt_join ids \<Rightarrow> Some ids | _ \<Rightarrow> None)"

definition foreign_unknown :: "packet \<Rightarrow> 'a membership_scheme \<Rightarrow> 'a membership_scheme outcome" where
  "foreign_unknown p g =
     (if (case pkt_data p of Data flags _ _ _ \<Rightarrow> has_flag flags DATA_PACKET_START | _ \<Rightarrow> True)
      then andthen (update_foreign_member_list p MEMBER_STATE_UNKNOWN g) (\<lambda>(_, g).
           mt_send_attempt_join False g)
      else Inr g)"

definition received_foreign_packet_cb ::
    "packet \<Rightarrow> 'a membership_scheme \<Rightarrow> 'a membership_scheme outcome" where
  "received_foreign_packet_cb p g =
     (if mt_state g = MT_JOINING \<or> pkt_type p = PACKET_TYPE_BYE then Inr g
      else
        andthen (causal_add_sender (pkt_sender p) g) (\<lambda>(_, g).
        if \<not> is_reliable_packet p \<and> pkt_type p \<noteq> PACKET_TYPE_SESSION then Inr g
        else case attempt_join_senders p of
          None \<Rightarrow> foreign_unknown p g
        | Some ids \<Rightarrow>
            if ct_sender_id g \<in> set ids then
              andthen (update_foreign_member_list p MEMBER_STATE_ATTEMPT_JOIN_REPEAT g) (\<lambda>(_, g).
              mt_send_attempt_join True g)
            else if depends_list_contains (pkt_depends p) (ct_sender_id g) then
              (if member_get_state (pkt_sender p) g = MEMBER_STATE_ATTEMPT_JOIN_STARTED then
                 andthen (update_foreign_member_list p MEMBER_STATE_ATTEMPT_JOIN_DONE g) (\<lambda>(_, g).
                 mt_send_attempt_join True g)
               else Inr g)
            else foreign_unknown p g))"

definition cmp_member_attempt_join_state :: "u32 list \<Rightarrow> sender_info list \<Rightarrow> member_info \<Rightarrow> bool" where
  "cmp_member_attempt_join_state senders depends m \<longleftrightarrow>
     (if mi_id m \<in> set senders then mi_state m > MEMBER_STATE_ATTEMPT_JOIN_STARTED
      else \<not> depends_list_contains depends (mi_id m))"

definition cmp_attempt_join_state :: "packet \<Rightarrow> 'a membership_scheme \<Rightarrow> int outcome" where
  "cmp_attempt_join_state p g =
     (case attempt_join_senders p of
        None \<Rightarrow> Inl Assertion_failed
      | Some senders \<Rightarrow>
          Inr (if find_member (cmp_member_attempt_join_state senders (pkt_depends p)) g \<noteq> None then -1
               else if ct_sender_id g \<notin> set senders
                       \<and> \<not> depends_list_contains (pkt_depends p) (ct_sender_id g) then -1
               else if length (mt_members g) + 1 = length senders + length (pkt_depends p) then 0
               else 1))"

section \<open>Failures\<close>

definition send_failure_packet ::
    "'a mt_lower \<Rightarrow> nat \<Rightarrow> 'a membership_scheme \<Rightarrow> 'a membership_scheme outcome" where
  "send_failure_packet up n g =
     andthen (assert_that (mt_pending_failures g \<noteq> [])) (\<lambda>_.
     andthen (causal_send_failure up n (mt_pending_failures g) g) (\<lambda>g.
     andthen (set_failed_all (mt_pending_failures g) g) (\<lambda>g.
     Inr (g\<lparr>mt_pending_failures := []\<rparr>))))"

definition find_unfailed_member :: "u32 \<Rightarrow> member_info \<Rightarrow> bool" where
  "find_unfailed_member i m \<longleftrightarrow>
     mi_state m \<ge> MEMBER_STATE_ATTEMPT_JOIN_DONE \<and> mi_state m \<le> MEMBER_STATE_MEMBER
     \<and> i \<notin> set (mi_failures m)"

definition collect_failed_members :: "'a membership_scheme \<Rightarrow> u32 list" where
  "collect_failed_members g =
     map mi_id (filter (\<lambda>m. mi_state m \<ge> MEMBER_STATE_FAILING
                          \<and> mi_state m < MEMBER_STATE_INSTANT_FAILURE) (map snd (mt_members g)))"

definition complete_failure ::
    "'a mt_upper \<Rightarrow> 'a mt_lower \<Rightarrow> nat \<Rightarrow> u32 \<Rightarrow> 'a membership_scheme \<Rightarrow> 'a membership_scheme outcome" where
  "complete_failure app up n i g =
     andthen (member_get_info i g) (\<lambda>(m, g).
     andthen (foreach_member (remove_failure i) g) (\<lambda>g.
     andthen (if mi_state m = MEMBER_STATE_MEMBER_FAILING
              then andthen (causal_get_sender i g) (\<lambda>a.
                   andthen (get_sender a g) (\<lambda>s. app (Lost_senders [s_name s]) g))
              else Inr g) (\<lambda>g.
     andthen (causal_remove_sender i g) (\<lambda>g.
     if mt_state g = MT_JOINING then
       andthen (upd_member i (\<lambda>m. m\<lparr>mi_state := MEMBER_STATE_INSTANT_FAILURE,
                                    mi_fail_timeout := None\<rparr>) g)
         (check_join_agreement app up n)
     else Inr (remove_member i g)))))"

primrec check_failure_completion ::
    "'a mt_upper \<Rightarrow> 'a mt_lower \<Rightarrow> nat \<Rightarrow> nat \<Rightarrow> u32 \<Rightarrow>
     'a membership_scheme \<Rightarrow> 'a membership_scheme outcome" where
  "check_failure_completion app up n 0 i g = Inl Out_of_fuel"
| "check_failure_completion app up n (Suc k) i g =
     (if find_member (find_unfailed_member i) g \<noteq> None then Inr g
      else
        andthen (complete_failure app up n i g) (\<lambda>g.
        foldo (check_failure_completion app up n k) (collect_failed_members g) g))"

definition fail_member ::
    "'a mt_upper \<Rightarrow> 'a mt_lower \<Rightarrow> nat \<Rightarrow> u32 option \<Rightarrow> u32 \<Rightarrow>
     'a membership_scheme \<Rightarrow> 'a membership_scheme outcome" where
  "fail_member app up n informer i g =
     (if i = ct_sender_id g then mt_reset up g
      else case lookup_member i g of
        None \<Rightarrow> causal_remove_sender i g
      | Some m \<Rightarrow>
          if mi_state m < MEMBER_STATE_ATTEMPT_JOIN_REPEAT then
            andthen (causal_remove_sender i g)
              (upd_member i (\<lambda>m. m\<lparr>mi_state := MEMBER_STATE_INSTANT_FAILURE\<rparr>))
          else
            andthen
              (if mi_state m < MEMBER_STATE_FAILING then
                 let st = (if mi_state m = MEMBER_STATE_MEMBER then MEMBER_STATE_MEMBER_FAILING
                           else MEMBER_STATE_FAILING);
                     g = (put_member i (m\<lparr>mi_state := st, mi_fail_timeout := Some 60000\<rparr>) g)
                           \<lparr>mt_pending_failures := mt_pending_failures g @ [i]\<rparr>
                 in send_failure_packet up n g
               else Inr g) (\<lambda>g.
            andthen (case informer of
                       None \<Rightarrow> Inr g
                     | Some j \<Rightarrow> upd_member j (\<lambda>m. m\<lparr>mi_failures := mi_failures m @ [i]\<rparr>) g) (\<lambda>g.
            check_failure_completion app up n n i g)))"

primrec fail_unfailed_loop ::
    "'a mt_upper \<Rightarrow> 'a mt_lower \<Rightarrow> nat \<Rightarrow> nat \<Rightarrow> u32 \<Rightarrow>
     'a membership_scheme \<Rightarrow> 'a membership_scheme outcome" where
  "fail_unfailed_loop app up n 0 i g = Inl Out_of_fuel"
| "fail_unfailed_loop app up n (Suc k) i g =
     andthen (get_member i g) (\<lambda>m.
     case find_member (find_unfailed_member (mi_id m)) g of
       None \<Rightarrow> Inr g
     | Some t \<Rightarrow>
         andthen (fail_member app up n None (mi_id t) g) (fail_unfailed_loop app up n k i))"

definition fail_member_timeout_cb ::
    "'a mt_upper \<Rightarrow> 'a mt_lower \<Rightarrow> nat \<Rightarrow> u32 \<Rightarrow> 'a membership_scheme \<Rightarrow> 'a membership_scheme outcome" where
  "fail_member_timeout_cb app up n i g =
     andthen (upd_member i (\<lambda>m. m\<lparr>mi_fail_timeout := None\<rparr>) g) (fail_unfailed_loop app up n n i)"

definition join_timeout_cb ::
    "'a mt_upper \<Rightarrow> 'a mt_lower \<Rightarrow> nat \<Rightarrow> 'a membership_scheme \<Rightarrow> 'a membership_scheme outcome" where
  "join_timeout_cb app up n g =
     foreach_member (\<lambda>i g.
       andthen (get_member i g) (\<lambda>m.
       if \<not> mi_agreed_join m then fail_member app up n None (mi_id m) g else Inr g)) g"

definition handle_failure_packet ::
    "'a mt_upper \<Rightarrow> 'a mt_lower \<Rightarrow> nat \<Rightarrow> packet \<Rightarrow> 'a membership_scheme \<Rightarrow>
     'a membership_scheme outcome" where
  "handle_failure_packet app up n p g =
     (case pkt_data p of
        Failure ids \<Rightarrow>
          andthen (member_get_info (pkt_sender p) g) (\<lambda>(_, g).
          foldo (fail_member app up n (Some (pkt_sender p))) ids g)
      | _ \<Rightarrow> Inl Wrong_union_member)"

section \<open>Join packets\<close>

text \<open>The loop over the failures of a JOIN; \<open>JOIN_FAILED\<close> leaves \<open>check_join\<close> at once.\<close>

fun check_join_failures ::
    "'a mt_lower \<Rightarrow> u32 list \<Rightarrow> check_join_return \<Rightarrow> 'a membership_scheme \<Rightarrow>
     (check_join_return \<times> 'a membership_scheme) outcome" where
  "check_join_failures up [] result g = Inr (result, g)"
| "check_join_failures up (i # is) result g =
     (if i = ct_sender_id g then andthen (mt_reset up g) (\<lambda>g. Inr (JOIN_FAILED, g))
      else
        andthen (member_get_info i g) (\<lambda>(m, g).
        if mi_state m < MEMBER_STATE_ATTEMPT_JOIN_REPEAT then
          check_join_failures up is JOIN_LESS_INFO
            (put_member i (m\<lparr>mi_state := MEMBER_STATE_INSTANT_FAILURE\<rparr>) g)
        else if mi_state m < MEMBER_STATE_MEMBER then
          check_join_failures up is JOIN_LESS_INFO
            ((put_member i (m\<lparr>mi_state := MEMBER_STATE_FAILING\<rparr>) g)
               \<lparr>mt_pending_failures := mt_pending_failures g @ [i]\<rparr>)
        else if mi_state m = MEMBER_STATE_MEMBER then
          check_join_failures up is JOIN_LESS_INFO
            ((put_member i (m\<lparr>mi_state := MEMBER_STATE_MEMBER_FAILING\<rparr>) g)
               \<lparr>mt_pending_failures := mt_pending_failures g @ [i]\<rparr>)
        else check_join_failures up is result g))"

fun check_join_depends ::
    "u32 list \<Rightarrow> u32 list \<Rightarrow> sender_info list \<Rightarrow> nat \<Rightarrow> check_join_return \<Rightarrow> 'a membership_scheme \<Rightarrow>
     (nat \<times> check_join_return \<times> 'a membership_scheme) outcome" where
  "check_join_depends js fs [] seen result g = Inr (seen, result, g)"
| "check_join_depends js fs ((i, pid) # infos) seen result g =
     (if i \<in> set js \<or> i = ct_sender_id g then check_join_depends js fs infos (Suc seen) result g
      else if i \<notin> set fs then
        andthen (member_set_state i MEMBER_STATE_INSTANT_FAILURE g) (\<lambda>g.
        check_join_depends js fs infos seen JOIN_LESS_INFO g)
      else check_join_depends js fs infos seen result g)"

definition check_join ::
    "'a mt_lower \<Rightarrow> packet \<Rightarrow> 'a membership_scheme \<Rightarrow>
     (check_join_return \<times> 'a membership_scheme) outcome" where
  "check_join up p g =
     (case pkt_data p of
        Join failures \<Rightarrow>
          andthen (check_join_failures up failures JOIN_EQUAL g) (\<lambda>(result, g).
          if result \<noteq> JOIN_EQUAL then Inr (result, g)
          else
            andthen (deref (mt_send_join_failures g)) (\<lambda>fs.
            let result = (if length fs \<noteq> length failures then JOIN_MORE_INFO else result) in
            if \<not> depends_list_contains (pkt_depends p) (ct_sender_id g)
            then andthen (mt_reset up g) (\<lambda>g. Inr (JOIN_FAILED, g))
            else
              andthen (deref (mt_send_join g)) (\<lambda>js.
              andthen (check_join_depends js fs (pkt_depends p) 0 result g) (\<lambda>(seen, result, g).
              Inr (if result = JOIN_EQUAL \<and> seen \<noteq> length js then JOIN_MORE_INFO else result, g)))))
      | _ \<Rightarrow> Inl Assertion_failed)"

section \<open>Signal handlers\<close>

definition received_attempt_join ::
    "packet \<Rightarrow> 'a membership_scheme \<Rightarrow> 'a membership_scheme outcome" where
  "received_attempt_join p g =
     (if mt_state g = MT_JOINING then Inr g
      else
        andthen (cmp_attempt_join_state p g) (\<lambda>info_compare.
        andthen (deref (attempt_join_senders p)) (\<lambda>ids.
        andthen (update_members MEMBER_STATE_ATTEMPT_JOIN_STARTED (map (\<lambda>i. (i, 0)) ids) False g)
          (\<lambda>(changed, g).
        andthen (update_foreign_member_list p
                   (if ct_sender_id g \<in> set ids then MEMBER_STATE_ATTEMPT_JOIN_REPEAT
                    else MEMBER_STATE_ATTEMPT_JOIN_DONE) g) (\<lambda>(c, g).
        let changed = changed \<or> c in
        andthen (continue_gathering_phase g) (\<lambda>g.
        if info_compare = 1 then
          andthen (assert_that changed) (\<lambda>_. stop_send_attempt_join g)
        else if info_compare = 0 then
          (if mt_timeout g \<noteq> None \<or> pkt_sender p > ct_sender_id g
           then stop_send_attempt_join g else Inr g)
        else if changed then mt_send_attempt_join False g else Inr g))))))"

definition handle_join_result ::
    "'a mt_upper \<Rightarrow> 'a mt_lower \<Rightarrow> nat \<Rightarrow> saddr \<Rightarrow> packet \<Rightarrow> check_join_return \<Rightarrow>
     'a membership_scheme \<Rightarrow> 'a membership_scheme outcome" where
  "handle_join_result app up n a p result g =
     (case result of
        JOIN_EQUAL \<Rightarrow>
          andthen (upd_member (pkt_sender p) (\<lambda>m. m\<lparr>mi_agreed_join := True\<rparr>) g)
            (check_join_agreement app up n)
      | JOIN_MORE_INFO \<Rightarrow> sender_release_data (causal_handler up) n a g
      | JOIN_LESS_INFO \<Rightarrow>
          andthen (start_joining_phase up n g) (\<lambda>g.
          andthen (check_join up p g) (\<lambda>(r, g).
          andthen (if r = JOIN_EQUAL
                   then upd_member (pkt_sender p) (\<lambda>m. m\<lparr>mi_agreed_join := True\<rparr>) g
                   else Inr g)
            (check_join_agreement app up n)))
      | JOIN_FAILED \<Rightarrow> Inr g)"

definition received_join ::
    "'a mt_upper \<Rightarrow> 'a mt_lower \<Rightarrow> nat \<Rightarrow> saddr \<Rightarrow> packet \<Rightarrow>
     'a membership_scheme \<Rightarrow> 'a membership_scheme outcome" where
  "received_join app up n a p g =
     (if mt_state g = MT_DISCONNECTED \<or> mt_state g = MT_NORMAL then Inr g
      else
        andthen (sender_hold_data (causal_handler up) n a (pkt_packet_id p) g) (\<lambda>g.
        andthen (upd_member (pkt_sender p) (\<lambda>m. m\<lparr>mi_join_packet_id := pkt_packet_id p\<rparr>) g) (\<lambda>g.
        andthen (if mt_state g = MT_GATHERING then
                   andthen (setup_joining_phase g) (\<lambda>g.
                   andthen (check_join up p g) (\<lambda>(r, g).
                   if r = JOIN_FAILED then Inr (False, g)
                   else andthen (start_joining_phase up n g) (\<lambda>g. Inr (True, g))))
                 else Inr (True, g)) (\<lambda>(proceed, g).
        if \<not> proceed then Inr g
        else
          andthen (check_join up p g) (\<lambda>(r, g). handle_join_result app up n a p r g)))))"

definition received_control_packet_cb ::
    "'a mt_upper \<Rightarrow> 'a mt_lower \<Rightarrow> nat \<Rightarrow> saddr \<Rightarrow> packet \<Rightarrow>
     'a membership_scheme \<Rightarrow> 'a membership_scheme outcome" where
  "received_control_packet_cb app up n a p g =
     (case pkt_data p of
        Attempt_join _ \<Rightarrow> received_attempt_join p g
      | Join _ \<Rightarrow> received_join app up n a p g
      | Failure _ \<Rightarrow> handle_failure_packet app up n p g
      | Bye \<Rightarrow> fail_member app up n None (pkt_sender p) g
      | _ \<Rightarrow> Inr g)"

definition mt_sender_failed_cb ::
    "'a mt_upper \<Rightarrow> 'a mt_lower \<Rightarrow> nat \<Rightarrow> saddr \<Rightarrow> 'a membership_scheme \<Rightarrow>
     'a membership_scheme outcome" where
  "mt_sender_failed_cb app up n a g =
     andthen (get_sender a g) (\<lambda>s. fail_member app up n None (s_id s) g)"

definition transport_disconnected ::
    "'a mt_upper \<Rightarrow> 'a membership_scheme \<Rightarrow> 'a membership_scheme outcome" where
  "transport_disconnected app g = mt_set_transport_state app TRANSPORT_DISCONNECTED g"

text \<open>The handlers the transport has connected to the causal transport's signals.\<close>

definition membership_event ::
    "'a mt_upper \<Rightarrow> 'a mt_lower \<Rightarrow> nat \<Rightarrow> event \<Rightarrow> 'a membership_scheme \<Rightarrow>
     'a membership_scheme outcome" where
  "membership_event app up n ev g =
     (case ev of
        Data_event name sender_id stream_id data \<Rightarrow> received_data app name sender_id stream_id data g
      | Control_event a p \<Rightarrow>
          if mt_signals_connected g then received_control_packet_cb app up n a p g else Inr g
      | Foreign_event p \<Rightarrow>
          if mt_signals_connected g then received_foreign_packet_cb p g else Inr g
      | Sender_failed_event a \<Rightarrow>
          if mt_signals_connected g then mt_sender_failed_cb app up n a g else Inr g
      | State_event st \<Rightarrow>
          if st = TRANSPORT_CONNECTED \<and> mt_reconnect_handler g then Inr (transport_reconnected g)
          else if st = TRANSPORT_DISCONNECTED \<and> mt_disconnect_handler g
          then transport_disconnected app g
          else Inr g)"

primrec membership_up :: "'a mt_upper \<Rightarrow> nat \<Rightarrow> 'a mt_lower" where
  "membership_up app 0 ev g = Inl Out_of_fuel"
| "membership_up app (Suc n) ev g = membership_event app (membership_up app n) n ev g"

section \<open>The transport\<close>

definition mt_connect :: "'a mt_upper \<Rightarrow> 'a membership_scheme \<Rightarrow> 'a membership_scheme outcome" where
  "mt_connect app g =
     andthen (assert_that (ct_state g = TRANSPORT_CONNECTED)) (\<lambda>_.
     andthen (assert_that (mt_transport_state g \<noteq> TRANSPORT_CONNECTED)) (\<lambda>_.
     andthen (mt_set_transport_state app TRANSPORT_CONNECTED g) (\<lambda>g.
     Inr (g\<lparr>mt_state := MT_NORMAL, mt_signals_connected := True\<rparr>))))"

definition mt_send ::
    "'a mt_lower \<Rightarrow> nat \<Rightarrow> u16 \<Rightarrow> u8 list \<Rightarrow> 'a membership_scheme \<Rightarrow>
     (bool \<times> 'a membership_scheme) outcome" where
  "mt_send up n stream_id data g =
     (if mt_state g = MT_RESETTING then Inr (True, g) else causal_send up n stream_id data g)"

definition mt_do_send ::
    "'a mt_lower \<Rightarrow> nat \<Rightarrow> u8 list \<Rightarrow> 'a membership_scheme \<Rightarrow> (bool \<times> 'a membership_scheme) outcome" where
  "mt_do_send up n data g =
     (if mt_state g = MT_RESETTING then Inr (True, g)
      else
        andthen (assert_that (ct_state g = TRANSPORT_CONNECTED)) (\<lambda>_. causal_do_send up n data g))"

definition mt_disconnect ::
    "'a mt_upper \<Rightarrow> 'a mt_lower \<Rightarrow> 'a membership_scheme \<Rightarrow> 'a membership_scheme outcome" where
  "mt_disconnect app up g =
     (let g = (if mt_state g = MT_RESETTING then g\<lparr>mt_reconnect_handler := False\<rparr> else g) in
      andthen (mt_set_transport_state app TRANSPORT_DISCONNECTING
                 (flush_state (g\<lparr>mt_state := MT_DISCONNECTED\<rparr>))) (\<lambda>g.
      causal_disconnect up (g\<lparr>mt_disconnect_handler := True\<rparr>)))"

end
