(* ===== verification/Membership_Evolve.thy ===== *)
theory Membership_Evolve
  imports Causal_Evolve Membership
begin

text \<open>
  The membership protocol keeps the invariant of the sender group as well: every handler it connects
  to the causal transport does, given that the application does, so the handlers discharge the
  contract of the layers below, and the invariant holds for the whole stack.
\<close>

lemmas member_steps =
  holds_andthenI[where m = "m :: member_info outcome" for m]
  holds_andthenI[where m = "m :: u32 list outcome" for m]
  holds_andthenI[where m = "m :: u8 list outcome" for m]
  holds_andthenI[where m = "m :: int outcome" for m]
  holds_andthenI[where m = "m :: u8 list option list outcome" for m]
  keeps_then[where p = snd and q = "\<lambda>x. snd (snd x)"]
  keeps_then[where p = "\<lambda>x. snd (snd x)" and q = snd]
  keeps_then[where p = "\<lambda>x. snd (snd x)" and q = "\<lambda>x. x"]

lemma put_member_keeps [simp]: "keeps g (put_member i m g)" "keeps g (remove_member i g)"
  by (simp_all add: put_member_def remove_member_def)

lemma put_member_fields [simp]:
  "g_store (put_member i m g) = g_store g" "g_fresh (put_member i m g) = g_fresh g"
  "g_senders (put_member i m g) = g_senders g" "g_pop_queue (put_member i m g) = g_pop_queue g"
  "g_pending_removal (put_member i m g) = g_pending_removal g"
  "g_store (remove_member i g) = g_store g" "g_fresh (remove_member i g) = g_fresh g"
  "g_senders (remove_member i g) = g_senders g" "g_pop_queue (remove_member i g) = g_pop_queue g"
  "g_pending_removal (remove_member i g) = g_pending_removal g"
  by (simp_all add: put_member_def remove_member_def)

lemma upd_member_keeps: "holds (keeps g) (upd_member i f g)"
  unfolding upd_member_def by (auto simp del: holds_simps(3) intro!: member_steps)

lemma foreach_member_keeps: "(\<And>i g. holds (keeps g) (f i g)) \<Longrightarrow> holds (keeps g) (foreach_member f g)"
  unfolding foreach_member_def by (rule keeps_foldo)

lemma member_get_info_keeps: "holds (\<lambda>x. keeps g (snd x)) (member_get_info i g)"
  unfolding member_get_info_def new_member_def
  by (auto simp del: holds_simps(3) intro!: pure_steps state_steps member_steps)

lemma member_set_state_keeps: "holds (keeps g) (member_set_state i st g)"
  unfolding member_set_state_def
  by (auto simp del: holds_simps(3) intro!: state_steps member_get_info_keeps)

section \<open>Steps without handlers\<close>

lemma add_to_join_keeps: "holds (keeps g) (add_to_join i g)"
  unfolding add_to_join_def
  by (auto simp del: holds_simps(3) intro!: pure_steps member_steps state_steps)

lemma fail_duplicated_keeps: "holds (keeps g) (fail_duplicated c i g)"
  unfolding fail_duplicated_def
  by (auto simp del: holds_simps(3) split: option.split intro!: pure_steps member_steps)

lemma check_join_state_keeps: "holds (keeps g) (check_join_state i g)"
  unfolding check_join_state_def
  by (auto simp del: holds_simps(3) intro!: pure_steps member_steps state_steps foreach_member_keeps
      fail_duplicated_keeps before1[OF remove_sender_keeps])

lemma stop_send_attempt_join_keeps: "holds (keeps g) (stop_send_attempt_join g)"
  unfolding stop_send_attempt_join_def
  by (auto simp del: holds_simps(3) intro!: state_steps stop_attempt_join_keeps)

lemma setup_joining_phase_keeps: "holds (keeps g) (setup_joining_phase g)"
  unfolding setup_joining_phase_def
  by (auto simp del: holds_simps(3) intro!: pure_steps member_steps state_steps
      stop_send_attempt_join_keeps before1[OF foreach_member_keeps[OF check_join_state_keeps]]
      before1[OF foreach_member_keeps[OF add_to_join_keeps]])

lemma set_failed_all_keeps: "holds (keeps g) (set_failed_all ids g)"
  unfolding set_failed_all_def
  by (auto simp del: holds_simps(3) intro!: keeps_foldo pure_steps keeps_upd evolves_set_failed)

lemma remove_failure_keeps: "holds (keeps g) (remove_failure i j g)"
  unfolding remove_failure_def by (rule upd_member_keeps)

lemma drop_join_failures_keeps:
  fixes g :: "'a membership_scheme"
  shows "holds (\<lambda>x. keeps g (snd x)) (drop_join_failures is gone g)"
proof (induction "is" arbitrary: gone g)
  case (Cons i "is")
  have "holds (\<lambda>y. keeps g (snd y)) (drop_join_failures is gone (remove_member i g))"
    for gone and g :: "'a membership_scheme"
    by (rule before_snd[OF Cons.IH]) simp_all
  then show ?case
    by (auto simp del: holds_simps(3) intro!: pure_steps member_steps state_steps
        member_get_info_keeps foreach_member_keeps remove_failure_keeps remove_sender_keeps)
qed simp

lemma add_new_members_keeps:
  fixes g :: "'a membership_scheme"
  shows "holds (\<lambda>x. keeps g (snd x)) (add_new_members is new g)"
proof (induction "is" arbitrary: new g)
  case (Cons i "is")
  have "holds (\<lambda>y. keeps g (snd y)) (add_new_members is new (remove_member j g))"
    "holds (\<lambda>y. keeps g (snd y)) (add_new_members is new (put_member j m g))"
    for new j m and g :: "'a membership_scheme"
    by (rule before_snd[OF Cons.IH]; simp)+
  then show ?case
    by (auto simp del: holds_simps(3) split: option.split intro!: pure_steps member_steps state_steps
        Cons.IH keeps_upd evolves_set_data_start)
qed simp

lemma continue_gathering_keeps: "holds (keeps g) (continue_gathering_phase g)"
  unfolding continue_gathering_phase_def by (auto simp del: holds_simps(3) intro!: pure_steps)

lemma collect_senders_keeps:
  fixes g :: "'a membership_scheme"
  shows "holds (\<lambda>x. keeps g (snd (snd x))) (collect_senders is (ids, b, g))"
proof (induction "is" arbitrary: ids b g)
  case (Cons i "is")
  have "holds (\<lambda>x. keeps g (snd (snd x))) (collect_senders is (ids, b, put_member j m g))"
    for ids b j m and g :: "'a membership_scheme"
    by (rule holds_keeps_before[OF Cons.IH]) simp_all
  then show ?case by (auto simp: Let_def simp del: holds_simps(3) intro!: member_steps)
qed simp

lemma mt_send_attempt_join_keeps: "holds (keeps g) (mt_send_attempt_join b g)"
  unfolding mt_send_attempt_join_def Let_def
  by (auto simp del: holds_simps(3) intro!: pure_steps state_steps continue_gathering_keeps)

lemma update_member_keeps: "holds (\<lambda>x. keeps g (snd x)) (update_member i st pid g)"
  unfolding update_member_def Let_def
  by (auto simp del: holds_simps(3) intro!: state_steps add_sender_keeps member_get_info_keeps
      before1[OF keeps_upd[OF evolves_update_start]])

lemma update_members_keeps: "holds (\<lambda>x. keeps g (snd x)) (update_members st infos b g)"
proof (induction infos arbitrary: b g)
  case (Cons info infos)
  then show ?case
    by (cases info) (auto simp del: holds_simps(3) intro!: state_steps update_member_keeps)
qed simp

lemma update_foreign_keeps: "holds (\<lambda>x. keeps g (snd x)) (update_foreign_member_list p st g)"
  unfolding update_foreign_member_list_def by (rule update_members_keeps)

lemma received_foreign_keeps: "holds (keeps g) (received_foreign_packet_cb p g)"
proof -
  have "holds (keeps g) (foreign_unknown p g)" for g :: "'a membership_scheme"
    unfolding foreign_unknown_def
    by (auto simp del: holds_simps(3) intro!: state_steps update_foreign_keeps mt_send_attempt_join_keeps)
  then show ?thesis unfolding received_foreign_packet_cb_def
    by (auto simp del: holds_simps(3) split: option.split
        intro!: state_steps add_sender_keeps update_foreign_keeps mt_send_attempt_join_keeps)
qed

lemma received_attempt_join_keeps: "holds (keeps g) (received_attempt_join p g)"
  unfolding received_attempt_join_def Let_def
  by (auto simp del: holds_simps(3) intro!: pure_steps member_steps state_steps update_members_keeps
      update_foreign_keeps continue_gathering_keeps stop_send_attempt_join_keeps
      mt_send_attempt_join_keeps)

lemma check_join_depends_keeps:
  "holds (\<lambda>x. keeps g (snd (snd x))) (check_join_depends js fs infos k r g)"
proof (induction infos arbitrary: k r g)
  case (Cons info infos)
  then show ?case
    by (cases info) (auto simp del: holds_simps(3) intro!: member_set_state_keeps
        keeps_then[where p = "\<lambda>x. x" and q = "\<lambda>x. snd (snd x)"])
qed simp

section \<open>Steps with handlers\<close>

locale evolving_member = evolving_upper up for up :: "'a mt_lower" +
  fixes app :: "'a mt_upper"
  assumes app: "holds (keeps g) (app ev g)"
begin

lemma mt_set_state_keeps: "holds (keeps g) (mt_set_transport_state app st g)"
  unfolding mt_set_transport_state_def by (auto intro: before1[OF app])

lemma mt_reset_keeps: "holds (keeps g) (mt_reset up g)"
  unfolding mt_reset_def flush_state_def by (rule before1[OF reset_keeps]) simp_all

lemma received_data_keeps: "holds (keeps g) (received_data app nm i sid data g)"
  unfolding received_data_def Let_def by (auto simp del: holds_simps(3) intro!: pure_steps app)

lemma start_joining_phase_keeps: "holds (keeps g) (start_joining_phase up n g)"
  unfolding start_joining_phase_def
  by (auto simp del: holds_simps(3) intro!: pure_steps member_steps state_steps
      setup_joining_phase_keeps hold_data_keeps send_join_keeps set_failed_all_keeps)

lemma mt_release_keeps: "holds (keeps g) (release_data up n i g)"
  unfolding release_data_def
  by (auto simp del: holds_simps(3) intro!: pure_steps member_steps release_data_keeps)

lemma agreement_keeps: "holds (keeps g) (check_join_agreement app up n g)"
proof -
  have rel: "holds (keeps g) (andthen (causal_get_sender i g') (\<lambda>a.
     andthen (sender_release_data (causal_handler up) n a g') (foreach_member (release_data up n))))"
    if "keeps g g'" for i and g g' :: "'a membership_scheme"
    by (rule keeps_first[OF that])
       (auto simp del: holds_simps(3) intro!: pure_steps state_steps release_data_keeps
         foreach_member_keeps mt_release_keeps)
  have "holds (keeps g) (finish_join app up n js g)" for js and g :: "'a membership_scheme"
    unfolding finish_join_def Let_def
    by (auto simp del: holds_simps(3) intro!: member_steps state_steps drop_join_failures_keeps
        add_new_members_keeps app rel)
  then show ?thesis unfolding check_join_agreement_def
    by (auto simp del: holds_simps(3) intro!: member_steps)
qed

lemma do_start_joining_keeps: "holds (keeps g) (do_start_joining_phase app up n g)"
  unfolding do_start_joining_phase_def
  by (auto simp del: holds_simps(3) intro!: state_steps start_joining_phase_keeps agreement_keeps)

lemma do_send_attempt_join_keeps: "holds (keeps g) (do_send_attempt_join up n g)"
proof -
  have "holds (keeps g) (andthen (causal_send_attempt_join up n ids b (g\<lparr>mt_repeating_join := c\<rparr>))
      (\<lambda>(i, g). Inr (g\<lparr>mt_attempt_join_id := i, mt_send_empty := False\<rparr>)))"
    for ids b c and g :: "'a membership_scheme"
    by (auto simp del: holds_simps(3) intro!: state_steps before_snd[OF attempt_join_keeps])
  then show ?thesis unfolding do_send_attempt_join_def Let_def
    by (auto simp del: holds_simps(3) intro!: state_steps member_steps collect_senders_keeps
        before1[OF stop_send_attempt_join_keeps])
qed

lemma send_failure_packet_keeps: "holds (keeps g) (send_failure_packet up n g)"
  unfolding send_failure_packet_def
  by (auto simp del: holds_simps(3) intro!: pure_steps state_steps send_failure_keeps
      set_failed_all_keeps)

lemma complete_failure_keeps: "holds (keeps g) (complete_failure app up n i g)"
  unfolding complete_failure_def
  by (auto simp del: holds_simps(3) intro!: pure_steps state_steps member_get_info_keeps
      foreach_member_keeps remove_failure_keeps app remove_sender_keeps upd_member_keeps
      agreement_keeps)

lemma check_failure_completion_keeps:
  "holds (keeps g) (check_failure_completion app up n k i g)"
proof (induction k arbitrary: i g)
  case (Suc k)
  then show ?case
    by (auto simp del: holds_simps(3) intro!: state_steps complete_failure_keeps keeps_foldo)
qed simp

lemma fail_member_keeps: "holds (keeps g) (fail_member app up n informer i g)"
proof -
  have "holds (keeps g) (send_failure_packet up n ((put_member i m g)\<lparr>mt_pending_failures := l\<rparr>))"
    for m l and g :: "'a membership_scheme"
    by (rule before1[OF send_failure_packet_keeps]) simp_all
  then show ?thesis unfolding fail_member_def Let_def
    by (auto simp del: holds_simps(3) split: option.split intro!: state_steps mt_reset_keeps
        remove_sender_keeps upd_member_keeps check_failure_completion_keeps)
qed

lemma fail_timeout_keeps: "holds (keeps g) (fail_member_timeout_cb app up n i g)"
proof -
  have "holds (keeps g) (fail_unfailed_loop app up n k i g)" for k and g :: "'a membership_scheme"
  proof (induction k arbitrary: g)
    case (Suc k)
    then show ?case
      by (auto simp del: holds_simps(3) split: option.split intro!: member_steps state_steps
          fail_member_keeps)
  qed simp
  then show ?thesis unfolding fail_member_timeout_cb_def
    by (auto simp del: holds_simps(3) intro!: state_steps upd_member_keeps)
qed

lemma join_timeout_keeps: "holds (keeps g) (join_timeout_cb app up n g)"
  unfolding join_timeout_cb_def
  by (auto simp del: holds_simps(3) intro!: foreach_member_keeps member_steps fail_member_keeps)

lemma handle_failure_keeps: "holds (keeps g) (handle_failure_packet app up n p g)"
  unfolding handle_failure_packet_def
  by (auto simp del: holds_simps(3) split: packet_data.split intro!: state_steps
      member_get_info_keeps keeps_foldo fail_member_keeps)

lemma check_join_keeps: "holds (\<lambda>x. keeps g (snd x)) (check_join up p g)"
proof -
  have failures: "holds (\<lambda>x. keeps g (snd x)) (check_join_failures up is r g)"
    for "is" r and g :: "'a membership_scheme"
  proof (induction "is" arbitrary: r g)
    case (Cons i "is")
    have "holds (\<lambda>y. keeps g (snd y)) (check_join_failures up is r (put_member j m g))"
      "holds (\<lambda>y. keeps g (snd y)) (check_join_failures up is r
         ((put_member j m g)\<lparr>mt_pending_failures := l\<rparr>))" for j m l r and g :: "'a membership_scheme"
      by (rule before_snd[OF Cons.IH]; simp)+
    with Cons.IH show ?case
      by (auto simp del: holds_simps(3) intro!: state_steps mt_reset_keeps member_get_info_keeps)
  qed simp
  then show ?thesis unfolding check_join_def Let_def
    by (auto simp del: holds_simps(3) split: packet_data.split intro!: state_steps member_steps
        mt_reset_keeps check_join_depends_keeps)
qed

lemma received_join_keeps: "holds (keeps g) (received_join app up n a p g)"
proof -
  have result: "holds (keeps g) (handle_join_result app up n a p r g)" for r and g :: "'a membership_scheme"
    unfolding handle_join_result_def
    by (auto simp del: holds_simps(3) split: check_join_return.split intro!: state_steps
        upd_member_keeps agreement_keeps release_data_keeps start_joining_phase_keeps check_join_keeps)
  show ?thesis unfolding received_join_def
    by (auto simp del: holds_simps(3) intro!: state_steps hold_data_keeps upd_member_keeps
        setup_joining_phase_keeps check_join_keeps start_joining_phase_keeps result)
qed

lemma event_keeps: "holds (keeps g) (membership_event app up n ev g)"
proof -
  have "holds (keeps g) (received_control_packet_cb app up n a p g)" for a p
    unfolding received_control_packet_cb_def
    by (auto split: packet_data.split intro: received_attempt_join_keeps received_join_keeps
        handle_failure_keeps fail_member_keeps)
  moreover have "holds (keeps g) (mt_sender_failed_cb app up n a g)" for a
    unfolding mt_sender_failed_cb_def
    by (auto simp del: holds_simps(3) intro!: pure_steps fail_member_keeps)
  ultimately show ?thesis
    by (auto simp: membership_event_def transport_reconnected_def transport_disconnected_def
        received_data_keeps received_foreign_keeps mt_set_state_keeps split: event.split)
qed

lemma mt_disconnect_keeps: "holds (keeps g) (mt_disconnect app up g)"
  unfolding mt_disconnect_def Let_def flush_state_def
  by (auto simp del: holds_simps(3) intro!: state_steps before1[OF mt_set_state_keeps]
      before1[OF disconnect_keeps])

end

section \<open>The whole stack\<close>

lemma membership_up_keeps:
  assumes "\<And>ev g. holds (keeps g) (app ev g)"
  shows "holds (keeps g) (membership_up app n ev g)"
proof (induction n arbitrary: ev g)
  case (Suc n)
  have "evolving_member (membership_up app n) app"
    by (intro evolving_member.intro evolving_upper.intro evolving_member_axioms.intro Suc.IH assms)
  then show ?case by (simp add: evolving_member.event_keeps)
qed simp

text \<open>The application that only takes note of the events: the instance the witnesses use.\<close>

definition silent_app :: "'a mt_upper" where
  "silent_app ev g = Inr g"

interpretation silent: evolving_member "membership_up silent_app n" silent_app for n
  by unfold_locales (auto intro: membership_up_keeps simp: silent_app_def)

end
