(* ===== verification/Node.thy ===== *)
theory Node
  imports Membership_Evolve
begin

text \<open>
  A whole node as a state machine: the main loop hands it one datagram, one expired timer or one
  call of the application at a time, and each of them runs to its end. \<open>node_step\<close> has one rule per
  entry point of the four components; a timer's rule asks for the timer to be pending, as the
  callback that the pending source carries. \<open>node_run\<close> is any number of steps. The invariant of the
  sender group and the monotone life cycle of its senders hold along every run, whatever the
  application does in its handlers as long as it leaves the transport's state alone.
\<close>

section \<open>Steps\<close>

inductive node_step ::
    "'a mt_upper \<Rightarrow> nat \<Rightarrow> 'a membership_scheme \<Rightarrow> 'a membership_scheme \<Rightarrow> bool"
  for app n where
  receive: "r_multicast_receive (membership_up app n) n bytes g = Inr g' \<Longrightarrow> node_step app n g g'"
| repair_timer: "g_store g a = Some s \<Longrightarrow> cached s i = Some info \<Longrightarrow>
    pi_timeout info = Some (Timer Request_repair_cb lo hi) \<Longrightarrow>
    request_repair (causal_handler (membership_up app n)) a i g = Inr g' \<Longrightarrow> node_step app n g g'"
| do_repair_timer: "g_store g a = Some s \<Longrightarrow> cached s i = Some info \<Longrightarrow>
    pi_timeout info = Some (Timer Do_repair_cb lo hi) \<Longrightarrow>
    do_repair (causal_handler (membership_up app n)) a i g = Inr g' \<Longrightarrow> node_step app n g g'"
| whois_request_timer: "g_store g a = Some s \<Longrightarrow> whois_timer s = Some (Timer Whois_request_cb lo hi) \<Longrightarrow>
    do_whois_request (causal_handler (membership_up app n)) a g = Inr g' \<Longrightarrow> node_step app n g g'"
| whois_reply_timer: "g_store g a = Some s \<Longrightarrow> whois_timer s = Some (Timer Whois_reply_cb lo hi) \<Longrightarrow>
    do_whois_reply (causal_handler (membership_up app n)) a g = Inr g' \<Longrightarrow> node_step app n g g'"
| name_timer: "g_store g a = Some s \<Longrightarrow> fail_timer s = Some (Timer Name_discovery_failed_cb lo hi) \<Longrightarrow>
    name_discovery_failed_cb (causal_handler (membership_up app n)) a g = Inr g' \<Longrightarrow> node_step app n g g'"
| progress_timer: "g_store g a = Some s \<Longrightarrow> fail_timer s = Some (Timer Progress_failed_cb lo hi) \<Longrightarrow>
    progress_failed_cb (causal_handler (membership_up app n)) a g = Inr g' \<Longrightarrow> node_step app n g g'"
| join_step_timer: "ct_timer g = Some (Transport_timer Next_join_step_cb lo hi) \<Longrightarrow>
    next_join_step (membership_up app n) g = Inr g' \<Longrightarrow> node_step app n g g'"
| session_timer: "ct_timer g = Some (Transport_timer Sendout_session_cb lo hi) \<Longrightarrow>
    sendout_session_cb g = Inr g' \<Longrightarrow> node_step app n g g'"
| bye_timer: "ct_timer g = Some (Transport_timer Send_next_bye_cb lo hi) \<Longrightarrow>
    send_next_bye (membership_up app n) g = Inr g' \<Longrightarrow> node_step app n g g'"
| keepalive_timer: "ct_keepalive_timer g \<noteq> None \<Longrightarrow>
    send_keepalive_cb (membership_up app n) n g = Inr g' \<Longrightarrow> node_step app n g g'"
| attempt_join_timer: "mt_timeout g = Some (Mt_timer Do_send_attempt_join_cb lo hi) \<Longrightarrow>
    do_send_attempt_join (membership_up app n) n g = Inr g' \<Longrightarrow> node_step app n g g'"
| join_timer: "mt_timeout g = Some (Mt_timer Join_timeout_cb lo hi) \<Longrightarrow>
    join_timeout_cb app (membership_up app n) n g = Inr g' \<Longrightarrow> node_step app n g g'"
| joining_phase_timer: "mt_joining_timeout g = Some (Mt_timer Do_start_joining_phase_cb lo hi) \<Longrightarrow>
    do_start_joining_phase app (membership_up app n) n g = Inr g' \<Longrightarrow> node_step app n g g'"
| member_timer: "lookup_member i g = Some m \<Longrightarrow> mi_fail_timeout m \<noteq> None \<Longrightarrow>
    fail_member_timeout_cb app (membership_up app n) n i g = Inr g' \<Longrightarrow> node_step app n g g'"
| causal_connect: "causal_connect (membership_up app n) g = Inr g' \<Longrightarrow> node_step app n g g'"
| connect: "mt_connect app g = Inr g' \<Longrightarrow> node_step app n g g'"
| send: "mt_send (membership_up app n) n stream_id data g = Inr (b, g') \<Longrightarrow> node_step app n g g'"
| do_send: "mt_do_send (membership_up app n) n data g = Inr (b, g') \<Longrightarrow> node_step app n g g'"
| disconnect: "mt_disconnect app (membership_up app n) g = Inr g' \<Longrightarrow> node_step app n g g'"

inductive node_run ::
    "'a mt_upper \<Rightarrow> nat \<Rightarrow> 'a membership_scheme \<Rightarrow> 'a membership_scheme \<Rightarrow> bool"
  for app n where
  refl: "node_run app n g g"
| step: "node_run app n g g' \<Longrightarrow> node_step app n g' g'' \<Longrightarrow> node_run app n g g''"

text \<open>A node that has just been created: \<open>g_object_new\<close> zero-fills its fields.\<close>

definition node_new ::
    "u8 list \<Rightarrow> nat \<Rightarrow> (u8 list \<Rightarrow> bool) \<Rightarrow> u32 list \<Rightarrow> 'a \<Rightarrow> 'a membership_scheme outcome" where
  "node_new name max_packet_size accepts random x =
     andthen (assert_that (name \<noteq> [])) (\<lambda>_.
     case random of
        [] \<Rightarrow> Inl Out_of_fuel
      | packet_id # random \<Rightarrow>
          Inr \<lparr>g_store = \<lambda>_. None, g_fresh = 0, g_senders = [], g_popping = False,
               g_stopped = False, g_pop_queue = [], g_pending_removal = [],
               ct_sender_id = 0, ct_state = TRANSPORT_DISCONNECTED, ct_packet_id = packet_id,
               ct_self = None, ct_timer = None, ct_keepalive_timer = None, ct_name = name,
               ct_nr_join_requests = 0, ct_nr_join_requests_seen = 0, ct_nr_bye = 0,
               ct_resetting = False, ct_max_packet_size = max_packet_size,
               ct_lower_connected = True, ct_lower_accepts = accepts, ct_sent = [],
               ct_random = random,
               mt_members = [], mt_attempt_join_id = 0, mt_repeating_join = False,
               mt_send_empty = False, mt_timeout = None, mt_joining_timeout = None,
               mt_send_join = None, mt_send_join_failures = None, mt_pending_failures = [],
               mt_state = MT_DISCONNECTED, mt_transport_state = TRANSPORT_DISCONNECTED,
               mt_reconnect_handler = False, mt_disconnect_handler = False,
               mt_signals_connected = False, \<dots> = x\<rparr>)"

lemma node_run_one: "node_step app n g g' \<Longrightarrow> node_run app n g g'"
  by (blast intro: node_run.intros)

lemma node_run_trans: "node_run app n g' g'' \<Longrightarrow> node_run app n g g' \<Longrightarrow> node_run app n g g''"
  by (induction rule: node_run.induct) (blast intro: node_run.intros)+

section \<open>Every step keeps the invariant\<close>

context evolving_upper
begin

lemma timers_keep:
  "holds (keeps g) (request_repair (causal_handler up) a i g)"
  "holds (keeps g) (do_repair (causal_handler up) a i g)"
  "holds (keeps g) (do_whois_request (causal_handler up) a g)"
  "holds (keeps g) (do_whois_reply (causal_handler up) a g)"
  "holds (keeps g) (name_discovery_failed_cb (causal_handler up) a g)"
  "holds (keeps g) (progress_failed_cb (causal_handler up) a g)"
  using group.request_repair_evolves group.do_repair_evolves group.whois_timers_evolve
    group.fail_timers_evolve
  by (auto intro!: keeps_holds[where p = "\<lambda>x. x"])

end

context evolving_member
begin

lemma mt_connect_keeps: "holds (keeps g) (mt_connect app g)"
  unfolding mt_connect_def
  by (auto simp del: holds_simps(3) intro!: holds_andthenI[where m = "assert_that _"]
      state_steps mt_set_state_keeps)

lemma mt_send_keeps: "holds (\<lambda>x. keeps g (snd x)) (mt_send up n stream_id data g)"
  by (simp add: mt_send_def send_keeps)

lemma mt_do_send_keeps: "holds (\<lambda>x. keeps g (snd x)) (mt_do_send up n data g)"
  unfolding mt_do_send_def causal_do_send_def
  by (auto simp del: holds_simps(3) intro!: holds_andthenI[where m = "assert_that _"] send_keeps)

end

lemma node_step_keeps:
  assumes app: "\<And>ev g. holds (keeps g) (app ev g)" and step: "node_step app n g g'"
  shows "keeps g g'"
proof -
  have u: "evolving_upper (membership_up app n)"
    by (intro evolving_upper.intro membership_up_keeps app)
  have m: "evolving_member (membership_up app n) app"
    by (intro evolving_member.intro u evolving_member_axioms.intro app)
  note timers = evolving_upper.timers_keep[OF u]
  note causal = evolving_upper.receive_keeps[OF u] evolving_upper.next_join_step_keeps[OF u]
    evolving_upper.bye_keeps[OF u] evolving_upper.keepalive_keeps[OF u] evolving_upper.connect_keeps[OF u]
  note member = evolving_member.do_send_attempt_join_keeps[OF m] evolving_member.join_timeout_keeps[OF m]
    evolving_member.do_start_joining_keeps[OF m] evolving_member.fail_timeout_keeps[OF m]
    evolving_member.mt_connect_keeps[OF m] evolving_member.mt_disconnect_keeps[OF m]
  note sends = evolving_member.mt_send_keeps[OF m] evolving_member.mt_do_send_keeps[OF m]
  from step show ?thesis
  proof cases
    case receive
    then show ?thesis by (elim holdsD[OF causal(1)])
  next
    case repair_timer
    then show ?thesis by (elim holdsD[OF timers(1)])
  next
    case do_repair_timer
    then show ?thesis by (elim holdsD[OF timers(2)])
  next
    case whois_request_timer
    then show ?thesis by (elim holdsD[OF timers(3)])
  next
    case whois_reply_timer
    then show ?thesis by (elim holdsD[OF timers(4)])
  next
    case name_timer
    then show ?thesis by (elim holdsD[OF timers(5)])
  next
    case progress_timer
    then show ?thesis by (elim holdsD[OF timers(6)])
  next
    case join_step_timer
    then show ?thesis by (elim holdsD[OF causal(2)])
  next
    case session_timer
    then show ?thesis by (elim holdsD[OF session_cb_keeps])
  next
    case bye_timer
    then show ?thesis by (elim holdsD[OF causal(3)])
  next
    case keepalive_timer
    then show ?thesis by (elim holdsD[OF causal(4)])
  next
    case attempt_join_timer
    then show ?thesis by (elim holdsD[OF member(1)])
  next
    case join_timer
    then show ?thesis by (elim holdsD[OF member(2)])
  next
    case joining_phase_timer
    then show ?thesis by (elim holdsD[OF member(3)])
  next
    case member_timer
    then show ?thesis by (elim holdsD[OF member(4)])
  next
    case causal_connect
    then show ?thesis by (elim holdsD[OF causal(5)])
  next
    case connect
    then show ?thesis by (elim holdsD[OF member(5)])
  next
    case disconnect
    then show ?thesis by (elim holdsD[OF member(6)])
  next
    case send
    then show ?thesis using holdsD[OF sends(1)] by fastforce
  next
    case do_send
    then show ?thesis using holdsD[OF sends(2)] by fastforce
  qed
qed

lemma node_run_keeps:
  assumes "\<And>ev g. holds (keeps g) (app ev g)" "node_run app n g g'"
  shows "keeps g g'"
  using assms(2) by (induction rule: node_run.induct)
    (auto intro: keeps_trans node_step_keeps[OF assms(1)])

lemma node_new_wf: "node_new name size_limit accepts random x = Inr g \<Longrightarrow> wf_group g"
  by (auto simp: node_new_def wf_group_def andthen_eq_Inr split: list.splits)

end
