(* ===== verification/Node_Properties.thy ===== *)
theory Node_Properties
  imports Node Packet_Roundtrip
begin

text \<open>
  Properties of whole nodes: the invariant that every reachable state satisfies and the life cycle
  of the senders, over all sequences of datagrams, timers and application calls.
\<close>

section \<open>A node that joins\<close>

definition example_node :: "unit membership_scheme" where
  "example_node = (case node_new [97] 1500 (\<lambda>_. True) [40, 7] () of Inr g \<Rightarrow> g)"

lemma example_node_new: "node_new [97] 1500 (\<lambda>_. True) [40, 7] () = Inr example_node"
  by (simp add: example_node_def node_new_def)

lemmas node_eval = causal_connect_def transport_set_state_def membership_event_def start_joining_def
  next_join_step_def causal_connected_def sender_new_def sender_init_def upd_sender_def get_sender_def
  sender_update_start_def sender_set_data_start_def set_state_def group_add_def
  packet_set_whois_reply_info_def packet_set_whois_request_info_def packet_new_def sendout_def
  sendout_packet_def schedule_session_message_def schedule_keepalive_message_def
  schedule_progress_timer_def packet_get_raw_data_def packet_build_wire buildable_def
  is_reliable_packet_def pkt_type_def state_order NR_JOIN_REQUESTS_TO_SEND_def Let_def put_sender_def
  wire_def PACKET_PREFIX_def

definition joined_node :: "unit membership_scheme outcome" where
  "joined_node =
     (let up = membership_up silent_app 1 in
      andthen (causal_connect up example_node) (\<lambda>g.
      andthen (next_join_step up g) (\<lambda>g.
      andthen (next_join_step up g) (\<lambda>g.
      andthen (next_join_step up g) (\<lambda>g.
      next_join_step up g)))))"

lemma joined_node_self:
  "returns (\<lambda>g. ct_self g = Some 0 \<and> length (ct_sent g) = 4
     \<and> (\<exists>s. g_store g 0 = Some s \<and> s_id s = 7 \<and> s_state s = STATE_PREPARING)) joined_node"
  by (simp add: joined_node_def example_node_def node_new_def node_eval
      cong: andthen_weak let_weak_cong del: returns_simps(3))

lemma connect_timer:
  "causal_connect up g = Inr g' \<Longrightarrow>
     ct_timer g' = Some (Transport_timer Next_join_step_cb 500 500) \<and> ct_nr_join_requests g' = 0"
  by (auto simp: causal_connect_def start_joining_def andthen_eq_Inr)

lemma join_step_timer:
  "next_join_step up g = Inr g' \<Longrightarrow> ct_nr_join_requests g < NR_JOIN_REQUESTS_TO_SEND \<Longrightarrow>
     ct_timer g' = Some (Transport_timer Next_join_step_cb 250 250)
     \<and> ct_nr_join_requests g' = ct_nr_join_requests g + 1"
  by (auto simp: next_join_step_def Let_def andthen_eq_Inr sendout_def sendout_packet_def
      schedule_keepalive_message_def)

lemma joined_run:
  obtains g s where "node_run silent_app 1 example_node g" "ct_self g = Some 0"
    "g_store g 0 = Some s" "s_id s = 7" "s_state s = STATE_PREPARING"
proof -
  let ?up = "membership_up silent_app 1"
  obtain g1 g2 g3 g4 g5 where c: "causal_connect ?up example_node = Inr g1"
    and s: "next_join_step ?up g1 = Inr g2" "next_join_step ?up g2 = Inr g3"
      "next_join_step ?up g3 = Inr g4" "next_join_step ?up g4 = Inr g5"
    and end_state: "ct_self g5 = Some 0" "\<exists>s. g_store g5 0 = Some s \<and> s_id s = 7 \<and> s_state s = STATE_PREPARING"
    using joined_node_self unfolding joined_node_def Let_def returns_iff andthen_eq_Inr by blast
  note t1 = connect_timer[OF c]
  have t2: "ct_timer g2 = Some (Transport_timer Next_join_step_cb 250 250) \<and> ct_nr_join_requests g2 = 1"
    using join_step_timer[OF s(1)] t1 by (simp add: NR_JOIN_REQUESTS_TO_SEND_def)
  have t3: "ct_timer g3 = Some (Transport_timer Next_join_step_cb 250 250) \<and> ct_nr_join_requests g3 = 2"
    using join_step_timer[OF s(2)] t2 by (simp add: NR_JOIN_REQUESTS_TO_SEND_def)
  have t4: "ct_timer g4 = Some (Transport_timer Next_join_step_cb 250 250)"
    using join_step_timer[OF s(3)] t3 by (simp add: NR_JOIN_REQUESTS_TO_SEND_def)
  have r1: "node_run silent_app 1 example_node g1"
    by (rule node_run_one[OF node_step.causal_connect[OF c]])
  have r2: "node_run silent_app 1 example_node g2"
    by (rule node_run.step[OF r1 node_step.join_step_timer[OF _ s(1)]]) (use t1 in blast)
  have r3: "node_run silent_app 1 example_node g3"
    by (rule node_run.step[OF r2 node_step.join_step_timer[OF _ s(2)]]) (use t2 in blast)
  have r4: "node_run silent_app 1 example_node g4"
    by (rule node_run.step[OF r3 node_step.join_step_timer[OF _ s(3)]]) (use t3 in blast)
  have "node_run silent_app 1 example_node g5"
    by (rule node_run.step[OF r4 node_step.join_step_timer[OF _ s(4)]]) (use t4 in blast)
  with end_state that show ?thesis by blast
qed

lemma silent_keeps: "holds (keeps g) (silent_app ev g)"
  by (simp add: silent_app_def)

section \<open>Reachable states\<close>

text \<open>
  C4. In every state a node can reach, the sender group is well formed: the table has one entry per
  id, each entry is a live sender of that id, the queue and the array of pending removals hold no
  dangling pointers and only removed senders wait for their removal, and every packet in a cache is a
  reliable packet that sits under its own id and was sent by the owner of the cache. The application
  may do anything in its handlers that keeps the sender group.
\<close>

theorem node_group_well_formed:
  assumes "\<And>ev g. holds (keeps g) (app ev g)"
    and "node_new name size_limit accepts random x = Inr g" "node_run app n g g'"
  shows "wf_group g'"
  using node_run_keeps[OF assms(1,3)] node_new_wf[OF assms(2)] by (simp add: keeps_def evolve_def)

lemma node_group_well_formed_witness:
  "\<exists>g s. node_run silent_app 1 example_node g \<and> g_store g 0 = Some s \<and> s_id s = 7 \<and> wf_group g"
proof (rule joined_run)
  fix g s assume run: "node_run silent_app 1 example_node g" and "g_store g 0 = Some s" "s_id s = 7"
  with node_group_well_formed[OF silent_keeps example_node_new run] show ?thesis by blast
qed

text \<open>
  C5. Along every run no sender disappears from memory while it can still be referred to, no sender
  changes its id, and the state of a sender only moves forward in its life cycle: a sender that has
  failed, stopped or been removed never comes back.
\<close>

theorem node_sender_life_cycle:
  assumes "\<And>ev g. holds (keeps g) (app ev g)" "wf_group g" "node_run app n g g'"
    and "g_store g a = Some s"
  shows "\<exists>t. g_store g' a = Some t \<and> s_id t = s_id s \<and> s_state s \<le> s_state t"
  using node_run_keeps[OF assms(1,3)] assms(2,4) unfolding keeps_def evolve_def by blast

lemma node_sender_life_cycle_witness:
  "\<exists>g g' t. node_run silent_app 1 example_node g \<and> node_run silent_app 1 g g'
     \<and> g_store g' 0 = Some t \<and> s_id t = 7 \<and> STATE_PREPARING \<le> s_state t"
proof (rule joined_run)
  fix g s assume run: "node_run silent_app 1 example_node g" and s: "g_store g 0 = Some s" "s_id s = 7"
    "s_state s = STATE_PREPARING"
  have "wf_group g"
    using node_run_keeps[OF silent_keeps run] node_new_wf[OF example_node_new]
    by (simp add: keeps_def evolve_def)
  from node_sender_life_cycle[OF silent_keeps this node_run.refl[of silent_app 1] s(1)] run s
  show ?thesis using node_run.refl by force
qed

end
