(* ===== verification/Cache_Properties.thy ===== *)
theory Cache_Properties
  imports Sender_Invariant
begin

text \<open>
  The packet cache of a sender: which packets a push accepts, which entries acknowledging drops,
  how far ahead repairs are scheduled, and how the bookkeeping of acknowledgements moves. All of it
  is code of \<open>lib/gibber/gibber-r-multicast-sender.c\<close>.
\<close>

section \<open>Distances in a window\<close>

text \<open>
  Within 65535 ids of a base, the comparison of ids is that of their distances from the base, so it
  is a linear order there.
\<close>

lemma packet_diff_window:
  assumes "unat (x - base) \<le> 65535" "unat (y - base) \<le> 65535"
  shows "packet_diff x y = int (unat (y - base)) - int (unat (x - base))"
proof (cases "unat (x - base) \<le> unat (y - base)")
  case True
  have "y - x = (y - base) - (x - base)" by simp
  then have "unat (y - x) = unat (y - base) - unat (x - base)"
    using unat_minus_32[of "y - base" "x - base"] True by (simp only: if_True)
  with packet_diff_near[of y x] assms True show ?thesis by simp
next
  case False
  then have le: "unat (y - base) \<le> unat (x - base)" by simp
  have "x - y = (x - base) - (y - base)" by simp
  then have "unat (x - y) = unat (x - base) - unat (y - base)"
    using unat_minus_32[of "x - base" "y - base"] le by (simp only: if_True)
  with packet_diff_near_neg[of x y] assms False show ?thesis by simp
qed

section \<open>Acknowledging\<close>

lemma upd_info_cached:
  "upd_info i f s = Inr t \<Longrightarrow> cached t j = (if j = i then map_option f (cached s i) else cached s j)"
  by (auto simp: upd_info_def cached_def update_conv' andthen_eq_Inr)

lemma try_gc_cached:
  assumes "packet_info_try_gc i s = Inr t"
  shows "cached t j = (case cached s j of
      None \<Rightarrow> None
    | Some info \<Rightarrow> if j = i \<and> pi_acked info \<and> pi_popped info \<and> \<not> pi_repeating info then None else Some info)"
proof -
  obtain info where i: "cached s i = Some info" using assms
    by (auto simp: packet_info_try_gc_def andthen_eq_Inr)
  show ?thesis
  proof (cases "\<not> pi_acked info \<or> \<not> pi_popped info \<or> pi_repeating info")
    case True
    with assms i show ?thesis by (auto simp: packet_info_try_gc_def split: option.split)
  next
    case False
    with assms i have "map_of (packet_cache t) = (map_of (packet_cache s))(i := None)"
      by (auto simp: packet_info_try_gc_def Let_def delete_conv' split: if_splits)
    with False i show ?thesis by (auto simp: cached_def split: option.split)
  qed
qed

definition after_ack :: "packet_info option \<Rightarrow> packet_info option" where
  "after_ack x = (case x of
     None \<Rightarrow> None
   | Some info \<Rightarrow> if pi_popped info \<and> \<not> pi_repeating info then None else Some (info\<lparr>pi_acked := True\<rparr>))"

lemma cached_loop:
  assumes step: "\<And>i s. returns (\<lambda>t. R s t \<and> (\<forall>j. cached t j = (if j = i then F (cached s i) else cached s j))) (f i s)"
    and R: "\<And>s. R s s" "\<And>s t u. R s t \<Longrightarrow> R t u \<Longrightarrow> R s u" and "distinct xs"
  shows "returns (\<lambda>t. R s t \<and> (\<forall>j. cached t j = (if j \<in> set xs then F (cached s j) else cached s j))) (foldo f xs s)"
  using assms(4)
proof (induction xs arbitrary: s)
  case (Cons x xs)
  obtain u where u: "f x s = Inr u" "R s u" "\<forall>j. cached u j = (if j = x then F (cached s x) else cached s j)"
    using step[of s x] by (auto simp: returns_iff)
  have "distinct xs" "x \<notin> set xs" using Cons.prems by auto
  with Cons.IH[of u] u show ?case
    by (auto simp: returns_iff intro: R(2))
qed (simp add: R(1))

definition ack_packet :: "u32 \<Rightarrow> sender \<Rightarrow> sender outcome" where
  "ack_packet i s = (case cached s i of
     None \<Rightarrow> Inr s
   | Some _ \<Rightarrow> andthen (upd_info i (\<lambda>info. info\<lparr>pi_acked := True\<rparr>) s) (packet_info_try_gc i))"

lemma ack_packet_cached:
  "returns (\<lambda>t. True \<and> (\<forall>j. cached t j = (if j = i then after_ack (cached s i) else cached s j))) (ack_packet i s)"
proof (cases "cached s i")
  case None
  then show ?thesis by (simp add: ack_packet_def after_ack_def)
next
  case (Some info)
  then obtain u where u: "upd_info i (\<lambda>info. info\<lparr>pi_acked := True\<rparr>) s = Inr u"
    by (auto simp: upd_info_def)
  from upd_info_cached[OF u, of i] Some have i: "cached u i = Some (info\<lparr>pi_acked := True\<rparr>)" by simp
  then have "returns (\<lambda>_. True) (packet_info_try_gc i u)" by (simp add: packet_info_try_gc_def Let_def)
  then obtain t where t: "packet_info_try_gc i u = Inr t" by (auto simp: returns_iff)
  have "cached t j = (if j = i then after_ack (cached s i) else cached s j)" for j
    using Some try_gc_cached[OF t, of j] upd_info_cached[OF u, of j]
    by (auto simp: after_ack_def split: option.split)
  with Some u t show ?thesis by (simp add: ack_packet_def)
qed

lemma sender_ack_returns:
  "returns (\<lambda>t. \<forall>j. cached t j =
      (if packet_diff (first_packet s) k \<ge> 0 \<and> unat (j - first_packet s) < unat (k - first_packet s)
       then after_ack (cached s j) else cached s j)) (sender_ack k s)"
proof (cases "packet_diff (first_packet s) k < 0")
  case True
  then show ?thesis by (simp add: sender_ack_def)
next
  case False
  with cached_loop[where R = "\<lambda>_ _. True", OF ack_packet_cached, of "seq_range (first_packet s) k" s]
  show ?thesis by (simp add: sender_ack_def ack_packet_def set_seq_range)
qed

text \<open>
  Acknowledging up to \<open>k\<close> always returns. It marks every cached packet from the first one up to
  \<open>k\<close> as acknowledged and drops those of them that have been delivered and are not being repeated; all
  other packets stay, and so do all when \<open>k\<close> is before the first cached packet.
\<close>

theorem ack_drops_delivered_only:
  "returns (\<lambda>t. \<forall>j. cached t j =
      (if packet_diff (first_packet s) k \<ge> 0 \<and> unat (j - first_packet s) < unat (k - first_packet s)
       then (case cached s j of
               None \<Rightarrow> None
             | Some info \<Rightarrow> if pi_popped info \<and> \<not> pi_repeating info then None
                           else Some (info\<lparr>pi_acked := True\<rparr>))
       else cached s j))
    (sender_ack k s)"
  by (rule returns_mono[OF sender_ack_returns[of s k]]) (simp add: after_ack_def)

section \<open>Pushing\<close>

text \<open>
  A packet is ignored, and nothing changes, unless it is one of the 256 packets from the next
  expected one on and has not been received yet; a sender whose start is not known ignores
  everything.
\<close>

theorem push_ignores_outside_window:
  assumes "g_store g a = Some s" "pkt_sender p = s_id s"
    and "s_state s < STATE_PREPARING
      \<or> packet_diff (next_output_packet s) (pkt_packet_id p) < 0
      \<or> packet_diff (next_output_packet s) (pkt_packet_id p) \<ge> 256
      \<or> (\<exists>info. cached s (pkt_packet_id p) = Some info \<and> pi_packet info \<noteq> None)"
  shows "sender_push h n a p g = Inr g"
proof -
  have "STATE_NEW < s_state s" if "\<not> s_state s < STATE_PREPARING"
    using that by (cases "s_state s") (simp_all add: state_order)
  with assms show ?thesis
    by (auto simp: sender_push_def insert_packet_def get_sender_def Let_def PACKET_CACHE_SIZE_def
        split: option.split)
qed

lemma push_ignores_outside_window_witness:
  "let s = (sender_init 7 None)\<lparr>s_state := STATE_RUNNING, next_output_packet := 0xffffff00\<rparr>;
       g = put_sender 0 s group_new;
       p = (packet_new PACKET_TYPE_NO_DATA 7 1500)\<lparr>pkt_packet_id := 0\<rparr>
   in sender_push (\<lambda>_ _ g. Inr g) 1 0 p g = Inr g"
  unfolding Let_def
  by (rule push_ignores_outside_window)
     (simp add: group_new_def sender_init_def, simp_all add: sender_init_def packet_new_def packet_diff_def min_def)

section \<open>Repairs\<close>

text \<open>What is asked for again: an id without an entry gets one that waits for its packet.\<close>

lemma schedule_repair_cached:
  "cached (schedule_repair i s) j = (if j = i then cached (schedule_repair i s) i else cached s j)"
  by (auto simp: schedule_repair_def cached_def update_conv' split: option.split)

lemma schedule_repairs_cached:
  "j \<notin> set xs \<Longrightarrow> cached (fold schedule_repair xs s) j = cached s j"
proof (induction xs arbitrary: s)
  case (Cons x xs)
  then show ?case using schedule_repair_cached[of x s j] by auto
qed simp

lemma schedule_repair_keeps_packet:
  "cached s j = Some info \<Longrightarrow> pi_packet info \<noteq> None \<Longrightarrow> cached (schedule_repair i s) j = Some info"
  by (auto simp: schedule_repair_def cached_def update_conv' split: option.split)

lemma schedule_repairs_keep_packet:
  "cached s j = Some info \<Longrightarrow> pi_packet info \<noteq> None \<Longrightarrow> cached (fold schedule_repair xs s) j = Some info"
  by (induction xs arbitrary: s) (auto simp: schedule_repair_keeps_packet)

lemma schedule_repair_in_state:
  "s_state (schedule_repair i s) = s_state s"
  by (auto simp: schedule_repair_def split: option.split)

lemma schedule_repair_missing:
  "s_state s \<le> STATE_STOPPED \<Longrightarrow> \<exists>info. cached (schedule_repair i s) i = Some info
    \<and> (pi_packet info = None \<longrightarrow> pi_timeout info \<noteq> None)"
  by (auto simp: schedule_repair_def cached_def update_conv' packet_info_new_def split: option.split)

lemma schedule_repairs_in_state: "s_state (fold schedule_repair xs s) = s_state s"
  by (induction xs arbitrary: s) (simp_all add: schedule_repair_in_state)

lemma schedule_repairs_missing:
  assumes "s_state s \<le> STATE_STOPPED" "j \<in> set xs"
  shows "\<exists>info. cached (fold schedule_repair xs s) j = Some info
    \<and> (pi_packet info = None \<longrightarrow> pi_timeout info \<noteq> None)"
  using assms
proof (induction xs arbitrary: s rule: rev_induct)
  case (snoc x xs)
  let ?s = "fold schedule_repair xs s"
  show ?case
  proof (cases "j = x")
    case True
    with schedule_repair_missing[of ?s x] snoc.prems(1) show ?thesis
      by (simp add: schedule_repairs_in_state)
  next
    case False
    with snoc schedule_repair_cached[of x ?s j] show ?thesis by simp
  qed
qed simp

text \<open>
  Storing a packet in the cache puts it under its id with no repair pending; if it is beyond the
  last packet seen so far, every packet that was skipped is either in the cache already or has a
  repair request scheduled. Packets that were received before stay as they are.
\<close>

theorem store_packet_requests_gaps:
  assumes "s_state s \<le> STATE_STOPPED"
  shows "let t = store_packet p s in
     (\<exists>info. cached t (pkt_packet_id p) = Some info \<and> pi_packet info = Some p \<and> pi_timeout info = None)
     \<and> (packet_diff (next_input_packet s) (pkt_packet_id p) \<ge> 0 \<longrightarrow>
          next_input_packet t = pkt_packet_id p + 1
          \<and> (\<forall>j. unat (j - next_input_packet s) < unat (pkt_packet_id p - next_input_packet s) \<longrightarrow>
               (\<exists>info. cached t j = Some info \<and> (pi_packet info = None \<longrightarrow> pi_timeout info \<noteq> None))))
     \<and> (\<forall>j info. j \<noteq> pkt_packet_id p \<longrightarrow> cached s j = Some info \<longrightarrow> pi_packet info \<noteq> None \<longrightarrow>
          cached t j = Some info)"
proof -
  let ?i = "pkt_packet_id p"
  let ?info = "(case cached s ?i of Some info \<Rightarrow> info | None \<Rightarrow> packet_info_new ?i)
    \<lparr>pi_timeout := None, pi_packet := Some p\<rparr>"
  let ?u = "s\<lparr>packet_cache := AList.update ?i ?info (packet_cache s)\<rparr>"
  let ?xs = "if packet_diff (next_input_packet s) ?i \<ge> 0 then seq_range (next_input_packet s) ?i else []"
  have u: "cached ?u ?i = Some ?info" "\<And>j. j \<noteq> ?i \<Longrightarrow> cached ?u j = cached s j"
    by (simp_all add: cached_def update_conv')
  have t: "cached (store_packet p s) = cached (fold schedule_repair ?xs ?u)"
    by (simp add: store_packet_def Let_def cached_def fun_eq_iff)
  have "next_input_packet (store_packet p s) = ?i + 1" if "packet_diff (next_input_packet s) ?i \<ge> 0"
    using that by (simp add: store_packet_def Let_def)
  moreover have "cached (store_packet p s) ?i = Some ?info"
    unfolding t by (rule schedule_repairs_keep_packet[OF u(1)]) simp
  moreover have "\<exists>info. cached (store_packet p s) j = Some info \<and> (pi_packet info = None \<longrightarrow> pi_timeout info \<noteq> None)"
    if "packet_diff (next_input_packet s) ?i \<ge> 0"
      "unat (j - next_input_packet s) < unat (?i - next_input_packet s)" for j
    unfolding t by (rule schedule_repairs_missing) (use that assms in \<open>simp_all add: set_seq_range\<close>)
  moreover have "cached (store_packet p s) j = Some info"
    if "j \<noteq> ?i" "cached s j = Some info" "pi_packet info \<noteq> None" for j info
    unfolding t by (rule schedule_repairs_keep_packet) (use that u(2) in simp_all)
  ultimately show ?thesis by (simp add: Let_def)
qed

lemma store_packet_requests_gaps_witness:
  "let s = (sender_init 7 None)\<lparr>s_state := STATE_RUNNING, next_input_packet := 0xffffffff\<rparr>;
       t = store_packet ((packet_new PACKET_TYPE_NO_DATA 7 1500)\<lparr>pkt_packet_id := 1\<rparr>) s
   in next_input_packet t = 2 \<and> (\<exists>info. cached t 0 = Some info \<and> (pi_packet info = None \<longrightarrow> pi_timeout info \<noteq> None))"
proof -
  let ?s = "(sender_init 7 None)\<lparr>s_state := STATE_RUNNING, next_input_packet := 0xffffffff\<rparr>"
  let ?p = "(packet_new PACKET_TYPE_NO_DATA 7 1500)\<lparr>pkt_packet_id := 1\<rparr>"
  have "s_state ?s \<le> STATE_STOPPED" by (simp add: state_order)
  from store_packet_requests_gaps[OF this, of ?p]
  have "packet_diff (next_input_packet ?s) (pkt_packet_id ?p) \<ge> 0 \<longrightarrow>
      next_input_packet (store_packet ?p ?s) = pkt_packet_id ?p + 1
      \<and> (\<forall>j. unat (j - next_input_packet ?s) < unat (pkt_packet_id ?p - next_input_packet ?s) \<longrightarrow>
           (\<exists>info. cached (store_packet ?p ?s) j = Some info \<and> (pi_packet info = None \<longrightarrow> pi_timeout info \<noteq> None)))"
    unfolding Let_def by blast
  then have "next_input_packet (store_packet ?p ?s) = 2"
    "\<exists>info. cached (store_packet ?p ?s) 0 = Some info \<and> (pi_packet info = None \<longrightarrow> pi_timeout info \<noteq> None)"
    by (simp_all add: packet_diff_def)
  then show ?thesis unfolding Let_def by blast
qed

text \<open>The window: packets are expected at most 256 ahead of the next one to deliver.\<close>

definition window_ok :: "sender \<Rightarrow> bool" where
  "window_ok s \<longleftrightarrow> unat (next_input_packet s - next_output_packet s) \<le> 256"

lemma window_range:
  fixes start base stop j :: u32
  assumes "unat (start - base) \<le> w" "unat (stop - base) \<le> w" "unat (start - base) \<le> unat (stop - base)"
    and "unat (j - start) < unat (stop - start)"
  shows "unat (j - base) < w"
proof -
  have "stop - start = (stop - base) - (start - base)" "j - base = (j - start) + (start - base)" by simp_all
  then have "unat (stop - start) = unat (stop - base) - unat (start - base)"
    "unat (j - base) \<le> unat (j - start) + unat (start - base)"
    using unat_minus_32[of "stop - base" "start - base"] assms(3) unat_plus_32[of "j - start" "start - base"]
    by (auto split: if_splits)
  with assms show ?thesis by linarith
qed

definition int_diff :: "int \<Rightarrow> int \<Rightarrow> int" where
  "int_diff f t =
     (if f > 4294901760 \<and> t < 65535 then t - f + 4294967296
      else if t > 4294901760 \<and> f < 65535 then t - f - 4294967296
      else max (-2147483647) (min 2147483647 (t - f)))"

definition int_dist :: "int \<Rightarrow> int \<Rightarrow> int" where
  "int_dist a b = (if b \<le> a then a - b else a - b + 4294967296)"

lemma int_window_between:
  assumes "0 \<le> b" "b < 4294967296" "0 \<le> n" "n < 4294967296" "0 \<le> i" "i < 4294967296"
    and "int_dist n b \<le> 256" "int_diff n i \<ge> 0"
    and "l = (if b + 256 < 4294967296 then b + 256 else b - 4294967040)" "int_diff l i \<le> 0"
  shows "int_dist n b \<le> int_dist i b \<and> int_dist i b \<le> 256"
proof (cases "b + 256 < 4294967296")
  case True
  with assms have l: "l = b + 256" by simp
  with assms True show ?thesis unfolding int_diff_def int_dist_def min_def max_def
    by (clarsimp split: if_splits)
next
  case False
  with assms have l: "l = b - 4294967040" by simp
  with assms False show ?thesis unfolding int_diff_def int_dist_def min_def max_def
    by (clarsimp split: if_splits)
qed

lemma window_between:
  assumes "unat (n - b) \<le> 256" "packet_diff n i \<ge> 0" "packet_diff (b + 256) i \<le> 0"
  shows "unat (n - b) \<le> unat (i - b) \<and> unat (i - b) \<le> 256"
proof -
  have diff: "packet_diff x y = int_diff (uint x) (uint y)" for x y
    by (simp add: packet_diff_int int_diff_def Let_def)
  have dist: "uint (x - y) = int_dist (uint x) (uint y)" for x y :: u32
    by (simp add: uint_minus_32 int_dist_def)
  have plus: "uint (b + 256) = (if uint b + 256 < 4294967296 then uint b + 256 else uint b - 4294967040)"
    by (simp add: uint_plus_32)
  have "int (unat (n - b)) \<le> 256" using assms(1) by linarith
  then have "uint (n - b) \<le> 256" by simp
  then have "uint (n - b) \<le> uint (i - b) \<and> uint (i - b) \<le> 256"
    using assms(2,3) unfolding diff dist by (intro int_window_between[OF _ _ _ _ _ _ _ _ plus] uint_bounds_32)
  then show ?thesis by (simp add: unat_eq_nat_uint nat_le_iff del: nat_uint_eq uint_nat)
qed

text \<open>
  When a packet number is mentioned by somebody, repairs are requested for what is missing before
  it, but never beyond the window of 256 packets from the next one to deliver: every other entry of
  the cache stays as it is, and within the window every packet before the mentioned one has an entry.
\<close>

theorem seen_asks_within_window:
  assumes "window_ok s" "STATE_PREPARING \<le> s_state s" "s_state s < STATE_UNKNOWN_FAILED"
    and "packet_diff (next_input_packet s) i \<ge> 0"
  shows "let (early, t) = sender_seen i s in \<not> early
     \<and> (\<forall>j. unat (j - next_output_packet s) \<ge> 256 \<longrightarrow> cached t j = cached s j)
     \<and> (\<forall>j. unat (j - next_input_packet s) < unat (i - next_input_packet s) \<longrightarrow>
          unat (i - next_output_packet s) \<le> 256 \<longrightarrow> cached t j \<noteq> None)"
proof -
  let ?last = "let l = next_output_packet s + 256 in if packet_diff l i > 0 then l else i"
  let ?t = "fold schedule_repair (seq_range (next_input_packet s) ?last) s"
  have seen: "sender_seen i s = (False, ?t)"
    using assms(2-4) by (auto simp: sender_seen_def Let_def state_order)
  let ?n = "next_input_packet s" and ?b = "next_output_packet s"
  have n: "unat (?n - ?b) \<le> 256" using assms(1) by (simp add: window_ok_def)
  have last: "unat (?n - ?b) \<le> unat (?last - ?b) \<and> unat (?last - ?b) \<le> 256"
    using window_between[OF n assms(4)] n by (simp add: Let_def)
  have "cached ?t j = cached s j" if "unat (j - ?b) \<ge> 256" for j
  proof (rule schedule_repairs_cached)
    show "j \<notin> set (seq_range ?n ?last)"
      using window_range[of ?n ?b 256 ?last j] n last that by (auto simp: set_seq_range)
  qed
  moreover have "cached ?t j \<noteq> None"
    if "unat (j - ?n) < unat (i - ?n)" "unat (i - ?b) \<le> 256" for j
  proof -
    have "?last = i"
      using packet_diff_window[of "?b + 256" ?b i] that(2) by (simp add: Let_def del: uint_nat int_nat_eq of_nat_unat) linarith?
    then have "unat (j - ?n) < unat (?last - ?n)" using that(1) by simp
    then show ?thesis
      using schedule_repairs_missing[of s j "seq_range ?n ?last"] assms(3)
      by (auto simp: set_seq_range state_order)
  qed
  ultimately show ?thesis by (simp add: seen)
qed

lemma seen_asks_within_window_witness:
  "let s = (sender_init 7 None)\<lparr>s_state := STATE_RUNNING, next_output_packet := 0xffffffff,
       next_input_packet := 0xffffffff\<rparr>
   in cached (snd (sender_seen 2 s)) 1 \<noteq> None \<and> cached (snd (sender_seen 2 s)) 0x100 = None"
proof -
  let ?s = "(sender_init 7 None)\<lparr>s_state := STATE_RUNNING, next_output_packet := 0xffffffff,
       next_input_packet := 0xffffffff\<rparr>"
  have "window_ok ?s" "STATE_PREPARING \<le> s_state ?s" "s_state ?s < STATE_UNKNOWN_FAILED"
    "packet_diff (next_input_packet ?s) 2 \<ge> 0"
    by (simp_all add: window_ok_def state_order packet_diff_def)
  from seen_asks_within_window[OF this]
  have "cached (snd (sender_seen 2 ?s)) 1 \<noteq> None" "cached (snd (sender_seen 2 ?s)) 0x100 = cached ?s 0x100"
    by (simp_all add: split_beta Let_def)
  then show ?thesis by (simp add: cached_def sender_init_def Let_def)
qed

section \<open>Acknowledgements of others\<close>

text \<open>What the list of a packet says about one sender.\<close>

lemma update_acks_loop_other:
  "update_acks_loop k infos u s = (back, updated, t) \<Longrightarrow> i \<notin> fst ` set infos \<Longrightarrow>
     map_of (acks t) i = map_of (acks s) i"
proof (induction infos arbitrary: u s)
  case (Cons x infos)
  then show ?case by (cases x) (auto simp: Let_def update_conv' split: option.splits if_splits)
qed simp

text \<open>
  The acknowledgements a sender has made never go backward. Processing the dependency list of its
  packet \<open>k\<close> keeps or raises the packet acknowledged for each id; it reports a failure exactly when
  the list names an earlier packet than one acknowledged before, and if it does not, every entry of the
  list is recorded, with \<open>k\<close> as the first packet that made it when the entry is new.
\<close>

theorem acks_move_forward:
  assumes "distinct (map fst infos)" "update_acks_loop k infos updated s = (back, upd, t)"
  shows "(\<forall>i x. map_of (acks s) i = Some x \<longrightarrow> (\<exists>y. map_of (acks t) i = Some y
        \<and> packet_diff (ack_packet_id x) (ack_packet_id y) \<ge> 0))
     \<and> (back \<longleftrightarrow> (\<exists>(i, m) \<in> set infos. \<exists>x. map_of (acks s) i = Some x \<and> packet_diff (ack_packet_id x) m < 0))
     \<and> (\<not> back \<longrightarrow> (\<forall>(i, m) \<in> set infos. \<exists>y. map_of (acks t) i = Some y \<and> ack_packet_id y = m
          \<and> (if (\<exists>x. map_of (acks s) i = Some x \<and> ack_packet_id x = m)
             then map_of (acks s) i = Some y else ack_first_packet_id y = k)))"
  using assms
proof (induction infos arbitrary: s updated)
  case (Cons x infos)
  obtain i m where x: "x = (i, m)" by (cases x)
  have i: "i \<notin> fst ` set infos" and d: "distinct (map fst infos)"
    using Cons.prems(1) x by auto
  let ?new = "(ack_info_new i)\<lparr>ack_packet_id := m, ack_first_packet_id := k\<rparr>"
  define info where "info = (case map_of (acks s) i of Some y \<Rightarrow> y | None \<Rightarrow> ?new)"
  define u where "u = s\<lparr>acks := (if map_of (acks s) i \<noteq> None \<and> ack_packet_id info = m then acks s
      else AList.update i (info\<lparr>ack_packet_id := m, ack_first_packet_id := k\<rparr>) (acks s))\<rparr>"
  show ?case
  proof (cases "packet_diff (ack_packet_id info) m < 0")
    case True
    then have known: "map_of (acks s) i = Some info"
      by (cases "map_of (acks s) i") (simp_all add: info_def ack_info_new_def)
    with Cons.prems(2) True x have "back" "t = s" by (auto simp: Let_def)
    with known True x show ?thesis by auto
  next
    case False
    obtain up where step: "update_acks_loop k infos up u = (back, upd, t)"
    proof (cases "map_of (acks s) i")
      case None
      with Cons.prems(2) x that show thesis
        by (auto simp: Let_def u_def info_def ack_info_new_def)
    next
      case (Some y)
      then have y: "info = y" by (simp add: info_def)
      show thesis
        using Cons.prems(2) x that Some False packet_diff_eq_0[of "ack_packet_id y" m]
        by (cases "ack_packet_id y = m") (auto simp: Let_def u_def y split: if_splits)
    qed
    have u: "map_of (acks u) j = (if j = i then (if map_of (acks s) i \<noteq> None \<and> ack_packet_id info = m
        then map_of (acks s) i else Some (info\<lparr>ack_packet_id := m, ack_first_packet_id := k\<rparr>))
      else map_of (acks s) j)" for j by (auto simp: u_def update_conv')
    note IH = Cons.IH[OF d step] and same = update_acks_loop_other[OF step i]
    have ti: "map_of (acks t) i = map_of (acks u) i"
      and ni: "\<And>j n. (j, n) \<in> set infos \<Longrightarrow> j \<noteq> i" using same i by force+
    have "\<exists>y. map_of (acks t) j = Some y \<and> packet_diff (ack_packet_id y') (ack_packet_id y) \<ge> 0"
      if "map_of (acks s) j = Some y'" for j y'
    proof (cases "j = i")
      case True
      with that ti u[of i] False show ?thesis by (auto simp: info_def)
    next
      case j: False
      with that u[of j] IH show ?thesis by auto
    qed
    moreover have "back \<longleftrightarrow> (\<exists>(j, n) \<in> set (x # infos). \<exists>y. map_of (acks s) j = Some y
        \<and> packet_diff (ack_packet_id y) n < 0)"
    proof -
      define bad where "bad v j n \<longleftrightarrow> (\<exists>y. map_of (acks v) j = Some y \<and> packet_diff (ack_packet_id y) n < 0)"
        for v :: sender and j n
      have "\<not> bad s i m" using False by (auto simp: info_def bad_def)
      moreover have "bad s j n \<longleftrightarrow> bad u j n" if "(j, n) \<in> set infos" for j n
        using ni[OF that] u[of j] by (simp add: bad_def)
      moreover have "back \<longleftrightarrow> (\<exists>(j, n) \<in> set infos. bad u j n)" using IH by (simp add: bad_def)
      ultimately have "back \<longleftrightarrow> (\<exists>(j, n) \<in> set (x # infos). bad s j n)" using x by auto
      then show ?thesis by (simp add: bad_def)
    qed
    moreover have "\<exists>y. map_of (acks t) j = Some y \<and> ack_packet_id y = n
        \<and> (if (\<exists>y'. map_of (acks s) j = Some y' \<and> ack_packet_id y' = n)
           then map_of (acks s) j = Some y else ack_first_packet_id y = k)"
      if "\<not> back" "(j, n) \<in> set (x # infos)" for j n
    proof (cases "(j, n) = x")
      case True
      then have "j = i" "n = m" using x by auto
      then show ?thesis using ti u[of i] by (auto simp: info_def split: option.splits if_splits)
    next
      case j: False
      then have jn: "(j, n) \<in> set infos" "j \<noteq> i" using that(2) ni by auto
      have uj: "map_of (acks u) j = map_of (acks s) j" using u[of j] jn(2) by simp
      note IH3 = mp[OF conjunct2[OF conjunct2[OF IH]] that(1)]
      from bspec[OF IH3 jn(1)] show ?thesis by (simp only: prod.case uj)
    qed
    ultimately show ?thesis by blast
  qed
qed simp

lemma acks_move_forward_witness:
  "let s = (sender_init 7 None)\<lparr>acks := [(9, (ack_info_new 9)\<lparr>ack_packet_id := 0xffffffff\<rparr>)]\<rparr>;
       (back, _, t) = update_acks_loop 40 [(9, 2), (8, 5)] False s
   in \<not> back \<and> (\<exists>y. map_of (acks t) 9 = Some y \<and> ack_packet_id y = 2 \<and> ack_first_packet_id y = 40)"
proof -
  let ?s = "(sender_init 7 None)\<lparr>acks := [(9, (ack_info_new 9)\<lparr>ack_packet_id := 0xffffffff\<rparr>)]\<rparr>"
  obtain bw upd t where run: "update_acks_loop 40 [(9, 2), (8, 5)] False ?s = (bw, upd, t)"
    by (metis prod_cases3)
  have "distinct (map fst [(9 :: u32, 2 :: u32), (8, 5)])" by simp
  from acks_move_forward[OF this run] run show ?thesis
    by (simp add: sender_init_def ack_info_new_def packet_diff_def Let_def)
qed

section \<open>A later start\<close>

text \<open>
  A sender whose start is moved forward takes the new number as the next one to receive and to
  deliver, and cancels the repair requests for the packets before it that never arrived, all other
  entries staying as they are. But the loop compares the counters as plain numbers: when they have
  wrapped around in between, nothing is cancelled and the obsolete requests go on.
\<close>

theorem update_start_cancels_unless_wrapped:
  assumes "s_state s \<noteq> STATE_NEW" "s_state s < STATE_FAILED"
    and "packet_diff (next_input_packet s) packet_id > 0"
  shows "returns (\<lambda>t. next_input_packet t = packet_id \<and> next_output_packet t = packet_id
      \<and> next_output_data_packet t = packet_id \<and> s_state t = s_state s
      \<and> (\<forall>j. cached t j =
          (if first_packet s < packet_id \<and> first_packet s \<le> j \<and> j < packet_id
           then map_option (\<lambda>info. if pi_packet info = None then info\<lparr>pi_timeout := None\<rparr> else info) (cached s j)
           else cached s j)))
    (sender_update_start packet_id s)"
proof -
  define F where "F = map_option (\<lambda>info :: packet_info. if pi_packet info = None then info\<lparr>pi_timeout := None\<rparr> else info)"
  define f where "f i s = (case cached s i of
       None \<Rightarrow> Inr s
     | Some info \<Rightarrow> if pi_packet info = None \<and> pi_timeout info \<noteq> None
                  then upd_info i (\<lambda>info. info\<lparr>pi_timeout := None\<rparr>) s else Inr s)" for i and s :: sender
  have step: "returns (\<lambda>t. (s_state t = s_state s)
      \<and> (\<forall>j. cached t j = (if j = i then F (cached s i) else cached s j))) (f i s)" for i s
    by (auto simp: f_def F_def upd_info_def cached_def update_conv' split: option.split)
  let ?xs = "if first_packet s < packet_id then seq_range (first_packet s) packet_id else []"
  have "distinct ?xs" by simp
  then obtain u where u: "foldo f ?xs s = Inr u" "s_state u = s_state s"
    "\<forall>j. cached u j = (if j \<in> set ?xs then F (cached s j) else cached s j)"
    using cached_loop[where R = "\<lambda>s t. s_state t = s_state s" and F = F, OF step, of ?xs s]
    by (auto simp: returns_iff)
  have "j \<in> set ?xs \<longleftrightarrow> first_packet s < packet_id \<and> first_packet s \<le> j \<and> j < packet_id" for j
  proof (cases "first_packet s < packet_id")
    case True
    then have p: "unat (packet_id - first_packet s) = unat packet_id - unat (first_packet s)"
      by (simp add: unat_minus_32 word_less_nat_alt)
    have "j \<in> set (seq_range (first_packet s) packet_id) \<longleftrightarrow> first_packet s \<le> j \<and> j < packet_id"
      unfolding set_seq_range p unat_minus_32[of j] word_less_nat_alt word_le_nat_alt
      using True by (auto simp: word_less_nat_alt) (use unat_less_2_32[of packet_id] in linarith)
    with True show ?thesis by simp
  qed simp
  with u have "\<forall>j. cached u j = (if first_packet s < packet_id \<and> first_packet s \<le> j \<and> j < packet_id
      then F (cached s j) else cached s j)" by simp
  with u(1,2) assms show ?thesis
    by (simp add: sender_update_start_def f_def[abs_def] F_def cached_def)
qed

lemma update_start_cancels_unless_wrapped_witness:
  "let s = schedule_repair 0xfffffff0 ((sender_init 7 None)\<lparr>s_state := STATE_RUNNING,
         first_packet := 0xfffffff0, next_input_packet := 0xfffffff1\<rparr>)
   in returns (\<lambda>t. next_output_packet t = 5 \<and> (\<exists>info. cached t 0xfffffff0 = Some info
        \<and> pi_packet info = None \<and> pi_timeout info \<noteq> None)) (sender_update_start 5 s)"
proof -
  let ?s = "schedule_repair 0xfffffff0 ((sender_init 7 None)\<lparr>s_state := STATE_RUNNING,
         first_packet := 0xfffffff0, next_input_packet := 0xfffffff1\<rparr>)"
  note eval = schedule_repair_def sender_init_def cached_def packet_info_new_def state_order packet_diff_def
  have s: "s_state ?s \<noteq> STATE_NEW" "s_state ?s < STATE_FAILED" "packet_diff (next_input_packet ?s) 5 > 0"
    by (simp_all add: eval)
  have "first_packet ?s = 0xfffffff0" "\<exists>info. cached ?s 0xfffffff0 = Some info
      \<and> pi_packet info = None \<and> pi_timeout info \<noteq> None" by (simp_all add: eval)
  with update_start_cancels_unless_wrapped[OF s] show ?thesis
    unfolding Let_def by (elim returns_mono) simp
qed


end
