(* ===== verification/Group_Properties.thy ===== *)
theory Group_Properties
  imports Cache_Properties "HOL-Library.Multiset"
begin

text \<open>
  The garbage collector of a sender group (\<open>gibber_r_multicast_sender_group_gc\<close> in
  \<open>lib/gibber/gibber-r-multicast-sender.c\<close>): what the array it builds holds for each sender, and that
  it drops a packet only when no live member can ask for it any more.
\<close>

section \<open>The array of acknowledgements\<close>

lemma mset_remove_index_fast: "i < length xs \<Longrightarrow> mset (remove_index_fast i xs) = mset xs - {#xs ! i#}"
proof (cases xs rule: rev_cases)
  case (snoc ys y)
  assume i: "i < length xs"
  show ?thesis
  proof (cases "i = length ys")
    case True
    with snoc show ?thesis by (simp add: remove_index_fast_def)
  next
    case False
    with snoc i have "i < length ys" by simp
    with snoc show ?thesis
      by (simp add: remove_index_fast_def list_update_append nth_append butlast_append mset_update)
  qed
qed simp

lemma take_remove_index_fast: "i < length xs \<Longrightarrow> take i (remove_index_fast i xs) = take i xs"
  by (auto simp add: remove_index_fast_def butlast_conv_take min_def)

text \<open>What one live sender does to the entry for the id \<open>i\<close>.\<close>

definition ack_step :: "sender \<Rightarrow> u32 \<Rightarrow> u32 \<Rightarrow> u32 option" where
  "ack_step s i k =
     (if s_id s = i then Some k
      else case get_ackinfo s i of
        None \<Rightarrow> None
      | Some ack \<Rightarrow> Some (if packet_diff (ack_packet_id ack) k > 0 then ack_packet_id ack else k))"

lemma distinct_fst_remove:
  assumes "distinct (map fst xs)" "i < length xs"
  shows "distinct (map fst (remove_index_fast i xs))"
    and "map_of (remove_index_fast i xs) = (map_of xs)(fst (xs ! i) := None)"
proof -
  have m: "mset (remove_index_fast i xs) + {#xs ! i#} = mset xs"
    using assms(2) by (simp add: mset_remove_index_fast)
  have "mset (map fst (remove_index_fast i xs)) + {#fst (xs ! i)#} = mset (map fst xs)"
    unfolding mset_map m[symmetric] by simp
  then have "mset (fst (xs ! i) # map fst (remove_index_fast i xs)) = mset (map fst xs)" by simp
  then have d: "distinct (fst (xs ! i) # map fst (remove_index_fast i xs))"
    using assms(1) mset_eq_imp_distinct_iff by blast
  then show dr: "distinct (map fst (remove_index_fast i xs))" by simp
  have s: "set xs = insert (xs ! i) (set (remove_index_fast i xs))"
    using arg_cong[OF m, of set_mset] by simp
  show "map_of (remove_index_fast i xs) = (map_of xs)(fst (xs ! i) := None)"
  proof
    fix j
    show "map_of (remove_index_fast i xs) j = ((map_of xs)(fst (xs ! i) := None)) j"
    proof (cases "j = fst (xs ! i)")
      case True
      with d show ?thesis by (simp add: map_of_eq_None_iff)
    next
      case False
      have "map_of (remove_index_fast i xs) j = Some v \<longleftrightarrow> map_of xs j = Some v" for v
        using assms(1) dr s False by (cases "xs ! i") (auto simp: map_of_eq_Some_iff)
      with False show ?thesis by (cases "map_of xs j"; cases "map_of (remove_index_fast i xs) j") auto
    qed
  qed
qed

lemma split_key:
  assumes "distinct (map fst xs)" "i < length xs" "xs ! i = (j, w)"
  obtains ys zs where "xs = ys @ (j, w) # zs" "length ys = i" "j \<notin> fst ` set ys" "j \<notin> fst ` set zs"
proof -
  have "xs = take i xs @ (j, w) # drop (Suc i) xs"
    using assms(2,3) id_take_nth_drop by metis
  moreover have "length (take i xs) = i" using assms(2) by simp
  ultimately show thesis using that[of "take i xs" "drop (Suc i) xs"] assms(1)
    by (metis (no_types, lifting) distinct.simps(2) distinct_append fst_conv list.simps(9) map_append
        not_distinct_conv_prefix set_map)
qed

lemma map_of_update_key:
  assumes "distinct (map fst xs)" "i < length xs" "xs ! i = (j, w)"
  shows "map_of (xs[i := (j, v)]) = (map_of xs)(j \<mapsto> v)" "map fst (xs[i := (j, v)]) = map fst xs"
proof -
  obtain ys zs where xs: "xs = ys @ (j, w) # zs" "length ys = i" "j \<notin> fst ` set ys"
    using split_key[OF assms] by metis
  then have u: "xs[i := (j, v)] = ys @ (j, v) # zs" by (simp add: list_update_append)
  have "map_of ys j = None" using xs(3) by (simp add: map_of_eq_None_iff)
  then show "map_of (xs[i := (j, v)]) = (map_of xs)(j \<mapsto> v)"
    unfolding u unfolding xs(1) by (auto simp: fun_eq_iff map_add_def split: option.split)
  show "map fst (xs[i := (j, v)]) = map fst xs" unfolding u unfolding xs(1) by simp
qed

lemma update_sender_acks_loop_map:
  "distinct (map fst array) \<Longrightarrow> n \<le> length array \<Longrightarrow>
     distinct (map fst (update_sender_acks_loop s n array))
     \<and> map_of (update_sender_acks_loop s n array) i =
         (if i \<in> fst ` set (take n array) then map_of array i
          else Option.bind (map_of array i) (ack_step s i))"
proof (induction s n array rule: update_sender_acks_loop.induct)
  case (1 s n array)
  show ?case
  proof (cases "n < length array")
    case False
    then have "update_sender_acks_loop s n array = array" "take n array = array"
      using 1(5) by (simp_all add: update_sender_acks_loop.simps)
    with 1(4) show ?thesis by (auto simp: map_of_eq_None_iff[symmetric])
  next
    case n: True
    obtain j k where jk: "array ! n = (j, k)" by (cases "array ! n")
    obtain ys zs where a: "array = ys @ (j, k) # zs" "length ys = n" "j \<notin> fst ` set ys"
      using split_key[OF 1(4) n jk] by metis
    have "map_of ys j = None" using a(3) by (simp add: map_of_eq_None_iff)
    then have t: "take n array = ys" "take (Suc n) array = ys @ [(j, k)]" "map_of array j = Some k"
      using a by (simp_all add: map_add_def)
    have upd: "take (Suc n) (array[n := (j, v)]) = ys @ [(j, v)]" for v
      using a by (simp add: list_update_append)
    show ?thesis
    proof (cases "s_id s = j")
      case True
      with n jk have "update_sender_acks_loop s n array = update_sender_acks_loop s (Suc n) array"
        by (simp add: update_sender_acks_loop.simps[of s n])
      moreover have "ack_step s j k = Some k" using True by (simp add: ack_step_def)
      ultimately show ?thesis using 1(1)[OF n jk[symmetric] refl True 1(4)] n t by auto
    next
      case sid: False
      show ?thesis
      proof (cases "get_ackinfo s j")
        case None
        with n jk sid have "update_sender_acks_loop s n array = update_sender_acks_loop s n (remove_index_fast n array)"
          by (simp add: update_sender_acks_loop.simps[of s n array])
        then have step: "update_sender_acks_loop s n array = update_sender_acks_loop s n (remove_index_fast n array)" .
        have "ack_step s j k = None" using None sid by (simp add: ack_step_def)
        moreover have "n \<le> length (remove_index_fast n array)" using n by simp
        ultimately have IH: "distinct (map fst (update_sender_acks_loop s n array))
          \<and> map_of (update_sender_acks_loop s n array) i =
            (if i \<in> fst ` set ys then ((map_of array)(j := None)) i
             else Option.bind (((map_of array)(j := None)) i) (ack_step s i))"
          using 1(2)[OF n jk[symmetric] refl sid None distinct_fst_remove(1)[OF 1(4) n]]
          unfolding step take_remove_index_fast[OF n] distinct_fst_remove(2)[OF 1(4) n] jk t(1) by simp
        show ?thesis
        proof (cases "i = j")
          case True
          with IH a(3) t(3) \<open>ack_step s j k = None\<close> show ?thesis unfolding t(1) by simp
        next
          case False
          with IH show ?thesis unfolding t(1) by simp
        qed
      next
        case (Some ack)
        let ?v = "if packet_diff (ack_packet_id ack) k > 0 then ack_packet_id ack else k"
        let ?array = "array[n := (j, ?v)]"
        have e: "(if packet_diff (ack_packet_id ack) k > 0 then array[n := (j, ack_packet_id ack)] else array)
            = ?array" using list_update_id[of array n] by (simp add: jk)
        from Some n jk sid have step: "update_sender_acks_loop s n array = update_sender_acks_loop s (Suc n) ?array"
          unfolding e[symmetric] by (simp add: update_sender_acks_loop.simps[of s n array])
        have "distinct (map fst ?array)" using 1(4) map_of_update_key(2)[OF 1(4) n jk] by metis
        then have IH: "distinct (map fst (update_sender_acks_loop s (Suc n) ?array))
          \<and> map_of (update_sender_acks_loop s (Suc n) ?array) i =
           (if i \<in> fst ` set (take (Suc n) ?array) then map_of ?array i
            else Option.bind (map_of ?array i) (ack_step s i))"
          using 1(3)[OF n jk[symmetric] refl sid Some] n unfolding e by simp
        have v: "ack_step s j k = Some ?v" using Some sid by (simp add: ack_step_def)
        show ?thesis
        proof (cases "i = j")
          case True
          with IH show ?thesis
            unfolding step upd map_of_update_key(1)[OF 1(4) n jk] t(1) using a(3) t(3) v by simp
        next
          case False
          with IH show ?thesis unfolding step upd map_of_update_key(1)[OF 1(4) n jk] t(1) by simp
        qed
      qed
    qed
  qed
qed

text \<open>A loop over the table that reads the senders and changes something else.\<close>

definition table :: "'a group_scheme \<Rightarrow> sender list" where
  "table g = map (\<lambda>a. the (g_store g a)) (map snd (g_senders g))"

lemma foldo_table:
  "\<forall>a \<in> set as. g_store g a \<noteq> None \<Longrightarrow>
     foldo (\<lambda>a x. andthen (get_sender a g) (\<lambda>s. Inr (f s x))) as x = Inr (fold f (map (\<lambda>a. the (g_store g a)) as) x)"
  by (induction as arbitrary: x) (auto simp: get_sender_def)

lemma create_sender_arrays:
  "fold create_sender_array ss array =
     array @ map (\<lambda>s. (s_id s, next_input_packet s)) (filter (\<lambda>s. s_state s < STATE_STOPPED) ss)"
  by (induction ss arbitrary: array) (auto simp: create_sender_array_def)

definition ack_point :: "sender list \<Rightarrow> u32 \<Rightarrow> u32 option \<Rightarrow> u32 option" where
  "ack_point ss i = fold (\<lambda>s r. Option.bind r (ack_step s i)) (filter (\<lambda>s. s_state s < STATE_STOPPED) ss)"

lemma update_sender_acks_map:
  assumes "distinct (map fst array)"
  shows "distinct (map fst (fold update_sender_acks ss array))
    \<and> map_of (fold update_sender_acks ss array) i = ack_point ss i (map_of array i)"
  using assms
proof (induction ss arbitrary: array)
  case (Cons s ss)
  have "distinct (map fst (update_sender_acks s array))
    \<and> map_of (update_sender_acks s array) i =
        (if s_state s < STATE_STOPPED then Option.bind (map_of array i) (ack_step s i) else map_of array i)"
    using update_sender_acks_loop_map[OF Cons.prems, of 0 s i] Cons.prems
    by (simp add: update_sender_acks_def not_le[symmetric])
  with Cons.IH[of "update_sender_acks s array"] show ?case by (simp add: ack_point_def)
qed (simp add: ack_point_def)

lemma ack_point_None [simp]: "ack_point ss i None = None"
  by (induction ss) (simp_all add: ack_point_def)

lemma ack_point_Cons:
  "ack_point (s # ss) i r = ack_point ss i (if s_state s < STATE_STOPPED then Option.bind r (ack_step s i) else r)"
  by (simp add: ack_point_def)

text \<open>
  Within a window the entry is the least of what the live senders acknowledge and the next packet
  expected, and it exists only if they all acknowledge something.
\<close>

lemma ack_point_le:
  assumes "ack_point ss i (Some m) = Some k" "unat (m - base) \<le> 65535"
    and "\<And>s ack. s \<in> set ss \<Longrightarrow> s_state s < STATE_STOPPED \<Longrightarrow> get_ackinfo s i = Some ack \<Longrightarrow>
      unat (ack_packet_id ack - base) \<le> 65535"
  shows "unat (k - base) \<le> unat (m - base) \<and>
    (\<forall>s \<in> set ss. s_state s < STATE_STOPPED \<longrightarrow> s_id s \<noteq> i \<longrightarrow>
       (\<exists>ack. get_ackinfo s i = Some ack \<and> unat (k - base) \<le> unat (ack_packet_id ack - base)))"
  using assms
proof (induction ss arbitrary: m)
  case (Cons s ss)
  show ?case
  proof (cases "s_state s < STATE_STOPPED \<and> s_id s \<noteq> i")
    case True
    then obtain ack where ack: "get_ackinfo s i = Some ack"
      using Cons.prems(1) by (cases "get_ackinfo s i") (simp_all add: ack_point_Cons ack_step_def)
    let ?m = "if packet_diff (ack_packet_id ack) m > 0 then ack_packet_id ack else m"
    have p: "ack_point ss i (Some ?m) = Some k"
      using Cons.prems(1) True ack by (simp add: ack_point_Cons ack_step_def split: if_splits)
    have a: "unat (ack_packet_id ack - base) \<le> 65535" using Cons.prems(3)[of s ack] True ack by auto
    have m: "unat (?m - base) \<le> unat (ack_packet_id ack - base)" "unat (?m - base) \<le> unat (m - base)"
      using packet_diff_window[OF a Cons.prems(2)] by (auto simp del: of_nat_unat)
    have "unat (?m - base) \<le> 65535" using m(2) Cons.prems(2) by linarith
    moreover have "unat (ack_packet_id ack - base) \<le> 65535"
      if "s \<in> set ss" "s_state s < STATE_STOPPED" "get_ackinfo s i = Some ack" for s ack
      using Cons.prems(3)[of s ack] that by simp
    ultimately have IH: "unat (k - base) \<le> unat (?m - base)"
      "\<forall>s \<in> set ss. s_state s < STATE_STOPPED \<longrightarrow> s_id s \<noteq> i \<longrightarrow>
         (\<exists>ack. get_ackinfo s i = Some ack \<and>  unat (k - base) \<le> unat (ack_packet_id ack - base))"
      using Cons.IH[OF p] by blast+
    have "unat (k - base) \<le> unat (m - base)" "unat (k - base) \<le> unat (ack_packet_id ack - base)"
      using le_trans[OF IH(1) m(2)] le_trans[OF IH(1) m(1)] by auto
    with IH(2) ack show ?thesis by auto
  next
    case False
    with Cons.prems(1) have "ack_point ss i (Some m) = Some k"
      by (auto simp: ack_point_Cons ack_step_def split: if_splits)
    with Cons False show ?thesis by auto
  qed
qed (simp add: ack_point_def)


lemma map_of_live:
  assumes "distinct (map fst ps)" "\<forall>(i, a) \<in> set ps. \<exists>s. store a = Some s \<and> s_id s = i"
  shows "map_of (map (\<lambda>s. (s_id s, F s)) (filter P (map (\<lambda>a. the (store a)) (map snd ps)))) i =
    Option.bind (map_of ps i) (\<lambda>a. if P (the (store a)) then Some (F (the (store a))) else None)"
  using assms
proof (induction ps)
  case (Cons p ps)
  obtain j a where p: "p = (j, a)" by (cases p)
  with Cons.prems obtain s where s: "store a = Some s" "s_id s = j" by auto
  have "map_of ps j = None" using Cons.prems(1) p by (simp add: map_of_eq_None_iff)
  with Cons s p show ?case by (cases "i = j") auto
qed simp

definition gc_point :: "'a group_scheme \<Rightarrow> u32 \<Rightarrow> u32 option" where
  "gc_point g i = ack_point (table g) i (Option.bind (group_lookup i g) (\<lambda>a.
     if s_state (the (g_store g a)) < STATE_STOPPED then Some (next_input_packet (the (g_store g a))) else None))"

lemma wf_table:
  assumes "wf_group g"
  shows "distinct (map fst (g_senders g))" "\<forall>(i, a) \<in> set (g_senders g). \<exists>s. g_store g a = Some s \<and> s_id s = i"
    "map s_id (table g) = map fst (g_senders g)" "\<forall>a \<in> set (map snd (g_senders g)). g_store g a \<noteq> None"
  using assms unfolding wf_group_def table_def by auto

lemma group_gc_array_spec:
  assumes "wf_group g"
  obtains R where "group_gc_array g = Inr R" "distinct (map fst R)" "map_of R = gc_point g"
proof -
  note wf = wf_table[OF assms]
  let ?A = "map (\<lambda>s. (s_id s, next_input_packet s)) (filter (\<lambda>s. s_state s < STATE_STOPPED) (table g))"
  have "distinct (map s_id (filter (\<lambda>s. s_state s < STATE_STOPPED) (table g)))"
    using wf(1) unfolding wf(3)[symmetric] by (rule distinct_map_filter)
  then have d: "distinct (map fst ?A)" by (simp add: comp_def)
  have "group_gc_array g = Inr (fold update_sender_acks (table g) ?A)"
    unfolding group_gc_array_def
    using foldo_table[OF wf(4), of create_sender_array "[]"] foldo_table[OF wf(4), of update_sender_acks ?A]
    by (simp add: create_sender_arrays table_def)
  moreover have "map_of (fold update_sender_acks (table g) ?A) = gc_point g"
  proof
    fix i show "map_of (fold update_sender_acks (table g) ?A) i = gc_point g i"
      using update_sender_acks_map[OF d, of "table g" i] map_of_live[OF wf(1,2), of next_input_packet]
      by (simp add: gc_point_def group_lookup_def table_def)
  qed
  ultimately show thesis using that update_sender_acks_map[OF d] by blast
qed

section \<open>Acknowledging\<close>

definition gc_acked :: "(u32 \<times> u32) list \<Rightarrow> 'a group_scheme \<Rightarrow> saddr \<Rightarrow> sender \<Rightarrow> sender \<Rightarrow> bool" where
  "gc_acked R g a s t \<longleftrightarrow>
     (case (if group_lookup (s_id s) g = Some a then map_of R (s_id s) else None) of
        None \<Rightarrow> t = s | Some k \<Rightarrow> sender_ack k s = Inr t)"

lemma gc_acks_returns:
  assumes "distinct (map fst R)"
    and "\<forall>i \<in> fst ` set R. \<exists>a s. group_lookup i g = Some a \<and> g_store g a = Some s \<and> s_id s = i"
  shows "returns (\<lambda>g'. g_senders g' = g_senders g \<and> g_pending_removal g' = g_pending_removal g
      \<and> (\<forall>a s. g_store g a = Some s \<longrightarrow> (\<exists>t. g_store g' a = Some t \<and> gc_acked R g a s t)))
    (foldo group_gc_ack R g)"
  using assms
proof (induction R arbitrary: g)
  case (Cons x R)
  obtain i k where x: "x = (i, k)" by (cases x)
  with Cons.prems obtain a s where a: "group_lookup i g = Some a" "g_store g a = Some s" "s_id s = i"
    by auto
  obtain t where t: "sender_ack k s = Inr t" using sender_ack_returns[of s k] by (auto simp: returns_iff)
  have id: "s_id t = i" using holdsD[OF stutter_sender_ack t] a(3) by (simp add: stutter_def)
  let ?g = "put_sender a t g"
  have step: "group_gc_ack x g = Inr ?g" using a t x by (simp add: group_gc_ack_def upd_sender_def get_sender_def)
  have lookup: "group_lookup j ?g = group_lookup j g" for j by (simp add: group_lookup_def)
  have i: "i \<notin> fst ` set R" using Cons.prems(1) x by auto
  have "\<exists>a s. group_lookup j ?g = Some a \<and> g_store ?g a = Some s \<and> s_id s = j" if j: "j \<in> fst ` set R" for j
  proof -
    obtain b u where b: "group_lookup j g = Some b" "g_store g b = Some u" "s_id u = j"
      using Cons.prems(2) j by auto
    have "j \<noteq> i" using i j by blast
    then have "b \<noteq> a" using a(2,3) b(2,3) by auto
    with b lookup show ?thesis by auto
  qed
  then obtain g' where g': "foldo group_gc_ack R ?g = Inr g'" "g_senders g' = g_senders g"
    "g_pending_removal g' = g_pending_removal g"
    "\<forall>b u. g_store ?g b = Some u \<longrightarrow> (\<exists>v. g_store g' b = Some v \<and> gc_acked R ?g b u v)"
    using Cons.IH[of ?g] Cons.prems(1) by (auto simp: returns_iff)
  have "\<exists>v. g_store g' b = Some v \<and> gc_acked (x # R) g b u v" if u: "g_store g b = Some u" for b u
  proof (cases "b = a")
    case True
    then have "gc_acked R ?g b t v \<longleftrightarrow> v = t" for v
      using i id by (simp add: gc_acked_def map_of_eq_None_iff[of R i, THEN iffD2])
    with g'(4)[rule_format, of a t] True have "g_store g' b = Some t" by auto
    with True u a t x lookup show ?thesis by (simp add: gc_acked_def)
  next
    case False
    with g'(4)[rule_format, of b u] u obtain v where v: "g_store g' b = Some v" "gc_acked R ?g b u v" by auto
    have "group_lookup i g \<noteq> Some b" using False a(1) by simp
    with v x show ?thesis by (auto simp: gc_acked_def lookup split: if_splits)
  qed
  with g'(1-3) step show ?case by (simp add: returns_iff)
qed (auto simp: gc_acked_def split: option.split)


section \<open>Pending removals\<close>

definition only_acks :: "'a group_scheme \<Rightarrow> 'a group_scheme \<Rightarrow> bool" where
  "only_acks g g' \<longleftrightarrow>
     g_senders g' = g_senders g \<and> set (g_pending_removal g') \<subseteq> set (g_pending_removal g)
     \<and> (\<forall>a s. g_store g a = Some s \<longrightarrow> (\<exists>t. g_store g' a = Some t \<and> packet_cache t = packet_cache s))"

lemma only_acks_refl [simp]: "only_acks g g"
  by (simp add: only_acks_def)

lemma only_acks_trans:
  assumes "only_acks g h" "only_acks h k"
  shows "only_acks g k"
proof -
  have "\<exists>t. g_store k a = Some t \<and> packet_cache t = packet_cache s" if s: "g_store g a = Some s" for a s
  proof -
    obtain u where u: "g_store h a = Some u" "packet_cache u = packet_cache s"
      using assms(1) s unfolding only_acks_def by blast
    then obtain t where "g_store k a = Some t" "packet_cache t = packet_cache u"
      using assms(2) unfolding only_acks_def by blast
    with u show ?thesis by auto
  qed
  with assms show ?thesis unfolding only_acks_def by auto
qed

definition stored :: "'a group_scheme \<Rightarrow> bool" where
  "stored g \<longleftrightarrow> (\<forall>a \<in> set (map snd (g_senders g)) \<union> set (g_pending_removal g). g_store g a \<noteq> None)"

lemma stored_only_acks: "stored g \<Longrightarrow> only_acks g g' \<Longrightarrow> stored g'"
  unfolding stored_def only_acks_def by (metis (no_types, lifting) Un_iff not_None_eq subsetD)

lemma findo_senders_returns:
  assumes "\<forall>a \<in> set as. g_store g a \<noteq> None" "\<And>a s. a \<in> set as \<Longrightarrow> returns (\<lambda>_. True) (f a s)"
  shows "returns (\<lambda>_. True) (findo (\<lambda>a. andthen (get_sender a g) (f a)) as)"
proof (rule findo_returns)
  fix a assume "a \<in> set as"
  with assms(1) obtain s where "g_store g a = Some s" by auto
  with assms(2)[OF \<open>a \<in> set as\<close>] show "returns (\<lambda>_. True) (andthen (get_sender a g) (f a))"
    by (simp add: get_sender_def)
qed

lemma can_gc_returns: "stored g \<Longrightarrow> returns (\<lambda>_. True) (can_gc_sender target g)"
proof -
  assume st: "stored g"
  then have s: "\<forall>a \<in> set (map snd (g_senders g)). g_store g a \<noteq> None" by (simp add: stored_def)
  have f: "returns (\<lambda>_. True) (findo (\<lambda>b. andthen (get_sender b g) (\<lambda>t. Inr (find_indirect_ack target a s b t)))
      (map snd (g_senders g)))" for a s by (rule findo_senders_returns[OF s]) simp
  show ?thesis unfolding can_gc_sender_def failure_not_acked_def
    using findo_senders_returns[OF s, of "\<lambda>a s. if s_state s = STATE_PENDING_REMOVAL then Inr False
      else if get_direct_ack s target \<noteq> None then Inr False
      else andthen (findo (\<lambda>b. andthen (get_sender b g) (\<lambda>t. Inr (find_indirect_ack target a s b t)))
                  (map snd (g_senders g))) (\<lambda>found. Inr (found = None))"] f
    by simp
qed

lemma gc_acks_only: "stored g \<Longrightarrow> returns (only_acks g) (group_gc_acks i g)"
proof -
  assume st: "stored g"
  have find: "returns (\<lambda>_. True) (findo (\<lambda>a. andthen (get_sender a g) (\<lambda>s. Inr (s_id s = i))) (g_pending_removal g))"
    by (rule findo_senders_returns) (use st in \<open>auto simp: stored_def\<close>)
  have "returns (\<lambda>g'. only_acks g g' \<and> stored g')
      (foreach_sender (\<lambda>a. upd_sender a (\<lambda>s. Inr (cleanup_acks i s))) g)"
    unfolding foreach_sender_def
  proof (rule foldo_returns)
    fix a g' assume a: "a \<in> set (map snd (g_senders g))" and k: "only_acks g g' \<and> stored g'"
    then have "g_store g' a \<noteq> None" by (auto simp: only_acks_def stored_def)
    then obtain s where s: "g_store g' a = Some s" by auto
    have "only_acks g' (put_sender a (cleanup_acks i s) g')"
      using s by (auto simp: only_acks_def cleanup_acks_def)
    with k stored_only_acks[of g'] have "only_acks g (put_sender a (cleanup_acks i s) g')
        \<and> stored (put_sender a (cleanup_acks i s) g')"
      using only_acks_trans[of g g'] by blast
    with s show "returns (\<lambda>g'. only_acks g g' \<and> stored g') (upd_sender a (\<lambda>s. Inr (cleanup_acks i s)) g')"
      by (simp add: upd_sender_def get_sender_def)
  qed (use st in simp)
  with find show ?thesis unfolding group_gc_acks_def
    by (auto simp: returns_iff elim!: returns_mono)
qed

lemma gc_pending_returns: "stored g \<Longrightarrow> returns (only_acks g) (group_gc_pending i g)"
proof (induction i g rule: group_gc_pending.induct)
  case (1 i g)
  show ?case
  proof (cases "i < length (g_pending_removal g)")
    case True
    then have "g_pending_removal g ! i \<in> set (g_pending_removal g)" by simp
    with 1(3) have "g_store g (g_pending_removal g ! i) \<noteq> None" unfolding stored_def by blast
    then obtain s where s: "get_sender (g_pending_removal g ! i) g = Inr s"
      by (auto simp: get_sender_def)
    obtain b where b: "can_gc_sender s g = Inr b" using can_gc_returns[OF 1(3), of s] by (auto simp: returns_iff)
    show ?thesis
    proof (cases b)
      case False
      with 1(1)[OF True s b] 1(3) True s b show ?thesis by (simp add: group_gc_pending.simps[of i g] get_sender_def)
    next
      case b': True
      let ?g = "g\<lparr>g_pending_removal := remove_index_fast i (g_pending_removal g)\<rparr>"
      have o: "only_acks g ?g" by (simp add: only_acks_def set_remove_index_fast)
      obtain h where h: "group_gc_acks (s_id s) ?g = Inr h" "only_acks ?g h"
        using gc_acks_only[OF stored_only_acks[OF 1(3) o], of "s_id s"] by (auto simp: returns_iff)
      have "stored h" using stored_only_acks[OF stored_only_acks[OF 1(3) o] h(2)] .
      with 1(2)[OF True s b _ refl h(1)] b' have "returns (only_acks h) (group_gc_pending i h)" by simp
      then have "returns (only_acks g) (group_gc_pending i h)"
        by (rule returns_mono) (use o h(2) only_acks_trans in blast)
      with True s b b' h(1) show ?thesis by (simp add: group_gc_pending.simps[of i g] get_sender_def Let_def)
    qed
  next
    case False
    then show ?thesis by (simp add: group_gc_pending.simps[of i g])
  qed
qed


section \<open>What the garbage collector drops\<close>

text \<open>
  The packets of a sender are in view when its next packet and what the live members acknowledge are
  within 65535 packets of its oldest one, the distance within which packet numbers compare exactly.
\<close>

definition acks_in_view :: "'a group_scheme \<Rightarrow> sender \<Rightarrow> bool" where
  "acks_in_view g s \<longleftrightarrow>
     unat (next_input_packet s - first_packet s) \<le> 65535
     \<and> (\<forall>u \<in> set (table g). \<forall>ack. s_state u < STATE_STOPPED \<longrightarrow> get_ackinfo u (s_id s) = Some ack \<longrightarrow>
          unat (ack_packet_id ack - first_packet s) \<le> 65535)"

definition acked_past :: "sender \<Rightarrow> sender \<Rightarrow> u32 \<Rightarrow> bool" where
  "acked_past u s j \<longleftrightarrow> (\<exists>ack. get_ackinfo u (s_id s) = Some ack
     \<and> unat (j - first_packet s) < unat (ack_packet_id ack - first_packet s))"

lemma group_gc_returns:
  assumes "wf_group g"
  shows "returns (\<lambda>g'. \<forall>a s. g_store g a = Some s \<longrightarrow> (\<exists>t. g_store g' a = Some t
      \<and> (\<forall>j. cached t j =
          (case (if group_lookup (s_id s) g = Some a then gc_point g (s_id s) else None) of
             None \<Rightarrow> cached s j
           | Some k \<Rightarrow> if packet_diff (first_packet s) k \<ge> 0 \<and> unat (j - first_packet s) < unat (k - first_packet s)
                     then after_ack (cached s j) else cached s j)))) (group_gc g)"
proof -
  obtain R where R: "group_gc_array g = Inr R" "distinct (map fst R)" "map_of R = gc_point g"
    using group_gc_array_spec[OF assms] by metis
  have "\<exists>a s. group_lookup i g = Some a \<and> g_store g a = Some s \<and> s_id s = i" if "i \<in> fst ` set R" for i
  proof -
    have "gc_point g i \<noteq> None" using that unfolding R(3)[symmetric] by (simp add: map_of_eq_None_iff)
    then obtain a where "group_lookup i g = Some a" unfolding gc_point_def by (cases "group_lookup i g") auto
    moreover from this have "(i, a) \<in> set (g_senders g)" by (simp add: group_lookup_def map_of_SomeD)
    ultimately show ?thesis using wf_table(2)[OF assms] by fastforce
  qed
  then obtain h where h: "foldo group_gc_ack R g = Inr h" "g_senders h = g_senders g"
    "g_pending_removal h = g_pending_removal g"
    "\<forall>a s. g_store g a = Some s \<longrightarrow> (\<exists>t. g_store h a = Some t \<and> gc_acked R g a s t)"
    using gc_acks_returns[OF R(2), of g] by (auto simp: returns_iff)
  have "stored g" using assms by (fastforce simp: stored_def wf_group_def)
  have "stored h" unfolding stored_def h(2,3)
  proof
    fix a assume "a \<in> set (map snd (g_senders g)) \<union> set (g_pending_removal g)"
    with \<open>stored g\<close> obtain s where "g_store g a = Some s" unfolding stored_def by blast
    with h(4) show "g_store h a \<noteq> None" by fastforce
  qed
  then obtain g' where g': "group_gc_pending 0 h = Inr g'" "only_acks h g'"
    using gc_pending_returns[of h 0] by (auto simp: returns_iff)
  have "group_gc g = Inr g'" using R(1) h(1) g'(1) by (simp add: group_gc_def)
  moreover have "\<exists>t. g_store g' a = Some t \<and> (\<forall>j. cached t j =
          (case (if group_lookup (s_id s) g = Some a then gc_point g (s_id s) else None) of
             None \<Rightarrow> cached s j
           | Some k \<Rightarrow> if packet_diff (first_packet s) k \<ge> 0 \<and> unat (j - first_packet s) < unat (k - first_packet s)
                     then after_ack (cached s j) else cached s j))" if s: "g_store g a = Some s" for a s
  proof -
    obtain u where u: "g_store h a = Some u" "gc_acked R g a s u" using h(4) s by blast
    obtain t where t: "g_store g' a = Some t" "packet_cache t = packet_cache u"
      using g'(2) u(1) unfolding only_acks_def by blast
    have c: "cached t j = cached u j" for j using t(2) by (simp add: cached_def)
    show ?thesis
    proof (cases "if group_lookup (s_id s) g = Some a then gc_point g (s_id s) else None")
      case None
      with u(2) have "u = s" unfolding gc_acked_def R(3) by simp
      with None t(1) c show ?thesis by simp
    next
      case (Some k)
      with u(2) have "sender_ack k s = Inr u" unfolding gc_acked_def R(3) by simp
      with sender_ack_returns[of s k] Some t(1) c show ?thesis by simp
    qed
  qed
  ultimately show ?thesis by simp
qed

text \<open>
  C7. Garbage collection never fails, and it never takes a packet a live member may still ask for: a
  packet that disappears from the cache of a sender had been delivered, is not being repeated, and
  every other member that has not stopped has acknowledged the sender beyond that packet.
\<close>

theorem group_gc_drops_acked_by_all:
  assumes "wf_group g" "group_lookup i g = Some a" "g_store g a = Some s" "acks_in_view g s"
  shows "returns (\<lambda>g'. \<exists>t. g_store g' a = Some t \<and>
      (\<forall>j info. cached s j = Some info \<longrightarrow> cached t j = None \<longrightarrow>
         pi_popped info \<and> \<not> pi_repeating info
         \<and> (\<forall>(k, b) \<in> set (g_senders g). \<forall>u. g_store g b = Some u \<longrightarrow> k \<noteq> i \<longrightarrow> s_state u < STATE_STOPPED \<longrightarrow>
              acked_past u s j))) (group_gc g)"
proof (rule returns_mono[OF group_gc_returns[OF assms(1)]])
  fix g' assume g': "\<forall>a s. g_store g a = Some s \<longrightarrow> (\<exists>t. g_store g' a = Some t
      \<and> (\<forall>j. cached t j =
          (case (if group_lookup (s_id s) g = Some a then gc_point g (s_id s) else None) of
             None \<Rightarrow> cached s j
           | Some k \<Rightarrow> if packet_diff (first_packet s) k \<ge> 0 \<and> unat (j - first_packet s) < unat (k - first_packet s)
                     then after_ack (cached s j) else cached s j)))"
  have "(i, a) \<in> set (g_senders g)" using assms(2) by (simp add: group_lookup_def map_of_SomeD)
  with wf_table(2)[OF assms(1)] assms(3) have id: "s_id s = i" by fastforce
  obtain t where t: "g_store g' a = Some t" "\<forall>j. cached t j = (case gc_point g i of None \<Rightarrow> cached s j
      | Some k \<Rightarrow> if packet_diff (first_packet s) k \<ge> 0 \<and> unat (j - first_packet s) < unat (k - first_packet s)
                then after_ack (cached s j) else cached s j)"
    using g'[rule_format, OF assms(3)] assms(2) id by auto
  have "pi_popped info \<and> \<not> pi_repeating info \<and> (\<forall>(k, b) \<in> set (g_senders g). \<forall>u. g_store g b = Some u \<longrightarrow>
      k \<noteq> i \<longrightarrow> s_state u < STATE_STOPPED \<longrightarrow> acked_past u s j)"
    if j: "cached s j = Some info" "cached t j = None" for j info
  proof -
    obtain k where k: "gc_point g i = Some k" "unat (j - first_packet s) < unat (k - first_packet s)"
      "after_ack (Some info) = None"
      using t(2)[rule_format, of j] j by (auto split: option.splits if_splits)
    have live: "s_state s < STATE_STOPPED" and point: "ack_point (table g) i (Some (next_input_packet s)) = Some k"
      using k(1) assms(2,3) by (auto simp: gc_point_def split: if_splits)
    have le: "\<exists>ack. get_ackinfo u i = Some ack \<and> unat (k - first_packet s) \<le> unat (ack_packet_id ack - first_packet s)"
      if "u \<in> set (table g)" "s_state u < STATE_STOPPED" "s_id u \<noteq> i" for u
      using ack_point_le[OF point, of "first_packet s"] assms(4) that by (auto simp: acks_in_view_def id)
    have "acked_past u s j"
      if kb: "(m, b) \<in> set (g_senders g)" "g_store g b = Some u" "m \<noteq> i" "s_state u < STATE_STOPPED" for m b u
    proof -
      have "u \<in> set (table g)" using kb(1,2) by (force simp: table_def)
      moreover have "s_id u \<noteq> i" using wf_table(2)[OF assms(1)] kb by fastforce
      ultimately show ?thesis using le[of u] kb(4) k(2) id by (force simp: acked_past_def)
    qed
    with k(3) show ?thesis by (auto simp: after_ack_def split: if_splits)
  qed
  with t(1) show "\<exists>t. g_store g' a = Some t \<and>
      (\<forall>j info. cached s j = Some info \<longrightarrow> cached t j = None \<longrightarrow>
         pi_popped info \<and> \<not> pi_repeating info
         \<and> (\<forall>(k, b) \<in> set (g_senders g). \<forall>u. g_store g b = Some u \<longrightarrow> k \<noteq> i \<longrightarrow> s_state u < STATE_STOPPED \<longrightarrow>
              acked_past u s j))" by blast
qed


text \<open>Sender 7 has delivered its packet 5, sender 9 has acknowledged everything before packet 6.\<close>

definition gc_example_sender :: sender where
  "gc_example_sender = (sender_init 7 None)\<lparr>s_state := STATE_RUNNING, first_packet := 5,
     next_input_packet := 6, next_output_packet := 6, next_output_data_packet := 6,
     packet_cache := [(5, (packet_info_new 5)\<lparr>pi_popped := True\<rparr>)]\<rparr>"

definition gc_example :: group where
  "gc_example = group_new\<lparr>g_store := [0 \<mapsto> gc_example_sender,
       1 \<mapsto> (sender_init 9 None)\<lparr>s_state := STATE_RUNNING,
              acks := [(7, (ack_info_new 7)\<lparr>ack_packet_id := 6\<rparr>)]\<rparr>],
     g_fresh := 2, g_senders := [(7, 0), (9, 1)]\<rparr>"

lemma gc_example_wf: "wf_group gc_example"
  by (auto simp: wf_group_def wf_sender_def gc_example_def gc_example_sender_def group_new_def
      sender_init_def packet_info_new_def cached_def split: if_splits)

lemma group_gc_drops_acked_by_all_witness:
  "acked_past (the (g_store gc_example 1)) gc_example_sender 5
   \<and> returns (\<lambda>g'. \<exists>t. g_store g' 0 = Some t \<and> (\<forall>j info. cached gc_example_sender j = Some info \<longrightarrow>
        cached t j = None \<longrightarrow> pi_popped info)) (group_gc gc_example)"
proof -
  have g: "group_lookup 7 gc_example = Some 0" "g_store gc_example 0 = Some gc_example_sender"
    "acks_in_view gc_example gc_example_sender"
    by (simp_all add: group_lookup_def gc_example_def group_new_def acks_in_view_def table_def
        gc_example_sender_def sender_init_def ack_info_new_def get_ackinfo_def)
  have "acked_past (the (g_store gc_example 1)) gc_example_sender 5"
    by (simp add: acked_past_def gc_example_def gc_example_sender_def sender_init_def ack_info_new_def get_ackinfo_def)
  with group_gc_drops_acked_by_all[OF gc_example_wf g] show ?thesis
    by (auto elim: returns_mono)
qed

section \<open>When a removed sender may go\<close>




end
