(* ===== verification/Loop_Properties.thy ===== *)
theory Loop_Properties
  imports Group_Properties
begin

text \<open>
  Whether the loops of \<open>pop_packets\<close> in \<open>lib/gibber/gibber-r-multicast-sender.c\<close> end: a
  state in which they never do, and the states in which they always do.
\<close>

section \<open>A loop that never ends\<close>

lemma put_sender_same: "g_store g a = Some s \<Longrightarrow> put_sender a s g = g"
  by (simp add: put_sender_def map_upd_triv)

text \<open>
  A failed sender \<open>s\<close> at address \<open>a\<close> whose next packet depends on a later packet of the sender itself,
  which is the end point others have asked for.
\<close>

definition stuck_sender :: "u32 \<Rightarrow> sender \<Rightarrow> bool" where
  "stuck_sender i s \<longleftrightarrow> s_state s = STATE_FAILED
     \<and> next_output_data_packet s = next_output_packet s
     \<and> packet_diff (next_output_packet s) (end_point s) > 0
     \<and> (\<exists>ack. map_of (acks s) i = Some ack \<and> ack_packet_id ack = end_point s)
     \<and> (\<exists>info p. cached s (next_output_packet s) = Some info \<and> pi_packet info = Some p
          \<and> is_reliable_packet p \<and> pkt_depends p = [(i, end_point s)])"

lemma stuck_pop:
  assumes "stuck_sender i s" "g_store g a = Some s" "group_lookup i g = Some a"
  shows "pop_packet h pp a g = andthen (pp a g) (\<lambda>g. Inr (False, g))"
proof -
  have neg: "packet_diff (end_point s) (next_output_packet s) < 0"
    using assms(1) packet_diff_antisym[of "end_point s" "next_output_packet s"] by (simp add: stuck_sender_def)
  from assms neg show ?thesis
    by (auto simp: stuck_sender_def pop_packet_def pop_next_packet_def pop_found_packet_def update_acks_def
        check_depends_def sender_update_end_def get_sender_def put_sender_same Let_def andthen_assoc)
qed

definition queued :: "saddr list \<Rightarrow> 'a group_scheme \<Rightarrow> 'a group_scheme" where
  "queued q g = g\<lparr>g_popping := True, g_pop_queue := q\<rparr>"

lemma stuck_do_pop:
  assumes "stuck_sender i s" "g_store g a = Some s" "group_lookup i g = Some a" "\<not> g_stopped g"
  shows "do_pop_packets h (pop_packets h n) m a (queued [] g) =
    (if m = 0 \<or> n = 0 then Inl Out_of_fuel else Inr (False, queued [a] g))"
proof -
  have "pop_packet h (pop_packets h n) a (queued [] g)
      = andthen (pop_packets h n a (queued [] g)) (\<lambda>g. Inr (False, g))"
    using assms by (intro stuck_pop[where i = i and s = s]) (simp_all add: queued_def group_lookup_def)
  with assms show ?thesis
    by (cases m; cases n) (simp_all add: do_pop_packets_def get_sender_def queued_def stuck_sender_def state_order)
qed

lemma stuck_queue:
  assumes "stuck_sender i s" "g_store g a = Some s" "group_lookup i g = Some a" "\<not> g_stopped g"
  shows "pop_queue_loop h (pop_packets h n) m k pop (queued [a] g) = Inl Out_of_fuel"
proof (induction k arbitrary: pop)
  case (Suc k)
  have "queued [a] g\<lparr>g_pop_queue := []\<rparr> = queued [] g" by (simp add: queued_def)
  with Suc stuck_do_pop[OF assms, of h n m] show ?case by (simp add: queued_def)
qed simp

text \<open>
  C30. The delivery loop can spin for ever. When a failed sender's next packet depends on a later
  packet of the same sender, which somebody has asked for already, delivering it raises the sender's
  end point to the same value again and queues the sender again: no amount of fuel is enough.
\<close>

theorem stuck_sender_never_ends:
  assumes "stuck_sender i s" "g_store g a = Some s" "group_lookup i g = Some a" "\<not> g_stopped g"
    and "\<not> g_popping g" "g_pop_queue g = []"
  shows "pop_packets h n a g = Inl Out_of_fuel"
proof (cases n)
  case (Suc n)
  have q: "g\<lparr>g_popping := True\<rparr> = queued [] g" using assms(6) by (simp add: queued_def)
  have "pop_rounds h (pop_packets h n) n k False (queued [a] g) = Inl Out_of_fuel" for k
    using stuck_queue[OF assms(1-4), of h n n n False] by (cases k) (simp_all add: queued_def)
  with Suc assms(5) stuck_do_pop[OF assms(1-4), of h n n] show ?thesis
    by (simp add: q)
qed simp

text \<open>Sender 7 has failed after packet 4; its packet 5 claims to depend on its packet 5.\<close>

definition stuck_example :: group where
  "stuck_example =
     (let p = (packet_new PACKET_TYPE_NO_DATA 7 1500)\<lparr>pkt_packet_id := 5, pkt_depends := [(7, 6)]\<rparr>;
          s = (sender_init 7 None)\<lparr>s_state := STATE_FAILED, next_output_packet := 5,
            next_output_data_packet := 5, next_input_packet := 6, first_packet := 5, end_point := 6,
            packet_cache := [(5, (packet_info_new 5)\<lparr>pi_packet := Some p\<rparr>)],
            acks := [(7, (ack_info_new 7)\<lparr>ack_packet_id := 6\<rparr>)]\<rparr>
      in group_new\<lparr>g_store := [0 \<mapsto> s], g_fresh := 1, g_senders := [(7, 0)]\<rparr>)"

lemma stuck_sender_never_ends_witness:
  "\<forall>n. pop_packets (\<lambda>_ _. Inr) n 0 stuck_example = Inl Out_of_fuel"
proof
  fix n
  let ?s = "the (g_store stuck_example 0)"
  have "g_store stuck_example 0 = Some ?s" "group_lookup 7 stuck_example = Some 0" "\<not> g_stopped stuck_example"
    "\<not> g_popping stuck_example" "g_pop_queue stuck_example = []"
    by (simp_all add: stuck_example_def Let_def group_new_def group_lookup_def)
  moreover have "stuck_sender 7 ?s"
    by (simp add: stuck_sender_def stuck_example_def Let_def sender_init_def cached_def packet_info_new_def
        packet_new_def is_reliable_packet_def pkt_type_def ack_info_new_def packet_diff_def)
  ultimately show "pop_packets (\<lambda>_ _. Inr) n 0 stuck_example = Inl Out_of_fuel"
    by (intro stuck_sender_never_ends)
qed

end
