(* ===== verification/Send_Properties.thy ===== *)
theory Send_Properties
  imports Sender_Properties Causal_Transport Packet_Roundtrip
begin

text \<open>
  Sending over the causal transport (\<open>gibber_r_multicast_causal_transport_send\<close> and its helpers in
  \<open>lib/gibber/gibber-r-multicast-causal-transport.c\<close>): how a message is split into packets, what
  their dependency lists say, and how the handshakes of joining and leaving go.
\<close>

section \<open>The transport during a delivery\<close>

text \<open>
  \<open>send\<close> pushes each packet to the transport's own sender, which can deliver packets of others to the
  upper layer. \<open>same_node g g'\<close>: the fields that number and collect packets are the same and no sender
  has changed its id.
\<close>

definition same_node :: "'a causal_scheme \<Rightarrow> 'a causal_scheme \<Rightarrow> bool" where
  "same_node g g' \<longleftrightarrow>
     ct_sent g' = ct_sent g \<and> ct_packet_id g' = ct_packet_id g \<and> ct_self g' = ct_self g
     \<and> ct_max_packet_size g' = ct_max_packet_size g
     \<and> (\<forall>a s. g_store g a = Some s \<longrightarrow> (\<exists>t. g_store g' a = Some t \<and> s_id t = s_id s))"

lemma same_node_refl [simp]: "same_node g g"
  by (simp add: same_node_def)

lemma same_node_trans: "same_node g h \<Longrightarrow> same_node h k \<Longrightarrow> same_node g k"
  unfolding same_node_def by (metis (no_types, lifting))

lemma same_node_put: "g_store g a = Some s \<Longrightarrow> s_id t = s_id s \<Longrightarrow> same_node g (put_sender a t g)"
  by (simp add: same_node_def put_sender_def)

lemma same_node_put_trans:
  "g_store g a = Some s \<Longrightarrow> s_id t = s_id s \<Longrightarrow> same_node (put_sender a t g) h \<Longrightarrow> same_node g h"
  by (rule same_node_trans[OF same_node_put])

lemma same_node_group: "same_node g (g\<lparr>g_pop_queue := q\<rparr>)" "same_node g (g\<lparr>g_pending_removal := q\<rparr>)"
  "same_node g (g\<lparr>g_popping := b\<rparr>)"
  by (simp_all add: same_node_def)

locale quiet_upper =
  fixes up :: "'a upper"
  assumes upper: "holds (same_node g) (up ev g)"
begin

lemma handler_same:
  "sig \<in> {Received_data_signal stream data, Received_control_packet_signal p, Failed_signal} \<Longrightarrow>
     holds (same_node g) (causal_handler up a sig g)"
  by (auto simp: causal_handler_def upper holds_andthenI simp del: holds_simps(3))

sublocale engine: pop_engine "causal_handler up" "\<lambda>_. True" same_node "\<lambda>_ _ _. True" same_node "\<lambda>_ _ _. True"
proof unfold_locales
  fix g :: "'a causal_scheme" and a p
  have adv: "holds (same_node g) (upd_sender a (\<lambda>s. Inr (advance_control s)) g)"
    by (auto simp: upd_sender_def advance_control_def Let_def simp del: holds_simps(3)
        intro!: holds_andthenI same_node_put)
  have sig: "holds (same_node h) (signal_control_packet (causal_handler up) a p h)" for h
    unfolding signal_control_packet_def
  proof (rule holds_andthenI)
    fix k assume "upd_sender a (\<lambda>s. set_state (max STATE_RUNNING (s_state s)) s) h = Inr k"
    then have "same_node h k"
      by (auto simp: upd_sender_def andthen_eq_Inr set_state_def intro: same_node_put)
    then show "holds (same_node h) (causal_handler up a (Received_control_packet_signal p) k)"
      by (intro holds_mono[OF handler_same]) (auto intro: same_node_trans)
  qed
  from adv sig show "holds (same_node g) (output_control (causal_handler up) a p g)"
    unfolding output_control_def
    by (auto simp: holds_iff andthen_eq_Inr split: if_splits intro: same_node_trans)
qed (auto intro: same_node_trans same_node_put same_node_group holds_mono[OF handler_same]
      simp: stutter_def)

lemma pop_packets_same: "holds (same_node g) (pop_packets (causal_handler up) n a g)"
proof (induction n arbitrary: a g)
  case (Suc n)
  show ?case
  proof (cases "g_popping g")
    case True
    then show ?thesis by (simp add: same_node_group)
  next
    case False
    have "same_node g (h\<lparr>g_popping := False\<rparr>)" if "same_node (g\<lparr>g_popping := True\<rparr>) h" for h
      using that same_node_group(3) same_node_trans by blast
    then show ?thesis using engine.R_pop_packets[OF Suc.IH TrueI False, of a]
      by (auto simp del: pop_packets.simps intro: holds_mono)
  qed
qed simp

lemma sender_push_same: "holds (same_node g) (sender_push (causal_handler up) n a p g)"
proof -
  have "holds (same_node g) (pop_packets (causal_handler up) n a (put_sender a (store_packet p s) g))"
    if "g_store g a = Some s" for s
    by (rule holds_mono[OF pop_packets_same]) (rule same_node_put_trans[OF that], simp_all add: store_packet_fields)
  then show ?thesis
    by (auto simp: sender_push_def insert_packet_def get_sender_def Let_def simp del: holds_simps(3)
        intro!: holds_andthenI)
qed

lemma push_self_same: "holds (same_node g) (push_self up n p g)"
  unfolding push_self_def by (auto simp: sender_push_same)

end


section \<open>What goes out\<close>

lemma sendout_packet_sent:
  assumes "sendout_packet p g = Inr (ok, g')" "pkt_raw p = None"
  shows "length (wire p) \<le> pkt_max_data p \<and> ct_sent g' = ct_sent g @ [wire p]
    \<and> ct_packet_id g' = ct_packet_id g \<and> ct_self g' = ct_self g
    \<and> ct_max_packet_size g' = ct_max_packet_size g \<and> g_store g' = g_store g"
proof -
  have b: "buildable p"
  proof (rule ccontr)
    assume "\<not> buildable p"
    with packet_build_not_buildable[OF assms(2)] assms(1) show False
      by (auto simp: sendout_packet_def Let_def packet_get_raw_data_def andthen_eq_Inr returns_iff)
  qed
  with assms show ?thesis
    by (auto simp: sendout_packet_def Let_def packet_get_raw_data_def packet_build_wire andthen_eq_Inr
        schedule_keepalive_message_def buildable_def)
qed

text \<open>The packet that carries a chunk of a message.\<close>

definition chunk_packet ::
    "u32 \<Rightarrow> nat \<Rightarrow> u16 \<Rightarrow> u32 \<Rightarrow> u32 \<Rightarrow> u8 \<Rightarrow> sender_info list \<Rightarrow> u8 list \<Rightarrow> packet" where
  "chunk_packet i max_size stream_id total_size packet_id flags depends chunk =
     \<lparr>pkt_version = PACKET_VERSION, pkt_sender = i, pkt_packet_id = packet_id, pkt_depends = depends,
      pkt_data = Data flags total_size stream_id chunk, pkt_max_data = max_size, pkt_raw = None\<rparr>"

lemma chunk_packet_simps [simp]:
  "pkt_raw (chunk_packet i mx st tot pid fl ds c) = None"
  "pkt_max_data (chunk_packet i mx st tot pid fl ds c) = mx"
  "pkt_type (chunk_packet i mx st tot pid fl ds c) = PACKET_TYPE_DATA"
  "is_reliable_packet (chunk_packet i mx st tot pid fl ds c)"
  "packet_set_data_info (chunk_packet i mx st tot pid fl ds c) st' fl' tot' = Inr (chunk_packet i mx st' tot' pid fl' ds c)"
  "take_packet_id (chunk_packet i mx st tot pid fl ds c) g =
    Inr (chunk_packet i mx st tot (ct_packet_id g) fl ds c, g\<lparr>ct_packet_id := ct_packet_id g + 1\<rparr>)"
  by (simp_all add: chunk_packet_def pkt_type_def is_reliable_packet_def packet_set_data_info_def
      take_packet_id_def packet_set_packet_id_def)

lemma packet_new_chunk: "packet_new PACKET_TYPE_DATA i mx = chunk_packet i mx 0 0 0 0 [] []"
  by (simp add: packet_new_def chunk_packet_def)

lemma add_payload_chunk:
  "packet_add_payload (chunk_packet i mx st tot pid fl ds []) bytes = Inr (p, n) \<Longrightarrow>
     n \<le> length bytes \<and> p = chunk_packet i mx st tot pid fl ds (take n bytes)"
  by (auto simp: packet_add_payload_def chunk_packet_def andthen_eq_Inr Let_def)

context quiet_upper
begin

lemma send_fragments_sent:
  assumes "send_fragments up n k st data (chunk_packet i mx st tot pid fl ds c) m g = Inr (q, g')"
    and "ct_self g = Some a" "g_store g a = Some s" "s_id s = i" "ct_max_packet_size g = mx"
    and "tot = of_nat (length data)" "m \<le> length data"
  shows "\<exists>cs d. q = chunk_packet i mx st tot 0 0 [] d \<and> concat cs @ d = drop m data
    \<and> ct_sent g' = ct_sent g @ wire (chunk_packet i mx st tot (ct_packet_id g) fl ds c)
        # map (\<lambda>j. wire (chunk_packet i mx st tot (ct_packet_id g + 1 + of_nat j) 0 [] (cs ! j))) [0..<length cs]
    \<and> ct_packet_id g' = ct_packet_id g + 1 + of_nat (length cs)
    \<and> length (wire (chunk_packet i mx st tot (ct_packet_id g) fl ds c)) \<le> mx
    \<and> (\<forall>j < length cs. length (wire (chunk_packet i mx st tot (ct_packet_id g + 1 + of_nat j) 0 [] (cs ! j))) \<le> mx)
    \<and> ct_self g' = Some a \<and> (\<exists>t. g_store g' a = Some t \<and> s_id t = i)"
  using assms
proof (induction k arbitrary: pid fl ds c m g s)
  case (Suc k)
  let ?p = "chunk_packet i mx st tot (ct_packet_id g) fl ds c"
  let ?g = "g\<lparr>ct_packet_id := ct_packet_id g + 1\<rparr>"
  from Suc.prems(1) obtain ok g1 g2 s2 p3 added where
    1: "sendout_packet ?p ?g = Inr (ok, g1)" and 2: "push_self up n ?p g1 = Inr g2"
    and s2: "self_sender g2 = Inr s2"
    and 3: "packet_add_payload (packet_new PACKET_TYPE_DATA (s_id s2) (ct_max_packet_size g2)) (drop m data) = Inr (p3, added)"
    and rest: "andthen (packet_set_data_info p3 st 0 (of_nat (length data))) (\<lambda>p.
      if m + added < length data then send_fragments up n k st data p (m + added) g2 else Inr (p, g2)) = Inr (q, g')"
    by (auto simp: sendout_def andthen_eq_Inr Let_def)
  note sent = sendout_packet_sent[OF 1]
  have same: "same_node g1 g2" using holdsD[OF push_self_same 2] .
  obtain s' where s': "g_store g2 a = Some s'" "s_id s' = i"
    using same sent Suc.prems(3,4) by (auto simp: same_node_def)
  have g2: "ct_self g2 = Some a" "ct_max_packet_size g2 = mx" "ct_packet_id g2 = ct_packet_id g + 1"
    "ct_sent g2 = ct_sent g @ [wire ?p]"
    using same sent Suc.prems(2,5) by (auto simp: same_node_def)
  have "s2 = s'" using s2 g2(1) s'(1) by (simp add: self_sender_def)
  with 3 g2(2) s'(2) have p3: "added \<le> length (drop m data)" "p3 = chunk_packet i mx 0 0 0 0 [] (take added (drop m data))"
    unfolding packet_new_chunk by (auto dest: add_payload_chunk)
  let ?d = "take added (drop m data)"
  have w: "length (wire ?p) \<le> mx" using sent by simp
  show ?case
  proof (cases "m + added < length data")
    case False
    then have "q = chunk_packet i mx st tot 0 0 [] ?d" "g' = g2" "?d = drop m data"
      using rest p3 Suc.prems(6) by auto
    with g2 s' w show ?thesis by (intro exI[of _ "[]"] exI[of _ ?d]) simp
  next
    case True
    then have run: "send_fragments up n k st data (chunk_packet i mx st tot 0 0 [] ?d) (m + added) g2 = Inr (q, g')"
      using rest p3(2) Suc.prems(6) by simp
    obtain cs d where IH: "q = chunk_packet i mx st tot 0 0 [] d" "concat cs @ d = drop (m + added) data"
      "ct_sent g' = ct_sent g2 @ wire (chunk_packet i mx st tot (ct_packet_id g2) 0 [] ?d)
        # map (\<lambda>j. wire (chunk_packet i mx st tot (ct_packet_id g2 + 1 + of_nat j) 0 [] (cs ! j))) [0..<length cs]"
      "ct_packet_id g' = ct_packet_id g2 + 1 + of_nat (length cs)"
      "length (wire (chunk_packet i mx st tot (ct_packet_id g2) 0 [] ?d)) \<le> mx"
      "\<forall>j < length cs. length (wire (chunk_packet i mx st tot (ct_packet_id g2 + 1 + of_nat j) 0 [] (cs ! j))) \<le> mx"
      "ct_self g' = Some a" "\<exists>t. g_store g' a = Some t \<and> s_id t = i"
      using Suc.IH[OF run g2(1) s'(1,2) g2(2) Suc.prems(6)] True by auto
    have cat: "concat (?d # cs) @ d = drop m data"
      using IH(2) append_take_drop_id[of added "drop m data"] by (simp add: add.commute)
    have ids: "ct_packet_id g2 + 1 + of_nat j = ct_packet_id g + 1 + of_nat (Suc j)" for j
      by (simp add: g2(3))
    have upt: "[0..<length (?d # cs)] = 0 # map Suc [0..<length cs]"
      by (simp only: map_Suc_upt length_Cons upt_conv_Cons[OF zero_less_Suc])
    have "ct_sent g' = ct_sent g @ wire ?p
        # map (\<lambda>j. wire (chunk_packet i mx st tot (ct_packet_id g + 1 + of_nat j) 0 [] ((?d # cs) ! j))) [0..<length (?d # cs)]"
      unfolding upt using IH(3) g2(3,4) by (simp add: comp_def add_ac)
    moreover have "length (wire (chunk_packet i mx st tot (ct_packet_id g + 1 + of_nat j) 0 [] ((?d # cs) ! j))) \<le> mx"
      if "j < length (?d # cs)" for j
      using that IH(5,6) g2(3) by (cases j) (auto simp: add_ac)
    ultimately show ?thesis
      using IH(1,4,7,8) cat w g2(3)
      by (intro exI[of _ "?d # cs"] exI[of _ d]) (simp add: algebra_simps)
  qed
qed simp

end

section \<open>Dependencies\<close>

text \<open>What a packet sent now depends on: everything that was delivered so far, of every other live sender.\<close>

definition live_peer :: "'a causal_scheme \<Rightarrow> saddr \<Rightarrow> bool" where
  "live_peer g a \<longleftrightarrow> (\<exists>s. g_store g a = Some s \<and> STATE_PREPARING \<le> s_state s \<and> s_state s < STATE_FAILED)
     \<and> ct_self g \<noteq> Some a"

definition current_depends :: "'a causal_scheme \<Rightarrow> sender_info list" where
  "current_depends g = map (\<lambda>a. (s_id (the (g_store g a)), next_output_packet (the (g_store g a))))
     (filter (live_peer g) (map snd (g_senders g)))"

lemma foreach_add_depends:
  assumes "\<forall>a \<in> set as. g_store g a \<noteq> None" "is_reliable_packet p" "pkt_raw p = None"
  shows "foldo (\<lambda>a p. andthen (get_sender a g) (\<lambda>s. add_depend (ct_self g) a s p)) as p =
    Inr (p\<lparr>pkt_depends := pkt_depends p @ map (\<lambda>a. (s_id (the (g_store g a)), next_output_packet (the (g_store g a))))
      (filter (live_peer g) as)\<rparr>)"
  using assms
proof (induction as arbitrary: p)
  case (Cons a as)
  then obtain s where s: "g_store g a = Some s" by auto
  let ?p = "if live_peer g a then p\<lparr>pkt_depends := pkt_depends p @ [(s_id s, next_output_packet s)]\<rparr> else p"
  have step: "andthen (get_sender a g) (\<lambda>s. add_depend (ct_self g) a s p) = Inr ?p"
    using s Cons.prems(2,3)
    by (auto simp: get_sender_def add_depend_def live_peer_def packet_add_sender_info_def not_le not_less)
  have "is_reliable_packet ?p" "pkt_raw ?p = None"
    using Cons.prems(2,3) by (simp_all add: is_reliable_packet_def pkt_type_def)
  with Cons.IH[of ?p] Cons.prems(1) s step show ?case by simp
qed simp

lemma add_packet_depends_all:
  assumes "\<forall>a \<in> set (map snd (g_senders g)). g_store g a \<noteq> None" "is_reliable_packet p" "pkt_raw p = None"
  shows "add_packet_depends p g = Inr (p\<lparr>pkt_depends := pkt_depends p @ current_depends g\<rparr>)"
  unfolding add_packet_depends_def foreach_add_def current_depends_def using foreach_add_depends[OF assms] .

section \<open>Messages\<close>

text \<open>
  The packets of a message: numbered from \<open>pid\<close> on, the first with the START flag and the
  dependencies, the last with the END flag, each with a chunk of the data and the size of all of it.
\<close>

definition message_packets ::
    "u32 \<Rightarrow> nat \<Rightarrow> u16 \<Rightarrow> u32 \<Rightarrow> sender_info list \<Rightarrow> u8 list list \<Rightarrow> packet list" where
  "message_packets i max_size stream_id pid depends chunks =
     map (\<lambda>k. chunk_packet i max_size stream_id (of_nat (length (concat chunks))) (pid + of_nat k)
                ((if k = 0 then DATA_PACKET_START else 0) OR (if Suc k = length chunks then DATA_PACKET_END else 0))
                (if k = 0 then depends else []) (chunks ! k))
       [0..<length chunks]"

lemma upt_ends: "[0..<Suc (Suc n)] = 0 # map Suc [0..<n] @ [Suc n]"
  by (subst upt_Suc_append, simp, subst upt_conv_Cons, simp_all only: zero_less_Suc map_Suc_upt append_Cons)

lemma message_packets_split:
  assumes "cs \<noteq> []" "d' = concat (cs @ [d])"
  shows "message_packets i mx st pid ds (cs @ [d]) =
    chunk_packet i mx st (of_nat (length d')) pid DATA_PACKET_START ds (hd cs)
    # map (\<lambda>j. chunk_packet i mx st (of_nat (length d')) (pid + 1 + of_nat j) 0 [] (tl cs ! j)) [0..<length (tl cs)]
    @ [chunk_packet i mx st (of_nat (length d')) (pid + of_nat (length cs)) DATA_PACKET_END [] d]"
proof -
  obtain c cs' where cs: "cs = c # cs'" using assms(1) by (cases cs) auto
  have u: "[0..<length (cs @ [d])] = 0 # map Suc [0..<length cs'] @ [Suc (length cs')]"
    using upt_ends[of "length cs'"] by (simp add: cs)
  show ?thesis
    unfolding message_packets_def u assms(2)[symmetric] using cs
    by (simp add: comp_def nth_append algebra_simps)
qed


context quiet_upper
begin

lemma causal_send_sent:
  assumes "\<not> ct_resetting g" "ct_self g = Some a" "g_store g a = Some s"
    and "\<forall>b \<in> set (map snd (g_senders g)). g_store g b \<noteq> None"
  shows "holds (\<lambda>(ok, g'). \<exists>chunks.
      let ps = message_packets (s_id s) (ct_max_packet_size g) st (ct_packet_id g) (current_depends g) chunks in
      chunks \<noteq> [] \<and> concat chunks = data \<and> ct_sent g' = ct_sent g @ map wire ps
      \<and> ct_packet_id g' = ct_packet_id g + of_nat (length ps)
      \<and> (\<forall>p \<in> set ps. length (wire p) \<le> ct_max_packet_size g))
    (causal_send up n st data g)"
proof (rule holdsI)
  fix x assume run: "causal_send up n st data g = Inr x"
  let ?i = "s_id s" and ?mx = "ct_max_packet_size g" and ?tot = "of_nat (length data) :: u32"
    and ?ds = "current_depends g" and ?pid = "ct_packet_id g"
  have dep: "add_packet_depends (chunk_packet ?i ?mx 0 0 0 0 [] []) g = Inr (chunk_packet ?i ?mx 0 0 0 0 ?ds [])"
    using add_packet_depends_all[OF assms(4) chunk_packet_simps(4,1), of ?i ?mx 0 0 0 0 "[]" "[]"]
    by (simp add: chunk_packet_def)
  obtain p1 m where 1: "packet_add_payload (chunk_packet ?i ?mx 0 0 0 0 ?ds []) data = Inr (p1, m)"
    using run assms(1-3) dep
    by (auto simp: causal_send_def self_sender_def get_sender_def packet_new_chunk andthen_eq_Inr)
  then have p1: "p1 = chunk_packet ?i ?mx 0 0 0 0 ?ds (take m data)" by (auto dest: add_payload_chunk)
  let ?body = "if m < length data then
                   andthen (send_fragments up n n st data (chunk_packet ?i ?mx st ?tot 0 DATA_PACKET_START ?ds (take m data)) m g) (\<lambda>(p, g).
                   andthen (packet_set_data_info p st DATA_PACKET_END ?tot) (\<lambda>p. Inr (p, g)))
                 else
                   Inr (chunk_packet ?i ?mx st ?tot 0 (DATA_PACKET_START OR DATA_PACKET_END) ?ds (take m data), g)"
  have body: "andthen ?body (\<lambda>(p, g). andthen (take_packet_id p g) (\<lambda>(p, g).
      andthen (push_self up n p g) (\<lambda>g. sendout_packet p g))) = Inr x"
    using run assms(1-3) dep 1
    by (simp add: causal_send_def self_sender_def get_sender_def packet_new_chunk p1 cong: if_cong)
  then obtain q g1 where 2: "?body = Inr (q, g1)" by (cases ?body) auto
  from body have 3: "andthen (take_packet_id q g1) (\<lambda>(p, g).
        andthen (push_self up n p g) (\<lambda>g. sendout_packet p g)) = Inr x"
    unfolding 2 by simp
  have m: "m \<le> length data" using add_payload_chunk[OF 1] by simp
  obtain cs fl ds d where q: "q = chunk_packet ?i ?mx st ?tot 0 fl ds d"
    and g1: "ct_sent g1 = ct_sent g @ map wire (butlast (message_packets ?i ?mx st ?pid ?ds (cs @ [d])))"
      "ct_packet_id g1 = ?pid + of_nat (length cs)"
    and cat: "concat (cs @ [d]) = data"
    and final: "chunk_packet ?i ?mx st ?tot (?pid + of_nat (length cs)) fl ds d
        = last (message_packets ?i ?mx st ?pid ?ds (cs @ [d]))"
    and fit: "\<forall>p \<in> set (butlast (message_packets ?i ?mx st ?pid ?ds (cs @ [d]))). length (wire p) \<le> ?mx"
  proof (cases "m < length data")
    case False
    with m have e: "take m data = data" by simp
    have ps: "message_packets ?i ?mx st ?pid ?ds ([] @ [data]) =
        [chunk_packet ?i ?mx st ?tot ?pid (DATA_PACKET_START OR DATA_PACKET_END) ?ds data]"
      by (simp add: message_packets_def)
    have q: "q = chunk_packet ?i ?mx st ?tot 0 (DATA_PACKET_START OR DATA_PACKET_END) ?ds data" "g1 = g"
      using 2 unfolding if_not_P[OF False] e sum.inject prod.inject by (blast, blast)
    show thesis
      by (rule that[of "DATA_PACKET_START OR DATA_PACKET_END" ?ds data "[]"]) (simp_all only: q ps, simp_all)
  next
    case True
    with 2 obtain q' where frag: "send_fragments up n n st data
        (chunk_packet ?i ?mx st ?tot 0 DATA_PACKET_START ?ds (take m data)) m g = Inr (q', g1)"
      and q': "packet_set_data_info q' st DATA_PACKET_END ?tot = Inr q"
      by (auto simp: andthen_eq_Inr)
    let ?c = "take m data"
    obtain cs d where IH: "q' = chunk_packet ?i ?mx st ?tot 0 0 [] d" "concat cs @ d = drop m data"
      "ct_sent g1 = ct_sent g @ wire (chunk_packet ?i ?mx st ?tot ?pid DATA_PACKET_START ?ds ?c)
        # map (\<lambda>j. wire (chunk_packet ?i ?mx st ?tot (?pid + 1 + of_nat j) 0 [] (cs ! j))) [0..<length cs]"
      "ct_packet_id g1 = ?pid + 1 + of_nat (length cs)"
      "length (wire (chunk_packet ?i ?mx st ?tot ?pid DATA_PACKET_START ?ds ?c)) \<le> ?mx"
      "\<forall>j < length cs. length (wire (chunk_packet ?i ?mx st ?tot (?pid + 1 + of_nat j) 0 [] (cs ! j))) \<le> ?mx"
      using send_fragments_sent[OF frag assms(2,3) refl refl refl m] by blast
    have cat: "data = concat ((?c # cs) @ [d])"
      using IH(2) append_take_drop_id[of m data] by simp
    note ps = message_packets_split[OF list.distinct(2) cat, of ?i ?mx st ?pid ?ds, unfolded append_Cons list.sel]
    show thesis
    proof (rule that[of DATA_PACKET_END "[]" d "?c # cs"])
      show "q = chunk_packet ?i ?mx st ?tot 0 DATA_PACKET_END [] d" using q' IH(1) by simp
      show "ct_sent g1 = ct_sent g @ map wire (butlast (message_packets ?i ?mx st ?pid ?ds ((?c # cs) @ [d])))"
        using IH(3) by (simp add: ps butlast_append comp_def)
      show "ct_packet_id g1 = ?pid + of_nat (length (?c # cs))" using IH(4) by (simp add: algebra_simps)
      show "concat ((?c # cs) @ [d]) = data" using cat by simp
      show "chunk_packet ?i ?mx st ?tot (?pid + of_nat (length (?c # cs))) DATA_PACKET_END [] d
          = last (message_packets ?i ?mx st ?pid ?ds ((?c # cs) @ [d]))" by (simp add: ps)
      show "\<forall>p \<in> set (butlast (message_packets ?i ?mx st ?pid ?ds ((?c # cs) @ [d]))). length (wire p) \<le> ?mx"
        using IH(5,6) by (auto simp add: ps butlast_append)
    qed
  qed
  let ?ps = "message_packets ?i ?mx st ?pid ?ds (cs @ [d])"
  have ne: "?ps \<noteq> []" by (simp add: message_packets_def)
  let ?p = "chunk_packet ?i ?mx st ?tot (?pid + of_nat (length cs)) fl ds d"
  from 3 q g1(2) obtain h where h: "push_self up n ?p (g1\<lparr>ct_packet_id := ct_packet_id g1 + 1\<rparr>) = Inr h"
    "sendout_packet ?p h = Inr x"
    by (auto simp: andthen_eq_Inr)
  obtain ok g' where x: "x = (ok, g')" by (cases x)
  have same: "same_node (g1\<lparr>ct_packet_id := ct_packet_id g1 + 1\<rparr>) h" using holdsD[OF push_self_same h(1)] .
  note sent = sendout_packet_sent[OF h(2)[unfolded x] chunk_packet_simps(1)]
  have h': "ct_sent h = ct_sent g1" "ct_packet_id h = ct_packet_id g1 + 1"
    using same by (simp_all add: same_node_def)
  have "ct_sent g' = ct_sent h @ [wire (last ?ps)]" unfolding final[symmetric] using sent by blast
  then have "ct_sent g' = ct_sent g @ map wire (butlast ?ps) @ [wire (last ?ps)]"
    unfolding h'(1) g1(1) by simp
  then have "ct_sent g' = ct_sent g @ map wire ?ps"
    using append_butlast_last_id[OF ne] by (metis list.simps(8,9) map_append)
  moreover have "ct_packet_id g' = ?pid + of_nat (length ?ps)"
    using sent h'(2) g1(2) by (simp add: message_packets_def algebra_simps)
  moreover have "length (wire (last ?ps)) \<le> ?mx" unfolding final[symmetric] using sent by simp
  then have "\<forall>p \<in> set ?ps. length (wire p) \<le> ?mx"
    using fit append_butlast_last_id[OF ne] by (metis (no_types, lifting) UnE empty_iff empty_set set_ConsD set_append)
  ultimately show "case x of (ok, g') \<Rightarrow> \<exists>chunks.
      let ps = message_packets ?i ?mx st ?pid ?ds chunks in
      chunks \<noteq> [] \<and> concat chunks = data \<and> ct_sent g' = ct_sent g @ map wire ps
      \<and> ct_packet_id g' = ?pid + of_nat (length ps) \<and> (\<forall>p \<in> set ps. length (wire p) \<le> ?mx)"
    using cat unfolding x by (auto simp: Let_def intro!: exI[of _ "cs @ [d]"])
qed

end


text \<open>A transport no upper layer has connected its handlers to.\<close>

definition unconnected_upper :: "'a upper" where
  "unconnected_upper ev g = Inr g"

interpretation unconnected: quiet_upper unconnected_upper
  by unfold_locales (simp add: unconnected_upper_def)







end
