(* ===== verification/Membership_Properties.thy ===== *)
theory Membership_Properties
  imports Node
begin

text \<open>
  What the membership protocol of \<open>lib/gibber/gibber-r-multicast-transport.c\<close> computes: how the
  states of the members rise while information is gathered, what a JOIN contains, when two nodes take
  each other's JOIN for equal, and what the table of members is afterwards.
\<close>

section \<open>The table of members\<close>

named_theorems member_simps

lemma lookup_put [member_simps]:
  "lookup_member i (put_member j m g) = (if i = j then Some m else lookup_member i g)"
  by (simp add: lookup_member_def put_member_def update_conv')

lemma lookup_remove [member_simps]:
  "lookup_member i (remove_member j g) = (if i = j then None else lookup_member i g)"
  by (simp add: lookup_member_def remove_member_def delete_conv')

lemma put_member_frame [member_simps]:
  "ct_sender_id (put_member i m g) = ct_sender_id g" "g_senders (put_member i m g) = g_senders g"
  "g_store (put_member i m g) = g_store g" "mt_send_join (put_member i m g) = mt_send_join g"
  "mt_send_join_failures (put_member i m g) = mt_send_join_failures g" "mt_state (put_member i m g) = mt_state g"
  "g_senders (remove_member i g) = g_senders g" "g_store (remove_member i g) = g_store g"
  "ct_sender_id (remove_member i g) = ct_sender_id g"
  by (simp_all add: put_member_def remove_member_def)

lemma members_of_put_sender [member_simps]:
  "lookup_member i (put_sender a s g) = lookup_member i g" "ct_sender_id (put_sender a s g) = ct_sender_id g"
  "mt_members (put_sender a s g) = mt_members g"
  by (simp_all add: lookup_member_def put_sender_def)

lemma unknown_least [simp]: "MEMBER_STATE_UNKNOWN \<le> s" "\<not> s < MEMBER_STATE_UNKNOWN"
  by (simp_all add: member_order)

section \<open>Gathering\<close>

lemma causal_add_sender_members:
  "causal_add_sender i g = Inr (a, g') \<Longrightarrow> lookup_member j g' = lookup_member j g \<and> ct_sender_id g' = ct_sender_id g"
  by (auto simp: causal_add_sender_def sender_new_def group_add_def get_sender_def Let_def andthen_eq_Inr
      lookup_member_def put_sender_def split: option.splits)

lemma member_get_info_spec:
  assumes "member_get_info i g = Inr (m, g')"
  shows "m = (case lookup_member i g of None \<Rightarrow> new_member_info i | Some m \<Rightarrow> m)"
    and "g' = (if lookup_member i g = None then put_member i m g else g)"
  using assms by (auto simp: member_get_info_def get_member_def new_member_def andthen_eq_Inr member_simps
      split: if_splits option.splits)

lemma upd_sender_members:
  "upd_sender a f g = Inr g' \<Longrightarrow> lookup_member j g' = lookup_member j g \<and> ct_sender_id g' = ct_sender_id g"
  by (auto simp: upd_sender_def andthen_eq_Inr member_simps)

lemma update_member_spec:
  assumes "update_member i st pid g = Inr (c, g')" "i \<noteq> ct_sender_id g"
  shows "c \<longleftrightarrow> member_get_state i g < st"
    and "lookup_member j g' = (if j = i
      then Some ((case lookup_member i g of None \<Rightarrow> new_member_info i | Some m \<Rightarrow> m)\<lparr>mi_state := max (member_get_state i g) st\<rparr>)
      else lookup_member j g)"
    and "ct_sender_id g' = ct_sender_id g"
proof -
  obtain a g1 m g2 where 1: "causal_add_sender i g = Inr (a, g1)" "member_get_info i g1 = Inr (m, g2)"
    using assms by (auto simp: update_member_def andthen_eq_Inr)
  note g1 = causal_add_sender_members[OF 1(1)]
  have m: "m = (case lookup_member i g of None \<Rightarrow> new_member_info i | Some m \<Rightarrow> m)"
    using member_get_info_spec(1)[OF 1(2)] g1 by simp
  have st: "mi_state m = member_get_state i g"
    by (simp add: m member_get_state_def new_member_info_def split: option.split)
  have g2: "ct_sender_id g2 = ct_sender_id g" "lookup_member j g2 = (if j = i then Some m else lookup_member j g)" for j
    using member_get_info_spec(2)[OF 1(2)] g1 by (auto simp: member_simps m split: option.splits)
  let ?m = "m\<lparr>mi_state := max (mi_state m) st\<rparr>"
  let ?up = "mi_state m < st \<and> mi_state ?m \<ge> MEMBER_STATE_ATTEMPT_JOIN_REPEAT \<and> mi_state ?m < MEMBER_STATE_JOINING"
  have "andthen (if ?up then upd_sender a (sender_update_start pid) (put_member i ?m g2) else Inr (put_member i ?m g2))
      (\<lambda>g. Inr (mi_state m < st, g)) = Inr (c, g')"
    using assms 1 by (simp add: update_member_def Let_def)
  then have 3: "(if ?up then upd_sender a (sender_update_start pid) (put_member i ?m g2) else Inr (put_member i ?m g2)) = Inr g'"
    "c = (mi_state m < st)" unfolding andthen_eq_Inr by auto
  have g3: "ct_sender_id g' = ct_sender_id g" "lookup_member j g' = (if j = i then Some ?m else lookup_member j g)" for j
    using 3(1) upd_sender_members[of a "sender_update_start pid" "put_member i ?m g2" g'] g2
    by (auto simp: member_simps split: if_splits)
  show "c \<longleftrightarrow> member_get_state i g < st" by (simp add: 3(2) st)
  show "lookup_member j g' = (if j = i
      then Some ((case lookup_member i g of None \<Rightarrow> new_member_info i | Some m \<Rightarrow> m)\<lparr>mi_state := max (member_get_state i g) st\<rparr>)
      else lookup_member j g)"
    unfolding m[symmetric] st[symmetric] by (rule g3(2))
  show "ct_sender_id g' = ct_sender_id g" by (rule g3(1))
qed


lemma update_members_spec:
  assumes "update_members st infos changed g = Inr (c, g')"
  shows "ct_sender_id g' = ct_sender_id g
    \<and> (\<forall>i. member_get_state i g' = (if i \<noteq> ct_sender_id g \<and> i \<in> fst ` set infos
          then max (member_get_state i g) st else member_get_state i g))
    \<and> (\<forall>i. lookup_member i g' \<noteq> None \<longleftrightarrow> lookup_member i g \<noteq> None \<or> i \<noteq> ct_sender_id g \<and> i \<in> fst ` set infos)
    \<and> (c \<longleftrightarrow> changed \<or> (\<exists>i \<in> fst ` set infos. i \<noteq> ct_sender_id g \<and> member_get_state i g < st))"
  using assms
proof (induction infos arbitrary: changed g)
  case (Cons x infos)
  obtain i pid where x: "x = (i, pid)" by (cases x)
  then obtain c1 g1 where 1: "update_member i st pid g = Inr (c1, g1)"
    "update_members st infos (changed \<or> c1) g1 = Inr (c, g')" using Cons.prems by (auto simp: andthen_eq_Inr)
  note IH = Cons.IH[OF 1(2)]
  show ?case
  proof (cases "i = ct_sender_id g")
    case True
    then have "c1 = False" "g1 = g" using 1(1) by (auto simp: update_member_def)
    with IH True x show ?thesis by auto
  next
    case False
    note u = update_member_spec[OF 1(1) False]
    have s: "member_get_state j g1 = (if j = i then max (member_get_state i g) st else member_get_state j g)" for j
      by (simp add: member_get_state_def[of j g1] u(2)) (simp add: member_get_state_def)
    have l: "lookup_member j g1 \<noteq> None \<longleftrightarrow> lookup_member j g \<noteq> None \<or> j = i" for j by (simp add: u(2))
    from IH show ?thesis unfolding u(3) s l u(1) x
      using False by (auto simp: max_def)
  qed
qed simp

text \<open>
  Gathering only ever raises what is known of a node. Processing a foreign packet, or the list of
  an ATTEMPT_JOIN, gives every node it names (its sender, and all its dependencies, except this node
  itself) an entry, and raises its state to at least the given one; no other entry changes its state,
  none disappears, and the result says whether any state was raised.
\<close>

theorem gathering_raises_states:
  "holds (\<lambda>(changed, g').
      (let ids = {i. i = pkt_sender p \<or> i \<in> fst ` set (pkt_depends p)} - {ct_sender_id g} in
       (\<forall>i. member_get_state i g' = (if i \<in> ids then max (member_get_state i g) st else member_get_state i g))
       \<and> (\<forall>i. lookup_member i g' \<noteq> None \<longleftrightarrow> lookup_member i g \<noteq> None \<or> i \<in> ids)
       \<and> (changed \<longleftrightarrow> (\<exists>i \<in> ids. member_get_state i g < st))))
    (update_foreign_member_list p st g)"
proof (rule holdsI)
  fix x assume run: "update_foreign_member_list p st g = Inr x"
  obtain c g' where x: "x = (c, g')" by (cases x)
  let ?S = "fst ` set ((pkt_sender p, pkt_packet_id p + 1) # pkt_depends p)"
  have S: "{i. i = pkt_sender p \<or> i \<in> fst ` set (pkt_depends p)} - {ct_sender_id g} = ?S - {ct_sender_id g}" by auto
  note spec = update_members_spec[OF run[unfolded update_foreign_member_list_def x]]
  show "case x of (changed, g') \<Rightarrow>
      (let ids = {i. i = pkt_sender p \<or> i \<in> fst ` set (pkt_depends p)} - {ct_sender_id g} in
       (\<forall>i. member_get_state i g' = (if i \<in> ids then max (member_get_state i g) st else member_get_state i g))
       \<and> (\<forall>i. lookup_member i g' \<noteq> None \<longleftrightarrow> lookup_member i g \<noteq> None \<or> i \<in> ids)
       \<and> (changed \<longleftrightarrow> (\<exists>i \<in> ids. member_get_state i g < st)))"
    unfolding x Let_def prod.case S using spec by (auto simp del: list.set)
qed


text \<open>A node with id 7 that knows the members 8 and 9.\<close>

definition member_in :: "member_state \<Rightarrow> u32 \<Rightarrow> u32 \<times> member_info" where
  "member_in st i = (i, (new_member_info i)\<lparr>mi_state := st\<rparr>)"

definition gathering_node :: "unit membership_scheme" where
  "gathering_node =
     (case node_new [97] 1500 (\<lambda>_. True) [0] () of
        Inr g \<Rightarrow> g\<lparr>ct_sender_id := 7, mt_state := MT_NORMAL,
                  mt_members := [member_in MEMBER_STATE_MEMBER 8, member_in MEMBER_STATE_UNKNOWN 9]\<rparr>)"

lemmas gathering_node_simps = gathering_node_def node_new_def member_in_def new_member_info_def

definition join_request :: "u32 list \<Rightarrow> sender_info list \<Rightarrow> packet" where
  "join_request ids depends =
     (packet_new PACKET_TYPE_ATTEMPT_JOIN 8 1500)\<lparr>pkt_data := Attempt_join ids, pkt_depends := depends\<rparr>"

lemma gathering_runs:
  "returns (\<lambda>(c, g'). c) (update_foreign_member_list (join_request [] [(9, 4), (7, 2)]) MEMBER_STATE_ATTEMPT_JOIN_DONE gathering_node)"
  by (simp add: update_foreign_member_list_def join_request_def packet_new_def gathering_node_simps
      update_member_def causal_add_sender_def group_lookup_def sender_new_def group_add_def get_sender_def
      upd_sender_def sender_update_start_def set_state_def sender_init_def schedule_whois_request_def
      member_get_info_def get_member_def lookup_member_def put_member_def put_sender_def
      state_order member_order max_def Let_def cong: andthen_weak let_weak_cong del: returns_simps(3))

lemma gathering_raises_states_witness:
  "\<exists>g'. update_foreign_member_list (join_request [] [(9, 4), (7, 2)]) MEMBER_STATE_ATTEMPT_JOIN_DONE gathering_node = Inr (True, g')
     \<and> member_get_state 8 g' = MEMBER_STATE_MEMBER \<and> member_get_state 9 g' = MEMBER_STATE_ATTEMPT_JOIN_DONE
     \<and> member_get_state 7 g' = MEMBER_STATE_UNKNOWN"
proof -
  obtain g' where run: "update_foreign_member_list (join_request [] [(9, 4), (7, 2)]) MEMBER_STATE_ATTEMPT_JOIN_DONE gathering_node = Inr (True, g')"
    using gathering_runs by (auto simp: returns_iff)
  have n: "ct_sender_id gathering_node = 7" "member_get_state 8 gathering_node = MEMBER_STATE_MEMBER"
    "member_get_state 9 gathering_node = MEMBER_STATE_UNKNOWN" "member_get_state 7 gathering_node = MEMBER_STATE_UNKNOWN"
    "pkt_sender (join_request [] [(9, 4), (7, 2)]) = 8" "pkt_depends (join_request [] [(9, 4), (7, 2)]) = [(9, 4), (7, 2)]"
    by (simp_all add: gathering_node_simps member_get_state_def lookup_member_def join_request_def packet_new_def)
  show ?thesis
    using gathering_raises_states[of "join_request [] [(9, 4), (7, 2)]" gathering_node MEMBER_STATE_ATTEMPT_JOIN_DONE]
    unfolding run by (auto simp: Let_def n member_order max_def)
qed

section \<open>Comparing an ATTEMPT_JOIN\<close>

lemma find_member_None: "find_member f g = None \<longleftrightarrow> (\<forall>(i, m) \<in> set (mt_members g). \<not> f m)"
  unfolding find_member_def find_None_iff by auto

text \<open>
  The comparison that should tell a node that somebody else's ATTEMPT_JOIN covers its own never
  succeeds for the packets nodes send: a packet does not name its own sender, the sender is a member
  of the receiver, so the receiver always finds a member the packet does not know.
\<close>

theorem attempt_join_never_covers:
  assumes "pkt_data p = Attempt_join ids" "pkt_sender p \<notin> set ids" "pkt_sender p \<notin> fst ` set (pkt_depends p)"
    and "(pkt_sender p, m) \<in> set (mt_members g)" "mi_id m = pkt_sender p"
  shows "cmp_attempt_join_state p g = Inr (-1)"
proof -
  have "cmp_member_attempt_join_state ids (pkt_depends p) m"
    using assms by (auto simp: cmp_member_attempt_join_state_def depends_list_contains_def)
  with assms(4) have "find_member (cmp_member_attempt_join_state ids (pkt_depends p)) g \<noteq> None"
    unfolding find_member_None by auto
  with assms(1) show ?thesis by (simp add: cmp_attempt_join_state_def attempt_join_senders_def)
qed

lemma attempt_join_never_covers_witness:
  "cmp_attempt_join_state (join_request [9] [(7, 2)]) gathering_node = Inr (-1)"
  by (rule attempt_join_never_covers[where m = "snd (member_in MEMBER_STATE_MEMBER 8)" and ids = "[9]"])
     (simp_all add: join_request_def packet_new_def gathering_node_simps)

lemma update_members_known:
  assumes "\<forall>i \<in> fst ` set infos. i = ct_sender_id g \<or> lookup_member i g \<noteq> None \<and> st \<le> member_get_state i g"
  shows "returns (\<lambda>(c, g'). c = changed \<and> mt_state g' = mt_state g) (update_members st infos changed g)"
  using assms
proof (induction infos arbitrary: changed g)
  case (Cons x infos)
  obtain i pid where x: "x = (i, pid)" by (cases x)
  have "returns (\<lambda>(c, g'). \<not> c \<and> mt_state g' = mt_state g) (update_member i st pid g)"
  proof (cases "i = ct_sender_id g")
    case True
    then show ?thesis by (simp add: update_member_def)
  next
    case False
    then obtain m where m: "lookup_member i g = Some m" "st \<le> mi_state m"
      using Cons.prems x by (auto simp: member_get_state_def split: option.splits)
    obtain a g1 where g1: "causal_add_sender i g = Inr (a, g1)" "mt_state g1 = mt_state g"
    proof (cases "group_lookup i g")
      case (Some a)
      with that show thesis by (simp add: causal_add_sender_def)
    next
      case None
      with that show thesis
        by (auto simp: causal_add_sender_def sender_new_def group_add_def get_sender_def put_sender_def Let_def)
    qed
    have "member_get_info i g1 = Inr (m, g1)"
      using causal_add_sender_members[OF g1(1), of i] m by (simp add: member_get_info_def get_member_def)
    moreover have "\<not> mi_state m < st" using m(2) by simp
    ultimately show ?thesis using False g1 by (simp add: update_member_def Let_def put_member_frame)
  qed
  then obtain g1 where g1: "update_member i st pid g = Inr (False, g1)" "mt_state g1 = mt_state g"
    by (auto simp: returns_iff)
  have "\<forall>j \<in> fst ` set infos. j = ct_sender_id g1 \<or> lookup_member j g1 \<noteq> None \<and> st \<le> member_get_state j g1"
  proof (cases "i = ct_sender_id g")
    case True
    with g1(1) Cons.prems x show ?thesis by (auto simp: update_member_def)
  next
    case False
    note u = update_member_spec[OF g1(1) False]
    have "member_get_state j g1 = (if j = i then max (member_get_state i g) st else member_get_state j g)" for j
      by (simp add: member_get_state_def[of j g1] u(2)) (simp add: member_get_state_def)
    with Cons.prems u show ?thesis by (auto simp: max_def)
  qed
  from Cons.IH[OF this, of changed] g1 x show ?case by simp
qed simp

text \<open>
  C31. A single packet makes every receiver abort: an ATTEMPT_JOIN that asks for nobody and lists all
  members and the receiver as dependencies, but one of them twice. The comparison counts entries, takes
  the packet for one with more information, and the assertion that something changed fails.
\<close>

theorem duplicate_dependency_aborts:
  assumes "mt_state g \<noteq> MT_JOINING" "pkt_data p = Attempt_join []"
    and "fst ` set (pkt_depends p) = insert (ct_sender_id g) (fst ` set (mt_members g))"
    and "length (pkt_depends p) \<noteq> length (mt_members g) + 1"
    and "\<And>i m. (i, m) \<in> set (mt_members g) \<Longrightarrow> mi_id m = i \<and> MEMBER_STATE_ATTEMPT_JOIN_DONE \<le> mi_state m"
    and "pkt_sender p \<in> fst ` set (mt_members g)"
  shows "received_attempt_join p g = Inl Assertion_failed"
proof -
  have deps: "depends_list_contains (pkt_depends p) i \<longleftrightarrow> i = ct_sender_id g \<or> i \<in> fst ` set (mt_members g)" for i
    using assms(3) by (simp add: depends_list_contains_def)
  have "find_member (cmp_member_attempt_join_state [] (pkt_depends p)) g = None"
    unfolding find_member_None
  proof clarify
    fix i m assume m: "(i, m) \<in> set (mt_members g)" and c: "cmp_member_attempt_join_state [] (pkt_depends p) m"
    then have "i \<in> fst ` set (mt_members g)" "mi_id m = i" using assms(5)[OF m] by (force, simp)
    with c show False by (simp add: cmp_member_attempt_join_state_def deps)
  qed
  then have cmp: "cmp_attempt_join_state p g = Inr 1"
    using assms(2,4) by (simp add: cmp_attempt_join_state_def attempt_join_senders_def deps)
  have known: "lookup_member i g \<noteq> None \<and> MEMBER_STATE_ATTEMPT_JOIN_DONE \<le> member_get_state i g"
    if i: "i \<in> fst ` set (mt_members g)" for i
  proof -
    obtain m where m: "map_of (mt_members g) i = Some m"
      using i by (cases "map_of (mt_members g) i") (simp_all add: map_of_eq_None_iff)
    with assms(5)[OF map_of_SomeD[OF m]] show ?thesis by (simp add: lookup_member_def member_get_state_def)
  qed
  have "returns (\<lambda>(c, g'). \<not> c \<and> mt_state g' = mt_state g)
      (update_foreign_member_list p MEMBER_STATE_ATTEMPT_JOIN_DONE g)"
    unfolding update_foreign_member_list_def
    by (rule returns_mono[OF update_members_known]) (use assms(3,6) known in auto)
  with assms(1,2) cmp show ?thesis
    by (auto simp: received_attempt_join_def attempt_join_senders_def continue_gathering_phase_def returns_iff Let_def)
qed


lemma duplicate_dependency_aborts_witness:
  "received_attempt_join (join_request [] [(8, 0), (8, 0), (7, 2)])
     (gathering_node\<lparr>mt_members := [member_in MEMBER_STATE_MEMBER 8]\<rparr>) = Inl Assertion_failed"
  by (rule duplicate_dependency_aborts)
     (auto simp: join_request_def packet_new_def gathering_node_simps member_order)


section \<open>What a JOIN contains\<close>








lemma get_member_eq [simp]: "get_member i g = Inr m \<longleftrightarrow> lookup_member i g = Some m"
  by (simp add: get_member_def)

lemma foldo_invariant:
  assumes "foldo f xs g = Inr g'" "I g" "\<And>x g g'. I g \<Longrightarrow> f x g = Inr g' \<Longrightarrow> I g'"
  shows "I g'"
  using assms(1,2) by (induction xs arbitrary: g) (auto simp: andthen_eq_Inr dest: assms(3))







text \<open>The lists are only filled by \<open>add_to_join\<close>.\<close>

definition join_lists :: "'a membership_scheme \<Rightarrow> u32 list option \<times> u32 list option" where
  "join_lists g = (mt_send_join g, mt_send_join_failures g)"




lemma put_member_lists [simp]: "join_lists (put_member i m g) = join_lists g"
  by (simp add: join_lists_def member_simps)

lemma pending_failures_lists [simp]: "join_lists (g\<lparr>mt_pending_failures := fs\<rparr>) = join_lists g"
  by (simp add: join_lists_def)










end
