(* ===== verification/Bytestream.thy ===== *)
theory Bytestream
  imports Prelude
begin

text \<open>
  The interface of the bytestreams of \<open>lib/gibber\<close> (\<open>gibber-bytestream-iface.h\<close>): the
  states of a bytestream and the class record through which a tube uses it, whatever carries its
  bytes. A method returns the states its object went through, since each change emits
  \<open>state-changed\<close>; the user of the bytestream runs its callback on them.
\<close>

datatype bytestream_state =
    BYTESTREAM_STATE_LOCAL_PENDING
  | BYTESTREAM_STATE_ACCEPTED
  | BYTESTREAM_STATE_INITIATING
  | BYTESTREAM_STATE_OPEN
  | BYTESTREAM_STATE_CLOSING
  | BYTESTREAM_STATE_CLOSED

record 'b bytestream_class =
  bs_state :: "'b \<Rightarrow> bytestream_state"
  bs_is_muc :: "'b \<Rightarrow> bool"
  bs_send :: "u8 list \<Rightarrow> 'b \<Rightarrow> bool \<times> 'b \<times> bytestream_state list"
  bs_close :: "'b \<Rightarrow> 'b \<times> bytestream_state list"
  bs_set_state :: "bytestream_state \<Rightarrow> 'b \<Rightarrow> 'b \<times> bytestream_state list"

end
