(* ===== verification/Tube_Dbus.thy ===== *)
theory Tube_Dbus
  imports Bytestream
begin

text \<open>
  D-Bus tubes, \<open>src/tube-dbus.c\<close>: a tube carries the D-Bus messages of a local application
  over a bytestream, to one contact or to a room. The model has the whole state of
  \<open>SalutTubeDBusPrivate\<close> that the code reads: the bytestream, the local D-Bus server and
  connection, the queue of messages that wait for a connection, the D-Bus names of the members of a
  room, and the reassembly buffer of a contact's tube. A D-Bus message is a value of the type
  parameter \<open>'m\<close>, and libdbus is the record \<open>libdbus\<close> of the functions the code calls;
  the bytestream is a value of \<open>'b\<close> with its class. Messages for the application go to
  \<open>td_delivered\<close>, and \<open>td_signals\<close> logs what the tube emits. C strings are lists of bytes.
\<close>

section \<open>Data\<close>

datatype handle_type = TP_HANDLE_TYPE_CONTACT | TP_HANDLE_TYPE_ROOM

datatype tube_state =
    TUBE_STATE_LOCAL_PENDING | TUBE_STATE_REMOTE_PENDING | TUBE_STATE_OPEN | TUBE_STATE_NOT_OFFERED

datatype access_control =
    ACCESS_CONTROL_LOCALHOST | ACCESS_CONTROL_PORT | ACCESS_CONTROL_NETMASK | ACCESS_CONTROL_CREDENTIALS

datatype tube_signal =
    Tube_opened
  | Tube_closed
  | Tube_offered
  | Channel_destroyed
  | Tube_state_changed tube_state
  | Dbus_names_changed "(u32 \<times> u8 list) list" "u32 list"

record 'm libdbus =
  dbus_demarshal :: "u8 list \<Rightarrow> 'm option"
  dbus_marshal :: "'m \<Rightarrow> u8 list option"
  dbus_destination :: "'m \<Rightarrow> u8 list option"
  dbus_sender :: "'m \<Rightarrow> u8 list option"
  dbus_set_sender :: "u8 list \<Rightarrow> 'm \<Rightarrow> 'm"
  dbus_is_disconnected :: "'m \<Rightarrow> bool" \<comment> \<open>the signal \<open>Disconnected\<close> of \<open>org.freedesktop.DBus.Local\<close>\<close>

record ('m, 'b) tube_dbus =
  td_handle_type :: handle_type
  td_bytestream :: "'b option"
  td_offered :: bool
  td_access_control :: access_control
  td_local_name :: "u8 list option"
  td_srv_addr :: "u8 list option" \<comment> \<open>the server listens iff an address is set\<close>
  td_conn :: bool
  td_delivered :: "'m list" \<comment> \<open>what was sent on local connections\<close>
  td_msg_queue :: "'m list" \<comment> \<open>newest first\<close>
  td_msg_queue_size :: nat
  td_names :: "(u32 \<times> u8 list) list"
  td_buffer :: "u8 list option"
  td_needed :: u32
  td_closed :: bool
  td_data_handler :: bool \<comment> \<open>\<open>data_received_cb\<close> is connected\<close>
  td_random :: "nat list"
  td_signals :: "tube_signal list"

definition MAX_QUEUE_SIZE :: nat where
  "MAX_QUEUE_SIZE = 4096 * 1024"

text \<open>The limits and the endianness marks of the D-Bus wire protocol.\<close>

definition DBUS_MAXIMUM_MESSAGE_LENGTH :: u32 where
  "DBUS_MAXIMUM_MESSAGE_LENGTH = 134217728"

definition DBUS_MAXIMUM_ARRAY_LENGTH :: u32 where
  "DBUS_MAXIMUM_ARRAY_LENGTH = 67108864"

definition DBUS_LITTLE_ENDIAN :: u8 where
  "DBUS_LITTLE_ENDIAN = 108"

definition DBUS_BIG_ENDIAN :: u8 where
  "DBUS_BIG_ENDIAN = 66"

definition tube_emit :: "tube_signal \<Rightarrow> ('m, 'b) tube_dbus \<Rightarrow> ('m, 'b) tube_dbus" where
  "tube_emit sg t = t\<lparr>td_signals := td_signals t @ [sg]\<rparr>"

section \<open>Names\<close>

definition ascii_chars :: "u8 list" where
  "ascii_chars = map (\<lambda>c. of_char c)
     ''0123456789abcdefghijklmnopqrstuvwxyzABCDEFGHIJKLMNOPQRSTUVWXYZ_-''"

definition generate_ascii_string :: "nat list \<Rightarrow> u8 list" where
  "generate_ascii_string rs = map (\<lambda>r. ascii_chars ! r) rs"

definition plain_char :: "u8 \<Rightarrow> u8" where
  "plain_char c = (if c = of_char (CHR ''+'') then of_char (CHR ''_'')
     else if c = of_char (CHR ''/'') then of_char (CHR ''-'')
     else if c = of_char (CHR ''='') then of_char (CHR ''A'') else c)"

definition generate_dbus_unique_name ::
    "(u8 list \<Rightarrow> u8 list) \<Rightarrow> (u8 list \<Rightarrow> u8 list) \<Rightarrow> u8 list \<Rightarrow> u8 list" where
  "generate_dbus_unique_name base64_encode sha1_bin nick =
     (let encoded = (if length nick \<le> 186 then base64_encode nick
                     else base64_encode (take 169 nick @ sha1_bin nick))
      in map of_char '':2.'' @ map plain_char encoded)"

section \<open>Server, states and closing\<close>

text \<open>
  Each attempt draws eight random characters. \<open>listen\<close> is the environment: the address, in the
  directory of temporary files, on which \<open>dbus_server_listen\<close> succeeds for such a suffix, if it
  does.
\<close>

fun listen_attempts :: "(u8 list \<Rightarrow> u8 list option) \<Rightarrow> nat \<Rightarrow> nat list \<Rightarrow> (u8 list option \<times> nat list) outcome" where
  "listen_attempts listen 0 random = Inr (None, random)"
| "listen_attempts listen (Suc k) random =
     (if length random < 8 then Inl Out_of_fuel
      else case listen (generate_ascii_string (take 8 random)) of
             Some addr \<Rightarrow> Inr (Some addr, drop 8 random)
           | None \<Rightarrow> listen_attempts listen k (drop 8 random))"

definition create_dbus_server ::
    "(u8 list \<Rightarrow> u8 list option) \<Rightarrow> ('m, 'b) tube_dbus \<Rightarrow> (bool \<times> ('m, 'b) tube_dbus) outcome" where
  "create_dbus_server listen t =
     (if td_srv_addr t \<noteq> None then Inr (True, t)
      else andthen (listen_attempts listen 5 (td_random t)) (\<lambda>(addr, random).
           Inr (addr \<noteq> None, t\<lparr>td_srv_addr := addr, td_random := random\<rparr>)))"

text \<open>
  The state callback, over what it does to close the tube: \<open>do_close\<close> sets \<open>closed\<close> before it
  closes the bytestream, so a \<open>do_close\<close> from a callback that the bytestream runs then does
  nothing.
\<close>

definition tube_dbus_open ::
    "(('m, 'b) tube_dbus \<Rightarrow> ('m, 'b) tube_dbus outcome) \<Rightarrow> (u8 list \<Rightarrow> u8 list option)
     \<Rightarrow> ('m, 'b) tube_dbus \<Rightarrow> ('m, 'b) tube_dbus outcome" where
  "tube_dbus_open close listen t =
     andthen (create_dbus_server listen (t\<lparr>td_data_handler := True\<rparr>)) (\<lambda>(ok, t).
     if ok then Inr t else close t)"

definition state_changed_with ::
    "(('m, 'b) tube_dbus \<Rightarrow> ('m, 'b) tube_dbus outcome) \<Rightarrow> (u8 list \<Rightarrow> u8 list option) \<Rightarrow> bytestream_state
     \<Rightarrow> ('m, 'b) tube_dbus \<Rightarrow> ('m, 'b) tube_dbus outcome" where
  "state_changed_with close listen st t =
     (case st of
        BYTESTREAM_STATE_CLOSED \<Rightarrow>
          Inr (tube_emit Channel_destroyed (tube_emit Tube_closed
            (t\<lparr>td_bytestream := None, td_closed := True\<rparr>)))
      | BYTESTREAM_STATE_OPEN \<Rightarrow>
          andthen (tube_dbus_open close listen t) (\<lambda>t.
          Inr (tube_emit Tube_opened (tube_emit (Tube_state_changed TUBE_STATE_OPEN) t)))
      | _ \<Rightarrow> Inr t)"

definition do_close ::
    "'b bytestream_class \<Rightarrow> (u8 list \<Rightarrow> u8 list option) \<Rightarrow> ('m, 'b) tube_dbus \<Rightarrow> ('m, 'b) tube_dbus outcome" where
  "do_close C listen t =
     (if td_closed t then Inr t
      else let t = t\<lparr>td_closed := True\<rparr> in
        case td_bytestream t of
          Some b \<Rightarrow> (let (b, sts) = bs_close C b in
            foldo (state_changed_with (\<lambda>t. Inr t) listen) sts (t\<lparr>td_bytestream := Some b\<rparr>))
        | None \<Rightarrow> Inr (tube_emit Channel_destroyed (tube_emit Tube_closed t)))"

definition bytestream_state_changed_cb ::
    "'b bytestream_class \<Rightarrow> (u8 list \<Rightarrow> u8 list option) \<Rightarrow> bytestream_state
     \<Rightarrow> ('m, 'b) tube_dbus \<Rightarrow> ('m, 'b) tube_dbus outcome" where
  "bytestream_state_changed_cb C listen = state_changed_with (do_close C listen) listen"

definition get_tube_state :: "'b bytestream_class \<Rightarrow> ('m, 'b) tube_dbus \<Rightarrow> tube_state outcome" where
  "get_tube_state C t =
     (if \<not> td_offered t then Inr TUBE_STATE_NOT_OFFERED
      else case td_bytestream t of
        None \<Rightarrow> Inr TUBE_STATE_REMOTE_PENDING
      | Some b \<Rightarrow>
          (case bs_state C b of
             BYTESTREAM_STATE_OPEN \<Rightarrow> Inr TUBE_STATE_OPEN
           | BYTESTREAM_STATE_LOCAL_PENDING \<Rightarrow> Inr TUBE_STATE_LOCAL_PENDING
           | BYTESTREAM_STATE_ACCEPTED \<Rightarrow> Inr TUBE_STATE_LOCAL_PENDING
           | BYTESTREAM_STATE_INITIATING \<Rightarrow> Inr TUBE_STATE_REMOTE_PENDING
           | _ \<Rightarrow> Inl Assertion_failed))"

text \<open>\<open>g_object_set (bytestream, "state", st)\<close>, and the property \<open>bytestream\<close> of the tube.\<close>

definition set_bytestream_state ::
    "'b bytestream_class \<Rightarrow> (u8 list \<Rightarrow> u8 list option) \<Rightarrow> bytestream_state
     \<Rightarrow> ('m, 'b) tube_dbus \<Rightarrow> ('m, 'b) tube_dbus outcome" where
  "set_bytestream_state C listen st t =
     andthen (deref (td_bytestream t)) (\<lambda>b.
     let (b, sts) = bs_set_state C st b in
     foldo (bytestream_state_changed_cb C listen) sts (t\<lparr>td_bytestream := Some b\<rparr>))"

definition set_bytestream ::
    "'b bytestream_class \<Rightarrow> (u8 list \<Rightarrow> u8 list option) \<Rightarrow> 'b \<Rightarrow> ('m, 'b) tube_dbus \<Rightarrow> ('m, 'b) tube_dbus outcome" where
  "set_bytestream C listen b t =
     (if td_bytestream t \<noteq> None then Inr t
      else let t = t\<lparr>td_bytestream := Some b\<rparr> in
           if bs_state C b = BYTESTREAM_STATE_OPEN then tube_dbus_open (do_close C listen) listen t
           else Inr t)"

section \<open>Offering and accepting\<close>

text \<open>\<open>Inl e\<close> is the fault, \<open>False\<close> the D-Bus error the caller gets.\<close>

definition tube_offer ::
    "'b bytestream_class \<Rightarrow> (u8 list \<Rightarrow> u8 list option) \<Rightarrow> ('m, 'b) tube_dbus \<Rightarrow> (bool \<times> ('m, 'b) tube_dbus) outcome" where
  "tube_offer C listen t =
     (if td_offered t then Inr (False, t)
      else andthen (case td_handle_type t of
                      TP_HANDLE_TYPE_CONTACT \<Rightarrow> Inr t
                    | TP_HANDLE_TYPE_ROOM \<Rightarrow>
                        set_bytestream_state C listen BYTESTREAM_STATE_OPEN (t\<lparr>td_offered := True\<rparr>)) (\<lambda>t.
           andthen (create_dbus_server listen t) (\<lambda>(ok, t).
           Inr (if ok then (True, tube_emit Tube_offered t) else (False, t)))))"

definition check_access_control :: "access_control \<Rightarrow> bool" where
  "check_access_control ac \<longleftrightarrow> ac = ACCESS_CONTROL_CREDENTIALS \<or> ac = ACCESS_CONTROL_LOCALHOST"

definition tube_offer_async ::
    "'b bytestream_class \<Rightarrow> (u8 list \<Rightarrow> u8 list option) \<Rightarrow> access_control
     \<Rightarrow> ('m, 'b) tube_dbus \<Rightarrow> (bool \<times> ('m, 'b) tube_dbus) outcome" where
  "tube_offer_async C listen ac t =
     (if check_access_control ac then tube_offer C listen (t\<lparr>td_access_control := ac\<rparr>)
      else Inr (False, t))"

definition tube_accept ::
    "'b bytestream_class \<Rightarrow> (u8 list \<Rightarrow> u8 list option) \<Rightarrow> ('m, 'b) tube_dbus \<Rightarrow> ('m, 'b) tube_dbus outcome" where
  "tube_accept C listen t =
     (case td_bytestream t of
        None \<Rightarrow> Inl Assertion_failed
      | Some b \<Rightarrow>
          if bs_state C b \<noteq> BYTESTREAM_STATE_LOCAL_PENDING then Inr t
          else (case td_handle_type t of
                  TP_HANDLE_TYPE_CONTACT \<Rightarrow> Inr t
                | TP_HANDLE_TYPE_ROOM \<Rightarrow> set_bytestream_state C listen BYTESTREAM_STATE_OPEN t))"

definition tube_accept_async ::
    "'b bytestream_class \<Rightarrow> (u8 list \<Rightarrow> u8 list option) \<Rightarrow> access_control
     \<Rightarrow> ('m, 'b) tube_dbus \<Rightarrow> (bool \<times> ('m, 'b) tube_dbus) outcome" where
  "tube_accept_async C listen ac t =
     (if check_access_control ac
      then andthen (tube_accept C listen t) (\<lambda>t. Inr (True, t))
      else Inr (False, t))"

text \<open>
  The constructor: the tube of a room has a name of its own and a MUC bytestream \<open>b\<close>, the tube of a
  contact an empty reassembly buffer. \<open>initiated\<close>: we initiated and requested the tube.
\<close>

definition tube_new ::
    "'b bytestream_class \<Rightarrow> (u8 list \<Rightarrow> u8 list option) \<Rightarrow> handle_type \<Rightarrow> bool \<Rightarrow> u8 list \<Rightarrow> 'b \<Rightarrow> nat list
     \<Rightarrow> ('m, 'b) tube_dbus outcome" where
  "tube_new C listen ht initiated name b random =
     (let t = \<lparr>td_handle_type = ht, td_bytestream = None, td_offered = \<not> initiated,
               td_access_control = ACCESS_CONTROL_CREDENTIALS, td_local_name = None, td_srv_addr = None,
               td_conn = False, td_delivered = [], td_msg_queue = [], td_msg_queue_size = 0,
               td_names = [], td_buffer = None, td_needed = 0, td_closed = False,
               td_data_handler = False, td_random = random, td_signals = []\<rparr> in
      case ht of
        TP_HANDLE_TYPE_ROOM \<Rightarrow> set_bytestream C listen b (t\<lparr>td_local_name := Some name\<rparr>)
      | TP_HANDLE_TYPE_CONTACT \<Rightarrow> Inr (t\<lparr>td_buffer := Some []\<rparr>))"
section \<open>Messages from the bytestream\<close>

text \<open>
  \<open>message_received\<close>: \<open>sender\<close> is the handle of the contact, \<open>tp_strdiff\<close> is
  inequality, with NULL equal to NULL only.
\<close>

definition message_accepted :: "'m libdbus \<Rightarrow> u32 \<Rightarrow> 'm \<Rightarrow> ('m, 'b) tube_dbus \<Rightarrow> bool" where
  "message_accepted L sender msg t \<longleftrightarrow>
     td_handle_type t = TP_HANDLE_TYPE_CONTACT
     \<or> ((dbus_destination L msg = None \<or> td_local_name t = dbus_destination L msg)
        \<and> map_of (td_names t) sender = dbus_sender L msg)"

definition message_received :: "'m libdbus \<Rightarrow> u32 \<Rightarrow> u8 list \<Rightarrow> ('m, 'b) tube_dbus \<Rightarrow> ('m, 'b) tube_dbus" where
  "message_received L sender data t =
     (case dbus_demarshal L data of
        None \<Rightarrow> t
      | Some msg \<Rightarrow>
          if \<not> message_accepted L sender msg t then t
          else if \<not> td_conn t
            then (if td_msg_queue_size t + length data > MAX_QUEUE_SIZE then t
                  else t\<lparr>td_msg_queue := msg # td_msg_queue t,
                         td_msg_queue_size := td_msg_queue_size t + length data\<rparr>)
          else t\<lparr>td_delivered := td_delivered t @ [msg]\<rparr>)"

definition collect_le32 :: "u8 list \<Rightarrow> u32" where
  "collect_le32 bs = ucast (bs ! 0) OR push_bit 8 (ucast (bs ! 1))
     OR push_bit 16 (ucast (bs ! 2)) OR push_bit 24 (ucast (bs ! 3))"

definition collect_be32 :: "u8 list \<Rightarrow> u32" where
  "collect_be32 bs = push_bit 24 (ucast (bs ! 0)) OR push_bit 16 (ucast (bs ! 1))
     OR push_bit 24 (ucast (bs ! 2)) OR ucast (bs ! 3)"

text \<open>The length of the body and of the array of parameters in the fixed header, if it has an
  endianness mark.\<close>

definition header_lengths :: "u8 list \<Rightarrow> (u32 \<times> u32) option" where
  "header_lengths buf =
     (if buf ! 0 = DBUS_BIG_ENDIAN then Some (collect_be32 (drop 4 buf), collect_be32 (drop 12 buf))
      else if buf ! 0 = DBUS_LITTLE_ENDIAN then Some (collect_le32 (drop 4 buf), collect_le32 (drop 12 buf))
      else None)"

text \<open>
  Working out how big the next message is going to be: \<open>None\<close> when the tube has to be closed,
  together with the size that is stored before the limits are checked.
\<close>

definition next_message_size :: "u32 \<Rightarrow> u32 \<Rightarrow> (bool \<times> u32) outcome" where
  "next_message_size body_length m =
     (let params_length = m + ((8 - (m mod 8)) mod 8) in
      andthen (assert_that (params_length mod 8 = 0)) (\<lambda>_.
      andthen (assert_that (params_length \<ge> m)) (\<lambda>_.
      andthen (assert_that (params_length < m + 8)) (\<lambda>_.
      let needed = params_length + body_length + 16 in
      if body_length > DBUS_MAXIMUM_MESSAGE_LENGTH \<or> params_length > DBUS_MAXIMUM_ARRAY_LENGTH
         \<or> needed > DBUS_MAXIMUM_MESSAGE_LENGTH
      then Inr (False, needed)
      else andthen (assert_that (needed \<noteq> 0)) (\<lambda>_. Inr (True, needed))))))"

lemma message_received_frame [simp]:
  "td_buffer (message_received L i d t) = td_buffer t"
  "td_needed (message_received L i d t) = td_needed t"
  "td_closed (message_received L i d t) = td_closed t"
  by (simp_all add: message_received_def split: option.split)

lemma next_message_size_nonzero: "next_message_size b m = Inr (True, n) \<Longrightarrow> n \<noteq> 0"
  by (auto simp: next_message_size_def Let_def andthen_eq_Inr split: if_splits)

text \<open>
  The reassembly loop. \<open>pop_complete\<close> is the first half of its body, \<open>None\<close> where the code
  breaks to wait for more data.
\<close>

definition pop_complete :: "'m libdbus \<Rightarrow> u32 \<Rightarrow> u8 list \<Rightarrow> ('m, 'b) tube_dbus \<Rightarrow> ('m, 'b) tube_dbus option" where
  "pop_complete L sender buf t =
     (if td_needed t = 0 then Some t
      else if length buf \<ge> unat (td_needed t)
        then Some ((message_received L sender (take (unat (td_needed t)) buf) t)
                     \<lparr>td_buffer := Some (drop (unat (td_needed t)) buf), td_needed := 0\<rparr>)
      else None)"

definition buffer_of :: "('m, 'b) tube_dbus \<Rightarrow> u8 list" where
  "buffer_of t = (case td_buffer t of None \<Rightarrow> [] | Some buf \<Rightarrow> buf)"

function reassemble ::
    "'m libdbus \<Rightarrow> 'b bytestream_class \<Rightarrow> (u8 list \<Rightarrow> u8 list option) \<Rightarrow> u32
     \<Rightarrow> ('m, 'b) tube_dbus \<Rightarrow> ('m, 'b) tube_dbus outcome" where
  "reassemble L C listen sender t =
     (if length (buffer_of t) < 16 then Inr t
      else case pop_complete L sender (buffer_of t) t of
        None \<Rightarrow> Inr t
      | Some t1 \<Rightarrow>
          if length (buffer_of t1) < 16 then Inr t1
          else case header_lengths (buffer_of t1) of
            None \<Rightarrow> do_close C listen t1
          | Some (body_length, m) \<Rightarrow>
              (case next_message_size body_length m of
                 Inl e \<Rightarrow> Inl e
               | Inr (False, needed) \<Rightarrow> do_close C listen (t1\<lparr>td_needed := needed\<rparr>)
               | Inr (True, needed) \<Rightarrow> reassemble L C listen sender (t1\<lparr>td_needed := needed\<rparr>)))"
  by pat_completeness auto

lemma buffer_of_needed [simp]: "buffer_of (t\<lparr>td_needed := n\<rparr>) = buffer_of t"
  by (simp add: buffer_of_def)

lemma pop_complete_shrinks:
  assumes "pop_complete L i (buffer_of t) t = Some t1" "16 \<le> length (buffer_of t)"
  shows "if td_needed t = 0 then buffer_of t1 = buffer_of t else length (buffer_of t1) < length (buffer_of t)"
proof (cases "td_needed t = 0")
  case False
  then have "unat (td_needed t) > 0" by (simp add: unat_gt_0)
  with False assms show ?thesis by (auto simp: pop_complete_def buffer_of_def split: if_splits)
qed (use assms in \<open>auto simp: pop_complete_def buffer_of_def\<close>)

termination reassemble
  by (relation "measure (\<lambda>(L, C, listen, i, t). 2 * length (buffer_of t) + (if td_needed t = 0 then 1 else 0))")
     (auto dest!: next_message_size_nonzero dest: pop_complete_shrinks simp: not_less)

declare reassemble.simps [simp del]

text \<open>\<open>lookup\<close> is \<open>tp_handle_lookup\<close>, which gives 0 for somebody unknown.\<close>

definition data_received_cb ::
    "'m libdbus \<Rightarrow> 'b bytestream_class \<Rightarrow> (u8 list \<Rightarrow> u8 list option) \<Rightarrow> (u8 list option \<Rightarrow> u32)
     \<Rightarrow> u8 list option \<Rightarrow> u8 list \<Rightarrow> ('m, 'b) tube_dbus \<Rightarrow> ('m, 'b) tube_dbus outcome" where
  "data_received_cb L C listen lookup fr data t =
     (let sender = lookup fr in
      if sender = 0 then Inr t
      else case td_handle_type t of
        TP_HANDLE_TYPE_CONTACT \<Rightarrow>
          (case td_buffer t of
             None \<Rightarrow> Inl Assertion_failed
           | Some buf \<Rightarrow> reassemble L C listen sender (t\<lparr>td_buffer := Some (buf @ data)\<rparr>))
      | TP_HANDLE_TYPE_ROOM \<Rightarrow>
          andthen (assert_that (case td_bytestream t of None \<Rightarrow> False | Some b \<Rightarrow> bs_is_muc C b)) (\<lambda>_.
          Inr (message_received L sender data t)))"

section \<open>The local application\<close>

definition new_connection_cb :: "('m, 'b) tube_dbus \<Rightarrow> ('m, 'b) tube_dbus" where
  "new_connection_cb t =
     (if td_conn t then t
      else t\<lparr>td_conn := True, td_delivered := td_delivered t @ rev (td_msg_queue t),
             td_msg_queue := [], td_msg_queue_size := 0\<rparr>)"

definition filter_cb ::
    "'m libdbus \<Rightarrow> 'b bytestream_class \<Rightarrow> (u8 list \<Rightarrow> u8 list option) \<Rightarrow> 'm
     \<Rightarrow> ('m, 'b) tube_dbus \<Rightarrow> ('m, 'b) tube_dbus outcome" where
  "filter_cb L C listen msg t =
     (if dbus_is_disconnected L msg then Inr (t\<lparr>td_conn := False\<rparr>)
      else let msg = (case td_local_name t of None \<Rightarrow> msg | Some name \<Rightarrow> dbus_set_sender L name msg) in
        case dbus_marshal L msg of
          None \<Rightarrow> Inr t
        | Some bytes \<Rightarrow>
            andthen (deref (td_bytestream t)) (\<lambda>b.
            let (ok, b, sts) = bs_send C bytes b in
            andthen (foldo (bytestream_state_changed_cb C listen) sts (t\<lparr>td_bytestream := Some b\<rparr>)) (\<lambda>t.
            if (case td_bytestream t of None \<Rightarrow> False | Some b \<Rightarrow> bs_is_muc C b)
               \<and> (dbus_destination L msg = None \<or> td_local_name t = dbus_destination L msg)
               \<and> td_conn t
            then Inr (t\<lparr>td_delivered := td_delivered t @ [msg]\<rparr>)
            else Inr t)))"

section \<open>The names of a room\<close>

text \<open>\<open>inspect\<close> is \<open>tp_handle_inspect\<close>, the name of a contact.\<close>

definition tube_add_name ::
    "(u8 list \<Rightarrow> u8 list) \<Rightarrow> (u8 list \<Rightarrow> u8 list) \<Rightarrow> (u32 \<Rightarrow> u8 list) \<Rightarrow> u32 \<Rightarrow> u8 list
     \<Rightarrow> ('m, 'b) tube_dbus \<Rightarrow> (bool \<times> ('m, 'b) tube_dbus) outcome" where
  "tube_add_name base64_encode sha1_bin inspect handle name t =
     andthen (assert_that (td_handle_type t = TP_HANDLE_TYPE_ROOM)) (\<lambda>_.
     Inr (if map_of (td_names t) handle \<noteq> None then (False, t)
          else if take 3 name = map of_char '':2.''
               \<and> name \<noteq> generate_dbus_unique_name base64_encode sha1_bin (inspect handle) then (False, t)
          else (True, tube_emit (Dbus_names_changed [(handle, name)] [])
                  (t\<lparr>td_names := AList.update handle name (td_names t)\<rparr>))))"

definition tube_remove_name :: "u32 \<Rightarrow> ('m, 'b) tube_dbus \<Rightarrow> (bool \<times> ('m, 'b) tube_dbus) outcome" where
  "tube_remove_name handle t =
     andthen (assert_that (td_handle_type t = TP_HANDLE_TYPE_ROOM)) (\<lambda>_.
     Inr (if map_of (td_names t) handle = None then (False, t)
          else (True, tube_emit (Dbus_names_changed [] [handle])
                  (t\<lparr>td_names := AList.delete handle (td_names t)\<rparr>))))"

definition tube_handle_in_names :: "u32 \<Rightarrow> ('m, 'b) tube_dbus \<Rightarrow> bool outcome" where
  "tube_handle_in_names handle t =
     andthen (assert_that (td_handle_type t = TP_HANDLE_TYPE_ROOM)) (\<lambda>_.
     Inr (map_of (td_names t) handle \<noteq> None))"

end
