(* ===== verification/Tube_Dbus_Properties.thy ===== *)
theory Tube_Dbus_Properties
  imports Tube_Dbus
begin

text \<open>
  What holds of D-Bus tubes: the reassembly of messages from the pieces in which a stream delivers
  them against the framing of the D-Bus wire protocol (\<open>dbus_frame\<close>), the arithmetic of message
  sizes, the queue in front of the local application, and the unique names of the members of a room.
\<close>

section \<open>Sizes\<close>

definition round8 :: "nat \<Rightarrow> nat" where
  "round8 k = (k + 7) div 8 * 8"

lemma round8_bounds: "k \<le> round8 k" "round8 k \<le> k + 7" "round8 k mod 8 = 0"
  unfolding round8_def by presburger+

lemma padded: "k + (8 - k mod 8) mod 8 = round8 k"
proof -
  define q r where "q = k div 8" and "r = k mod 8"
  have k: "k = 8 * q + r" "r < 8" by (simp_all add: q_def r_def)
  then consider "r = 0" | "0 < r" by blast
  then show ?thesis
  proof cases
    case 2
    then have "(8 * q + r + 7) div 8 = q + 1" using k(2) by (simp add: div_eq_0_iff)
    with 2 k show ?thesis by (simp add: round8_def)
  qed (use k in \<open>simp add: round8_def\<close>)
qed

lemma padding_unat: "unat ((8 - (m mod 8)) mod 8 :: u32) = (8 - unat m mod 8) mod 8"
proof -
  have "unat (m mod 8) = unat m mod 8" by (simp add: unat_mod)
  then have "unat (8 - (m mod 8) :: u32) = 8 - unat m mod 8" by (simp add: unat_minus_32)
  then show ?thesis by (simp add: unat_mod)
qed

lemma params_unat:
  assumes "unat (m :: u32) + 8 \<le> 4294967295"
  shows "unat (m + ((8 - (m mod 8)) mod 8)) = round8 (unat m)"
proof -
  have "(8 - unat m mod 8) mod 8 < 8" by simp
  with assms have "unat m + unat ((8 - (m mod 8)) mod 8 :: u32) < 4294967296" unfolding padding_unat by linarith
  then have "unat (m + ((8 - (m mod 8)) mod 8)) = unat m + unat ((8 - (m mod 8)) mod 8 :: u32)"
    by (subst unat_plus_32) (rule if_P)
  then have "unat (m + ((8 - (m mod 8)) mod 8)) = unat m + (8 - unat m mod 8) mod 8"
    unfolding padding_unat .
  also have "\<dots> = round8 (unat m)" by (rule padded)
  finally show ?thesis .
qed

lemma large_params:
  assumes "0xfffffff8 \<le> (m :: u32)"
  obtains "m = 0xfffffff8" | "m + ((8 - (m mod 8)) mod 8) = 0" "m \<noteq> 0"
proof -
  have m: "4294967288 \<le> unat m" using assms by (simp add: word_le_nat_alt)
  define k where "k = unat m - 4294967288"
  have "m = of_nat (4294967288 + k)" using m by (simp add: k_def)
  then have mk: "m = 0xfffffff8 + of_nat k" by simp
  have "k < 8" unfolding k_def using m unat_less_2_32[of m] by linarith
  then consider "k = 0" | "k = 1" | "k = 2" | "k = 3" | "k = 4" | "k = 5" | "k = 6" | "k = 7"
    by linarith
  then show ?thesis using that mk by cases simp_all
qed

lemma next_message_size_eq:
  "next_message_size body_length m =
     (if 0xfffffff8 \<le> m then Inl Assertion_failed
      else Inr (unat body_length \<le> 2 ^ 27 \<and> round8 (unat m) \<le> 2 ^ 26
                  \<and> 16 + round8 (unat m) + unat body_length \<le> 2 ^ 27,
                of_nat (16 + round8 (unat m) + unat body_length)))"
proof (cases "0xfffffff8 \<le> m")
  case True
  then have "\<not> (m \<le> m + ((8 - (m mod 8)) mod 8) \<and> m + ((8 - (m mod 8)) mod 8) < m + 8)"
    by (rule large_params) (auto simp: word_le_0_iff)
  with True show ?thesis by (auto simp: next_message_size_def Let_def assert_that_def)
next
  case False
  let ?p = "m + ((8 - (m mod 8)) mod 8)"
  have m: "unat m + 8 \<le> 4294967295" using False by (simp add: word_le_nat_alt not_le)
  have p: "unat ?p = round8 (unat m)" using m by (rule params_unat)
  have "unat (?p mod 8) = 0" using p round8_bounds(3)[of "unat m"] by (simp add: unat_mod)
  then have a1: "?p mod 8 = 0" by (simp add: unat_eq_0)
  have a2: "m \<le> ?p" "?p < m + 8"
    using p m round8_bounds[of "unat m"] by (simp_all add: word_le_nat_alt word_less_nat_alt unat_plus_32)
  have eq: "?p + body_length + 16 = of_nat (16 + round8 (unat m) + unat body_length)"
  proof -
    have "of_nat (round8 (unat m)) = ?p" unfolding p[symmetric] by simp
    then show ?thesis by simp
  qed
  have lim: "body_length \<le> DBUS_MAXIMUM_MESSAGE_LENGTH \<longleftrightarrow> unat body_length \<le> 2 ^ 27"
    "?p \<le> DBUS_MAXIMUM_ARRAY_LENGTH \<longleftrightarrow> round8 (unat m) \<le> 2 ^ 26"
    using p by (simp_all add: word_le_nat_alt DBUS_MAXIMUM_MESSAGE_LENGTH_def DBUS_MAXIMUM_ARRAY_LENGTH_def)
  have sz: "unat (of_nat (16 + round8 (unat m) + unat body_length) :: u32) = 16 + round8 (unat m) + unat body_length"
    if "unat body_length \<le> 2 ^ 27" "round8 (unat m) \<le> 2 ^ 26"
    using that by (intro unat_of_nat_32) simp
  have lim3: "?p + body_length + 16 \<le> DBUS_MAXIMUM_MESSAGE_LENGTH
      \<longleftrightarrow> 16 + round8 (unat m) + unat body_length \<le> 2 ^ 27"
    if "unat body_length \<le> 2 ^ 27" "round8 (unat m) \<le> 2 ^ 26"
    using sz[OF that] unfolding eq by (simp add: word_le_nat_alt DBUS_MAXIMUM_MESSAGE_LENGTH_def)
  have nz: "?p + body_length + 16 \<noteq> 0" if "unat body_length \<le> 2 ^ 27" "round8 (unat m) \<le> 2 ^ 26"
    using sz[OF that] unfolding eq by (metis add_is_0 unat_0 zero_neq_numeral)
  define needed where "needed = ?p + body_length + 16"
  have run: "next_message_size body_length m =
     (if body_length \<le> DBUS_MAXIMUM_MESSAGE_LENGTH \<and> ?p \<le> DBUS_MAXIMUM_ARRAY_LENGTH
         \<and> needed \<le> DBUS_MAXIMUM_MESSAGE_LENGTH
      then andthen (assert_that (needed \<noteq> 0)) (\<lambda>_. Inr (True, needed)) else Inr (False, needed))"
    using a1 a2 by (auto simp: next_message_size_def Let_def needed_def)
  show ?thesis
  proof (cases "unat body_length \<le> 2 ^ 27 \<and> round8 (unat m) \<le> 2 ^ 26")
    case True
    then show ?thesis
      using False lim lim3 nz unfolding run eq[symmetric] needed_def[symmetric] by simp
  next
    case out: False
    then show ?thesis using False lim unfolding run eq[symmetric] needed_def[symmetric] by auto
  qed
qed

text \<open>
  C32. The size of the next D-Bus message. The code is right whenever it returns: it accepts exactly the
  lengths within the limits of D-Bus, with the size they have as unbounded numbers, so the additions
  never overflow unnoticed. But it does not always return: a header that announces 4294967288 or more
  bytes of parameters fails an assertion, before the limits are looked at.
\<close>

theorem next_size_or_abort:
  "next_message_size body_length m =
     (if 0xfffffff8 \<le> m then Inl Assertion_failed
      else Inr (unat body_length \<le> 2 ^ 27 \<and> round8 (unat m) \<le> 2 ^ 26
                  \<and> 16 + round8 (unat m) + unat body_length \<le> 2 ^ 27,
                of_nat (16 + round8 (unat m) + unat body_length)))"
  by (rule next_message_size_eq)

section \<open>Byte order\<close>

lemma length_4: "length bs = 4 \<longleftrightarrow> (\<exists>a b c d. bs = [a, b, c, d])"
  by (auto simp: numeral_eq_Suc length_Suc_conv)

lemma collect_le32_of_be: "length bs = 4 \<Longrightarrow> collect_le32 bs = of_be (rev bs)"
  unfolding length_4
proof clarify
  fix a b c d
  show "collect_le32 [a, b, c, d] = of_be (rev [a, b, c, d])"
    by (rule bit_word_eqI) (auto simp: collect_le32_def of_be_def bit_simps u8_bit_high)
qed

lemma collect_be32_of_be:
  assumes "length bs = 4"
  shows "collect_be32 bs = of_be bs \<longleftrightarrow> bs ! 2 = 0"
proof -
  obtain a b c d where bs: "bs = [a, b, c, d]" using assms unfolding length_4 by blast
  have eq: "bit (collect_be32 bs) n \<longleftrightarrow> bit (of_be bs :: u32) n" if "c = 0" for n
    using that by (auto simp: bs collect_be32_def of_be_def bit_simps)
  have ne: "\<not> bit (collect_be32 bs) (8 + n)" "bit (of_be bs :: u32) (8 + n)" if "bit c n" for n
  proof -
    have n: "n < 8" using bit_imp_le_length[OF that] by simp
    then show "\<not> bit (collect_be32 bs) (8 + n)"
      by (auto simp: bs collect_be32_def bit_simps u8_bit_high)
    show "bit (of_be bs :: u32) (8 + n)" using n that by (auto simp: bs of_be_def bit_simps)
  qed
  show ?thesis
  proof
    assume e: "collect_be32 bs = of_be bs"
    have "\<not> bit c n" for n using ne[of n] e by auto
    then show "bs ! 2 = 0" by (auto simp: bs intro!: bit_word_eqI)
  next
    assume "bs ! 2 = 0"
    then show "collect_be32 bs = of_be bs" by (intro bit_word_eqI eq) (simp add: bs)
  qed
qed

text \<open>
  Reading the lengths in a D-Bus header: little-endian lengths are read as they are, but big-endian
  ones only when their third byte is zero, since the code shifts that byte into the topmost position.
  A message whose body has between 256 and 65535 bytes, for one, is always misread.
\<close>

theorem big_endian_misread:
  assumes "length bs = 4"
  shows "collect_le32 bs = of_be (rev bs) \<and> (collect_be32 bs = of_be bs \<longleftrightarrow> bs ! 2 = 0)"
  using collect_le32_of_be[OF assms] collect_be32_of_be[OF assms] by blast

lemma big_endian_misread_witness:
  "collect_le32 [0, 1, 0, 0] = 256 \<and> collect_be32 [0, 0, 1, 0] \<noteq> of_be [0, 0, 1, 0]"
  using big_endian_misread[of "[0, 1, 0, 0]"] big_endian_misread[of "[0, 0, 1, 0]"]
  by (simp add: of_be_def)

section \<open>Reassembly\<close>

text \<open>
  The framing of the D-Bus specification, with unbounded numbers: the body length in bytes 4 to 7 of
  the header and the length of the array of parameters in bytes 12 to 15, in the byte order that the
  first byte names; the array is padded to a multiple of eight.
\<close>

definition dbus_lengths :: "u8 list \<Rightarrow> (nat \<times> nat) option" where
  "dbus_lengths h =
     (let field = (\<lambda>off. take 4 (drop off h)) in
      if h ! 0 = DBUS_BIG_ENDIAN then Some (unat (of_be (field 4) :: u32), unat (of_be (field 12) :: u32))
      else if h ! 0 = DBUS_LITTLE_ENDIAN
        then Some (unat (of_be (rev (field 4)) :: u32), unat (of_be (rev (field 12)) :: u32))
      else None)"

definition dbus_size :: "u8 list \<Rightarrow> nat option" where
  "dbus_size h =
     (case dbus_lengths h of
        None \<Rightarrow> None
      | Some (body, params) \<Rightarrow>
          if body \<le> 2 ^ 27 \<and> round8 params \<le> 2 ^ 26 \<and> 16 + round8 params + body \<le> 2 ^ 27
          then Some (16 + round8 params + body) else None)"

definition dbus_frame :: "u8 list \<Rightarrow> bool" where
  "dbus_frame m \<longleftrightarrow> 16 \<le> length m \<and> dbus_size m = Some (length m)"

text \<open>The headers that the code reads correctly.\<close>

definition readable :: "u8 list \<Rightarrow> bool" where
  "readable h \<longleftrightarrow> (h ! 0 = DBUS_BIG_ENDIAN \<longrightarrow> h ! 6 = 0 \<and> h ! 14 = 0)"

definition incomplete :: "u8 list \<Rightarrow> bool" where
  "incomplete xs \<longleftrightarrow> length xs < 16 \<or> (readable xs \<and> (\<exists>n. dbus_size xs = Some n \<and> length xs < n))"

definition bytes_needed :: "u8 list \<Rightarrow> u32" where
  "bytes_needed xs = (if length xs < 16 then 0 else of_nat (the (dbus_size xs)))"

lemma dbus_size_bounds: "dbus_size h = Some n \<Longrightarrow> 16 \<le> n \<and> n \<le> 2 ^ 27"
  by (auto simp: dbus_size_def split: option.splits if_splits)

lemma unat_of_size: "dbus_size h = Some n \<Longrightarrow> unat (of_nat n :: u32) = n"
  using dbus_size_bounds[of h n] by (intro unat_of_nat_32) auto

lemma dbus_size_append:
  assumes "16 \<le> length xs"
  shows "dbus_size (xs @ ys) = dbus_size xs" "readable (xs @ ys) \<longleftrightarrow> readable xs"
proof -
  have "(xs @ ys) ! k = xs ! k" if "k < 16" for k using that assms by (simp add: nth_append)
  then have n: "(xs @ ys) ! 0 = xs ! 0" "(xs @ ys) ! 6 = xs ! 6" "(xs @ ys) ! 14 = xs ! 14" by simp_all
  have t: "take 4 (drop 4 (xs @ ys)) = take 4 (drop 4 xs)" "take 4 (drop 12 (xs @ ys)) = take 4 (drop 12 xs)"
    using assms by simp_all
  show "dbus_size (xs @ ys) = dbus_size xs" "readable (xs @ ys) \<longleftrightarrow> readable xs"
    unfolding dbus_size_def dbus_lengths_def readable_def Let_def n t by (rule refl)+
qed

lemma header_read:
  assumes "16 \<le> length h" "readable h" "dbus_size h = Some n"
  obtains b m where "header_lengths h = Some (b, m)" "next_message_size b m = Inr (True, of_nat n)"
proof -
  have le: "collect_le32 (drop k h) = of_be (rev (take 4 (drop k h)))" if "k \<le> 12" for k
  proof -
    have "length (take 4 (drop k h)) = 4" using that assms(1) by simp
    moreover have "collect_le32 (drop k h) = collect_le32 (take 4 (drop k h))" by (simp add: collect_le32_def)
    ultimately show ?thesis using collect_le32_of_be by metis
  qed
  have be: "collect_be32 (drop k h) = of_be (take 4 (drop k h))" if "k \<le> 12" "h ! (k + 2) = 0" for k
  proof -
    have "length (take 4 (drop k h)) = 4" using that assms(1) by simp
    moreover have "take 4 (drop k h) ! 2 = 0" using that assms(1) by simp
    moreover have "collect_be32 (drop k h) = collect_be32 (take 4 (drop k h))" by (simp add: collect_be32_def)
    ultimately show ?thesis using collect_be32_of_be by metis
  qed
  obtain b m where bm: "header_lengths h = Some (b, m)" "dbus_lengths h = Some (unat b, unat m)"
    using assms(2,3) le[of 4] le[of 12] be[of 4] be[of 12]
    by (auto simp: header_lengths_def dbus_lengths_def dbus_size_def readable_def Let_def split: if_splits)
  have "round8 (unat m) \<le> 2 ^ 26" using assms(3) bm(2) by (auto simp: dbus_size_def split: if_splits)
  with round8_bounds(1)[of "unat m"] have "\<not> 0xfffffff8 \<le> m" by (simp add: word_le_nat_alt)
  with that bm assms(3) show ?thesis
    by (auto simp: next_message_size_eq dbus_size_def split: if_splits)
qed

text \<open>One turn of the loop on a buffer that starts with a complete message, and its end.\<close>

definition settled :: "u8 list \<Rightarrow> ('m, 'b) tube_dbus \<Rightarrow> ('m, 'b) tube_dbus" where
  "settled rest t = t\<lparr>td_buffer := Some rest, td_needed := bytes_needed rest\<rparr>"

lemma settled_simps [simp]:
  "buffer_of (settled xs t) = xs" "td_needed (settled xs t) = bytes_needed xs"
  "td_buffer (settled xs t) = Some xs" "td_handle_type (settled xs t) = td_handle_type t"
  "settled ys (settled xs t) = settled ys t"
  by (simp_all add: settled_def buffer_of_def)

lemma message_received_buffer:
  "message_received L i m (t\<lparr>td_buffer := b, td_needed := n\<rparr>)
    = (message_received L i m t)\<lparr>td_buffer := b, td_needed := n\<rparr>"
proof -
  have "message_accepted L i msg (t\<lparr>td_buffer := b, td_needed := n\<rparr>) = message_accepted L i msg t" for msg
    by (simp add: message_accepted_def)
  then show ?thesis by (simp add: message_received_def split: option.split)
qed

lemma messages_received_buffer:
  "fold (message_received L i) ms (t\<lparr>td_buffer := b, td_needed := n\<rparr>)
    = (fold (message_received L i) ms t)\<lparr>td_buffer := b, td_needed := n\<rparr>"
  by (induction ms arbitrary: t) (simp_all add: message_received_buffer)

lemma reassemble_pop:
  assumes "td_needed t \<noteq> 0" "16 \<le> length (buffer_of t)" "unat (td_needed t) \<le> length (buffer_of t)"
  shows "reassemble L C listen i t = reassemble L C listen i
    ((message_received L i (take (unat (td_needed t)) (buffer_of t)) t)
       \<lparr>td_buffer := Some (drop (unat (td_needed t)) (buffer_of t)), td_needed := 0\<rparr>)"
    (is "_ = reassemble L C listen i ?t")
proof -
  have pop: "pop_complete L i (buffer_of t) t = Some ?t" using assms by (simp add: pop_complete_def)
  have pop0: "pop_complete L i (buffer_of ?t) ?t = Some ?t" by (simp add: pop_complete_def)
  show ?thesis
    by (subst (1 2) reassemble.simps) (use assms(2) pop pop0 in simp)
qed

lemma reassemble_header:
  assumes "td_needed t = 0" "16 \<le> length (buffer_of t)" "readable (buffer_of t)" "dbus_size (buffer_of t) = Some n"
  shows "reassemble L C listen i t = reassemble L C listen i (t\<lparr>td_needed := of_nat n\<rparr>)"
proof -
  obtain b m where "header_lengths (buffer_of t) = Some (b, m)" "next_message_size b m = Inr (True, of_nat n)"
    by (rule header_read[OF assms(2-4)])
  then show ?thesis
    by (subst reassemble.simps) (use assms(1,2) in \<open>simp add: pop_complete_def\<close>)
qed

lemma reassemble_frames:
  assumes "\<forall>m \<in> set ms. dbus_frame m \<and> readable m" "incomplete rest"
    and "td_buffer t = Some (concat ms @ rest)" "td_needed t = 0 \<or> td_needed t = bytes_needed (concat ms @ rest)"
  shows "reassemble L C listen i t = Inr (settled rest (fold (message_received L i) ms t))"
  using assms
proof (induction ms arbitrary: t)
  case Nil
  have buf: "buffer_of t = rest" using Nil.prems(3) by (simp add: buffer_of_def)
  show ?case
  proof (cases "length rest < 16")
    case True
    then have "settled rest t = t" using Nil.prems(3,4) by (simp add: settled_def bytes_needed_def)
    with True buf show ?thesis by (subst reassemble.simps) simp
  next
    case False
    with Nil.prems(2) obtain n where n: "readable rest" "dbus_size rest = Some n" "length rest < n"
      by (auto simp: incomplete_def)
    let ?t = "t\<lparr>td_needed := of_nat n\<rparr>"
    have "of_nat n \<noteq> (0 :: u32)" using n(3) unat_of_size[OF n(2)] by (metis not_less0 unat_0)
    then have "pop_complete L i rest ?t = None"
      using n(3) unat_of_size[OF n(2)] by (simp add: pop_complete_def)
    then have stop: "reassemble L C listen i ?t = Inr ?t"
      using False buf by (subst reassemble.simps) simp
    have "settled rest t = ?t" using False Nil.prems(3) n(2) by (simp add: settled_def bytes_needed_def)
    moreover have "reassemble L C listen i t = reassemble L C listen i ?t"
    proof (cases "td_needed t = 0")
      case True
      then show ?thesis using False buf n by (intro reassemble_header) simp_all
    next
      case ne: False
      then have "t = ?t" using Nil.prems(4) False n(2) by (simp add: bytes_needed_def)
      then show ?thesis by simp
    qed
    ultimately show ?thesis using stop by simp
  qed
next
  case (Cons m ms)
  let ?rest = "concat ms @ rest"
  have buf: "buffer_of t = m @ ?rest" using Cons.prems(3) by (simp add: buffer_of_def)
  have m: "16 \<le> length m" "readable m" "dbus_size m = Some (length m)"
    using Cons.prems(1) by (simp_all add: dbus_frame_def)
  have h: "16 \<le> length (buffer_of t)" "readable (buffer_of t)" "dbus_size (buffer_of t) = Some (length m)"
    using m dbus_size_append[OF m(1), of ?rest] by (simp_all add: buf)
  have n: "unat (of_nat (length m) :: u32) = length m" by (rule unat_of_size[OF m(3)])
  let ?t = "t\<lparr>td_needed := of_nat (length m)\<rparr>"
  have "reassemble L C listen i t = reassemble L C listen i ?t"
  proof (cases "td_needed t = 0")
    case True
    then show ?thesis using h by (rule reassemble_header)
  next
    case ne: False
    then have "t = ?t" using Cons.prems(4) h buf by (simp add: bytes_needed_def)
    then show ?thesis by simp
  qed
  also have "\<dots> = reassemble L C listen i
      ((message_received L i m t)\<lparr>td_buffer := Some ?rest, td_needed := 0\<rparr>)"
  proof -
    have ne: "of_nat (length m) \<noteq> (0 :: u32)" using n m(1) by (metis le_zero_eq unat_0 zero_neq_numeral)
    have "message_received L i m ?t = (message_received L i m t)\<lparr>td_needed := of_nat (length m)\<rparr>"
      using message_received_buffer[where t = t and b = "td_buffer t" and n = "of_nat (length m)" and L = L and i = i and m = m] by simp
    then show ?thesis
      using reassemble_pop[where t = ?t and L = L and C = C and listen = listen and i = i] ne n h(1) by (simp add: buf)
  qed
  also have "\<dots> = Inr (settled rest (fold (message_received L i) ms
      ((message_received L i m t)\<lparr>td_buffer := Some ?rest, td_needed := 0\<rparr>)))"
    using Cons.prems(1,2) by (intro Cons.IH) simp_all
  finally show ?case by (simp add: messages_received_buffer settled_def)
qed

text \<open>However the stream is cut, a prefix of it is some messages and an incomplete one.\<close>

lemma incomplete_prefix:
  assumes "incomplete (xs @ ys)"
  shows "incomplete xs"
proof (cases "length xs < 16")
  case False
  with assms show ?thesis by (auto simp: incomplete_def dbus_size_append)
qed (simp add: incomplete_def)

lemma prefix_of_frame:
  assumes "dbus_frame (xs @ zs)" "readable (xs @ zs)" "zs \<noteq> []"
  shows "incomplete xs"
proof (cases "length xs < 16")
  case False
  with assms show ?thesis by (auto simp: incomplete_def dbus_frame_def dbus_size_append)
qed (simp add: incomplete_def)

lemma stream_prefix:
  assumes "\<forall>m \<in> set ms. dbus_frame m \<and> readable m" "incomplete rest" "xs @ ys = concat ms @ rest"
  shows "\<exists>ms1 ms2 rest1. ms = ms1 @ ms2 \<and> xs = concat ms1 @ rest1 \<and> incomplete rest1 \<and> rest1 @ ys = concat ms2 @ rest"
  using assms
proof (induction ms arbitrary: xs)
  case Nil
  then have "incomplete xs" using incomplete_prefix[of xs ys] by simp
  with Nil have "[] = [] @ [] \<and> xs = concat [] @ xs \<and> incomplete xs \<and> xs @ ys = concat [] @ rest" by simp
  with Nil show ?case by (rule_tac exI[of _ "[]"], rule_tac exI[of _ "[]"], rule_tac exI[of _ xs]) simp
next
  case (Cons m ms)
  from Cons.prems(3) have eq: "xs @ ys = m @ (concat ms @ rest)" by simp
  show ?case
  proof (cases "length m \<le> length xs")
    case True
    with eq have xs: "xs = m @ drop (length m) xs" by (metis append_eq_append_conv_if append_take_drop_id)
    with eq have "drop (length m) xs @ ys = concat ms @ rest" by (metis append.assoc same_append_eq)
    with Cons.IH[of "drop (length m) xs"] Cons.prems(1,2) obtain ms1 ms2 rest1 where
      "ms = ms1 @ ms2" "drop (length m) xs = concat ms1 @ rest1" "incomplete rest1" "rest1 @ ys = concat ms2 @ rest"
      by auto
    with xs show ?thesis by (intro exI[of _ "m # ms1"] exI[of _ ms2] exI[of _ rest1]) simp
  next
    case False
    with eq have m: "m = xs @ drop (length xs) m" "drop (length xs) m \<noteq> []"
      by (metis append_eq_append_conv_if append_take_drop_id nat_le_linear) (use False in simp)
    with Cons.prems(1) have "incomplete xs" by (metis list.set_intros(1) prefix_of_frame)
    with eq show ?thesis by (intro exI[of _ "[]"] exI[of _ "m # ms"] exI[of _ xs]) simp
  qed
qed

lemma incomplete_no_message:
  assumes "incomplete (concat ms @ rest)" "\<forall>m \<in> set ms. dbus_frame m \<and> readable m"
  shows "ms = []"
proof (cases ms)
  case (Cons m ms')
  then have m: "16 \<le> length m" "dbus_size m = Some (length m)" using assms(2) by (simp_all add: dbus_frame_def)
  with assms(1) Cons show ?thesis by (auto simp: incomplete_def dbus_size_append)
qed simp

lemma data_received_settled:
  assumes "td_handle_type t = TP_HANDLE_TYPE_CONTACT" "lookup fr \<noteq> 0"
    and "\<forall>m \<in> set ms. dbus_frame m \<and> readable m" "incomplete rest" "incomplete rest0"
    and "rest0 @ data = concat ms @ rest"
  shows "data_received_cb L C listen lookup fr data (settled rest0 t)
    = Inr (settled rest (fold (message_received L (lookup fr)) ms t))"
proof -
  let ?t = "t\<lparr>td_buffer := Some (rest0 @ data), td_needed := bytes_needed rest0\<rparr>"
  have "bytes_needed rest0 = 0 \<or> bytes_needed rest0 = bytes_needed (rest0 @ data)"
    by (auto simp: bytes_needed_def dbus_size_append)
  then have "reassemble L C listen (lookup fr) ?t
    = Inr (settled rest (fold (message_received L (lookup fr)) ms ?t))"
    using assms(3,4,6) by (intro reassemble_frames) simp_all
  moreover have "data_received_cb L C listen lookup fr data (settled rest0 t) = reassemble L C listen (lookup fr) ?t"
    using assms(1,2) by (cases t) (simp add: data_received_cb_def settled_def)
  ultimately show ?thesis by (simp add: messages_received_buffer settled_def)
qed

lemma handle_type_kept: "td_handle_type (fold (message_received L i) ms t) = td_handle_type t"
  by (induction ms arbitrary: t) (simp_all add: message_received_def split: option.split)

lemma chunks_settled:
  assumes "td_handle_type t = TP_HANDLE_TYPE_CONTACT" "lookup fr \<noteq> 0"
    and "\<forall>m \<in> set ms. dbus_frame m \<and> readable m" "incomplete rest" "incomplete rest0"
    and "rest0 @ concat chunks = concat ms @ rest"
  shows "foldo (data_received_cb L C listen lookup fr) chunks (settled rest0 t)
    = Inr (settled rest (fold (message_received L (lookup fr)) ms t))"
  using assms
proof (induction chunks arbitrary: t ms rest0)
  case Nil
  then have "ms = []" using incomplete_no_message[of ms rest] by simp
  with Nil show ?case by simp
next
  case (Cons c cs)
  have "(rest0 @ c) @ concat cs = concat ms @ rest" using Cons.prems(6) by simp
  from stream_prefix[OF Cons.prems(3,4) this] obtain ms1 ms2 rest1 where
    s: "ms = ms1 @ ms2" "rest0 @ c = concat ms1 @ rest1" "incomplete rest1" "rest1 @ concat cs = concat ms2 @ rest"
    by blast
  have "data_received_cb L C listen lookup fr c (settled rest0 t)
      = Inr (settled rest1 (fold (message_received L (lookup fr)) ms1 t))"
    using Cons.prems s by (intro data_received_settled) simp_all
  moreover have "foldo (data_received_cb L C listen lookup fr) cs
      (settled rest1 (fold (message_received L (lookup fr)) ms1 t))
      = Inr (settled rest (fold (message_received L (lookup fr)) ms2 (fold (message_received L (lookup fr)) ms1 t)))"
    using Cons.prems s by (intro Cons.IH) (simp_all add: handle_type_kept)
  ultimately show ?case by (simp add: s(1))
qed

text \<open>
  C9. The tube of a contact reassembles its stream: however the bytes are cut into pieces, the messages
  that come out are the D-Bus messages of the stream, one by one and in order, nothing else happens, and
  what is left of an unfinished message waits in the buffer. This needs headers that the code reads
  correctly, that is little-endian ones, or big-endian ones with zero third bytes in their lengths.
\<close>

theorem stream_is_reassembled:
  assumes "td_handle_type t = TP_HANDLE_TYPE_CONTACT" "lookup fr \<noteq> 0"
    and "td_buffer t = Some []" "td_needed t = 0"
    and "\<forall>m \<in> set ms. dbus_frame m \<and> readable m" "incomplete rest"
    and "concat chunks = concat ms @ rest"
  shows "foldo (data_received_cb L C listen lookup fr) chunks t =
    Inr ((fold (message_received L (lookup fr)) ms t)
           \<lparr>td_buffer := Some rest, td_needed := bytes_needed rest\<rparr>)"
proof -
  have "t = settled [] t" using assms(3,4) by (simp add: settled_def bytes_needed_def)
  moreover have "incomplete []" by (simp add: incomplete_def)
  ultimately show ?thesis
    using chunks_settled[where t = t and lookup = lookup and fr = fr and ms = ms and rest = rest
        and ?rest0.0 = "[]" and chunks = chunks] assms
    by (simp add: settled_def)
qed

text \<open>Two messages of 16 and 18 bytes and the beginning of a third, in two pieces.\<close>

definition echo_dbus :: "u8 list libdbus" where
  "echo_dbus = \<lparr>dbus_demarshal = Some, dbus_marshal = Some, dbus_destination = \<lambda>_. None,
     dbus_sender = \<lambda>_. None, dbus_set_sender = \<lambda>_ m. m, dbus_is_disconnected = \<lambda>m. m = []\<rparr>"

definition plain_bytestream :: "bytestream_state bytestream_class" where
  "plain_bytestream = \<lparr>bs_state = \<lambda>b. b, bs_is_muc = \<lambda>_. False, bs_send = \<lambda>_ b. (True, b, []),
     bs_close = \<lambda>_. (BYTESTREAM_STATE_CLOSED, [BYTESTREAM_STATE_CLOSING, BYTESTREAM_STATE_CLOSED]),
     bs_set_state = \<lambda>st b. (st, if st = b then [] else [st])\<rparr>"

definition contact_tube :: "(u8 list, bytestream_state) tube_dbus" where
  "contact_tube =
     \<lparr>td_handle_type = TP_HANDLE_TYPE_CONTACT, td_bytestream = Some BYTESTREAM_STATE_OPEN, td_offered = True,
      td_access_control = ACCESS_CONTROL_CREDENTIALS, td_local_name = None, td_srv_addr = Some [1],
      td_conn = False, td_delivered = [], td_msg_queue = [], td_msg_queue_size = 0, td_names = [],
      td_buffer = Some [], td_needed = 0, td_closed = False, td_data_handler = True, td_random = [],
      td_signals = []\<rparr>"

definition small_message :: "u8 list" where
  "small_message = [108, 1, 0, 1, 0, 0, 0, 0, 1, 0, 0, 0, 0, 0, 0, 0]"

definition larger_message :: "u8 list" where
  "larger_message = [108, 1, 0, 1, 2, 0, 0, 0, 2, 0, 0, 0, 0, 0, 0, 0, 97, 98]"

lemma stream_is_reassembled_witness:
  "returns (\<lambda>t. td_msg_queue t = [larger_message, small_message] \<and> td_buffer t = Some [108, 1] \<and> td_needed t = 0)
    (foldo (data_received_cb echo_dbus plain_bytestream (\<lambda>_. None) (\<lambda>_. 7) None)
      [take 5 small_message, drop 5 small_message @ larger_message @ [108, 1]] contact_tube)"
proof -
  have "dbus_frame small_message" "dbus_frame larger_message"
    by (simp_all add: dbus_frame_def dbus_size_def dbus_lengths_def small_message_def larger_message_def
        DBUS_BIG_ENDIAN_def DBUS_LITTLE_ENDIAN_def of_be_def round8_def)
  moreover have "readable small_message" "readable larger_message"
    by (simp_all add: readable_def small_message_def larger_message_def DBUS_BIG_ENDIAN_def)
  moreover have "incomplete [108, 1]" by (simp add: incomplete_def)
  ultimately have run: "foldo (data_received_cb echo_dbus plain_bytestream (\<lambda>_. None) (\<lambda>_. 7) None)
      [take 5 small_message, drop 5 small_message @ larger_message @ [108, 1]] contact_tube
    = Inr ((fold (message_received echo_dbus 7) [small_message, larger_message] contact_tube)
             \<lparr>td_buffer := Some [108, 1], td_needed := bytes_needed [108, 1]\<rparr>)"
    by (subst stream_is_reassembled[where ms = "[small_message, larger_message]" and rest = "[108, 1]"])
       (simp_all add: contact_tube_def)
  show ?thesis
    unfolding run by (simp add: message_received_def message_accepted_def echo_dbus_def contact_tube_def bytes_needed_def
        MAX_QUEUE_SIZE_def small_message_def larger_message_def)
qed

section \<open>The queue in front of the application\<close>

text \<open>What happens to the queue: a message of a contact, the application connects, it disconnects.\<close>

datatype tube_event = Message_arrives u32 "u8 list" | Application_connects | Application_leaves

fun tube_event_step :: "'m libdbus \<Rightarrow> tube_event \<Rightarrow> ('m, 'b) tube_dbus \<Rightarrow> ('m, 'b) tube_dbus" where
  "tube_event_step L (Message_arrives i data) t = message_received L i data t"
| "tube_event_step L Application_connects t = new_connection_cb t"
| "tube_event_step L Application_leaves t = t\<lparr>td_conn := False\<rparr>"

definition queue_ok :: "('m, 'b) tube_dbus \<Rightarrow> bool" where
  "queue_ok t \<longleftrightarrow> td_msg_queue_size t \<le> MAX_QUEUE_SIZE
     \<and> (td_conn t \<longrightarrow> td_msg_queue t = [] \<and> td_msg_queue_size t = 0)"

definition pipeline :: "('m, 'b) tube_dbus \<Rightarrow> 'm list" where
  "pipeline t = td_delivered t @ rev (td_msg_queue t)"

definition accepted_messages :: "'m libdbus \<Rightarrow> ('m, 'b) tube_dbus \<Rightarrow> tube_event \<Rightarrow> 'm list" where
  "accepted_messages L t e = (case e of
     Message_arrives i data \<Rightarrow>
       (case dbus_demarshal L data of None \<Rightarrow> [] | Some msg \<Rightarrow> if message_accepted L i msg t then [msg] else [])
   | _ \<Rightarrow> [])"

definition event_size :: "tube_event \<Rightarrow> nat" where
  "event_size e = (case e of Message_arrives i data \<Rightarrow> length data | _ \<Rightarrow> 0)"

lemma tube_event_queue_ok: "queue_ok t \<Longrightarrow> queue_ok (tube_event_step L e t)"
  by (cases e) (auto simp: queue_ok_def message_received_def new_connection_cb_def split: option.split)

lemma tube_event_accepts: "accepted_messages L (tube_event_step L e t) = accepted_messages L t"
  by (cases e) (auto simp: accepted_messages_def message_received_def message_accepted_def new_connection_cb_def
      fun_eq_iff split: option.split tube_event.split)

lemma tube_event_pipeline:
  assumes "queue_ok t" "td_msg_queue_size t + event_size e \<le> MAX_QUEUE_SIZE"
  shows "pipeline (tube_event_step L e t) = pipeline t @ accepted_messages L t e"
    and "td_msg_queue_size (tube_event_step L e t) \<le> td_msg_queue_size t + event_size e"
  using assms by (cases e; auto simp: queue_ok_def pipeline_def accepted_messages_def event_size_def
      message_received_def new_connection_cb_def split: option.split)+

text \<open>
  C10. The application gets the messages in order, none twice: what was delivered together with what
  waits in the queue is exactly the sequence of the messages that were accepted, whenever the
  application connects and leaves, as long as no more than 4 MiB arrive. The queue never exceeds its
  limit, and it is empty while the application is connected.
\<close>

theorem messages_reach_application:
  assumes "queue_ok t"
  shows "queue_ok (fold (tube_event_step L) es t)
    \<and> (td_msg_queue_size t + sum_list (map event_size es) \<le> MAX_QUEUE_SIZE \<longrightarrow>
         pipeline (fold (tube_event_step L) es t) = pipeline t @ concat (map (accepted_messages L t) es))"
  using assms
proof (induction es arbitrary: t)
  case (Cons e es)
  have "queue_ok (tube_event_step L e t)" using Cons.prems by (rule tube_event_queue_ok)
  note IH = Cons.IH[OF this]
  show ?case
  proof (intro conjI impI)
    assume size: "td_msg_queue_size t + sum_list (map event_size (e # es)) \<le> MAX_QUEUE_SIZE"
    then have "td_msg_queue_size t + event_size e \<le> MAX_QUEUE_SIZE" by simp
    note step = tube_event_pipeline[OF Cons.prems this, of L]
    with IH size show "pipeline (fold (tube_event_step L) (e # es) t)
        = pipeline t @ concat (map (accepted_messages L t) (e # es))"
      by (simp add: tube_event_accepts)
  qed (use IH in simp)
qed simp

lemma messages_reach_application_witness:
  "pipeline (fold (tube_event_step echo_dbus)
      [Message_arrives 7 [1, 2], Application_connects, Message_arrives 7 [3], Application_leaves,
       Message_arrives 7 [4]] contact_tube) = [[1, 2], [3], [4]]"
  using messages_reach_application[of contact_tube echo_dbus
      "[Message_arrives 7 [1, 2], Application_connects, Message_arrives 7 [3], Application_leaves,
        Message_arrives 7 [4]]"]
  by (simp add: queue_ok_def pipeline_def accepted_messages_def event_size_def echo_dbus_def contact_tube_def
      message_accepted_def MAX_QUEUE_SIZE_def)

section \<open>Unique names\<close>

text \<open>
  Base64 as RFC 4648 defines it, which is what \<open>g_base64_encode\<close> documents: three bytes become
  four characters for the values of their six-bit groups, and \<open>=\<close> fills up the last group.
\<close>

definition base64_alphabet :: string where
  "base64_alphabet = ''ABCDEFGHIJKLMNOPQRSTUVWXYZabcdefghijklmnopqrstuvwxyz0123456789+/''"

definition base64_char :: "nat \<Rightarrow> u8" where
  "base64_char i = of_char (base64_alphabet ! i)"

definition sextets :: "u8 \<Rightarrow> u8 \<Rightarrow> u8 \<Rightarrow> nat list" where
  "sextets a b c = [unat a div 4, unat a mod 4 * 16 + unat b div 16, unat b mod 16 * 4 + unat c div 64, unat c mod 64]"

fun base64 :: "u8 list \<Rightarrow> u8 list" where
  "base64 [] = []"
| "base64 [a] = map base64_char (take 2 (sextets a 0 0)) @ map of_char ''==''"
| "base64 [a, b] = map base64_char (take 3 (sextets a b 0)) @ map of_char ''=''"
| "base64 (a # b # c # bs) = map base64_char (sextets a b c) @ base64 bs"

text \<open>With the substitutions of the code, the name is the groups of the nickname padded with NUL bytes.\<close>

definition pad3 :: "u8 list \<Rightarrow> u8 list" where
  "pad3 bs = bs @ replicate ((3 - length bs mod 3) mod 3) 0"

fun groups :: "u8 list \<Rightarrow> nat list" where
  "groups (a # b # c # bs) = sextets a b c @ groups bs"
| "groups _ = []"

definition name_char :: "nat \<Rightarrow> u8" where
  "name_char i = plain_char (base64_char i)"

lemma plain_equals: "plain_char 61 = name_char 0"
  by (simp add: name_char_def base64_char_def base64_alphabet_def plain_char_def)

lemma pad3_3: "pad3 (a # b # c # bs) = a # b # c # pad3 bs"
  by (simp add: pad3_def)

lemma plain_base64: "map plain_char (base64 bs) = map name_char (groups (pad3 bs))"
proof (induction bs rule: base64.induct)
  case (4 a b c bs)
  then show ?case by (simp add: pad3_3 sextets_def name_char_def)
qed (simp_all add: pad3_def sextets_def name_char_def[symmetric] plain_equals numeral_2_eq_2)

lemma name_char_inj: "inj_on name_char {..<64}"
proof -
  have "distinct (map name_char [0..<64])"
    by (simp add: name_char_def base64_char_def base64_alphabet_def plain_char_def upt_rec)
  then show ?thesis by (simp add: distinct_map atLeast0LessThan)
qed

lemma name_char_plain: "i < 64 \<Longrightarrow> name_char i \<in> set ascii_chars"
proof -
  have sub: "plain_char ` of_char ` set base64_alphabet \<subseteq> set ascii_chars"
    by (simp add: base64_alphabet_def ascii_chars_def plain_char_def)
  have len: "length base64_alphabet = 64" by (simp add: base64_alphabet_def)
  assume "i < 64"
  then have "base64_alphabet ! i \<in> set base64_alphabet" using len by simp
  then show "name_char i \<in> set ascii_chars" using sub by (auto simp: name_char_def base64_char_def)
qed

lemma unat_u8 [simp]: "unat (a :: u8) < 256"
  using unsigned_less[of a, where ?'a = nat] by simp

lemma sextet_digits:
  "unat (a :: u8) div 4 < 64" "unat (a :: u8) mod 4 < 4" "unat (a :: u8) div 16 < 16"
  "unat (a :: u8) mod 16 < 16" "unat (a :: u8) div 64 < 4"
  using unat_u8[of a] by (simp_all add: less_mult_imp_div_less)

lemma sextets_less: "\<forall>i \<in> set (sextets a b c). i < 64"
proof -
  have "unat a mod 4 * 16 + unat b div 16 < 64" "unat b mod 16 * 4 + unat c div 64 < 64"
    using sextet_digits(2)[of a] sextet_digits(3)[of b] sextet_digits(4)[of b] sextet_digits(5)[of c] by linarith+
  then show ?thesis using sextet_digits(1)[of a] by (simp add: sextets_def)
qed

lemma digits_inj:
  assumes "x * n + r = y * n + s" "r < n" "s < (n :: nat)"
  shows "x = y \<and> r = s"
proof -
  have "(x * n + r) div n = x" "(y * n + s) div n = y" using assms(2,3) by simp_all
  then have "x = y" using assms(1) by simp
  with assms(1) show ?thesis by simp
qed

lemma sextets_inj:
  assumes "sextets a b c = sextets a' b' c'"
  shows "a = a' \<and> b = b' \<and> c = c'"
proof -
  have glue: "x = y" if "x div k = y div k" "x mod k = y mod k" for x y k :: nat
    using that by (metis div_mult_mod_eq)
  from assms have e: "unat a div 4 = unat a' div 4"
    "unat a mod 4 * 16 + unat b div 16 = unat a' mod 4 * 16 + unat b' div 16"
    "unat b mod 16 * 4 + unat c div 64 = unat b' mod 16 * 4 + unat c' div 64" "unat c mod 64 = unat c' mod 64"
    by (simp_all add: sextets_def)
  have ab: "unat a mod 4 = unat a' mod 4 \<and> unat b div 16 = unat b' div 16"
    by (rule digits_inj[OF e(2) sextet_digits(3) sextet_digits(3)])
  have bc: "unat b mod 16 = unat b' mod 16 \<and> unat c div 64 = unat c' div 64"
    by (rule digits_inj[OF e(3) sextet_digits(5) sextet_digits(5)])
  have "unat a = unat a'" by (rule glue[OF e(1) conjunct1[OF ab]])
  moreover have "unat b = unat b'" by (rule glue[OF conjunct2[OF ab] conjunct1[OF bc]])
  moreover have "unat c = unat c'" by (rule glue[OF conjunct2[OF bc] e(4)])
  ultimately show ?thesis by (simp add: word_unat_eq_iff)
qed

lemma length_sextets [simp]: "length (sextets a b c) = 4"
  by (simp add: sextets_def)

lemma groups_less: "\<forall>i \<in> set (groups bs). i < 64"
  by (induction bs rule: groups.induct) (simp_all add: sextets_less ball_Un)

lemma length_groups: "length (groups bs) = 4 * (length bs div 3)"
  by (induction bs rule: groups.induct) (simp_all add: div_add_self1)

lemma groups_inj:
  assumes "groups xs = groups ys" "length xs mod 3 = 0" "length ys mod 3 = 0"
  shows "xs = ys"
  using assms
proof (induction xs arbitrary: ys rule: groups.induct)
  case (1 a b c xs)
  have "length (groups ys) \<noteq> 0" unfolding 1(2)[symmetric] by simp
  then obtain a' b' c' zs where ys: "ys = a' # b' # c' # zs"
    by (cases ys rule: groups.cases) simp_all
  with 1 have "sextets a b c = sextets a' b' c'" "groups xs = groups zs" by simp_all
  with 1 ys show ?case by (auto dest: sextets_inj)
next
  case "2_1"
  then show ?case by (cases ys rule: groups.cases) (auto simp: sextets_def)
qed simp_all

lemma length_pad3: "length (pad3 bs) mod 3 = 0" "length (pad3 bs) = 3 * ((length bs + 2) div 3)"
proof -
  define q r where "q = length bs div 3" and "r = length bs mod 3"
  have n: "length bs = 3 * q + r" "r < 3" by (simp_all add: q_def r_def)
  have pad: "length (pad3 bs) = length bs + (3 - r) mod 3" by (simp add: pad3_def r_def)
  from n(2) consider "r = 0" | "r = 1" | "r = 2" by linarith
  then have "length (pad3 bs) = 3 * ((length bs + 2) div 3)"
    using n(1) by cases (simp_all add: pad div_add_self1)
  then show "length (pad3 bs) mod 3 = 0" "length (pad3 bs) = 3 * ((length bs + 2) div 3)" by simp_all
qed

lemma pad3_inj:
  assumes "pad3 xs = pad3 ys" "0 \<notin> set xs" "0 \<notin> set ys"
  shows "xs = ys"
proof -
  have strip: "rev (dropWhile (\<lambda>b. b = 0) (rev (pad3 zs))) = zs" if "0 \<notin> set zs" for zs :: "u8 list"
  proof -
    have "dropWhile (\<lambda>b. b = 0) (replicate k 0 @ us) = dropWhile (\<lambda>b. b = 0) us" for k and us :: "u8 list"
      by (induction k) simp_all
    moreover have "dropWhile (\<lambda>b. b = 0) (rev zs) = rev zs"
    proof (cases "rev zs")
      case (Cons y ys)
      then have "y \<in> set (rev zs)" by simp
      with that have "y \<noteq> 0" by auto
      with Cons show ?thesis by simp
    qed simp
    ultimately show ?thesis by (simp add: pad3_def)
  qed
  show ?thesis using strip[OF assms(2)] strip[OF assms(3)] unfolding assms(1) by (rule trans[OF sym])
qed

lemma plain_base64_eq:
  assumes "map plain_char (base64 xs) = map plain_char (base64 ys)"
  shows "pad3 xs = pad3 ys"
proof -
  have "inj_on name_char (set (groups (pad3 xs)) \<union> set (groups (pad3 ys)))"
    using groups_less by (intro inj_on_subset[OF name_char_inj]) auto
  with assms have "groups (pad3 xs) = groups (pad3 ys)"
    by (simp add: plain_base64 inj_on_map_eq_map)
  then show ?thesis by (intro groups_inj) (simp_all add: length_pad3(1))
qed

lemma length_base64: "length (base64 bs) = 4 * ((length bs + 2) div 3)"
proof -
  have "length (base64 bs) = length (map plain_char (base64 bs))" by simp
  also have "\<dots> = 4 * ((length bs + 2) div 3)"
    by (simp only: plain_base64 length_map length_groups length_pad3) simp
  finally show ?thesis .
qed

text \<open>
  C33. The unique names of a room's members fit the D-Bus limit of 255 bytes, use only letters, digits,
  underscore and hyphen after the prefix, and tell the members apart: two nicknames have the same name only
  when they are equal, or when both are longer than 186 bytes, agree in the first 169 bytes and have the
  same SHA-1 digest. (Nicknames are C strings, so they have no NUL byte.)
\<close>

theorem unique_names:
  assumes "\<And>bs. length (sha1_bin bs) = 20" "0 \<notin> set nick"
  shows "length (generate_dbus_unique_name base64 sha1_bin nick) \<le> 255
    \<and> set (drop 3 (generate_dbus_unique_name base64 sha1_bin nick)) \<subseteq> set ascii_chars
    \<and> (\<forall>nick'. 0 \<notin> set nick' \<longrightarrow>
         generate_dbus_unique_name base64 sha1_bin nick = generate_dbus_unique_name base64 sha1_bin nick' \<longrightarrow>
         nick = nick' \<or> (length nick > 186 \<and> length nick' > 186
           \<and> take 169 nick = take 169 nick' \<and> sha1_bin nick = sha1_bin nick'))"
proof -
  let ?e = "\<lambda>n. if length n \<le> 186 then n else take 169 n @ sha1_bin n"
  have name: "generate_dbus_unique_name base64 sha1_bin n = map of_char '':2.'' @ map plain_char (base64 (?e n))" for n
    by (simp add: generate_dbus_unique_name_def Let_def)
  have len: "length (base64 (?e n)) = (if length n \<le> 186 then 4 * ((length n + 2) div 3) else 252)" for n
    using assms(1) by (simp add: length_base64)
  have "name_char ` {..<64} \<subseteq> set ascii_chars" by (auto simp: name_char_plain)
  moreover have "set (map name_char (groups xs)) \<subseteq> name_char ` {..<64}" for xs
    using groups_less[of xs] by auto
  ultimately have chars: "set (map plain_char (base64 xs)) \<subseteq> set ascii_chars" for xs
    by (metis plain_base64 subset_trans)
  have "nick = nick' \<or> (length nick > 186 \<and> length nick' > 186 \<and> take 169 nick = take 169 nick'
      \<and> sha1_bin nick = sha1_bin nick')"
    if eq: "map plain_char (base64 (?e nick)) = map plain_char (base64 (?e nick'))" and nul: "0 \<notin> set nick'" for nick'
  proof -
    have same: "length (base64 (?e nick)) = length (base64 (?e nick'))" using eq by (metis length_map)
    have pad: "pad3 (?e nick) = pad3 (?e nick')" using eq by (rule plain_base64_eq)
    consider "length nick \<le> 186" "length nick' \<le> 186" | "186 < length nick" "186 < length nick'"
      using same unfolding len by (auto split: if_splits)
    then show ?thesis
    proof cases
      case 1
      then have "pad3 nick = pad3 nick'" using pad by (simp only: if_True)
      then have "nick = nick'" by (rule pad3_inj[OF _ assms(2) nul])
      then show ?thesis ..
    next
      case 2
      then have "take 169 nick @ sha1_bin nick = take 169 nick' @ sha1_bin nick'"
        using pad assms(1) by (simp add: pad3_def)
      with 2 show ?thesis by simp
    qed
  qed
  moreover have "length (base64 (?e nick)) \<le> 252"
  proof (cases "length nick \<le> 186")
    case True
    then have "(length nick + 2) div 3 \<le> 188 div 3" by (intro div_le_mono) simp
    with True len[of nick] show ?thesis by simp
  qed (use len[of nick] in simp)
  ultimately show ?thesis using chars by (simp add: name)
qed

lemma unique_names_witness:
  "length (generate_dbus_unique_name base64 (\<lambda>_. replicate 20 0) [97, 98]) \<le> 255
    \<and> generate_dbus_unique_name base64 (\<lambda>_. replicate 20 0) [97, 98]
      \<noteq> generate_dbus_unique_name base64 (\<lambda>_. replicate 20 0) [97]"
  using unique_names[of "\<lambda>_. replicate 20 0" "[97, 98]"] by (auto dest: spec[of _ "[97]"])

end
