(* ===== verification/C_String.thy ===== *)
theory C_String
  imports Prelude
begin

text \<open>
  Strings of the C code, as lists of bytes without the final NUL, and what the programs use of the C
  library on them: \<open>strtol\<close> and \<open>atoi\<close>, \<open>%d\<close>, the prefix test and the first cut of
  \<open>g_strsplit\<close>.
\<close>

type_synonym c_string = "u8 list"

definition c_str :: "string \<Rightarrow> c_string" where
  "c_str s = map of_char s"

section \<open>Reading numbers\<close>

text \<open>
  \<open>strtol (s, &end, 10)\<close>: blanks, a sign, digits; the value is clamped to a 64-bit \<open>long\<close>, and
  without a digit nothing is consumed. Storing it in an \<open>int\<close> keeps the low 32 bits.
\<close>

definition is_blank :: "u8 \<Rightarrow> bool" where
  "is_blank c \<longleftrightarrow> c = 32 \<or> (9 \<le> c \<and> c \<le> 13)"

definition is_digit :: "u8 \<Rightarrow> bool" where
  "is_digit c \<longleftrightarrow> 48 \<le> c \<and> c \<le> 57"

definition digits_value :: "c_string \<Rightarrow> int" where
  "digits_value ds = foldl (\<lambda>v d. 10 * v + (uint d - 48)) 0 ds"

definition strtol10 :: "c_string \<Rightarrow> int \<times> c_string" where
  "strtol10 s =
     (let t = dropWhile is_blank s;
          neg = (t \<noteq> [] \<and> hd t = 45);
          u = (if t \<noteq> [] \<and> (hd t = 45 \<or> hd t = 43) then tl t else t);
          ds = takeWhile is_digit u;
          v = digits_value ds;
          v = (if neg then - v else v)
      in if ds = [] then (0, s)
         else (max (- (2 ^ 63)) (min (2 ^ 63 - 1) v), dropWhile is_digit u))"

definition int_of_long :: "int \<Rightarrow> int" where
  "int_of_long v = sint (word_of_int v :: 32 word)"

definition atoi :: "c_string \<Rightarrow> int" where
  "atoi s = int_of_long (fst (strtol10 s))"

section \<open>Writing numbers\<close>

fun decimal :: "nat \<Rightarrow> c_string" where
  "decimal n = (if n < 10 then [48 + of_nat n] else decimal (n div 10) @ [48 + of_nat (n mod 10)])"

declare decimal.simps [simp del]

section \<open>Prefixes and cuts\<close>

definition has_prefix :: "c_string \<Rightarrow> c_string \<Rightarrow> bool" where
  "has_prefix s p \<longleftrightarrow> take (length p) s = p"

text \<open>What follows the first delimiter, \<open>g_strsplit (s, ":", 2)[1]\<close>.\<close>

definition after_first :: "u8 \<Rightarrow> c_string \<Rightarrow> c_string option" where
  "after_first c s = (case dropWhile (\<lambda>x. x \<noteq> c) s of [] \<Rightarrow> None | _ # rest \<Rightarrow> Some rest)"

section \<open>A number that is printed is read back\<close>

lemma digits_value_snoc: "digits_value (ds @ [d]) = 10 * digits_value ds + (uint d - 48)"
  by (simp add: digits_value_def)

lemma digit_char:
  assumes "k < 10"
  shows "is_digit (48 + of_nat k)" "uint (48 + of_nat k :: u8) = 48 + int k"
proof -
  have u: "uint (48 + of_nat k :: u8) = 48 + int k"
    using assms by (simp add: uint_word_ariths unsigned_of_nat take_bit_eq_mod)
  then show "uint (48 + of_nat k :: u8) = 48 + int k" .
  show "is_digit (48 + of_nat k)"
    using assms by (simp add: is_digit_def word_le_def u)
qed

lemma decimal_digits: "\<forall>d \<in> set (decimal n). is_digit d"
proof (induction n rule: decimal.induct)
  case (1 n)
  show ?case
  proof (cases "n < 10")
    case True
    then show ?thesis by (simp add: decimal.simps[of n] digit_char)
  next
    case False
    with 1 show ?thesis by (simp add: decimal.simps[of n] digit_char)
  qed
qed

lemma decimal_nonempty [simp]: "decimal n \<noteq> []"
  by (simp add: decimal.simps[of n])

lemma digits_value_decimal: "digits_value (decimal n) = int n"
proof (induction n rule: decimal.induct)
  case (1 n)
  show ?case
  proof (cases "n < 10")
    case True
    then show ?thesis by (simp add: decimal.simps[of n] digits_value_def digit_char)
  next
    case False
    then show ?thesis using 1 by (simp add: decimal.simps[of n] digits_value_snoc digit_char) presburger
  qed
qed

lemma digit_not_blank: "is_digit d \<Longrightarrow> \<not> is_blank d \<and> d \<noteq> 45 \<and> d \<noteq> 43"
  by (auto simp: is_digit_def is_blank_def word_le_def)

lemma strtol10_decimal:
  assumes "n < 2 ^ 63"
  shows "strtol10 (decimal n) = (int n, [])"
proof -
  have hd: "is_digit (hd (decimal n))" using decimal_digits[of n] by (simp add: hd_in_set)
  have "dropWhile is_blank (decimal n) = decimal n"
    using digit_not_blank[OF hd] by (cases "decimal n") simp_all
  moreover have all: "takeWhile is_digit (decimal n) = decimal n" "dropWhile is_digit (decimal n) = []"
    by (simp_all add: decimal_digits)
  moreover have "int n < 2 ^ 63" using assms by (simp add: zless_nat_conj[symmetric])
  ultimately show ?thesis
    using digit_not_blank[OF hd] digits_value_decimal[of n]
    by (simp add: strtol10_def Let_def del: takeWhile_eq_all_conv)
qed

lemma int_of_long_small: "- (2 ^ 31) \<le> v \<Longrightarrow> v < 2 ^ 31 \<Longrightarrow> int_of_long v = v"
  by (simp add: int_of_long_def signed_of_int signed_take_bit_int_eq_self)

lemma atoi_decimal: "n < 2 ^ 31 \<Longrightarrow> atoi (decimal n) = int n"
  by (simp add: atoi_def strtol10_decimal int_of_long_small)

lemma after_first_append: "c \<notin> set s \<Longrightarrow> after_first c (s @ c # rest) = Some rest"
  by (simp add: after_first_def dropWhile_append)

end
