(* ===== verification/Capability_Set.thy ===== *)
theory Capability_Set
  imports C_String
begin

text \<open>
  Capabilities, \<open>src/capability-set.c\<close>: what a contact supports, as a set of XML namespaces and
  of \<open>quirks\<close>, pseudo-namespaces that start with a character that XML does not allow. The code
  keeps a set of handles into a pool of strings; here it is the set of the strings. Strings are lists
  of bytes. Of the XML library Wocky, the model has the
  node with its public fields; \<open>get_attribute\<close> stands for its \<open>wocky_node_get_attribute\<close>.
\<close>

type_synonym capability_set = "c_string set"

datatype xml_node = Xml_node (node_name: c_string) (node_attributes: "(c_string \<times> c_string) list")
  (node_children: "xml_node list")

type_synonym node_reader = "xml_node \<Rightarrow> c_string \<Rightarrow> c_string option"

definition QUIRK_PREFIX_CHAR :: u8 where
  "QUIRK_PREFIX_CHAR = 7"

definition QUIRK_OMITS_CONTENT_CREATORS :: c_string where
  "QUIRK_OMITS_CONTENT_CREATORS = QUIRK_PREFIX_CHAR # c_str ''omits-content-creators''"

definition QUIRK_NOT_XEP_CAPABILITIES :: c_string where
  "QUIRK_NOT_XEP_CAPABILITIES = QUIRK_PREFIX_CHAR # c_str ''not-xep-capabilities''"

section \<open>Identities\<close>

definition GABBLE_PREFIX :: c_string where
  "GABBLE_PREFIX = c_str ''Telepathy Gabble 0.7.''"

definition omits_content_creators :: "node_reader \<Rightarrow> xml_node \<Rightarrow> bool" where
  "omits_content_creators get_attribute identity =
     (case get_attribute identity (c_str ''name'') of
        None \<Rightarrow> False
      | Some name \<Rightarrow>
          if take (length GABBLE_PREFIX) name \<noteq> GABBLE_PREFIX then False
          else let (ver, rest) = strtol10 (drop (length GABBLE_PREFIX) name); ver = int_of_long ver in
               if rest \<noteq> [] then False else 16 \<le> ver \<and> ver < 29)"

section \<open>Operations\<close>

definition capability_set_new :: capability_set where
  "capability_set_new = {}"

definition capability_set_add :: "c_string \<Rightarrow> capability_set \<Rightarrow> capability_set" where
  "capability_set_add cap caps = insert cap caps"

definition capability_set_remove :: "c_string \<Rightarrow> capability_set \<Rightarrow> bool \<times> capability_set" where
  "capability_set_remove cap caps = (cap \<in> caps, caps - {cap})"

definition capability_set_update :: "capability_set \<Rightarrow> capability_set \<Rightarrow> capability_set" where
  "capability_set_update target source = target \<union> source"

definition capability_set_copy :: "capability_set \<Rightarrow> capability_set" where
  "capability_set_copy caps = capability_set_update capability_set_new caps"

definition capability_set_intersect :: "capability_set \<Rightarrow> capability_set \<Rightarrow> capability_set" where
  "capability_set_intersect target source = target - {c \<in> target. c \<notin> source}"

definition capability_set_exclude :: "capability_set \<Rightarrow> capability_set \<Rightarrow> capability_set" where
  "capability_set_exclude caps removed = caps - removed"

definition capability_set_has :: "capability_set \<Rightarrow> c_string \<Rightarrow> bool" where
  "capability_set_has caps cap \<longleftrightarrow> cap \<in> caps"

definition capability_set_has_one :: "capability_set \<Rightarrow> capability_set \<Rightarrow> bool" where
  "capability_set_has_one caps alternatives \<longleftrightarrow> (\<exists>c \<in> alternatives. c \<in> caps)"

definition capability_set_at_least :: "capability_set \<Rightarrow> capability_set \<Rightarrow> bool" where
  "capability_set_at_least caps query \<longleftrightarrow> (\<forall>c \<in> query. c \<in> caps)"

definition capability_set_equals :: "capability_set \<Rightarrow> capability_set \<Rightarrow> bool" where
  "capability_set_equals a b \<longleftrightarrow> a = b"

text \<open>\<open>foreach\<close> shows only the real features to its callback.\<close>

definition capability_set_features :: "capability_set \<Rightarrow> capability_set" where
  "capability_set_features caps = {c \<in> caps. c = [] \<or> hd c \<noteq> QUIRK_PREFIX_CHAR}"

definition add_child_capability :: "node_reader \<Rightarrow> xml_node \<Rightarrow> capability_set \<Rightarrow> capability_set" where
  "add_child_capability get_attribute child ret =
     (if node_name child = c_str ''identity''
      then (if omits_content_creators get_attribute child then capability_set_add QUIRK_OMITS_CONTENT_CREATORS ret else ret)
      else if node_name child \<noteq> c_str ''feature'' then ret
      else case get_attribute child (c_str ''var'') of
        None \<Rightarrow> ret
      | Some var \<Rightarrow> if var \<noteq> [] \<and> hd var = QUIRK_PREFIX_CHAR then ret else capability_set_add var ret)"

definition capability_set_new_from_stanza :: "node_reader \<Rightarrow> xml_node \<Rightarrow> capability_set" where
  "capability_set_new_from_stanza get_attribute query_result =
     fold (add_child_capability get_attribute) (node_children query_result) capability_set_new"

section \<open>What a stanza can say\<close>

lemma quirk_not_feature: "QUIRK_OMITS_CONTENT_CREATORS \<noteq> []" "hd QUIRK_OMITS_CONTENT_CREATORS = QUIRK_PREFIX_CHAR"
  by (simp_all add: QUIRK_OMITS_CONTENT_CREATORS_def)

lemma stanza_quirks:
  assumes "\<forall>c \<in> ret. c \<noteq> [] \<longrightarrow> hd c = QUIRK_PREFIX_CHAR \<longrightarrow> c = QUIRK_OMITS_CONTENT_CREATORS"
  shows "\<forall>c \<in> fold (add_child_capability attr) ns ret. c \<noteq> [] \<longrightarrow> hd c = QUIRK_PREFIX_CHAR \<longrightarrow> c = QUIRK_OMITS_CONTENT_CREATORS"
  using assms
proof (induction ns arbitrary: ret)
  case (Cons n ns)
  have "\<forall>c \<in> add_child_capability attr n ret. c \<noteq> [] \<longrightarrow> hd c = QUIRK_PREFIX_CHAR \<longrightarrow> c = QUIRK_OMITS_CONTENT_CREATORS"
    using Cons.prems by (auto simp: add_child_capability_def capability_set_add_def split: option.split)
  with Cons.IH show ?case by simp
qed simp

text \<open>A stanza can cause one quirk, never name one.\<close>

lemma new_from_stanza_quirks:
  "c \<in> capability_set_new_from_stanza attr q \<Longrightarrow> c \<noteq> [] \<Longrightarrow> hd c = QUIRK_PREFIX_CHAR \<Longrightarrow> c = QUIRK_OMITS_CONTENT_CREATORS"
  using stanza_quirks[of capability_set_new] by (auto simp: capability_set_new_from_stanza_def capability_set_new_def)

end
