(* ===== verification/Presence_Cache.thy ===== *)
theory Presence_Cache
  imports Capability_Set
begin

text \<open>
  Service discovery and the cache of capabilities, \<open>src/disco.c\<close> and \<open>src/presence-cache.c\<close>.
  A contact announces a hash of its capabilities; the cache asks one of the contacts that announce the
  same hash, checks its answer and applies it to all of them. The record \<open>presence_cache\<close> has the
  fields of the cache that the code reads, the discovery requests that are under way (the \<open>requests\<close>
  of \<open>SalutDisco\<close>), and the capabilities of the contacts, which the cache sets. Contacts and
  requests are pointers: natural numbers stand for the contacts, a request is found by its position in
  the list. The attributes of a stanza's nodes, the hash of a stanza (\<open>wocky_caps_hash_compute_from_node\<close>) and its data forms are
  parameters, since Wocky computes them.
\<close>

section \<open>Data\<close>

record 'f capability_info =
  ci_caps :: capability_set
  ci_forms :: "'f list"

record disco_waiter =
  dw_contact :: nat
  dw_hash :: "c_string option"
  dw_ver :: "c_string option"
  dw_requested :: bool

record disco_request =
  dr_contact :: nat
  dr_node :: c_string
  dr_cancelled :: bool

record 'f presence_cache =
  pc_capabilities :: "(c_string \<times> 'f capability_info) list"
  pc_pending :: "(c_string \<times> disco_waiter list) list"
  pc_requests :: "disco_request list"
  pc_contacts :: "nat \<Rightarrow> 'f capability_info"
  pc_updates :: "nat list" \<comment> \<open>emissions of \<open>capabilities-update\<close>\<close>

record 'f wocky =
  get_attribute :: node_reader
  caps_hash_from_node :: "xml_node \<Rightarrow> c_string"
  data_forms_of :: "xml_node \<Rightarrow> 'f list"

definition not_xep_capabilities :: "'f capability_info" where
  "not_xep_capabilities = \<lparr>ci_caps = capability_set_add QUIRK_NOT_XEP_CAPABILITIES capability_set_new, ci_forms = []\<rparr>"

definition presence_cache_new :: "(nat \<Rightarrow> 'f capability_info) \<Rightarrow> 'f presence_cache" where
  "presence_cache_new contacts =
     \<lparr>pc_capabilities = [], pc_pending = [], pc_requests = [], pc_contacts = contacts, pc_updates = []\<rparr>"

definition caps_uri :: "c_string \<Rightarrow> c_string \<Rightarrow> c_string" where
  "caps_uri node ver = node @ c_str ''#'' @ ver"

definition disco_waiter_new :: "nat \<Rightarrow> c_string option \<Rightarrow> c_string option \<Rightarrow> disco_waiter" where
  "disco_waiter_new contact hash ver =
     \<lparr>dw_contact = contact, dw_hash = hash, dw_ver = ver, dw_requested = False\<rparr>"

definition capability_info_get :: "c_string \<Rightarrow> 'f presence_cache \<Rightarrow> 'f capability_info option" where
  "capability_info_get uri st = map_of (pc_capabilities st) uri"

section \<open>Requests\<close>

definition disco_send_request :: "nat \<Rightarrow> c_string \<Rightarrow> 'f presence_cache \<Rightarrow> 'f presence_cache outcome" where
  "disco_send_request contact node st =
     andthen (assert_that (length node > 0)) (\<lambda>_.
     Inr (st\<lparr>pc_requests := pc_requests st @ [\<lparr>dr_contact = contact, dr_node = node, dr_cancelled = False\<rparr>]\<rparr>))"

definition disco_cancel_request :: "nat \<Rightarrow> 'f presence_cache \<Rightarrow> 'f presence_cache" where
  "disco_cancel_request k st =
     (if k < length (pc_requests st)
      then st\<lparr>pc_requests := (pc_requests st)[k := (pc_requests st ! k)\<lparr>dr_cancelled := True\<rparr>]\<rparr> else st)"

section \<open>Changing the capabilities of a contact\<close>

definition data_forms_equal :: "'f list \<Rightarrow> 'f list \<Rightarrow> bool" where
  "data_forms_equal one two \<longleftrightarrow> length one = length two \<and> (\<forall>d \<in> set one. d \<in> set two)"

definition contact_set_capabilities :: "nat \<Rightarrow> capability_set \<Rightarrow> 'f list \<Rightarrow> 'f presence_cache \<Rightarrow> 'f presence_cache" where
  "contact_set_capabilities contact caps forms st =
     st\<lparr>pc_contacts := (pc_contacts st)(contact := \<lparr>ci_caps = capability_set_copy caps, ci_forms = forms\<rparr>)\<rparr>"

definition change_caps :: "nat \<Rightarrow> 'f capability_info \<Rightarrow> 'f presence_cache \<Rightarrow> 'f presence_cache" where
  "change_caps contact info st =
     (if capability_set_equals (ci_caps info) (ci_caps (pc_contacts st contact))
         \<and> data_forms_equal (ci_forms info) (ci_forms (pc_contacts st contact))
      then st
      else (contact_set_capabilities contact (ci_caps info) (ci_forms info) st)
             \<lparr>pc_updates := pc_updates st @ [contact]\<rparr>)"

section \<open>Answers\<close>

text \<open>The retry loop over the waiters of a failed request.\<close>

fun retry_waiters ::
    "c_string \<Rightarrow> disco_waiter list \<Rightarrow> 'f presence_cache \<Rightarrow> ((disco_waiter list option) \<times> 'f presence_cache) outcome" where
  "retry_waiters node [] st = Inr (None, st)"
| "retry_waiters node (w # ws) st =
     (if \<not> dw_requested w
      then andthen (disco_send_request (dw_contact w) node st) (\<lambda>st.
           Inr (Some (w\<lparr>dw_requested := True\<rparr> # ws), st))
      else andthen (retry_waiters node ws st) (\<lambda>(r, st). Inr (map_option ((#) w) r, st)))"

text \<open>The loop that serves the waiters; it gives back those that stay on the list.\<close>

fun serve_waiters ::
    "bool \<Rightarrow> nat \<Rightarrow> c_string \<Rightarrow> 'f capability_info \<Rightarrow> disco_waiter list \<Rightarrow> 'f presence_cache
     \<Rightarrow> (disco_waiter list \<times> 'f presence_cache) outcome" where
  "serve_waiters bad_hash contact node info [] st = Inr ([], st)"
| "serve_waiters bad_hash contact node info (w # ws) st =
     (if \<not> bad_hash \<or> dw_contact w = contact
      then serve_waiters bad_hash contact node info ws
             (if \<not> bad_hash then change_caps (dw_contact w) info st else st)
      else andthen (if \<not> dw_requested w then disco_send_request (dw_contact w) node st else Inr st) (\<lambda>st.
           andthen (serve_waiters bad_hash contact node info ws st) (\<lambda>(rest, st).
           Inr (w\<lparr>dw_requested := True\<rparr> # rest, st))))"

text \<open>
  The check of an answer: whether the hash is bad, the capabilities to apply, and the cache with the
  new entry. Only the hash algorithm \<open>sha-1\<close> is checked, others count as no capabilities.
\<close>

definition check_answer ::
    "'f wocky \<Rightarrow> c_string \<Rightarrow> disco_waiter \<Rightarrow> xml_node \<Rightarrow> 'f presence_cache
     \<Rightarrow> bool \<times> 'f capability_info \<times> 'f presence_cache" where
  "check_answer W node waiter_self query st =
     (if dw_hash waiter_self \<noteq> Some (c_str ''sha-1'') then (False, not_xep_capabilities, st)
      else if dw_ver waiter_self \<noteq> Some (caps_hash_from_node W query) then (True, not_xep_capabilities, st)
      else case capability_info_get node st of
             Some info \<Rightarrow> (False, info, st)
           | None \<Rightarrow>
               let info = \<lparr>ci_caps = capability_set_new_from_stanza (get_attribute W) query, ci_forms = data_forms_of W query\<rparr> in
               (False, info, st\<lparr>pc_capabilities := AList.update node info (pc_capabilities st)\<rparr>))"

definition caps_disco_cb ::
    "'f wocky \<Rightarrow> nat \<Rightarrow> c_string option \<Rightarrow> xml_node option \<Rightarrow> bool \<Rightarrow> 'f presence_cache \<Rightarrow> 'f presence_cache outcome" where
  "caps_disco_cb W contact node query_result error st =
     (case query_result of
        None \<Rightarrow> Inr st
      | Some query \<Rightarrow>
     (case node of
        None \<Rightarrow> Inr st
      | Some node \<Rightarrow>
          let waiters = (case map_of (pc_pending st) node of None \<Rightarrow> [] | Some ws \<Rightarrow> ws) in
          if error then
            andthen (retry_waiters node waiters st) (\<lambda>(r, st).
            case r of
              Some ws \<Rightarrow> Inr (st\<lparr>pc_pending := AList.update node ws (pc_pending st)\<rparr>)
            | None \<Rightarrow> Inr (st\<lparr>pc_pending := AList.delete node (pc_pending st)\<rparr>))
          else case find (\<lambda>w. dw_contact w = contact) waiters of
            None \<Rightarrow> Inr st
          | Some waiter_self \<Rightarrow>
              let (bad_hash, info, st) = check_answer W node waiter_self query st
              in andthen (serve_waiters bad_hash contact node info waiters st) (\<lambda>(rest, st).
                 Inr (st\<lparr>pc_pending := (if \<not> bad_hash then AList.delete node (pc_pending st)
                                       else AList.update node rest (pc_pending st))\<rparr>))))"

text \<open>
  What comes back for a request: sending failed (the error of \<open>wocky_porter_send_iq_finish\<close>), the
  contact answered with an error stanza, its answer has no \<open>query\<close> node, or it has one.
\<close>

datatype disco_reply = Send_failed | Error_stanza | No_query_node | Query_result xml_node

definition disco_request_sent_cb ::
    "'f wocky \<Rightarrow> nat \<Rightarrow> disco_reply \<Rightarrow> 'f presence_cache \<Rightarrow> 'f presence_cache outcome" where
  "disco_request_sent_cb W k reply st =
     (if k < length (pc_requests st)
      then let request = pc_requests st ! k;
               (query_node, error) = (case reply of Query_result q \<Rightarrow> (Some q, False) | _ \<Rightarrow> (None, True)) in
           andthen (if \<not> dr_cancelled request
                    then caps_disco_cb W (dr_contact request) (Some (dr_node request)) query_node error st
                    else Inr st) (\<lambda>st.
           Inr (st\<lparr>pc_requests := take k (pc_requests st) @ drop (Suc k) (pc_requests st)\<rparr>))
      else Inl Null_dereference)"

section \<open>Announcements\<close>

definition process_caps ::
    "nat \<Rightarrow> c_string option \<Rightarrow> c_string option \<Rightarrow> c_string option \<Rightarrow> 'f presence_cache \<Rightarrow> 'f presence_cache outcome" where
  "process_caps contact hash node ver st =
     (case (node, ver) of
        (Some n, Some v) \<Rightarrow>
          if hash \<noteq> Some (c_str ''sha-1'') then Inr (change_caps contact not_xep_capabilities st)
          else
            let uri = caps_uri n v in
            (case capability_info_get uri st of
               Some info \<Rightarrow> Inr (change_caps contact info st)
             | None \<Rightarrow>
                 let waiters = (case map_of (pc_pending st) uri of None \<Rightarrow> [] | Some ws \<Rightarrow> ws);
                     waiter = disco_waiter_new contact hash ver;
                     put = (\<lambda>w st. st\<lparr>pc_pending := AList.update uri (w # waiters) (pc_pending st)\<rparr>)
                 in if waiters = []
                    then andthen (disco_send_request contact uri (put waiter st)) (\<lambda>st.
                         Inr (put (waiter\<lparr>dw_requested := True\<rparr>) st))
                    else Inr (put waiter st))
      | _ \<Rightarrow> Inr (change_caps contact not_xep_capabilities st))"

definition learn_caps ::
    "c_string \<Rightarrow> c_string \<Rightarrow> capability_set \<Rightarrow> 'f list \<Rightarrow> 'f presence_cache \<Rightarrow> 'f presence_cache" where
  "learn_caps node ver caps forms st =
     st\<lparr>pc_capabilities := AList.update (caps_uri node ver)
         \<lparr>ci_caps = capability_set_copy caps, ci_forms = forms\<rparr> (pc_capabilities st)\<rparr>"

section \<open>Answering requests\<close>

text \<open>
  \<open>caps_req_stanza_callback\<close>: \<open>node\<close> is the \<open>node\<close> attribute of the query, \<open>self\<close> the version,
  capabilities and forms of the local user once there is one; \<open>ns\<close> is the namespace under which
  the program announces its capabilities.
\<close>

datatype 'f disco_answer = Item_not_found c_string | No_answer | Disco_info c_string capability_set "'f list"

definition caps_req_stanza_callback ::
    "c_string \<Rightarrow> (c_string \<times> capability_set \<times> 'f list) option \<Rightarrow> c_string option \<Rightarrow> 'f disco_answer" where
  "caps_req_stanza_callback ns self node =
     (case node of
        None \<Rightarrow> Item_not_found []
      | Some node \<Rightarrow>
          let prefix = ns @ c_str ''#'' in
          if take (length prefix) node \<noteq> prefix then Item_not_found node
          else case self of
            None \<Rightarrow> No_answer
          | Some (ver, caps, forms) \<Rightarrow>
              if drop (length prefix) node \<noteq> ver then No_answer
              else Disco_info node (capability_set_features caps) forms)"

section \<open>Runs\<close>

datatype 'f presence_event =
    Announce nat "c_string option" "c_string option" "c_string option"
  | Reply nat disco_reply
  | Cancel nat
  | Learn c_string c_string capability_set "'f list"

fun presence_step :: "'f wocky \<Rightarrow> 'f presence_event \<Rightarrow> 'f presence_cache \<Rightarrow> 'f presence_cache outcome" where
  "presence_step W (Announce contact hash node ver) st = process_caps contact hash node ver st"
| "presence_step W (Reply k reply) st = disco_request_sent_cb W k reply st"
| "presence_step W (Cancel k) st = Inr (disco_cancel_request k st)"
| "presence_step W (Learn node ver caps forms) st = Inr (learn_caps node ver caps forms st)"

definition presence_run :: "'f wocky \<Rightarrow> 'f presence_event list \<Rightarrow> 'f presence_cache \<Rightarrow> 'f presence_cache outcome" where
  "presence_run W = foldo (presence_step W)"

end
