(* ===== verification/Presence_Properties.thy ===== *)
theory Presence_Properties
  imports Presence_Cache
begin

text \<open>
  What holds of the cache of capabilities along every run of announcements, answers and requests:
  contacts get only capabilities that match the hash they announced, and a failed query is never
  repeated.
\<close>

named_theorems presence_simps

lemma change_caps_frame [presence_simps]:
  "pc_capabilities (change_caps c info st) = pc_capabilities st"
  "pc_pending (change_caps c info st) = pc_pending st"
  "pc_requests (change_caps c info st) = pc_requests st"
  by (simp_all add: change_caps_def contact_set_capabilities_def)

lemma send_request_Inr:
  "disco_send_request c node st = Inr st' \<longleftrightarrow> node \<noteq> []
     \<and> st' = st\<lparr>pc_requests := pc_requests st @ [\<lparr>dr_contact = c, dr_node = node, dr_cancelled = False\<rparr>]\<rparr>"
  by (auto simp: disco_send_request_def andthen_eq_Inr)

text \<open>What the loop over the waiters does: the requests it adds are for its own node.\<close>

lemma serve_waiters_spec:
  assumes "serve_waiters bad c node info ws st = Inr (rest, st')"
  shows "pc_capabilities st' = pc_capabilities st \<and> pc_pending st' = pc_pending st
    \<and> (\<exists>rs. pc_requests st' = pc_requests st @ rs \<and> (\<forall>r \<in> set rs. dr_node r = node))
    \<and> (\<forall>w' \<in> set rest. \<exists>w \<in> set ws. w' = w\<lparr>dw_requested := True\<rparr>)
    \<and> (\<forall>i. pc_contacts st' i = pc_contacts st i
         \<or> (\<not> bad \<and> (\<exists>w \<in> set ws. dw_contact w = i) \<and> pc_contacts st' i = info))"
  using assms
proof (induction ws arbitrary: st rest)
  case (Cons w ws)
  show ?case
  proof (cases "\<not> bad \<or> dw_contact w = c")
    case True
    let ?st = "if \<not> bad then change_caps (dw_contact w) info st else st"
    have run: "serve_waiters bad c node info ws ?st = Inr (rest, st')" using Cons.prems True by simp
    have "pc_contacts ?st i = pc_contacts st i \<or> (\<not> bad \<and> dw_contact w = i \<and> pc_contacts ?st i = info)" for i
      by (auto simp: change_caps_def contact_set_capabilities_def capability_set_copy_def capability_set_update_def
          capability_set_new_def)
    moreover have "pc_capabilities ?st = pc_capabilities st" "pc_pending ?st = pc_pending st"
      "pc_requests ?st = pc_requests st" by (simp_all add: presence_simps)
    ultimately show ?thesis using Cons.IH[OF run] by (simp del: if_split) (metis (no_types, lifting))
  next
    case False
    with Cons.prems obtain st1 rest1 where
      1: "(if \<not> dw_requested w then disco_send_request (dw_contact w) node st else Inr st) = Inr st1"
      "serve_waiters bad c node info ws st1 = Inr (rest1, st')" "rest = w\<lparr>dw_requested := True\<rparr> # rest1"
      by (auto simp: andthen_eq_Inr)
    obtain rs where "st1 = st\<lparr>pc_requests := pc_requests st @ rs\<rparr>" "\<forall>r \<in> set rs. dr_node r = node"
    proof (cases "dw_requested w")
      case True
      with 1(1) that[of "[]"] show ?thesis by simp
    next
      case False
      with 1(1) that[of "[\<lparr>dr_contact = dw_contact w, dr_node = node, dr_cancelled = False\<rparr>]"] show ?thesis
        by (simp add: send_request_Inr)
    qed
    with Cons.IH[OF 1(2)] 1(3) show ?thesis by fastforce
  qed
qed simp

section \<open>A failed query\<close>

definition abandoned :: "c_string \<Rightarrow> 'f presence_cache \<Rightarrow> bool" where
  "abandoned uri st \<longleftrightarrow> capability_info_get uri st = None
     \<and> (\<exists>w ws. map_of (pc_pending st) uri = Some (w # ws))
     \<and> (\<forall>r \<in> set (pc_requests st). dr_node r \<noteq> uri)"

lemma abandoned_change [presence_simps]: "abandoned uri (change_caps c info st) = abandoned uri st"
  by (simp add: abandoned_def capability_info_get_def presence_simps)

lemma abandoned_announce:
  assumes "abandoned uri st"
  shows "holds (abandoned uri) (process_caps c hash node ver st)"
proof (rule holdsI)
  fix st' assume run: "process_caps c hash node ver st = Inr st'"
  show "abandoned uri st'"
  proof (cases "\<exists>n v. node = Some n \<and> ver = Some v \<and> hash = Some (c_str ''sha-1'') \<and> capability_info_get (caps_uri n v) st = None")
    case False
    then show ?thesis using run assms
      by (auto simp: process_caps_def presence_simps split: option.splits if_splits)
  next
    case True
    then obtain n v where nv: "node = Some n" "ver = Some v" "hash = Some (c_str ''sha-1'')"
      "capability_info_get (caps_uri n v) st = None" by blast
    define waiters where "waiters = (case map_of (pc_pending st) (caps_uri n v) of None \<Rightarrow> [] | Some ws \<Rightarrow> ws)"
    have st': "\<exists>w rs. st' = st\<lparr>pc_pending := AList.update (caps_uri n v) (w # waiters) (pc_pending st), pc_requests := pc_requests st @ rs\<rparr>
        \<and> (\<forall>r \<in> set rs. dr_node r = caps_uri n v) \<and> (waiters \<noteq> [] \<longrightarrow> rs = [])"
    proof (cases "waiters = []")
      case True
      then show ?thesis using run nv
        by (intro exI[of _ "(disco_waiter_new c hash ver)\<lparr>dw_requested := True\<rparr>"]
              exI[of _ "[\<lparr>dr_contact = c, dr_node = caps_uri n v, dr_cancelled = False\<rparr>]"])
           (auto simp: process_caps_def Let_def waiters_def[symmetric] andthen_eq_Inr send_request_Inr)
    next
      case False
      then show ?thesis using run nv
        by (auto simp: process_caps_def Let_def waiters_def[symmetric])
    qed
    show ?thesis
    proof (cases "caps_uri n v = uri")
      case True
      then have "waiters \<noteq> []" using assms by (auto simp: abandoned_def waiters_def)
      with True st' assms show ?thesis
        by (auto simp: abandoned_def capability_info_get_def update_conv')
    next
      case False
      with st' assms show ?thesis
        by (auto simp: abandoned_def capability_info_get_def update_conv')
    qed
  qed
qed

lemma retry_waiters_spec:
  assumes "retry_waiters node ws st = Inr (r, st')"
  shows "\<exists>rs. st' = st\<lparr>pc_requests := pc_requests st @ rs\<rparr> \<and> (\<forall>r \<in> set rs. dr_node r = node)
    \<and> (\<forall>ws'. r = Some ws' \<longrightarrow> list_all2 (\<lambda>w w'. w' = w \<or> w' = w\<lparr>dw_requested := True\<rparr>) ws ws')"
  using assms
proof (induction ws arbitrary: r)
  case (Cons w ws)
  show ?case
  proof (cases "dw_requested w")
    case True
    with Cons.prems obtain r' where "retry_waiters node ws st = Inr (r', st')" "r = map_option ((#) w) r'"
      by (auto simp: andthen_eq_Inr)
    with Cons.IH[of r'] show ?thesis by auto
  next
    case False
    with Cons.prems show ?thesis
      by (auto simp: andthen_eq_Inr send_request_Inr list_all2_refl
          intro!: exI[of _ "[\<lparr>dr_contact = dw_contact w, dr_node = node, dr_cancelled = False\<rparr>]"])
  qed
qed (auto intro: exI[of _ "[]"])

text \<open>An answer for another node leaves it alone.\<close>

lemma abandoned_answer:
  assumes "abandoned uri st" "node \<noteq> uri"
  shows "holds (abandoned uri) (caps_disco_cb W c (Some node) query error st)"
proof (rule holdsI)
  fix st' assume run: "caps_disco_cb W c (Some node) query error st = Inr st'"
  define waiters where "waiters = (case map_of (pc_pending st) node of None \<Rightarrow> [] | Some ws \<Rightarrow> ws)"
  have keep: "abandoned uri t" if "map_of (pc_capabilities t) uri = map_of (pc_capabilities st) uri"
    "map_of (pc_pending t) uri = map_of (pc_pending st) uri"
    "pc_requests t = pc_requests st @ rs" "\<forall>r \<in> set rs. dr_node r = node" for t rs
    using that assms by (auto simp: abandoned_def capability_info_get_def)
  consider "query = None" | q where "query = Some q" "error" | q where "query = Some q" "\<not> error" by auto
  then show "abandoned uri st'"
  proof cases
    case 1
    then show ?thesis using run assms by (simp add: caps_disco_cb_def)
  next
    case 2
    with run obtain r st1 where r: "retry_waiters node waiters st = Inr (r, st1)"
      "st' = st1\<lparr>pc_pending := (case r of Some ws \<Rightarrow> AList.update node ws (pc_pending st1) | None \<Rightarrow> AList.delete node (pc_pending st1))\<rparr>"
      by (auto simp: caps_disco_cb_def Let_def waiters_def andthen_eq_Inr split: option.splits)
    with retry_waiters_spec[OF r(1)] assms(2) show ?thesis
      by (auto intro!: keep simp: update_conv' delete_conv' split: option.split)
  next
    case 3
    show ?thesis
    proof (cases "find (\<lambda>w. dw_contact w = c) waiters")
      case None
      with 3 run assms show ?thesis by (simp add: caps_disco_cb_def Let_def waiters_def[symmetric])
    next
      case (Some self)
      obtain bad info st0 where st0: "check_answer W node self q st = (bad, info, st0)" by (metis prod_cases3)
      have frame: "map_of (pc_capabilities st0) uri = map_of (pc_capabilities st) uri"
        "pc_pending st0 = pc_pending st" "pc_requests st0 = pc_requests st"
        using st0 assms(2) by (auto simp: check_answer_def Let_def update_conv' split: option.splits if_splits)
      from Some 3 run st0 obtain rest st1 where s: "serve_waiters bad c node info waiters st0 = Inr (rest, st1)"
        "st' = st1\<lparr>pc_pending := (if \<not> bad then AList.delete node (pc_pending st1) else AList.update node rest (pc_pending st1))\<rparr>"
        by (auto simp: caps_disco_cb_def Let_def waiters_def[symmetric] andthen_eq_Inr)
      with serve_waiters_spec[OF s(1)] frame assms(2) show ?thesis
        by (auto intro!: keep simp: update_conv' delete_conv')
    qed
  qed
qed

lemma abandoned_step:
  assumes "abandoned uri st" "\<And>node ver caps forms. e = Learn node ver caps forms \<Longrightarrow> caps_uri node ver \<noteq> uri"
  shows "holds (abandoned uri) (presence_step W e st)"
proof (cases e)
  case (Announce c hash node ver)
  then show ?thesis using abandoned_announce[OF assms(1)] by simp
next
  case (Reply k reply)
  show ?thesis
  proof (cases "k < length (pc_requests st)")
    case True
    let ?r = "pc_requests st ! k"
    have "dr_node ?r \<noteq> uri" using assms(1) True by (simp add: abandoned_def)
    then have "holds (abandoned uri) (caps_disco_cb W (dr_contact ?r) (Some (dr_node ?r)) query error st)" for query error
      by (rule abandoned_answer[OF assms(1)])
    moreover have "abandoned uri (t\<lparr>pc_requests := take k (pc_requests t) @ drop (Suc k) (pc_requests t)\<rparr>)"
      if "abandoned uri t" for t :: "'a presence_cache"
      using that by (auto simp: abandoned_def capability_info_get_def dest: in_set_takeD in_set_dropD)
    ultimately have "holds (\<lambda>t. abandoned uri (t\<lparr>pc_requests := take k (pc_requests t) @ drop (Suc k) (pc_requests t)\<rparr>))
        (caps_disco_cb W (dr_contact ?r) (Some (dr_node ?r)) query error st)"
      "abandoned uri (st\<lparr>pc_requests := take k (pc_requests st) @ drop (Suc k) (pc_requests st)\<rparr>)" for query error
      using assms(1) by (blast intro: holds_mono)+
    then show ?thesis using Reply True by (simp add: disco_request_sent_cb_def Let_def split: disco_reply.split)
  qed (simp add: Reply disco_request_sent_cb_def)
next
  case (Cancel k)
  with assms(1) show ?thesis
    by (auto simp: disco_cancel_request_def abandoned_def capability_info_get_def
        dest!: set_update_subset_insert[THEN subsetD])
next
  case (Learn node ver caps forms)
  with assms show ?thesis
    by (auto simp: learn_caps_def abandoned_def capability_info_get_def update_conv')
qed

text \<open>
  C35. A failed query is never repeated. The code that asks another contact when a discovery request
  fails is never reached: every failure comes without a query node, and the callback returns at once
  when there is none. So when the only request for a URI fails, no other contact is asked, nothing is
  learnt for that URI from the network any more, and whoever announces it, now or later, waits forever.
\<close>

theorem failed_query_never_repeated:
  assumes "capability_info_get uri st = None" "map_of (pc_pending st) uri = Some (w # ws)"
    and "k < length (pc_requests st)" "\<forall>j < length (pc_requests st). dr_node (pc_requests st ! j) = uri \<longrightarrow> j = k"
    and "reply \<in> {Send_failed, Error_stanza, No_query_node}"
    and "\<forall>node ver caps forms. Learn node ver caps forms \<in> set es \<longrightarrow> caps_uri node ver \<noteq> uri"
  shows "holds (\<lambda>st'. capability_info_get uri st' = None
      \<and> (\<exists>w' ws'. map_of (pc_pending st') uri = Some (w' # ws'))
      \<and> (\<forall>r \<in> set (pc_requests st'). dr_node r \<noteq> uri))
    (presence_run W (Reply k reply # es) st)"
proof -
  let ?st = "st\<lparr>pc_requests := take k (pc_requests st) @ drop (Suc k) (pc_requests st)\<rparr>"
  have fail: "presence_step W (Reply k reply) st = Inr ?st"
    using assms(3,5) by (auto simp: disco_request_sent_cb_def caps_disco_cb_def Let_def)
  have "dr_node r \<noteq> uri" if r: "r \<in> set (pc_requests ?st)" for r
  proof -
    from r obtain j where "j < length (pc_requests st)" "j \<noteq> k" "r = pc_requests st ! j"
    proof -
      from r consider "r \<in> set (take k (pc_requests st))" | "r \<in> set (drop (Suc k) (pc_requests st))" by auto
      then show ?thesis
      proof cases
        case 1
        then show ?thesis using that by (auto simp: in_set_conv_nth)
      next
        case 2
        then obtain i where "i < length (drop (Suc k) (pc_requests st))" "r = drop (Suc k) (pc_requests st) ! i"
          by (metis in_set_conv_nth)
        then show ?thesis using that[of "Suc k + i"] by auto
      qed
    qed
    with assms(4) show ?thesis by blast
  qed
  then have "abandoned uri ?st" using assms(1,2) by (simp add: abandoned_def capability_info_get_def)
  then have "holds (abandoned uri) (foldo (presence_step W) es ?st)"
    using assms(6) by (intro foldo_holds) (auto intro!: abandoned_step)
  then have "holds (abandoned uri) (presence_run W (Reply k reply # es) st)" unfolding presence_run_def foldo.simps fail andthen_simps .
  then show ?thesis by (rule holds_mono) (simp add: abandoned_def)
qed

text \<open>Contact 1 announces a hash and is asked; the answer is an error; contact 2 announces the same hash.\<close>

definition example_wocky :: "unit wocky" where
  "example_wocky = \<lparr>get_attribute = \<lambda>n. map_of (node_attributes n), caps_hash_from_node = \<lambda>q. node_name q, data_forms_of = \<lambda>_. []\<rparr>"

definition no_caps :: "unit capability_info" where
  "no_caps = \<lparr>ci_caps = {}, ci_forms = []\<rparr>"

definition asked_cache :: "unit presence_cache" where
  "asked_cache = \<lparr>pc_capabilities = [],
     pc_pending = [([110, 35, 118], [\<lparr>dw_contact = 1, dw_hash = Some (c_str ''sha-1''), dw_ver = Some [118], dw_requested = True\<rparr>])],
     pc_requests = [\<lparr>dr_contact = 1, dr_node = [110, 35, 118], dr_cancelled = False\<rparr>],
     pc_contacts = \<lambda>_. no_caps, pc_updates = []\<rparr>"

lemma announce_asks:
  "presence_run W [Announce 1 (Some (c_str ''sha-1'')) (Some [110]) (Some [118])] (presence_cache_new (\<lambda>_. no_caps))
    = Inr asked_cache"
  by (simp add: presence_run_def process_caps_def presence_cache_new_def capability_info_get_def caps_uri_def c_str_def
      disco_send_request_def disco_waiter_new_def asked_cache_def Let_def)

lemma failed_query_never_repeated_witness:
  "holds (\<lambda>st. pc_requests st = [])
    (presence_run example_wocky [Reply 0 Error_stanza, Announce 2 (Some (c_str ''sha-1'')) (Some [110]) (Some [118])] asked_cache)"
proof -
  let ?es = "[Announce 2 (Some (c_str ''sha-1'')) (Some [110]) (Some [118])]"
  have "holds (\<lambda>st'. capability_info_get [110, 35, 118] st' = None
      \<and> (\<exists>w' ws'. map_of (pc_pending st') [110, 35, 118] = Some (w' # ws'))
      \<and> (\<forall>r \<in> set (pc_requests st'). dr_node r \<noteq> [110, 35, 118]))
    (presence_run example_wocky (Reply 0 Error_stanza # ?es) asked_cache)"
    by (rule failed_query_never_repeated[where w = "\<lparr>dw_contact = 1, dw_hash = Some (c_str ''sha-1''), dw_ver = Some [118], dw_requested = True\<rparr>"
          and ws = "[]"])
       (simp_all add: asked_cache_def capability_info_get_def)
  then show ?thesis
    by (simp add: presence_run_def disco_request_sent_cb_def caps_disco_cb_def asked_cache_def process_caps_def Let_def
        capability_info_get_def caps_uri_def c_str_def)
qed

section \<open>Verified capabilities\<close>

text \<open>
  \<open>info\<close> is what a contact answered, and its hash is the one at the end of the URI; or it is what the
  program announces of itself. A contact's capabilities are trusted if they match the URI of one of its
  own announcements.
\<close>

definition matches :: "'f wocky \<Rightarrow> 'f presence_event set \<Rightarrow> c_string \<Rightarrow> 'f capability_info \<Rightarrow> bool" where
  "matches W E uri info \<longleftrightarrow>
     (\<exists>k q n. Reply k (Query_result q) \<in> E \<and> uri = caps_uri n (caps_hash_from_node W q)
        \<and> info = \<lparr>ci_caps = capability_set_new_from_stanza (get_attribute W) q, ci_forms = data_forms_of W q\<rparr>)
     \<or> (\<exists>n v caps forms. Learn n v caps forms \<in> E \<and> uri = caps_uri n v \<and> info = \<lparr>ci_caps = caps, ci_forms = forms\<rparr>)"

definition announced :: "'f presence_event set \<Rightarrow> nat \<Rightarrow> c_string \<Rightarrow> c_string \<Rightarrow> bool" where
  "announced E c n v \<longleftrightarrow> Announce c (Some (c_str ''sha-1'')) (Some n) (Some v) \<in> E"

definition trusted :: "'f wocky \<Rightarrow> 'f presence_event set \<Rightarrow> nat \<Rightarrow> 'f capability_info \<Rightarrow> bool" where
  "trusted W E c info \<longleftrightarrow> info = not_xep_capabilities \<or> (\<exists>n v. announced E c n v \<and> matches W E (caps_uri n v) info)"

definition cache_ok :: "'f wocky \<Rightarrow> 'f presence_event set \<Rightarrow> (nat \<Rightarrow> 'f capability_info) \<Rightarrow> 'f presence_cache \<Rightarrow> bool" where
  "cache_ok W E contacts st \<longleftrightarrow>
     (\<forall>uri info. map_of (pc_capabilities st) uri = Some info \<longrightarrow> matches W E uri info)
     \<and> (\<forall>uri ws w. map_of (pc_pending st) uri = Some ws \<longrightarrow> w \<in> set ws \<longrightarrow>
          (\<exists>n v. announced E (dw_contact w) n v \<and> uri = caps_uri n v \<and> dw_ver w = Some v
             \<and> dw_hash w = Some (c_str ''sha-1'')))
     \<and> (\<forall>c. pc_contacts st c = contacts c \<or> trusted W E c (pc_contacts st c))"

lemma cache_ok_mono:
  assumes "cache_ok W E contacts st" "E \<subseteq> F"
  shows "cache_ok W F contacts st"
proof -
  have m: "matches W E uri info \<Longrightarrow> matches W F uri info" for uri info
    using assms(2) unfolding matches_def by blast
  have a: "announced E c n v \<Longrightarrow> announced F c n v" for c n v
    using assms(2) by (auto simp: announced_def)
  have t: "trusted W E c info \<Longrightarrow> trusted W F c info" for c info
    using m a unfolding trusted_def by blast
  show ?thesis using assms(1) m a t unfolding cache_ok_def by (smt (verit))
qed

lemma change_caps_contacts:
  "pc_contacts (change_caps c info st) i = pc_contacts st i \<or> (i = c \<and> pc_contacts (change_caps c info st) i = info)"
  by (auto simp: change_caps_def contact_set_capabilities_def capability_set_copy_def capability_set_update_def
      capability_set_new_def)

lemma cache_ok_change:
  assumes "cache_ok W E contacts st" "trusted W E c info"
  shows "cache_ok W E contacts (change_caps c info st)"
  using assms change_caps_contacts[of c info st] unfolding cache_ok_def by (auto simp: presence_simps) metis

lemma cache_ok_same:
  assumes "cache_ok W E contacts st" "pc_capabilities st' = pc_capabilities st" "pc_pending st' = pc_pending st"
    "pc_contacts st' = pc_contacts st"
  shows "cache_ok W E contacts st'"
  using assms by (simp add: cache_ok_def)

lemma cache_ok_pending:
  assumes "cache_ok W E contacts st" "pc_capabilities st' = pc_capabilities st" "pc_contacts st' = pc_contacts st"
    and "\<And>uri ws w. map_of (pc_pending st') uri = Some ws \<Longrightarrow> w \<in> set ws \<Longrightarrow>
      (\<exists>n v. announced E (dw_contact w) n v \<and> uri = caps_uri n v \<and> dw_ver w = Some v \<and> dw_hash w = Some (c_str ''sha-1''))"
  shows "cache_ok W E contacts st'"
  using assms unfolding cache_ok_def by simp

lemma waiter_announced:
  "cache_ok W E contacts st \<Longrightarrow> map_of (pc_pending st) uri = Some ws \<Longrightarrow> w \<in> set ws \<Longrightarrow>
    \<exists>n v. announced E (dw_contact w) n v \<and> uri = caps_uri n v \<and> dw_ver w = Some v \<and> dw_hash w = Some (c_str ''sha-1'')"
  by (simp add: cache_ok_def)

lemma announce_ok:
  assumes "cache_ok W E contacts st" "Announce c hash node ver \<in> E"
  shows "holds (cache_ok W E contacts) (process_caps c hash node ver st)"
proof (cases "\<exists>n v. node = Some n \<and> ver = Some v \<and> hash = Some (c_str ''sha-1'')")
  case False
  have "trusted W E c not_xep_capabilities" by (simp add: trusted_def)
  with False cache_ok_change[OF assms(1)] show ?thesis
    by (auto simp: process_caps_def split: option.split)
next
  case True
  then obtain n v where nv: "node = Some n" "ver = Some v" "hash = Some (c_str ''sha-1'')" by blast
  then have ann: "announced E c n v" using assms(2) by (simp add: announced_def)
  show ?thesis
  proof (cases "capability_info_get (caps_uri n v) st")
    case (Some info)
    then have "matches W E (caps_uri n v) info" using assms(1) by (simp add: cache_ok_def capability_info_get_def)
    with ann have "trusted W E c info" unfolding trusted_def by blast
    with cache_ok_change[OF assms(1)] Some nv show ?thesis by (simp add: process_caps_def Let_def)
  next
    case None
    define waiters where "waiters = (case map_of (pc_pending st) (caps_uri n v) of None \<Rightarrow> [] | Some ws \<Rightarrow> ws)"
    have put: "cache_ok W E contacts (st\<lparr>pc_pending := AList.update (caps_uri n v)
        ((disco_waiter_new c hash ver)\<lparr>dw_requested := b\<rparr> # waiters) (pc_pending st), pc_requests := rs\<rparr>)" for b rs
    proof (rule cache_ok_pending[OF assms(1)])
      fix uri ws w
      assume m: "map_of (pc_pending (st\<lparr>pc_pending := AList.update (caps_uri n v)
          ((disco_waiter_new c hash ver)\<lparr>dw_requested := b\<rparr> # waiters) (pc_pending st), pc_requests := rs\<rparr>)) uri = Some ws"
        and w: "w \<in> set ws"
      consider "uri \<noteq> caps_uri n v" | "uri = caps_uri n v" "w \<in> set waiters"
        | "uri = caps_uri n v" "w = (disco_waiter_new c hash ver)\<lparr>dw_requested := b\<rparr>"
        using m w by (auto simp: update_conv' split: if_splits)
      then show "\<exists>n v. announced E (dw_contact w) n v \<and> uri = caps_uri n v \<and> dw_ver w = Some v
          \<and> dw_hash w = Some (c_str ''sha-1'')"
      proof cases
        case 1
        with m w waiter_announced[OF assms(1), of uri ws] show ?thesis by (simp add: update_conv')
      next
        case 2
        then have "map_of (pc_pending st) uri = Some waiters" 
          by (cases "map_of (pc_pending st) uri") (simp_all add: waiters_def)
        with 2 waiter_announced[OF assms(1), of uri waiters] show ?thesis by simp
      next
        case 3
        with ann nv show ?thesis by (auto simp: disco_waiter_new_def)
      qed
    qed simp_all
    have put': "cache_ok W E contacts st'"
      if "pc_pending st' = AList.update (caps_uri n v) (disco_waiter_new c hash ver\<lparr>dw_requested := b\<rparr> # waiters) (pc_pending st)"
        "pc_capabilities st' = pc_capabilities st" "pc_contacts st' = pc_contacts st" for st' b
      by (rule cache_ok_same[OF put[where b = b and rs = "[]"]]) (use that in simp_all)
    have same: "disco_waiter_new c' h v'\<lparr>dw_requested := False\<rparr> = disco_waiter_new c' h v'" for c' h v'
      by (simp add: disco_waiter_new_def)
    show ?thesis
      using nv None
      by (auto simp: process_caps_def Let_def waiters_def[symmetric] holds_iff send_request_Inr andthen_eq_Inr
          intro: put'[where b = True] put'[where b = False] simp: same)
  qed
qed

lemma check_answer_ok:
  assumes "cache_ok W E contacts st" "Reply k (Query_result q) \<in> E"
    and "map_of (pc_pending st) node = Some ws" "w \<in> set ws" "check_answer W node w q st = (bad, info, st')"
  shows "cache_ok W E contacts st' \<and> pc_pending st' = pc_pending st \<and> (\<not> bad \<longrightarrow> matches W E node info)"
proof -
  obtain n v where w: "node = caps_uri n v" "dw_ver w = Some v" "dw_hash w = Some (c_str ''sha-1'')"
    using waiter_announced[OF assms(1,3,4)] by blast
  show ?thesis
  proof (cases "caps_hash_from_node W q = v \<and> capability_info_get node st = None")
    case True
    let ?info = "\<lparr>ci_caps = capability_set_new_from_stanza (get_attribute W) q, ci_forms = data_forms_of W q\<rparr>"
    have m: "matches W E node ?info" using assms(2) w(1) True unfolding matches_def by blast
    then have "cache_ok W E contacts (st\<lparr>pc_capabilities := AList.update node ?info (pc_capabilities st)\<rparr>)"
      using assms(1) by (auto simp: cache_ok_def update_conv')
    with m True w assms(5) show ?thesis by (auto simp: check_answer_def Let_def)
  next
    case False
    have "matches W E node info" if "capability_info_get node st = Some info" for info
      using assms(1) that by (simp add: cache_ok_def capability_info_get_def)
    with False w assms(1,5) show ?thesis by (auto simp: check_answer_def Let_def split: if_splits option.splits)
  qed
qed

lemma answer_ok:
  assumes "cache_ok W E contacts st" "Reply k (Query_result q) \<in> E"
  shows "holds (cache_ok W E contacts) (caps_disco_cb W c (Some node) (Some q) False st)"
proof (rule holdsI)
  fix st' assume run: "caps_disco_cb W c (Some node) (Some q) False st = Inr st'"
  show "cache_ok W E contacts st'"
  proof (cases "map_of (pc_pending st) node")
    case None
    then show ?thesis using run assms(1) by (simp add: caps_disco_cb_def)
  next
    case (Some ws)
    show ?thesis
    proof (cases "find (\<lambda>w. dw_contact w = c) ws")
      case None
      then show ?thesis using run assms(1) Some by (simp add: caps_disco_cb_def)
    next
      case self: (Some w)
      then have w: "w \<in> set ws" by (auto simp: find_Some_iff)
      obtain bad info st0 where chk: "check_answer W node w q st = (bad, info, st0)" by (metis prod_cases3)
      note ok = check_answer_ok[OF assms Some w chk]
      from run Some self chk obtain rest st1 where s: "serve_waiters bad c node info ws st0 = Inr (rest, st1)"
        "st' = st1\<lparr>pc_pending := (if \<not> bad then AList.delete node (pc_pending st1) else AList.update node rest (pc_pending st1))\<rparr>"
        by (auto simp: caps_disco_cb_def andthen_eq_Inr)
      note spec = serve_waiters_spec[OF s(1)]
      have tr: "trusted W E i info" if "\<not> bad" "w' \<in> set ws" "dw_contact w' = i" for w' i
        using waiter_announced[OF assms(1) Some that(2)] ok that unfolding trusted_def by blast
      have c1: "cache_ok W E contacts st1"
        using spec ok tr unfolding cache_ok_def by (smt (verit))
      have rest: "\<exists>n v. announced E (dw_contact x) n v \<and> node = caps_uri n v \<and> dw_ver x = Some v \<and> dw_hash x = Some (c_str ''sha-1'')"
        if x: "x \<in> set rest" for x
      proof -
        obtain y where "y \<in> set ws" "x = y\<lparr>dw_requested := True\<rparr>" using spec x by blast
        with waiter_announced[OF assms(1) Some, of y] show ?thesis by simp
      qed
      show ?thesis
        using waiter_announced[OF c1] rest s(2)
        by (intro cache_ok_pending[OF c1]) (auto simp: update_conv' delete_conv' split: if_splits)
    qed
  qed
qed

lemma presence_step_ok:
  assumes "cache_ok W E contacts st" "e \<in> E"
  shows "holds (cache_ok W E contacts) (presence_step W e st)"
proof (cases e)
  case (Reply k reply)
  show ?thesis
  proof (cases "k < length (pc_requests st)")
    case True
    let ?r = "pc_requests st ! k"
    have drop: "cache_ok W E contacts (t\<lparr>pc_requests := rs\<rparr>)" if "cache_ok W E contacts t" for t rs
      using that by (rule cache_ok_same) simp_all
    let ?ok = "\<lambda>t. cache_ok W E contacts (t\<lparr>pc_requests := take k (pc_requests t) @ drop (Suc k) (pc_requests t)\<rparr>)"
    have "holds ?ok (caps_disco_cb W (dr_contact ?r) (Some (dr_node ?r)) None True st)"
      using drop[OF assms(1)] by (simp add: caps_disco_cb_def)
    moreover have "holds ?ok (caps_disco_cb W (dr_contact ?r) (Some (dr_node ?r)) (Some q) False st)"
      if "reply = Query_result q" for q
      using assms Reply that by (intro holds_mono[OF answer_ok] drop) simp_all
    ultimately show ?thesis using Reply True drop[OF assms(1)]
      by (cases reply) (simp_all add: disco_request_sent_cb_def Let_def)
  qed (simp add: Reply disco_request_sent_cb_def)
next
  case (Learn n v caps forms)
  then have "matches W E (caps_uri n v) \<lparr>ci_caps = caps, ci_forms = forms\<rparr>"
    using assms(2) unfolding matches_def by blast
  with assms(1) Learn show ?thesis
    by (auto simp: learn_caps_def cache_ok_def update_conv' capability_set_copy_def capability_set_update_def
        capability_set_new_def)
next
  case (Cancel k)
  with assms(1) show ?thesis by (auto simp: disco_cancel_request_def intro: cache_ok_same)
qed (use assms announce_ok in simp)

text \<open>
  C34. No contact can lend its capabilities to others, or to itself under a false hash. Whatever is
  announced and answered, the capabilities the program attributes to a contact are the ones it had at
  first, the default ones, or ones that match the URI of an announcement of that contact: an answer whose
  own hash is the announced version, or what the program announces of itself. The cache contains nothing
  else, and no stanza can give a contact the quirk that marks the default capabilities.
\<close>

theorem capabilities_are_verified:
  "holds (\<lambda>st.
      (\<forall>c. pc_contacts st c = contacts c \<or> trusted W (set es) c (pc_contacts st c))
      \<and> (\<forall>uri info. capability_info_get uri st = Some info \<longrightarrow> matches W (set es) uri info)
      \<and> (\<forall>q. QUIRK_NOT_XEP_CAPABILITIES \<notin> capability_set_new_from_stanza (get_attribute W) q))
    (presence_run W es (presence_cache_new contacts))"
proof -
  have "cache_ok W (set es) contacts (presence_cache_new contacts)"
    by (simp add: cache_ok_def presence_cache_new_def)
  then have "holds (cache_ok W (set es) contacts) (presence_run W es (presence_cache_new contacts))"
    unfolding presence_run_def by (rule foldo_holds) (rule presence_step_ok)
  moreover have "QUIRK_NOT_XEP_CAPABILITIES \<notin> capability_set_new_from_stanza (get_attribute W) q" for q
  proof
    assume "QUIRK_NOT_XEP_CAPABILITIES \<in> capability_set_new_from_stanza (get_attribute W) q"
    then have "QUIRK_NOT_XEP_CAPABILITIES = QUIRK_OMITS_CONTENT_CREATORS"
      by (rule new_from_stanza_quirks) (simp_all add: QUIRK_NOT_XEP_CAPABILITIES_def)
    then show False by (simp add: QUIRK_NOT_XEP_CAPABILITIES_def QUIRK_OMITS_CONTENT_CREATORS_def c_str_def)
  qed
  ultimately show ?thesis by (auto simp: cache_ok_def capability_info_get_def elim!: holds_mono)
qed

text \<open>Contact 1 announces a hash, is asked, and answers with one feature.\<close>

definition example_query :: xml_node where
  "example_query = Xml_node [118] [] [Xml_node (c_str ''feature'') [(c_str ''var'', [120])] []]"

definition example_events :: "unit presence_event list" where
  "example_events = [Announce 1 (Some (c_str ''sha-1'')) (Some [110]) (Some [118]), Reply 0 (Query_result example_query)]"

lemma example_caps: "capability_set_new_from_stanza (get_attribute example_wocky) example_query = {[120]}"
  by (simp add: capability_set_new_from_stanza_def example_query_def add_child_capability_def example_wocky_def
      c_str_def capability_set_add_def capability_set_new_def QUIRK_PREFIX_CHAR_def)

lemma example_answer:
  "\<exists>st. presence_run example_wocky example_events (presence_cache_new (\<lambda>_. no_caps)) = Inr st
     \<and> pc_contacts st 1 = \<lparr>ci_caps = {[120]}, ci_forms = []\<rparr>"
proof -
  have hash: "caps_hash_from_node example_wocky example_query = [118]" "data_forms_of example_wocky example_query = []"
    by (simp_all add: example_wocky_def example_query_def)
  have "disco_request_sent_cb example_wocky 0 (Query_result example_query) asked_cache
      = Inr (asked_cache\<lparr>pc_capabilities := [([110, 35, 118], \<lparr>ci_caps = {[120]}, ci_forms = []\<rparr>)],
          pc_pending := [], pc_requests := [], pc_updates := [1],
          pc_contacts := (\<lambda>_. no_caps)(1 := \<lparr>ci_caps = {[120]}, ci_forms = []\<rparr>)\<rparr>)"
    by (simp add: disco_request_sent_cb_def caps_disco_cb_def asked_cache_def check_answer_def Let_def hash example_caps
        capability_info_get_def change_caps_def no_caps_def capability_set_equals_def contact_set_capabilities_def
        capability_set_copy_def capability_set_update_def capability_set_new_def)
  then show ?thesis
    using announce_asks by (simp add: presence_run_def example_events_def andthen_eq_Inr)
qed

lemma capabilities_are_verified_witness:
  "\<exists>st. presence_run example_wocky example_events (presence_cache_new (\<lambda>_. no_caps)) = Inr st
     \<and> pc_contacts st 1 \<noteq> no_caps \<and> trusted example_wocky (set example_events) 1 (pc_contacts st 1)"
proof -
  obtain st where st: "presence_run example_wocky example_events (presence_cache_new (\<lambda>_. no_caps)) = Inr st"
    "pc_contacts st 1 = \<lparr>ci_caps = {[120]}, ci_forms = []\<rparr>"
    using example_answer by blast
  then have "pc_contacts st 1 \<noteq> no_caps" by (simp add: no_caps_def)
  moreover have "trusted example_wocky (set example_events) 1 (pc_contacts st 1)"
    using capabilities_are_verified[where W = example_wocky and es = example_events and contacts = "\<lambda>_. no_caps"] st \<open>pc_contacts st 1 \<noteq> no_caps\<close>
    by simp metis
  ultimately show ?thesis using st by blast
qed

end
