(* ===== verification/Fd_Transport.thy ===== *)
theory Fd_Transport
  imports Transport
begin

text \<open>
  Transports over a file descriptor, \<open>gibber-fd-transport.c\<close> with the base class
  \<open>gibber-transport.c\<close>: what cannot be written at once waits in a buffer, which the main loop
  writes out when the descriptor is ready. The user of the transport, its signal handlers and its data
  handler, is the argument \<open>H\<close>, a function on the whole state, since a handler may call the transport
  again; a bytestream extends the record. The main loop is the list of its watches; a watch is known by its
  source id, and zero is no watch. The kernel is the list of its answers to the next writes: it may take
  fewer bytes than it is given. The last two fields are the bytes that the kernel took, and a history
  variable, which the code does not have: the bytes for which \<open>send\<close> returned TRUE. Error messages are
  not modelled, and the length of what is sent fits into an \<open>int\<close>.
\<close>

section \<open>State\<close>

datatype io_condition = IO_IN | IO_OUT | IO_ERR

datatype write_reply = Write_takes nat | Write_again | Write_error | Write_eof

datatype read_reply = Read_bytes "u8 list" | Read_again | Read_error | Read_eof

record fd_transport =
  fd_state :: transport_state
  fd_handler :: bool
  fd_fd :: int
  fd_channel :: bool
  fd_watch_in :: nat
  fd_watch_out :: nat
  fd_watch_err :: nat
  fd_output_buffer :: "u8 list option"
  fd_receiving_blocked :: bool
  fd_dispose_has_run :: bool
  ml_sources :: "(nat \<times> io_condition) list"
  ml_next :: nat
  os_replies :: "write_reply list"
  os_written :: "u8 list"
  fd_accepted :: "u8 list"

type_synonym 'a transport_user = "transport_event \<Rightarrow> 'a fd_transport_scheme \<Rightarrow> 'a fd_transport_scheme outcome"

text \<open>\<open>gibber_fd_transport_init\<close>, on the memory of a new object, which is zero.\<close>

definition fd_transport_init :: "'a fd_transport_scheme \<Rightarrow> 'a fd_transport_scheme" where
  "fd_transport_init t =
     t\<lparr>fd_state := TRANSPORT_DISCONNECTED, fd_handler := False, fd_fd := - 1, fd_channel := False,
       fd_watch_in := 0, fd_watch_out := 0, fd_watch_err := 0, fd_output_buffer := None,
       fd_receiving_blocked := False, fd_dispose_has_run := False, os_written := [], fd_accepted := []\<rparr>"

section \<open>Main loop\<close>

definition add_watch :: "io_condition \<Rightarrow> 'a fd_transport_scheme \<Rightarrow> nat \<times> 'a fd_transport_scheme" where
  "add_watch c t = (ml_next t, t\<lparr>ml_sources := ml_sources t @ [(ml_next t, c)], ml_next := Suc (ml_next t)\<rparr>)"

definition source_remove :: "nat \<Rightarrow> 'a fd_transport_scheme \<Rightarrow> 'a fd_transport_scheme" where
  "source_remove i t = t\<lparr>ml_sources := filter (\<lambda>(k, c). k \<noteq> i) (ml_sources t)\<rparr>"

section \<open>The base class\<close>

definition fd_set_state ::
    "'a transport_user \<Rightarrow> transport_state \<Rightarrow> 'a fd_transport_scheme \<Rightarrow> 'a fd_transport_scheme outcome" where
  "fd_set_state H s t = (if s \<noteq> fd_state t then H (State_signal s) (t\<lparr>fd_state := s\<rparr>) else Inr t)"

definition fd_received_data ::
    "'a transport_user \<Rightarrow> u8 list \<Rightarrow> 'a fd_transport_scheme \<Rightarrow> 'a fd_transport_scheme outcome" where
  "fd_received_data H d t = (if \<not> fd_handler t then Inr t else H (Received_data d) t)"

definition fd_set_handler :: "bool \<Rightarrow> 'a fd_transport_scheme \<Rightarrow> 'a fd_transport_scheme outcome" where
  "fd_set_handler func t =
     andthen (assert_that (\<not> fd_handler t \<or> \<not> func)) (\<lambda>_. Inr (t\<lparr>fd_handler := func\<rparr>))"

section \<open>Disconnecting\<close>

definition close_channel :: "'a fd_transport_scheme \<Rightarrow> 'a fd_transport_scheme" where
  "close_channel t =
     (if fd_channel t then
        let t = (if fd_watch_in t \<noteq> 0 then source_remove (fd_watch_in t) t else t);
            t = (if fd_watch_out t \<noteq> 0 then source_remove (fd_watch_out t) t else t);
            t = source_remove (fd_watch_err t) t
        in t\<lparr>fd_channel := False\<rparr>
      else t)"

definition do_disconnect :: "'a transport_user \<Rightarrow> 'a fd_transport_scheme \<Rightarrow> 'a fd_transport_scheme outcome" where
  "do_disconnect H t =
     (if fd_state t = TRANSPORT_DISCONNECTED then Inr t
      else
        let t = (close_channel t)\<lparr>fd_fd := - 1, fd_output_buffer := None\<rparr>
        in if \<not> fd_dispose_has_run t then fd_set_state H TRANSPORT_DISCONNECTED t else Inr t)"

definition fd_dispose :: "'a transport_user \<Rightarrow> 'a fd_transport_scheme \<Rightarrow> 'a fd_transport_scheme outcome" where
  "fd_dispose H t =
     (if fd_dispose_has_run t then Inr t else do_disconnect H (t\<lparr>fd_dispose_has_run := True\<rparr>))"

section \<open>Writing\<close>

text \<open>The class method \<open>write\<close>: the result and the number of bytes that were written.\<close>

datatype io_result = IO_RESULT_SUCCESS | IO_RESULT_AGAIN | IO_RESULT_ERROR | IO_RESULT_EOF

definition fd_write :: "u8 list \<Rightarrow> 'a fd_transport_scheme \<Rightarrow> io_result \<times> nat \<times> 'a fd_transport_scheme" where
  "fd_write data t =
     (case os_replies t of
        [] \<Rightarrow> (IO_RESULT_AGAIN, 0, t)
      | r # rs \<Rightarrow>
          let t = t\<lparr>os_replies := rs\<rparr> in
          (case r of
             Write_takes n \<Rightarrow>
               let written = min n (length data) in
               (IO_RESULT_SUCCESS, written, t\<lparr>os_written := os_written t @ take written data\<rparr>)
           | Write_again \<Rightarrow> (IO_RESULT_AGAIN, 0, t)
           | Write_error \<Rightarrow> (IO_RESULT_ERROR, 0, t)
           | Write_eof \<Rightarrow> (IO_RESULT_EOF, 0, t)))"

definition try_write ::
    "'a transport_user \<Rightarrow> u8 list \<Rightarrow> 'a fd_transport_scheme \<Rightarrow> (bool \<times> nat \<times> 'a fd_transport_scheme) outcome" where
  "try_write H data t =
     (let (result, written, t) = fd_write data t in
      case result of
        IO_RESULT_SUCCESS \<Rightarrow> Inr (True, written, t)
      | IO_RESULT_AGAIN \<Rightarrow> Inr (True, written, t)
      | IO_RESULT_ERROR \<Rightarrow>
          andthen (H Error_signal t) (\<lambda>t. andthen (do_disconnect H t) (\<lambda>t. Inr (False, written, t)))
      | IO_RESULT_EOF \<Rightarrow> andthen (do_disconnect H t) (\<lambda>t. Inr (False, written, t)))"

definition output_bytes :: "'a fd_transport_scheme \<Rightarrow> u8 list" where
  "output_bytes t = (case fd_output_buffer t of None \<Rightarrow> [] | Some b \<Rightarrow> b)"

definition fd_buffer_is_empty :: "'a fd_transport_scheme \<Rightarrow> bool" where
  "fd_buffer_is_empty t \<longleftrightarrow> fd_output_buffer t = None \<or> fd_output_buffer t = Some []"

definition writeout ::
    "'a transport_user \<Rightarrow> u8 list \<Rightarrow> 'a fd_transport_scheme \<Rightarrow> (bool \<times> 'a fd_transport_scheme) outcome" where
  "writeout H data t =
     andthen (if fd_buffer_is_empty t then try_write H data t else Inr (True, 0, t)) (\<lambda>(ok, written, t).
     if \<not> ok then Inr (False, t)
     else
       let t = t\<lparr>fd_accepted := fd_accepted t @ data\<rparr> in
       if written = length data then andthen (H Buffer_empty_signal t) (\<lambda>t. Inr (True, t))
       else
         let t = t\<lparr>fd_output_buffer := Some (output_bytes t @ drop written data)\<rparr> in
         if fd_watch_out t = 0
         then let (i, t) = add_watch IO_OUT t in Inr (True, t\<lparr>fd_watch_out := i\<rparr>)
         else Inr (True, t))"

definition fd_send ::
    "'a transport_user \<Rightarrow> u8 list \<Rightarrow> 'a fd_transport_scheme \<Rightarrow> (bool \<times> 'a fd_transport_scheme) outcome" where
  "fd_send H data t =
     andthen (assert_that (fd_state t = TRANSPORT_CONNECTED)) (\<lambda>_. writeout H data t)"

section \<open>Watches\<close>

text \<open>A callback of a watch returns whether the watch stays.\<close>

definition channel_io_in ::
    "'a transport_user \<Rightarrow> read_reply \<Rightarrow> 'a fd_transport_scheme \<Rightarrow> (bool \<times> 'a fd_transport_scheme) outcome" where
  "channel_io_in H reply t =
     (case reply of
        Read_bytes d \<Rightarrow> andthen (fd_received_data H (take 1024 d) t) (\<lambda>t. Inr (True, t))
      | Read_again \<Rightarrow> Inr (True, t)
      | Read_error \<Rightarrow>
          andthen (H Error_signal t) (\<lambda>t. andthen (do_disconnect H t) (\<lambda>t. Inr (False, t)))
      | Read_eof \<Rightarrow> andthen (do_disconnect H t) (\<lambda>t. Inr (False, t)))"

definition channel_io_out ::
    "'a transport_user \<Rightarrow> 'a fd_transport_scheme \<Rightarrow> (bool \<times> 'a fd_transport_scheme) outcome" where
  "channel_io_out H t =
     andthen (assert_that (fd_output_buffer t \<noteq> None)) (\<lambda>_.
     andthen (try_write H (output_bytes t) t) (\<lambda>(ok, written, t).
     if \<not> ok then Inr (False, t)
     else
       let t = (if written > 0 then t\<lparr>fd_output_buffer := Some (drop written (output_bytes t))\<rparr> else t) in
       if output_bytes t = []
       then andthen (H Buffer_empty_signal (t\<lparr>fd_watch_out := 0\<rparr>)) (\<lambda>t. Inr (False, t))
       else Inr (True, t)))"

definition channel_io_err ::
    "'a transport_user \<Rightarrow> 'a fd_transport_scheme \<Rightarrow> (bool \<times> 'a fd_transport_scheme) outcome" where
  "channel_io_err H t =
     andthen (H Error_signal t) (\<lambda>t. andthen (do_disconnect H t) (\<lambda>t. Inr (False, t)))"

text \<open>The main loop: it runs the callback of a watch that is ready, and removes the watch if it says so.\<close>

definition dispatch ::
    "nat \<times> io_condition
     \<Rightarrow> ('a fd_transport_scheme \<Rightarrow> (bool \<times> 'a fd_transport_scheme) outcome)
     \<Rightarrow> 'a fd_transport_scheme \<Rightarrow> 'a fd_transport_scheme outcome" where
  "dispatch source callback t =
     (if source \<in> set (ml_sources t)
      then andthen (callback t) (\<lambda>(keep, t). Inr (if keep then t else source_remove (fst source) t))
      else Inr t)"

section \<open>Connecting\<close>

definition fd_set_fd ::
    "'a transport_user \<Rightarrow> int \<Rightarrow> 'a fd_transport_scheme \<Rightarrow> 'a fd_transport_scheme outcome" where
  "fd_set_fd H fd t =
     andthen (assert_that (fd_fd t = - 1 \<and> fd \<ge> 0)) (\<lambda>_.
     let t = t\<lparr>fd_fd := fd, fd_channel := True, os_written := [], fd_accepted := []\<rparr>;
         t = (if \<not> fd_receiving_blocked t
              then let (i, t) = add_watch IO_IN t in t\<lparr>fd_watch_in := i\<rparr> else t);
         (i, t) = add_watch IO_ERR t
     in fd_set_state H TRANSPORT_CONNECTED (t\<lparr>fd_watch_err := i\<rparr>))"

definition fd_block_receiving :: "bool \<Rightarrow> 'a fd_transport_scheme \<Rightarrow> 'a fd_transport_scheme" where
  "fd_block_receiving block t =
     (let t = (if block \<and> fd_watch_in t \<noteq> 0 then (source_remove (fd_watch_in t) t)\<lparr>fd_watch_in := 0\<rparr>
               else if \<not> block \<and> fd_watch_in t = 0 \<and> fd_channel t
                    then let (i, t) = add_watch IO_IN t in t\<lparr>fd_watch_in := i\<rparr>
               else t)
      in t\<lparr>fd_receiving_blocked := block\<rparr>)"

text \<open>
  \<open>gibber-linklocal-transport.c\<close>, \<open>gibber_ll_transport_open_sockaddr\<close>: \<open>socket\<close> and \<open>connect\<close>
  give a connected descriptor, or one of them fails.
\<close>

definition ll_open_sockaddr ::
    "'a transport_user \<Rightarrow> int option \<Rightarrow> 'a fd_transport_scheme \<Rightarrow> (bool \<times> 'a fd_transport_scheme) outcome" where
  "ll_open_sockaddr H connected t =
     andthen (fd_set_state H TRANSPORT_CONNECTING t) (\<lambda>t.
     case connected of
       Some fd \<Rightarrow> andthen (fd_set_fd H fd t) (\<lambda>t. Inr (True, t))
     | None \<Rightarrow> andthen (fd_set_state H TRANSPORT_DISCONNECTED t) (\<lambda>t. Inr (False, t)))"

end
