(* ===== verification/Transport_Flow.thy ===== *)
theory Transport_Flow
  imports Fd_Transport
begin

text \<open>
  The invariant of a transport over a descriptor that is used for one connection, and its preservation by
  every operation, whatever the user does in its handlers as long as it keeps the invariant too.
  Nothing is lost or reordered: what the kernel took and what waits in the buffer make up what was accepted.
  Nothing is stuck: while something waits, the main loop watches for the descriptor to become writable, and
  only then, so that the callback finds a buffer.
\<close>

text \<open>
  \<open>D\<close> are the watches whose callbacks are running: the main loop removes such a watch after its callback
  returned, when another one may be there already.
\<close>

definition one_watch :: "nat set \<Rightarrow> 'a fd_transport_scheme \<Rightarrow> bool" where
  "one_watch D t \<longleftrightarrow>
     (\<forall>i. (i, IO_OUT) \<in> set (ml_sources t) \<longrightarrow> i \<notin> D \<longrightarrow>
        i = fd_watch_out t \<and> fd_state t = TRANSPORT_CONNECTED \<and> fd_output_buffer t \<noteq> None)"

definition ids_fresh :: "'a fd_transport_scheme \<Rightarrow> bool" where
  "ids_fresh t \<longleftrightarrow> 0 < ml_next t \<and> (\<forall>(i, c) \<in> set (ml_sources t). 0 < i \<and> i < ml_next t)
     \<and> fd_watch_in t < ml_next t \<and> fd_watch_out t < ml_next t \<and> fd_watch_err t < ml_next t"

definition output_watched :: "'a fd_transport_scheme \<Rightarrow> bool" where
  "output_watched t \<longleftrightarrow>
     fd_channel t \<and> os_written t @ output_bytes t = fd_accepted t
     \<and> (fd_watch_out t = 0 \<longrightarrow> output_bytes t = [])
     \<and> (fd_watch_out t \<noteq> 0 \<longrightarrow> (fd_watch_out t, IO_OUT) \<in> set (ml_sources t)
          \<and> fd_watch_out t \<noteq> fd_watch_in t \<and> fd_watch_out t \<noteq> fd_watch_err t)"

definition fd_ok :: "nat set \<Rightarrow> 'a fd_transport_scheme \<Rightarrow> bool" where
  "fd_ok D t \<longleftrightarrow>
     \<not> fd_dispose_has_run t \<and> ids_fresh t \<and> one_watch D t \<and> (\<forall>d \<in> D. d < ml_next t)
     \<and> (\<exists>rest. fd_accepted t = os_written t @ rest)
     \<and> (fd_state t = TRANSPORT_CONNECTED \<longrightarrow> output_watched t \<and> (fd_watch_out t \<noteq> 0 \<longrightarrow> fd_watch_out t \<notin> D))"

lemmas fd_ok_defs = fd_ok_def ids_fresh_def one_watch_def output_watched_def output_bytes_def

text \<open>A transport is used for one connection: once it is disconnected it stays so.\<close>

definition fd_keeps :: "nat set \<Rightarrow> 'a fd_transport_scheme \<Rightarrow> 'a fd_transport_scheme \<Rightarrow> bool" where
  "fd_keeps D t t' \<longleftrightarrow> fd_ok D t' \<and> (fd_state t' = TRANSPORT_CONNECTED \<longrightarrow> fd_state t = TRANSPORT_CONNECTED)"

lemma fd_keeps_trans: "fd_keeps D t u \<Longrightarrow> fd_keeps D u v \<Longrightarrow> fd_keeps D t v"
  by (simp add: fd_keeps_def)

lemma fd_keeps_refl: "fd_ok D t \<Longrightarrow> fd_keeps D t t"
  by (simp add: fd_keeps_def)

lemma close_channel_fields [simp]:
  "fd_state (close_channel t) = fd_state t" "fd_watch_in (close_channel t) = fd_watch_in t"
  "fd_watch_out (close_channel t) = fd_watch_out t" "fd_watch_err (close_channel t) = fd_watch_err t"
  "fd_dispose_has_run (close_channel t) = fd_dispose_has_run t" "ml_next (close_channel t) = ml_next t"
  "os_written (close_channel t) = os_written t" "fd_accepted (close_channel t) = fd_accepted t"
  "os_replies (close_channel t) = os_replies t" "fd_transport.more (close_channel t) = fd_transport.more t"
  by (simp_all add: close_channel_def source_remove_def Let_def)

lemma close_channel_sources:
  "set (ml_sources (close_channel t)) \<subseteq> set (ml_sources t)"
  "fd_channel t \<Longrightarrow> 0 < i \<Longrightarrow> i = fd_watch_out t \<Longrightarrow> (i, c) \<notin> set (ml_sources (close_channel t))"
  by (auto simp: close_channel_def source_remove_def Let_def)

lemma disconnected_ok:
  assumes "fd_ok D t"
  shows "fd_ok D ((close_channel t)\<lparr>fd_fd := - 1, fd_output_buffer := None, fd_state := TRANSPORT_DISCONNECTED\<rparr>)"
proof -
  have "one_watch D ((close_channel t)\<lparr>fd_fd := - 1, fd_output_buffer := None, fd_state := TRANSPORT_DISCONNECTED\<rparr>)"
    unfolding one_watch_def
  proof (intro allI impI)
    fix i assume "(i, IO_OUT) \<in> set (ml_sources ((close_channel t)\<lparr>fd_fd := - 1, fd_output_buffer := None,
        fd_state := TRANSPORT_DISCONNECTED\<rparr>))" and "i \<notin> D"
    then have i: "(i, IO_OUT) \<in> set (ml_sources (close_channel t))" "i \<notin> D" by simp_all
    then have "(i, IO_OUT) \<in> set (ml_sources t)" using close_channel_sources(1) by blast
    then have "i = fd_watch_out t" "fd_state t = TRANSPORT_CONNECTED" "0 < i"
      using assms i(2) unfolding fd_ok_def one_watch_def ids_fresh_def by auto
    moreover from this have "fd_channel t" using assms unfolding fd_ok_def output_watched_def by simp
    ultimately have "(i, IO_OUT) \<notin> set (ml_sources (close_channel t))" using close_channel_sources(2) by metis
    with i show "i = fd_watch_out ((close_channel t)\<lparr>fd_fd := - 1, fd_output_buffer := None, fd_state := TRANSPORT_DISCONNECTED\<rparr>)
        \<and> fd_state ((close_channel t)\<lparr>fd_fd := - 1, fd_output_buffer := None, fd_state := TRANSPORT_DISCONNECTED\<rparr>)
          = TRANSPORT_CONNECTED
        \<and> fd_output_buffer ((close_channel t)\<lparr>fd_fd := - 1, fd_output_buffer := None,
          fd_state := TRANSPORT_DISCONNECTED\<rparr>) \<noteq> None" by simp
  qed
  then show ?thesis
    using assms close_channel_sources(1)[of t] unfolding fd_ok_def ids_fresh_def by auto
qed

lemma do_disconnect_eq:
  "fd_state t \<noteq> TRANSPORT_DISCONNECTED \<Longrightarrow> \<not> fd_dispose_has_run t \<Longrightarrow>
    do_disconnect H t = H (State_signal TRANSPORT_DISCONNECTED)
      ((close_channel t)\<lparr>fd_fd := - 1, fd_output_buffer := None, fd_state := TRANSPORT_DISCONNECTED\<rparr>)"
  by (cases t) (simp add: do_disconnect_def fd_set_state_def Let_def)

text \<open>Bytes are added to the buffer.\<close>

lemma buffer_added:
  assumes "fd_ok D t" "fd_state t = TRANSPORT_CONNECTED"
  shows buffer_grown: "fd_watch_out t \<noteq> 0 \<Longrightarrow> fd_state v = TRANSPORT_CONNECTED \<Longrightarrow> ml_sources v = ml_sources t \<Longrightarrow>
      ml_next v = ml_next t \<Longrightarrow> fd_watch_out v = fd_watch_out t \<Longrightarrow> fd_watch_in v = fd_watch_in t \<Longrightarrow>
      fd_watch_err v = fd_watch_err t \<Longrightarrow> fd_channel v = fd_channel t \<Longrightarrow> \<not> fd_dispose_has_run v \<Longrightarrow>
      fd_output_buffer v \<noteq> None \<Longrightarrow> os_written v @ output_bytes v = fd_accepted v \<Longrightarrow> fd_ok D v"
    and watch_added: "fd_watch_out t = 0 \<Longrightarrow> fd_state v = TRANSPORT_CONNECTED \<Longrightarrow> ml_sources v = ml_sources t \<Longrightarrow>
      ml_next v = ml_next t \<Longrightarrow> fd_watch_out v = fd_watch_out t \<Longrightarrow> fd_watch_in v = fd_watch_in t \<Longrightarrow>
      fd_watch_err v = fd_watch_err t \<Longrightarrow> fd_channel v = fd_channel t \<Longrightarrow> \<not> fd_dispose_has_run v \<Longrightarrow>
      fd_output_buffer v \<noteq> None \<Longrightarrow> os_written v @ output_bytes v = fd_accepted v \<Longrightarrow>
      fd_ok D (v\<lparr>ml_sources := ml_sources v @ [(ml_next v, IO_OUT)], ml_next := Suc (ml_next v), fd_watch_out := ml_next v\<rparr>)"
proof -
  assume v: "fd_state v = TRANSPORT_CONNECTED" "ml_sources v = ml_sources t"
      "ml_next v = ml_next t" "fd_watch_out v = fd_watch_out t" "fd_watch_in v = fd_watch_in t"
      "fd_watch_err v = fd_watch_err t" "fd_channel v = fd_channel t" "\<not> fd_dispose_has_run v"
      "fd_output_buffer v \<noteq> None" "os_written v @ output_bytes v = fd_accepted v"
  note ok = assms[unfolded fd_ok_def]
  show "fd_ok D v" if "fd_watch_out t \<noteq> 0"
    unfolding fd_ok_def
    using ok v that by (simp add: ids_fresh_def one_watch_def output_watched_def v(10)[symmetric] del: append_eq_append_conv)
  let ?w = "v\<lparr>ml_sources := ml_sources v @ [(ml_next v, IO_OUT)], ml_next := Suc (ml_next v), fd_watch_out := ml_next v\<rparr>"
  assume z: "fd_watch_out t = 0"
  have ids: "ids_fresh t" "one_watch D t" "\<forall>d \<in> D. d < ml_next t" "output_watched t" using ok by simp_all
  have none: "(i, IO_OUT) \<in> set (ml_sources t) \<Longrightarrow> i \<in> D" for i
    using ids(1,2) z unfolding ids_fresh_def one_watch_def by fastforce
  have "ids_fresh ?w" using ids(1) v unfolding ids_fresh_def by auto
  moreover have "one_watch D ?w" using none v by (auto simp: one_watch_def)
  moreover have "output_watched ?w"
    using ids(1,4) v by (simp add: output_watched_def ids_fresh_def output_bytes_def)
  moreover have "\<exists>rest. fd_accepted ?w = os_written ?w @ rest" using v(10)[symmetric] by simp
  moreover have "\<forall>d \<in> D. d < ml_next ?w" "ml_next v \<notin> D" using ids(3) v by auto
  ultimately show "fd_ok D ?w" using v(1,8) by (simp add: fd_ok_def)
qed

text \<open>A watch that is not the write watch of a connected transport can be removed.\<close>

lemma source_remove_ok:
  assumes "fd_ok (insert i D) t"
  shows "fd_ok D (source_remove i t)"
  using assms unfolding fd_ok_def ids_fresh_def one_watch_def output_watched_def output_bytes_def source_remove_def
  by auto

lemma source_remove_state [simp]: "fd_state (source_remove i t) = fd_state t"
  by (simp add: source_remove_def)

lemma source_remove_read:
  assumes "fd_ok D t" "fd_state t = TRANSPORT_CONNECTED \<longrightarrow> fd_watch_out t \<noteq> 0 \<longrightarrow> i \<noteq> fd_watch_out t"
  shows "fd_ok D (source_remove i t)"
  using assms unfolding fd_ok_def ids_fresh_def one_watch_def output_watched_def output_bytes_def source_remove_def
  by auto

lemma fd_ok_mono: "fd_ok D t \<Longrightarrow> fd_state t \<noteq> TRANSPORT_CONNECTED \<Longrightarrow> i < ml_next t \<Longrightarrow> fd_ok (insert i D) t"
  by (auto simp: fd_ok_def one_watch_def)

text \<open>The callback of the write watch took \<open>n\<close> bytes from the buffer.\<close>

lemma bytes_written:
  assumes "fd_ok {} t" "(i, IO_OUT) \<in> set (ml_sources t)" "n \<le> length (output_bytes t)"
    and u: "u = t\<lparr>os_replies := rs, os_written := os_written t @ take n (output_bytes t),
      fd_output_buffer := Some (drop n (output_bytes t))\<rparr>"
  shows part_written: "drop n (output_bytes t) \<noteq> [] \<Longrightarrow> fd_ok {} u"
    and all_written: "drop n (output_bytes t) = [] \<Longrightarrow> fd_ok {i} (u\<lparr>fd_watch_out := 0\<rparr>)"
proof -
  note ok = assms(1)[unfolded fd_ok_def]
  have w: "i = fd_watch_out t" "fd_state t = TRANSPORT_CONNECTED" "0 < i" "i < ml_next t"
    using ok assms(2) unfolding one_watch_def ids_fresh_def by auto
  have "output_bytes u = drop n (output_bytes t)" by (simp add: u output_bytes_def)
  then have all: "os_written u @ output_bytes u = fd_accepted u"
    using ok w(2) by (simp add: output_watched_def u)
  have fresh: "ids_fresh u" "output_watched t" using ok w(2) u by (simp_all add: ids_fresh_def)
  have ex: "\<exists>rest. fd_accepted u = os_written u @ rest" using all by metis
  have fields: "ml_sources u = ml_sources t" "ml_next u = ml_next t" "fd_watch_out u = fd_watch_out t"
    "fd_watch_in u = fd_watch_in t" "fd_watch_err u = fd_watch_err t" "fd_channel u = fd_channel t"
    "fd_state u = fd_state t" "fd_dispose_has_run u = fd_dispose_has_run t" "fd_output_buffer u \<noteq> None"
    by (simp_all add: u)
  show "fd_ok {} u"
    using ok w all fresh ex fields by (simp add: fd_ok_def one_watch_def output_watched_def)
  assume "drop n (output_bytes t) = []"
  then show "fd_ok {i} (u\<lparr>fd_watch_out := 0\<rparr>)"
    using ok w all fresh ex fields \<open>output_bytes u = drop n (output_bytes t)\<close>
    by (simp add: fd_ok_def one_watch_def output_watched_def ids_fresh_def output_bytes_def)
qed

text \<open>What a user of the transport promises of its handlers.\<close>

locale transport_client =
  fixes H :: "'a transport_user"
  assumes client: "fd_ok D t \<Longrightarrow> returns (fd_keeps D t) (H ev t)"
begin

lemma client_after: "fd_keeps D t u \<Longrightarrow> returns (fd_keeps D t) (H ev u)"
  using client[of D u ev] fd_keeps_trans by (fastforce simp: fd_keeps_def elim: returns_mono)

lemma disconnect_keeps:
  assumes "fd_ok D t"
  shows "returns (\<lambda>t'. fd_keeps D t t' \<and> fd_state t' \<noteq> TRANSPORT_CONNECTED) (do_disconnect H t)"
proof (cases "fd_state t = TRANSPORT_DISCONNECTED")
  case True
  then show ?thesis using assms by (simp add: do_disconnect_def fd_keeps_def)
next
  case False
  with assms have eq: "do_disconnect H t = H (State_signal TRANSPORT_DISCONNECTED)
      ((close_channel t)\<lparr>fd_fd := - 1, fd_output_buffer := None, fd_state := TRANSPORT_DISCONNECTED\<rparr>)"
    by (intro do_disconnect_eq) (simp_all add: fd_ok_def)
  show ?thesis unfolding eq
    by (rule returns_mono[OF client[OF disconnected_ok[OF assms]]]) (auto simp: fd_keeps_def)
qed

lemma disconnect_after:
  "fd_keeps D t u \<Longrightarrow> returns (\<lambda>t'. fd_keeps D t t' \<and> fd_state t' \<noteq> TRANSPORT_CONNECTED) (do_disconnect H u)"
  by (rule returns_mono[OF disconnect_keeps[of D u]]) (auto simp: fd_keeps_def)

lemma error_disconnects:
  "fd_ok D t \<Longrightarrow> returns (\<lambda>t'. fd_keeps D t t' \<and> fd_state t' \<noteq> TRANSPORT_CONNECTED)
     (andthen (H Error_signal t) (do_disconnect H))"
  by (auto intro: returns_mono[OF client] disconnect_after)

lemma try_write_keeps:
  assumes "fd_ok D t"
  shows "returns (\<lambda>(ok, n, t'). if ok then n \<le> length data
        \<and> (\<exists>rs. t' = t\<lparr>os_replies := rs, os_written := os_written t @ take n data\<rparr>)
      else fd_keeps D t t' \<and> fd_state t' \<noteq> TRANSPORT_CONNECTED) (try_write H data t)"
proof -
  have same: "\<exists>rs. t = t\<lparr>os_replies := rs\<rparr>" by (rule exI[of _ "os_replies t"]) simp
  have upd: "u\<lparr>os_replies := rs\<rparr> = u\<lparr>os_replies := rs, os_written := os_written u\<rparr>" for u :: "'a fd_transport_scheme" and rs
    by simp
  have drop: "fd_keeps D t (t\<lparr>os_replies := rs\<rparr>)" for rs
    using assms unfolding fd_keeps_def fd_ok_defs by simp
  have err: "returns (\<lambda>t'. fd_keeps D t t' \<and> fd_state t' \<noteq> TRANSPORT_CONNECTED)
      (andthen (H Error_signal (t\<lparr>os_replies := rs\<rparr>)) (do_disconnect H))" for rs
    using error_disconnects[of D "t\<lparr>os_replies := rs\<rparr>"] drop[of rs]
    by (auto simp: fd_keeps_def elim!: returns_mono)
  have eof: "returns (\<lambda>t'. fd_keeps D t t' \<and> fd_state t' \<noteq> TRANSPORT_CONNECTED) (do_disconnect H (t\<lparr>os_replies := rs\<rparr>))" for rs
    using disconnect_after[OF drop] .
  show ?thesis
  proof (cases "os_replies t")
    case Nil
    then show ?thesis using same by (simp add: try_write_def fd_write_def)
  next
    case (Cons r rs)
    show ?thesis
    proof (cases r)
      case (Write_takes n)
      with Cons show ?thesis by (simp add: try_write_def fd_write_def Let_def) blast
    next
      case Write_again
      with Cons upd show ?thesis by (simp add: try_write_def fd_write_def Let_def) metis
    next
      case Write_error
      with Cons err[of rs] show ?thesis by (auto simp: try_write_def fd_write_def Let_def elim!: returns_mono)
    next
      case Write_eof
      with Cons eof[of rs] show ?thesis by (auto simp: try_write_def fd_write_def Let_def elim!: returns_mono)
    qed
  qed
qed

lemma writeout_keeps:
  assumes "fd_ok D t" "fd_state t = TRANSPORT_CONNECTED"
  shows "returns (\<lambda>(ok, t'). fd_keeps D t t') (writeout H data t)"
proof -
  have push: "returns (\<lambda>(ok, t'). fd_keeps D t t') (let t = u\<lparr>fd_accepted := fd_accepted u @ data\<rparr> in
       if n = length data then andthen (H Buffer_empty_signal t) (\<lambda>t. Inr (True, t))
       else
         let t = t\<lparr>fd_output_buffer := Some (output_bytes t @ drop n data)\<rparr> in
         if fd_watch_out t = 0
         then let (i, t) = add_watch IO_OUT t in Inr (True, t\<lparr>fd_watch_out := i\<rparr>)
         else Inr (True, t))"
    if "n \<le> length data" "u = t\<lparr>os_replies := rs, os_written := os_written t @ take n data\<rparr>"
      "0 < n \<longrightarrow> output_bytes t = []" "data = [] \<longrightarrow> n = 0" for n u rs
  proof (cases "n = length data")
    case True
    have "fd_ok D (u\<lparr>fd_accepted := fd_accepted u @ data\<rparr>)"
      using assms that True unfolding fd_ok_defs by (cases "data = []") (auto split: option.splits)
    then have "fd_keeps D t (u\<lparr>fd_accepted := fd_accepted u @ data\<rparr>)" using assms by (simp add: fd_keeps_def)
    with True show ?thesis by (auto simp: Let_def intro: returns_mono[OF client_after])
  next
    case False
    then have ne: "drop n data \<noteq> []" using that(1) by simp
    have w: "os_written u @ output_bytes t @ drop n data = fd_accepted t @ data"
      using assms that unfolding fd_ok_def output_watched_def by (cases "n = 0") auto
    define v where "v = u\<lparr>fd_accepted := fd_accepted u @ data, fd_output_buffer := Some (output_bytes t @ drop n data)\<rparr>"
    have v: "fd_state v = TRANSPORT_CONNECTED" "ml_sources v = ml_sources t" "ml_next v = ml_next t"
      "fd_watch_out v = fd_watch_out t" "fd_watch_in v = fd_watch_in t" "fd_watch_err v = fd_watch_err t"
      "fd_channel v = fd_channel t" "\<not> fd_dispose_has_run v" "fd_output_buffer v \<noteq> None"
      "os_written v @ output_bytes v = fd_accepted v"
      using that(2) assms w by (simp_all add: v_def output_bytes_def fd_ok_def)
    have out: "output_bytes (u\<lparr>fd_accepted := fd_accepted u @ data\<rparr>) = output_bytes t"
      using that(2) by (simp add: output_bytes_def)
    show ?thesis
    proof (cases "fd_watch_out t = 0")
      case True
      have "fd_ok D (v\<lparr>ml_sources := ml_sources v @ [(ml_next v, IO_OUT)], ml_next := Suc (ml_next v),
          fd_watch_out := ml_next v\<rparr>)" using watch_added[OF assms True v] .
      then show ?thesis using False True out that(2) assms(2)
        by (simp add: Let_def add_watch_def v_def fd_keeps_def)
    next
      case nz: False
      have "fd_ok D v" using buffer_grown[OF assms nz v] .
      then show ?thesis using False nz out that(2) assms(2)
        by (simp add: Let_def v_def fd_keeps_def)
    qed
  qed
  show ?thesis
  proof (cases "fd_buffer_is_empty t")
    case True
    then have "output_bytes t = []" by (auto simp: fd_buffer_is_empty_def output_bytes_def)
    then show ?thesis using True
      by (auto simp: writeout_def split: if_splits intro!: returns_mono[OF try_write_keeps[OF assms(1)]] push)
  next
    case False
    have "t = t\<lparr>os_replies := os_replies t, os_written := os_written t @ take 0 data\<rparr>" by simp
    then show ?thesis using push[of 0 t "os_replies t"] False by (simp add: writeout_def)
  qed
qed

lemma send_keeps: "fd_ok D t \<Longrightarrow> fd_state t = TRANSPORT_CONNECTED \<Longrightarrow> returns (\<lambda>(ok, t'). fd_keeps D t t') (fd_send H data t)"
  using writeout_keeps by (simp add: fd_send_def)

lemma stopped_keeps: "fd_keeps {} t u \<Longrightarrow> fd_state u \<noteq> TRANSPORT_CONNECTED \<Longrightarrow> fd_keeps {} t (source_remove i u)"
  by (simp add: fd_keeps_def source_remove_read)

lemma stop_keeps:
  "returns (\<lambda>t'. fd_keeps {} t t' \<and> fd_state t' \<noteq> TRANSPORT_CONNECTED) m
    \<Longrightarrow> returns (\<lambda>t'. fd_keeps {} t (source_remove i t')) m"
  by (erule returns_mono) (simp add: stopped_keeps)

lemma io_in_keeps:
  assumes "fd_ok {} t"
  shows "returns (\<lambda>t'. fd_keeps {} t t') (dispatch (i, IO_IN) (channel_io_in H reply) t)"
  using fd_keeps_refl[OF assms] stop_keeps[OF error_disconnects[OF assms]] stop_keeps[OF disconnect_keeps[OF assms]]
    client[OF assms]
  by (cases reply) (simp_all add: dispatch_def channel_io_in_def fd_received_data_def)

lemma io_err_keeps:
  assumes "fd_ok {} t"
  shows "returns (\<lambda>t'. fd_keeps {} t t') (dispatch (i, IO_ERR) (channel_io_err H) t)"
  using fd_keeps_refl[OF assms] stop_keeps[OF error_disconnects[OF assms]]
  by (simp add: dispatch_def channel_io_err_def)

lemma io_out_keeps:
  assumes "fd_ok {} t"
  shows "returns (\<lambda>t'. fd_keeps {} t t') (dispatch (i, IO_OUT) (channel_io_out H) t)"
proof (cases "(i, IO_OUT) \<in> set (ml_sources t)")
  case False
  then show ?thesis using fd_keeps_refl[OF assms] by (simp add: dispatch_def)
next
  case True
  note assms = assms True
  have w: "fd_state t = TRANSPORT_CONNECTED" "fd_output_buffer t \<noteq> None"
    using assms unfolding fd_ok_def one_watch_def by auto
  define Q where "Q r \<longleftrightarrow> fd_keeps {} t (if fst r then snd r else source_remove i (snd r))"
    for r :: "bool \<times> 'a fd_transport_scheme"
  define after :: "nat \<Rightarrow> 'a fd_transport_scheme \<Rightarrow> (bool \<times> 'a fd_transport_scheme) outcome" where
    "after n u = (let u = (if n > 0 then u\<lparr>fd_output_buffer := Some (drop n (output_bytes u))\<rparr> else u) in
       if output_bytes u = []
       then andthen (H Buffer_empty_signal (u\<lparr>fd_watch_out := 0\<rparr>)) (\<lambda>t. Inr (False, t))
       else Inr (True, u))" for n u
  have step: "returns Q (after n (t\<lparr>os_replies := rs, os_written := os_written t @ take n (output_bytes t)\<rparr>))"
    if n: "n \<le> length (output_bytes t)" for n rs
  proof -
    let ?u = "t\<lparr>os_replies := rs, os_written := os_written t @ take n (output_bytes t)\<rparr>"
    define v where "v = t\<lparr>os_replies := rs, os_written := os_written t @ take n (output_bytes t),
        fd_output_buffer := Some (drop n (output_bytes t))\<rparr>"
    have v: "(if n > 0 then ?u\<lparr>fd_output_buffer := Some (drop n (output_bytes ?u))\<rparr> else ?u) = v"
      using w(2) by (cases t) (auto simp: v_def output_bytes_def)
    have out: "output_bytes v = drop n (output_bytes t)" by (simp add: v_def output_bytes_def)
    show ?thesis
    proof (cases "drop n (output_bytes t) = []")
      case False
      with part_written[OF assms n v_def] out w(1) show ?thesis
        unfolding after_def v by (simp add: Let_def Q_def fd_keeps_def)
    next
      case True
      have "returns (\<lambda>t'. fd_keeps {} t (source_remove i t')) (H Buffer_empty_signal (v\<lparr>fd_watch_out := 0\<rparr>))"
        by (rule returns_mono[OF client[OF all_written[OF assms n v_def True]]])
          (use w(1) in \<open>auto simp: fd_keeps_def intro: source_remove_ok\<close>)
      with True out show ?thesis unfolding after_def v by (simp add: Let_def Q_def)
    qed
  qed
  have "returns (\<lambda>(ok, n, u). returns Q (if \<not> ok then Inr (False, u) else after n u)) (try_write H (output_bytes t) t)"
    using step by (intro returns_mono[OF try_write_keeps[OF assms(1)]]) (auto simp: Q_def[of "(False, _)"] stopped_keeps split: if_splits)
  moreover have run: "channel_io_out H t = andthen (try_write H (output_bytes t) t) (\<lambda>(ok, n, u).
      if \<not> ok then Inr (False, u) else after n u)"
    unfolding channel_io_out_def after_def using w(2) by simp
  ultimately have "returns Q (channel_io_out H t)"
    unfolding run by (simp only: returns_simps case_prod_unfold)
  with assms(2) show ?thesis by (auto simp: dispatch_def Q_def elim!: returns_mono)
qed

end

end
