(* ===== verification/Bytestream_Socket.thy ===== *)
theory Bytestream_Socket
  imports Bytestream Fd_Transport C_String
begin

text \<open>
  The bytestreams over a socket: \<open>gibber-bytestream-oob.c\<close> (the peer is told over XMPP where to
  connect) and \<open>gibber-bytestream-direct.c\<close> (the address is known). Both have the same code around their
  transport, which is written once here; what differs, what is sent when the bytestream is declined or
  closed, is the record \<open>stream_kind\<close>. A bytestream owns at most one transport, so its record extends the
  one of the transport, with a flag for the pointer. Its signals are the list of its events: the users of a
  bytestream are not called back while an operation runs. Reference counts are kept where the code loses one: a
  transport that the bytestream has dropped is gone.
\<close>

section \<open>State\<close>

datatype stream_event =
    State_changed bytestream_state
  | Write_blocked bool
  | Data_received "u8 list"

record stream = fd_transport +
  bst_has_transport :: bool
  bst_callbacks :: bool
  bst_state :: bytestream_state
  bst_write_blocked :: bool
  bst_read_blocked :: bool
  bst_events :: "stream_event list"

datatype stream_error = Item_not_found | Not_acceptable | Forbidden | Other_xmpp_error | Foreign_error

record 'a stream_kind =
  sk_decline :: "stream_error option \<Rightarrow> 'a \<Rightarrow> 'a"
  sk_closing :: "'a \<Rightarrow> 'a"

definition set_bs_state :: "bytestream_state \<Rightarrow> 'a stream_scheme \<Rightarrow> 'a stream_scheme" where
  "set_bs_state s t =
     (if bst_state t \<noteq> s then t\<lparr>bst_state := s, bst_events := bst_events t @ [State_changed s]\<rparr> else t)"

definition change_write_blocked_state :: "bool \<Rightarrow> 'a stream_scheme \<Rightarrow> 'a stream_scheme" where
  "change_write_blocked_state blocked t =
     (if bst_write_blocked t = blocked then t
      else t\<lparr>bst_write_blocked := blocked, bst_events := bst_events t @ [Write_blocked blocked]\<rparr>)"

definition needs_transport :: "'a stream_scheme \<Rightarrow> unit outcome" where
  "needs_transport t = (if bst_has_transport t then Inr () else Inl Null_dereference)"

section \<open>Closing\<close>

text \<open>The callbacks are disconnected from the transport before it is closed.\<close>

definition nobody :: "'a transport_user" where
  "nobody ev t = Inr t"

definition bytestream_closed :: "'a stream_scheme stream_kind \<Rightarrow> 'a stream_scheme \<Rightarrow> 'a stream_scheme outcome" where
  "bytestream_closed k t =
     (let t = sk_closing k t in
      andthen (if bst_has_transport t
               then andthen (do_disconnect nobody (t\<lparr>bst_callbacks := False\<rparr>)) (\<lambda>t.
                    Inr (t\<lparr>bst_has_transport := False\<rparr>))
               else Inr t) (\<lambda>t.
      Inr (set_bs_state BYTESTREAM_STATE_CLOSED t)))"

definition stream_do_close ::
    "'a stream_scheme stream_kind \<Rightarrow> stream_error option \<Rightarrow> bool \<Rightarrow> 'a stream_scheme \<Rightarrow> 'a stream_scheme outcome" where
  "stream_do_close k error can_wait t =
     (if bst_state t = BYTESTREAM_STATE_CLOSED then Inr t
      else
        let t = (if bst_state t = BYTESTREAM_STATE_LOCAL_PENDING then sk_decline k error t else t);
            t = set_bs_state BYTESTREAM_STATE_CLOSING t
        in if can_wait \<and> bst_has_transport t \<and> \<not> fd_buffer_is_empty t then Inr t
           else bytestream_closed k t)"

section \<open>Callbacks of the transport\<close>

definition transport_disconnected_cb ::
    "'a stream_scheme stream_kind \<Rightarrow> 'a stream_scheme \<Rightarrow> 'a stream_scheme outcome" where
  "transport_disconnected_cb k t =
     (if bst_state t = BYTESTREAM_STATE_CLOSED then Inr t
      else if bst_state t = BYTESTREAM_STATE_ACCEPTED then stream_do_close k (Some Item_not_found) True t
      else stream_do_close k None True t)"

definition transport_buffer_empty_cb ::
    "'a stream_scheme stream_kind \<Rightarrow> 'a stream_scheme \<Rightarrow> 'a stream_scheme outcome" where
  "transport_buffer_empty_cb k t =
     (if bst_state t = BYTESTREAM_STATE_CLOSING then bytestream_closed k t
      else if bst_write_blocked t then Inr (change_write_blocked_state False t)
      else Inr t)"

definition stream_handler :: "'a stream_scheme stream_kind \<Rightarrow> transport_event \<Rightarrow> 'a stream_scheme \<Rightarrow> 'a stream_scheme outcome" where
  "stream_handler k ev t =
     (case ev of
        Received_data d \<Rightarrow> Inr (t\<lparr>bst_events := bst_events t @ [Data_received d]\<rparr>)
      | State_signal s \<Rightarrow>
          if \<not> bst_callbacks t then Inr t
          else if s = TRANSPORT_CONNECTED then Inr (set_bs_state BYTESTREAM_STATE_OPEN t)
          else if s = TRANSPORT_DISCONNECTED then transport_disconnected_cb k t
          else Inr t
      | Buffer_empty_signal \<Rightarrow> if bst_callbacks t then transport_buffer_empty_cb k t else Inr t
      | Error_signal \<Rightarrow> Inr t)"

section \<open>Operations\<close>

text \<open>
  A new transport is either connected already, it comes from the listener, which has given it the
  descriptor, or it is a fresh one.
\<close>

definition set_transport :: "int option \<Rightarrow> 'a stream_scheme \<Rightarrow> 'a stream_scheme outcome" where
  "set_transport fd t =
     andthen (assert_that (\<not> bst_has_transport t)) (\<lambda>_.
     andthen (let t = fd_transport_init t in
              case fd of None \<Rightarrow> Inr t | Some fd \<Rightarrow> fd_set_fd nobody fd t) (\<lambda>t.
     andthen (fd_set_handler True (t\<lparr>bst_has_transport := True\<rparr>)) (\<lambda>t.
     let t = (if fd_state t = TRANSPORT_CONNECTED then set_bs_state BYTESTREAM_STATE_OPEN t else t)
     in Inr (t\<lparr>bst_callbacks := True\<rparr>))))"

definition stream_send ::
    "'a stream_scheme stream_kind \<Rightarrow> u8 list \<Rightarrow> 'a stream_scheme \<Rightarrow> (bool \<times> 'a stream_scheme) outcome" where
  "stream_send k data t =
     (if bst_state t \<noteq> BYTESTREAM_STATE_OPEN then Inr (False, t)
      else
        andthen (needs_transport t) (\<lambda>_.
        andthen (fd_send (stream_handler k) data t) (\<lambda>(ok, t).
        if \<not> ok then andthen (stream_do_close k None True t) (\<lambda>t. Inr (False, t))
        else
          andthen (needs_transport t) (\<lambda>_.
          Inr (True, if \<not> fd_buffer_is_empty t then change_write_blocked_state True t else t)))))"

definition stream_block_reading :: "bool \<Rightarrow> 'a stream_scheme \<Rightarrow> 'a stream_scheme outcome" where
  "stream_block_reading block t =
     (if bst_read_blocked t = block then Inr t
      else andthen (needs_transport t) (\<lambda>_. Inr (fd_block_receiving block (t\<lparr>bst_read_blocked := block\<rparr>))))"

text \<open>What happens to an established bytestream: calls of its user, and watches of the main loop.\<close>

datatype stream_op =
    Op_send "u8 list"
  | Op_close
  | Op_block bool
  | Op_readable nat read_reply
  | Op_writable nat
  | Op_error nat

fun stream_step :: "'a stream_scheme stream_kind \<Rightarrow> stream_op \<Rightarrow> 'a stream_scheme \<Rightarrow> 'a stream_scheme outcome" where
  "stream_step k (Op_send d) t = andthen (stream_send k d t) (\<lambda>(_, t). Inr t)"
| "stream_step k Op_close t = stream_do_close k None True t"
| "stream_step k (Op_block b) t = stream_block_reading b t"
| "stream_step k (Op_readable i reply) t = dispatch (i, IO_IN) (channel_io_in (stream_handler k) reply) t"
| "stream_step k (Op_writable i) t = dispatch (i, IO_OUT) (channel_io_out (stream_handler k)) t"
| "stream_step k (Op_error i) t = dispatch (i, IO_ERR) (channel_io_err (stream_handler k)) t"

definition stream_run :: "'a stream_scheme stream_kind \<Rightarrow> stream_op list \<Rightarrow> 'a stream_scheme \<Rightarrow> 'a stream_scheme outcome" where
  "stream_run k = foldo (stream_step k)"

end
