(* ===== verification/Bytestream_Oob.thy ===== *)
theory Bytestream_Oob
  imports Bytestream_Socket
begin

text \<open>
  \<open>gibber-bytestream-oob.c\<close>, out-of-band bytestreams: the side that initiates listens on a port and sends
  the URL, the other side connects to it. Of the stanzas the model has what the code reads and writes of them;
  what Wocky finds in a received one, what the listener and \<open>connect\<close> return and the ids that Wocky gives to
  new stanzas are arguments.
\<close>

section \<open>State\<close>

datatype oob_stanza =
    Oob_open c_string c_string \<comment> \<open>stream id and URL\<close>
  | Oob_result "c_string option"
  | Si_accepted
  | Si_declined stream_error

record oob = stream +
  ob_stream_id :: c_string
  ob_stream_open_id :: "c_string option"
  ob_host :: "c_string option"
  ob_url :: "c_string option"
  ob_recipient :: bool
  ob_listener :: "nat option" \<comment> \<open>its port, zero if it does not listen\<close>
  ob_opening :: nat \<comment> \<open>calls of \<open>wocky_meta_porter_open_async\<close> that have not finished\<close>
  ob_disposed :: bool
  ob_sent :: "oob_stanza list"

definition oob_send_stanza :: "oob_stanza \<Rightarrow> 'a oob_scheme \<Rightarrow> 'a oob_scheme" where
  "oob_send_stanza s t = t\<lparr>ob_sent := ob_sent t @ [s]\<rparr>"

section \<open>Closing\<close>

definition oob_decline :: "stream_error option \<Rightarrow> 'a oob_scheme \<Rightarrow> 'a oob_scheme" where
  "oob_decline error t =
     (if bst_state t \<noteq> BYTESTREAM_STATE_LOCAL_PENDING then t
      else case error of
        None \<Rightarrow> oob_send_stanza (Si_declined Forbidden) t
      | Some e \<Rightarrow> oob_send_stanza (Si_declined (if e = Foreign_error then Forbidden else e)) t)"

definition oob_closing :: "'a oob_scheme \<Rightarrow> 'a oob_scheme" where
  "oob_closing t = (if ob_recipient t then oob_send_stanza (Oob_result (ob_stream_open_id t)) t else t)"

definition oob_kind :: "'a oob_scheme stream_kind" where
  "oob_kind = \<lparr>sk_decline = oob_decline, sk_closing = oob_closing\<rparr>"

definition oob_close :: "stream_error option \<Rightarrow> 'a oob_scheme \<Rightarrow> 'a oob_scheme outcome" where
  "oob_close error t = stream_do_close oob_kind error True t"

definition oob_send :: "u8 list \<Rightarrow> 'a oob_scheme \<Rightarrow> (bool \<times> 'a oob_scheme) outcome" where
  "oob_send = stream_send oob_kind"

definition oob_dispose :: "'a oob_scheme \<Rightarrow> 'a oob_scheme outcome" where
  "oob_dispose t =
     (if ob_disposed t then Inr t
      else
        let t = t\<lparr>ob_disposed := True\<rparr> in
        andthen (if bst_state t = BYTESTREAM_STATE_CLOSED then Inr t
                 else if bst_state t = BYTESTREAM_STATE_CLOSING then bytestream_closed oob_kind t
                 else stream_do_close oob_kind None False t) (\<lambda>t.
        Inr (t\<lparr>ob_listener := None\<rparr>)))"

section \<open>The side that initiates\<close>

definition oob_url_prefix :: c_string where
  "oob_url_prefix = c_str ''x-tcp://''"

definition oob_make_url :: "c_string \<Rightarrow> nat \<Rightarrow> c_string" where
  "oob_make_url host port = oob_url_prefix @ host @ c_str '':'' @ decimal port"

definition oob_initiate :: "nat option \<Rightarrow> c_string \<Rightarrow> 'a oob_scheme \<Rightarrow> (bool \<times> 'a oob_scheme) outcome" where
  "oob_initiate listen_port open_id t =
     (if bst_state t \<noteq> BYTESTREAM_STATE_INITIATING then Inr (False, t)
      else
        andthen (assert_that (ob_host t \<noteq> None)) (\<lambda>_.
        let t = t\<lparr>ob_recipient := False\<rparr> in
        andthen (assert_that (ob_listener t = None)) (\<lambda>_.
        case listen_port of
          None \<Rightarrow> Inr (False, t\<lparr>ob_listener := Some 0\<rparr>)
        | Some port \<Rightarrow>
            let url = oob_make_url (the (ob_host t)) port;
                t = t\<lparr>ob_listener := Some port, ob_stream_open_id := Some open_id\<rparr>
            in Inr (True, oob_send_stanza (Oob_open (ob_stream_id t) url) t))))"

text \<open>
  A connection comes in at the listener, which makes a transport of the descriptor that \<open>accept\<close>
  returned; \<open>allowed\<close> is what the check of the address says.
\<close>

definition oob_new_connection_cb :: "int \<Rightarrow> bool \<Rightarrow> 'a oob_scheme \<Rightarrow> 'a oob_scheme outcome" where
  "oob_new_connection_cb nfd allowed t =
     andthen (assert_that (nfd \<ge> 0)) (\<lambda>_.
     if \<not> allowed then Inr t else set_transport (Some nfd) t)"

section \<open>The side that connects\<close>

definition oob_accept :: "'a oob_scheme \<Rightarrow> 'a oob_scheme" where
  "oob_accept t =
     (if bst_state t \<noteq> BYTESTREAM_STATE_LOCAL_PENDING then t
      else set_bs_state BYTESTREAM_STATE_ACCEPTED (oob_send_stanza Si_accepted t))"

record iq =
  iq_set :: bool
  iq_result :: bool
  iq_from :: "c_string option"
  iq_id :: "c_string option"
  iq_query :: "(c_string option \<times> c_string option option) option" \<comment> \<open>the stream id, the content of the URL\<close>

definition parse_oob_init_iq :: "iq \<Rightarrow> 'a oob_scheme \<Rightarrow> (bool \<times> 'a oob_scheme) outcome" where
  "parse_oob_init_iq stanza t =
     (if \<not> iq_set stanza then Inr (False, t)
      else case iq_query stanza of
        None \<Rightarrow> Inr (False, t)
      | Some (sid, url_node) \<Rightarrow>
          if sid \<noteq> Some (ob_stream_id t) then Inr (False, t)
          else (case url_node of
            None \<Rightarrow> Inr (False, t)
          | Some url \<Rightarrow>
              let t = t\<lparr>ob_recipient := True, ob_stream_open_id := iq_id stanza\<rparr> in
              if \<not> (case url of None \<Rightarrow> False | Some u \<Rightarrow> has_prefix u oob_url_prefix)
              then andthen (oob_close (Some Item_not_found) t) (\<lambda>t. Inr (True, t))
              else Inr (True, t\<lparr>ob_url := url, ob_opening := Suc (ob_opening t)\<rparr>)))"

definition parse_oob_iq_result :: "iq \<Rightarrow> 'a oob_scheme \<Rightarrow> bool outcome" where
  "parse_oob_iq_result stanza t =
     (if ob_recipient t then Inr False
      else if \<not> iq_result stanza then Inr False
      else case iq_id stanza of
        None \<Rightarrow> Inr False
      | Some i \<Rightarrow> andthen (deref (ob_stream_open_id t)) (\<lambda>open_id. Inr (i = open_id)))"

definition received_stanza_cb :: "iq \<Rightarrow> 'a oob_scheme \<Rightarrow> (bool \<times> 'a oob_scheme) outcome" where
  "received_stanza_cb stanza t =
     (if iq_from stanza = None then Inr (False, t)
      else
        andthen (parse_oob_init_iq stanza t) (\<lambda>(handled, t).
        if handled then Inr (True, t)
        else andthen (parse_oob_iq_result stanza t) (\<lambda>handled. Inr (handled, t))))"

definition oob_url_port :: "c_string \<Rightarrow> int" where
  "oob_url_port url =
     (case after_first 58 (drop (length oob_url_prefix) url) of None \<Rightarrow> 0 | Some port \<Rightarrow> atoi port)"

text \<open>
  \<open>address\<close>: whether the address of the peer is known; \<open>connected\<close>: the descriptor that the
  connection got.
\<close>

definition connect_to_url :: "bool \<Rightarrow> int option \<Rightarrow> 'a oob_scheme \<Rightarrow> 'a oob_scheme outcome" where
  "connect_to_url address connected t =
     andthen (deref (ob_url t)) (\<lambda>url.
     let portnum = oob_url_port url in
     if portnum \<le> 0 \<or> portnum > 65535 then oob_close (Some Not_acceptable) t
     else if \<not> address then oob_close (Some Item_not_found) t
     else
       andthen (set_transport None t) (\<lambda>t.
       andthen (ll_open_sockaddr (stream_handler oob_kind) connected t) (\<lambda>(_, t). Inr t)))"

text \<open>
  The URL is freed but the pointer is kept: the next callback reads it. A freed URL is \<open>None\<close>.
\<close>

definition opened_cb :: "bool \<Rightarrow> bool \<Rightarrow> int option \<Rightarrow> 'a oob_scheme \<Rightarrow> 'a oob_scheme outcome" where
  "opened_cb opened address connected t =
     (let t = t\<lparr>ob_opening := ob_opening t - 1\<rparr> in
      andthen (if opened then connect_to_url address connected t else Inr t) (\<lambda>t.
      andthen (deref (ob_url t)) (\<lambda>_. Inr (t\<lparr>ob_url := None\<rparr>))))"

end
