(* ===== verification/Bytestream_Direct.thy ===== *)
theory Bytestream_Direct
  imports Bytestream_Socket
begin

text \<open>
  \<open>gibber-bytestream-direct.c\<close>: the bytestreams of stream tubes, whose two ends find each other without
  XMPP. The side that accepts is given a connected socket; the other tries the addresses of the peer, for each
  of which \<open>connect\<close> gives a descriptor or fails.
\<close>

record direct = stream +
  di_addresses :: "int option list option"

definition direct_kind :: "'a direct_scheme stream_kind" where
  "direct_kind = \<lparr>sk_decline = \<lambda>_ t. t, sk_closing = \<lambda>t. t\<rparr>"

definition direct_close :: "stream_error option \<Rightarrow> 'a direct_scheme \<Rightarrow> 'a direct_scheme outcome" where
  "direct_close error t = stream_do_close direct_kind error True t"

definition direct_handler :: "transport_event \<Rightarrow> 'a direct_scheme \<Rightarrow> 'a direct_scheme outcome" where
  "direct_handler = stream_handler direct_kind"

definition direct_send :: "u8 list \<Rightarrow> 'a direct_scheme \<Rightarrow> (bool \<times> 'a direct_scheme) outcome" where
  "direct_send = stream_send direct_kind"

definition direct_block_reading :: "bool \<Rightarrow> 'a direct_scheme \<Rightarrow> 'a direct_scheme outcome" where
  "direct_block_reading = stream_block_reading"

definition direct_accept_socket :: "int \<Rightarrow> 'a direct_scheme \<Rightarrow> (bool \<times> 'a direct_scheme) outcome" where
  "direct_accept_socket fd t =
     (if bst_state t \<noteq> BYTESTREAM_STATE_LOCAL_PENDING then Inr (False, t)
      else andthen (set_transport (Some fd) t) (\<lambda>t. Inr (True, t)))"

text \<open>
  The loop over the addresses. It uses the new transport, of which only the bytestream holds a reference.
\<close>

fun try_addresses :: "int option list \<Rightarrow> 'a direct_scheme \<Rightarrow> (bool \<times> 'a direct_scheme) outcome" where
  "try_addresses [] t = Inr (False, t)"
| "try_addresses (connected # rest) t =
     andthen (needs_transport t) (\<lambda>_.
     andthen (ll_open_sockaddr direct_handler connected t) (\<lambda>(ret, t).
     if ret then Inr (True, t) else try_addresses rest t))"

definition direct_initiate :: "'a direct_scheme \<Rightarrow> (bool \<times> 'a direct_scheme) outcome" where
  "direct_initiate t =
     andthen (deref (di_addresses t)) (\<lambda>addresses.
     if addresses = [] then andthen (direct_close (Some Item_not_found) t) (\<lambda>t. Inr (False, t))
     else andthen (set_transport None t) (try_addresses addresses))"

end
