(* ===== verification/Stream_Flow.thy ===== *)
theory Stream_Flow
  imports Transport_Flow Bytestream_Oob Bytestream_Direct
begin

text \<open>
  The bytestreams as users of their transport. The locale \<open>stream_laws\<close> is what both kinds of bytestream
  promise, its lemmas say what each operation makes of a bytestream, and the handlers of a bytestream keep the
  contract of \<open>transport_client\<close>, so that the invariant of the transport holds underneath.
\<close>

section \<open>The transport does not see the fields of the bytestream\<close>

definition same_fd :: "'a fd_transport_scheme \<Rightarrow> 'b fd_transport_scheme \<Rightarrow> bool" where
  "same_fd t u \<longleftrightarrow> fd_transport.truncate t = fd_transport.truncate u"

lemma same_fd_fields:
  assumes "same_fd t u"
  shows "fd_state t = fd_state u" "fd_channel t = fd_channel u" "fd_watch_in t = fd_watch_in u"
    "fd_watch_out t = fd_watch_out u" "fd_watch_err t = fd_watch_err u" "fd_output_buffer t = fd_output_buffer u"
    "fd_dispose_has_run t = fd_dispose_has_run u" "ml_sources t = ml_sources u" "ml_next t = ml_next u"
    "os_replies t = os_replies u" "os_written t = os_written u" "fd_accepted t = fd_accepted u"
    "output_bytes t = output_bytes u"
  using assms by (simp_all add: same_fd_def fd_transport.truncate_def output_bytes_def)

lemma same_fd_ok: "same_fd t u \<Longrightarrow> fd_ok D t \<longleftrightarrow> fd_ok D u"
  by (simp add: fd_ok_def ids_fresh_def one_watch_def output_watched_def same_fd_fields)

lemma same_fd_refl [simp]: "same_fd t t"
  by (simp add: same_fd_def)

lemma same_fd_sym: "same_fd t u \<Longrightarrow> same_fd u t"
  by (simp add: same_fd_def)

lemma same_fd_trans: "same_fd t u \<Longrightarrow> same_fd u v \<Longrightarrow> same_fd t v"
  by (simp add: same_fd_def)

lemma same_fd_updates [simp]:
  "same_fd (t\<lparr>bst_has_transport := b\<rparr>) u \<longleftrightarrow> same_fd t u"
  "same_fd (t\<lparr>bst_callbacks := b\<rparr>) u \<longleftrightarrow> same_fd t u"
  "same_fd (t\<lparr>bst_events := es\<rparr>) u \<longleftrightarrow> same_fd t u"
  "same_fd (t\<lparr>bst_state := s\<rparr>) u \<longleftrightarrow> same_fd t u"
  "same_fd (t\<lparr>bst_write_blocked := b\<rparr>) u \<longleftrightarrow> same_fd t u"
  "same_fd (set_bs_state s t) u \<longleftrightarrow> same_fd t u"
  "same_fd (change_write_blocked_state b t) u \<longleftrightarrow> same_fd t u"
  by (simp_all add: same_fd_def fd_transport.truncate_def set_bs_state_def change_write_blocked_state_def)

lemma set_bs_state_fields [simp]:
  "bst_state (set_bs_state s t) = s" "bst_has_transport (set_bs_state s t) = bst_has_transport t"
  "bst_callbacks (set_bs_state s t) = bst_callbacks t" "fd_state (set_bs_state s t) = fd_state t"
  by (simp_all add: set_bs_state_def)

lemma change_write_blocked_fields [simp]:
  "bst_state (change_write_blocked_state b t) = bst_state t"
  "bst_has_transport (change_write_blocked_state b t) = bst_has_transport t"
  "bst_callbacks (change_write_blocked_state b t) = bst_callbacks t"
  "fd_state (change_write_blocked_state b t) = fd_state t"
  by (simp_all add: change_write_blocked_state_def)

lemma event_fields [simp]:
  "os_replies (set_bs_state s t) = os_replies t" "os_replies (change_write_blocked_state b t) = os_replies t"
  "os_written (set_bs_state s t) = os_written t" "os_written (change_write_blocked_state b t) = os_written t"
  "fd_accepted (set_bs_state s t) = fd_accepted t" "fd_accepted (change_write_blocked_state b t) = fd_accepted t"
  "output_bytes (set_bs_state s t) = output_bytes t" "output_bytes (change_write_blocked_state b t) = output_bytes t"
  by (simp_all add: set_bs_state_def change_write_blocked_state_def output_bytes_def)

lemma fd_ok_updates [simp]:
  "fd_ok D (t\<lparr>bst_has_transport := b\<rparr>) \<longleftrightarrow> fd_ok D t"
  "fd_ok D (t\<lparr>bst_callbacks := b\<rparr>) \<longleftrightarrow> fd_ok D t"
  "fd_ok D (t\<lparr>bst_events := es\<rparr>) \<longleftrightarrow> fd_ok D t"
  "fd_ok D (set_bs_state s t) \<longleftrightarrow> fd_ok D t"
  "fd_ok D (change_write_blocked_state b t) \<longleftrightarrow> fd_ok D t"
  by (rule same_fd_ok, simp)+

section \<open>Closing\<close>

text \<open>The bytestream is closed and its transport disconnected; what was written and accepted stays.\<close>

definition gone :: "nat set \<Rightarrow> 'a stream_scheme \<Rightarrow> 'a stream_scheme \<Rightarrow> bool" where
  "gone D t t' \<longleftrightarrow> fd_ok D t' \<and> bst_state t' = BYTESTREAM_STATE_CLOSED \<and> \<not> bst_has_transport t'
     \<and> fd_state t' \<noteq> TRANSPORT_CONNECTED \<and> os_written t' = os_written t \<and> fd_accepted t' = fd_accepted t
     \<and> os_replies t' = os_replies t"

text \<open>Or it waits for its buffer.\<close>

definition waits :: "'a stream_scheme \<Rightarrow> 'a stream_scheme \<Rightarrow> bool" where
  "waits t t' \<longleftrightarrow> same_fd t' t \<and> bst_state t' = BYTESTREAM_STATE_CLOSING \<and> bst_has_transport t'
     \<and> bst_callbacks t' = bst_callbacks t \<and> output_bytes t' \<noteq> []"

lemma gone_same: "same_fd t u \<Longrightarrow> gone D u v \<Longrightarrow> gone D t v"
  by (simp add: gone_def same_fd_fields)

interpretation nobody: transport_client nobody
  by unfold_locales (simp add: nobody_def fd_keeps_refl)

lemma do_disconnect_nobody:
  assumes "fd_ok D t"
  shows "returns (\<lambda>t'. fd_ok D t' \<and> fd_state t' \<noteq> TRANSPORT_CONNECTED \<and> os_written t' = os_written t
      \<and> fd_accepted t' = fd_accepted t \<and> os_replies t' = os_replies t \<and> fd_transport.more t' = fd_transport.more t)
    (do_disconnect nobody t)"
proof (cases "fd_state t = TRANSPORT_DISCONNECTED")
  case True
  then show ?thesis using assms by (simp add: do_disconnect_def)
next
  case False
  then show ?thesis
    using do_disconnect_eq[of t nobody] disconnected_ok[OF assms] assms by (simp add: nobody_def fd_ok_def)
qed

lemma buffer_empty_iff: "fd_buffer_is_empty t \<longleftrightarrow> output_bytes t = []"
  by (auto simp: fd_buffer_is_empty_def output_bytes_def split: option.split)

locale stream_laws =
  fixes k :: "'a stream_scheme stream_kind"
  assumes decline_same: "stream.truncate (sk_decline k e t) = stream.truncate t"
    and closing_same: "stream.truncate (sk_closing k t) = stream.truncate t"
begin

lemma stream_same:
  assumes "stream.truncate u = stream.truncate t"
  shows "same_fd u t" "bst_state u = bst_state t" "bst_has_transport u = bst_has_transport t"
    "bst_callbacks u = bst_callbacks t"
  using assms by (simp_all add: same_fd_def stream.truncate_def fd_transport.truncate_def)

lemmas kind_same [simp] = stream_same[OF decline_same] stream_same[OF closing_same]

lemma closed_gone:
  assumes "fd_ok D t" "\<not> bst_has_transport t \<longrightarrow> fd_state t \<noteq> TRANSPORT_CONNECTED"
  shows "returns (gone D t) (bytestream_closed k t)"
proof -
  let ?c = "sk_closing k t"
  note fields = same_fd_fields[OF kind_same(5)[of t]]
  have c: "fd_ok D (?c\<lparr>bst_callbacks := False\<rparr>)" "fd_ok D ?c"
    using assms(1) same_fd_ok[of ?c t D] by simp_all
  have close: "gone D t (set_bs_state BYTESTREAM_STATE_CLOSED u)"
    if "fd_ok D u" "fd_state u \<noteq> TRANSPORT_CONNECTED" "\<not> bst_has_transport u" "os_written u = os_written t"
      "fd_accepted u = fd_accepted t" "os_replies u = os_replies t" for u
  proof -
    have s: "same_fd (set_bs_state BYTESTREAM_STATE_CLOSED u) u" by simp
    show ?thesis using that same_fd_ok[OF s, of D] same_fd_fields[OF s] by (simp add: gone_def)
  qed
  show ?thesis
  proof (cases "bst_has_transport t")
    case True
    have "returns (\<lambda>t'. gone D t (set_bs_state BYTESTREAM_STATE_CLOSED (t'\<lparr>bst_has_transport := False\<rparr>)))
        (do_disconnect nobody (?c\<lparr>bst_callbacks := False\<rparr>))"
      by (rule returns_mono[OF do_disconnect_nobody[OF c(1)]], rule close)
        (auto simp: fields)
    with True show ?thesis by (simp add: bytestream_closed_def Let_def)
  next
    case False
    with assms c(2) close[of ?c] show ?thesis by (simp add: bytestream_closed_def Let_def fields)
  qed
qed

lemma close_spec:
  assumes "fd_ok D t" "\<not> bst_has_transport t \<longrightarrow> fd_state t \<noteq> TRANSPORT_CONNECTED"
    "bst_state t \<noteq> BYTESTREAM_STATE_CLOSED"
  shows "returns (\<lambda>t'. (bst_has_transport t \<and> can_wait \<and> output_bytes t \<noteq> [] \<and> waits t t')
      \<or> ((can_wait \<and> bst_has_transport t \<longrightarrow> output_bytes t = []) \<and> gone D t t'))
    (stream_do_close k e can_wait t)"
proof -
  define u where "u = set_bs_state BYTESTREAM_STATE_CLOSING
      (if bst_state t = BYTESTREAM_STATE_LOCAL_PENDING then sk_decline k e t else t)"
  have u: "same_fd u t" "bst_has_transport u = bst_has_transport t" "bst_callbacks u = bst_callbacks t"
    "bst_state u = BYTESTREAM_STATE_CLOSING"
    by (simp_all add: u_def)
  have ok: "fd_ok D u" "\<not> bst_has_transport u \<longrightarrow> fd_state u \<noteq> TRANSPORT_CONNECTED"
    using assms(1,2) u same_fd_ok[OF u(1)] same_fd_fields(1)[OF u(1)] by simp_all
  have run: "stream_do_close k e can_wait t =
      (if can_wait \<and> bst_has_transport t \<and> output_bytes t \<noteq> [] then Inr u else bytestream_closed k u)"
    using assms(3) u(2) same_fd_fields(13)[OF u(1)]
    by (simp add: stream_do_close_def Let_def u_def[symmetric] buffer_empty_iff del: event_fields)
  show ?thesis
  proof (cases "can_wait \<and> bst_has_transport t \<and> output_bytes t \<noteq> []")
    case True
    then have "waits t u" using u same_fd_fields(13)[OF u(1)] by (simp add: waits_def)
    with True show ?thesis unfolding run by simp
  next
    case False
    have "returns (gone D t) (bytestream_closed k u)"
      by (rule returns_mono[OF closed_gone[OF ok]]) (rule gone_same[OF same_fd_sym[OF u(1)]])
    with False show ?thesis by (auto simp: run elim!: returns_mono)
  qed
qed

text \<open>The handlers of a bytestream keep the invariant of the transport.\<close>

lemma gone_keeps: "gone D t t' \<Longrightarrow> fd_keeps D t t'"
  by (simp add: gone_def fd_keeps_def)

lemma waits_keeps: "fd_ok D t \<Longrightarrow> waits t t' \<Longrightarrow> fd_keeps D t t'"
  using same_fd_ok[of t' t D] same_fd_fields(1)[of t' t] by (simp add: waits_def fd_keeps_def)

lemma closed_keeps:
  assumes "fd_ok D t"
  shows "returns (fd_keeps D t) (bytestream_closed k t)"
proof (cases "bst_has_transport t")
  case True
  with assms have "returns (gone D t) (bytestream_closed k t)" by (intro closed_gone) simp_all
  then show ?thesis by (rule returns_mono) (rule gone_keeps)
next
  case False
  have s: "same_fd (set_bs_state BYTESTREAM_STATE_CLOSED (sk_closing k t)) t" by simp
  show ?thesis
    using False assms same_fd_ok[OF s, of D] same_fd_fields(1)[OF s]
    by (simp add: bytestream_closed_def Let_def fd_keeps_def)
qed

lemma close_keeps:
  assumes "fd_ok D t"
  shows "returns (fd_keeps D t) (stream_do_close k e can_wait t)"
proof -
  define u where "u = set_bs_state BYTESTREAM_STATE_CLOSING
      (if bst_state t = BYTESTREAM_STATE_LOCAL_PENDING then sk_decline k e t else t)"
  have s: "same_fd u t" by (simp add: u_def)
  have u: "fd_ok D u" "fd_keeps D t u" using assms same_fd_ok[OF s, of D] same_fd_fields(1)[OF s] by (simp_all add: fd_keeps_def)
  show ?thesis
    using assms u closed_keeps[OF u(1)]
    by (auto simp: stream_do_close_def Let_def u_def[symmetric] fd_keeps_refl elim!: returns_mono intro: fd_keeps_trans)
qed

lemma handler_keeps:
  assumes "fd_ok D t"
  shows "returns (fd_keeps D t) (stream_handler k ev t)"
proof -
  have "fd_keeps D t (t\<lparr>bst_events := es\<rparr>)" for es using assms by (simp add: fd_keeps_def)
  moreover have "fd_keeps D t (set_bs_state s t)" for s
    using assms by (simp add: fd_keeps_def)
  moreover have "fd_keeps D t (change_write_blocked_state b t)" for b
    using assms by (simp add: fd_keeps_def)
  ultimately show ?thesis
    using close_keeps[OF assms] closed_keeps[OF assms] fd_keeps_refl[OF assms]
    by (auto simp: stream_handler_def transport_disconnected_cb_def transport_buffer_empty_cb_def split: transport_event.split)
qed

end

sublocale stream_laws \<subseteq> transport: transport_client "stream_handler k"
  by unfold_locales (rule handler_keeps)

interpretation oob: stream_laws oob_kind
  by unfold_locales (simp_all add: oob_kind_def oob_decline_def oob_closing_def oob_send_stanza_def stream.truncate_def
      split: option.split)

interpretation direct: stream_laws direct_kind
  by unfold_locales (simp_all add: direct_kind_def)

end
