(* ===== verification/Stream_Properties.thy ===== *)
theory Stream_Properties
  imports Stream_Flow
begin

text \<open>
  What the users of a bytestream rely on: closing it loses nothing, and what waits is written. Then the
  behaviours at the edges of these components: connections that come in late, addresses that cannot be
  reached, and the URL that tells the peer where to connect.
\<close>

section \<open>Runs without failures of the connection\<close>

definition kernel_works :: "'a fd_transport_scheme \<Rightarrow> bool" where
  "kernel_works t \<longleftrightarrow> (\<forall>r \<in> set (os_replies t). r \<noteq> Write_error \<and> r \<noteq> Write_eof)"

fun harmless :: "stream_op \<Rightarrow> bool" where
  "harmless (Op_send d) = True"
| "harmless Op_close = True"
| "harmless (Op_block b) = False"
| "harmless (Op_readable i reply) = (reply \<noteq> Read_error \<and> reply \<noteq> Read_eof)"
| "harmless (Op_writable i) = True"
| "harmless (Op_error i) = False"

text \<open>What the user sends before it closes the bytestream.\<close>

fun accepted_data :: "stream_op list \<Rightarrow> u8 list" where
  "accepted_data [] = []"
| "accepted_data (Op_send d # ops) = d @ accepted_data ops"
| "accepted_data (Op_close # ops) = []"
| "accepted_data (_ # ops) = accepted_data ops"

text \<open>The bytestream has its transport until all is written, and then it is closed.\<close>

definition live :: "'a stream_scheme \<Rightarrow> bool" where
  "live t \<longleftrightarrow> bst_has_transport t \<and> bst_callbacks t \<and> fd_state t = TRANSPORT_CONNECTED
     \<and> (bst_state t = BYTESTREAM_STATE_OPEN \<or> bst_state t = BYTESTREAM_STATE_CLOSING \<and> output_bytes t \<noteq> [])"

definition ended :: "'a stream_scheme \<Rightarrow> bool" where
  "ended t \<longleftrightarrow> \<not> bst_has_transport t \<and> bst_state t = BYTESTREAM_STATE_CLOSED
     \<and> fd_state t \<noteq> TRANSPORT_CONNECTED \<and> os_written t = fd_accepted t"

definition lossless :: "'a stream_scheme \<Rightarrow> bool" where
  "lossless t \<longleftrightarrow> fd_ok {} t \<and> kernel_works t \<and> (live t \<or> ended t)"

lemma gone_ended: "gone D u t \<Longrightarrow> os_written u = fd_accepted u \<Longrightarrow> ended t"
  by (simp add: gone_def ended_def)

lemma live_bytes: "fd_ok D t \<Longrightarrow> live t \<Longrightarrow> os_written t @ output_bytes t = fd_accepted t"
  by (simp add: fd_ok_def live_def output_watched_def)

lemma try_write_works:
  assumes "kernel_works t"
  obtains n rs where "try_write H data t = Inr (True, n, t\<lparr>os_replies := rs, os_written := os_written t @ take n data\<rparr>)"
    "n \<le> length data" "set rs \<subseteq> set (os_replies t)"
proof (cases "os_replies t")
  case Nil
  have "t = t\<lparr>os_replies := [], os_written := os_written t @ take 0 data\<rparr>" using Nil by simp
  with Nil that[of 0 "[]"] show ?thesis by (simp add: try_write_def fd_write_def)
next
  case (Cons r rs)
  then consider m where "r = Write_takes m" | "r = Write_again" using assms by (cases r) (auto simp: kernel_works_def)
  then show ?thesis
  proof cases
    case (1 m)
    with Cons that[of "min m (length data)" rs] show ?thesis
      by (simp add: try_write_def fd_write_def Let_def subset_insertI)
  next
    case 2
    have "t\<lparr>os_replies := rs\<rparr> = t\<lparr>os_replies := rs, os_written := os_written t @ take 0 data\<rparr>" by simp
    with 2 Cons that[of 0 rs] show ?thesis
      by (simp add: try_write_def fd_write_def Let_def subset_insertI)
  qed
qed

lemma kernel_works_less: "kernel_works t \<Longrightarrow> set (os_replies u) \<subseteq> set (os_replies t) \<Longrightarrow> kernel_works u"
  by (auto simp: kernel_works_def)

text \<open>An open bytestream, where the invariant of the transport may be broken for a moment.\<close>

definition open_stream :: "'a stream_scheme \<Rightarrow> bool" where
  "open_stream t \<longleftrightarrow> bst_has_transport t \<and> bst_callbacks t \<and> fd_state t = TRANSPORT_CONNECTED
     \<and> bst_state t = BYTESTREAM_STATE_OPEN \<and> kernel_works t"

lemma open_streamI:
  "open_stream t \<Longrightarrow> bst_has_transport u \<Longrightarrow> bst_callbacks u \<Longrightarrow> fd_state u = TRANSPORT_CONNECTED \<Longrightarrow>
    bst_state u = BYTESTREAM_STATE_OPEN \<Longrightarrow> set (os_replies u) \<subseteq> set (os_replies t) \<Longrightarrow> open_stream u"
  by (auto simp: open_stream_def intro: kernel_works_less)

lemma open_stream_blocked: "open_stream t \<Longrightarrow> open_stream (change_write_blocked_state b t)"
  by (simp add: open_stream_def kernel_works_def)

lemma open_stream_updates [simp]:
  "open_stream (t\<lparr>fd_accepted := a\<rparr>) \<longleftrightarrow> open_stream t"
  "open_stream (t\<lparr>fd_output_buffer := b\<rparr>) \<longleftrightarrow> open_stream t"
  "open_stream (t\<lparr>ml_sources := xs\<rparr>) \<longleftrightarrow> open_stream t"
  "open_stream (t\<lparr>ml_next := n\<rparr>) \<longleftrightarrow> open_stream t"
  "open_stream (t\<lparr>fd_watch_out := n\<rparr>) \<longleftrightarrow> open_stream t"
  by (simp_all add: open_stream_def kernel_works_def)

lemma buffer_empty_open:
  assumes "open_stream u"
  shows "returns (\<lambda>u'. open_stream u' \<and> fd_accepted u' = fd_accepted u) (stream_handler k Buffer_empty_signal u)"
  using assms open_stream_blocked[OF assms]
  by (auto simp: stream_handler_def transport_buffer_empty_cb_def open_stream_def)

lemma send_open:
  fixes t :: "'a stream_scheme"
  assumes "open_stream t"
  shows "returns (\<lambda>(ok, t'). ok \<and> open_stream t' \<and> fd_accepted t' = fd_accepted t @ data) (fd_send (stream_handler k) data t)"
proof -
  define finish :: "nat \<Rightarrow> 'a stream_scheme \<Rightarrow> (bool \<times> 'a stream_scheme) outcome" where
    "finish n u = (let t = u\<lparr>fd_accepted := fd_accepted u @ data\<rparr> in
       if n = length data then andthen (stream_handler k Buffer_empty_signal t) (\<lambda>t. Inr (True, t))
       else
         let t = t\<lparr>fd_output_buffer := Some (output_bytes t @ drop n data)\<rparr> in
         if fd_watch_out t = 0
         then let (i, t) = add_watch IO_OUT t in Inr (True, t\<lparr>fd_watch_out := i\<rparr>)
         else Inr (True, t))" for n u
  have rest: "returns (\<lambda>(ok, t'). ok \<and> open_stream t' \<and> fd_accepted t' = fd_accepted u @ data) (finish n u)"
    if "open_stream u" for n u
    using that buffer_empty_open[of "u\<lparr>fd_accepted := fd_accepted u @ data\<rparr>" k]
    by (simp add: finish_def Let_def add_watch_def)
  have run: "fd_send (stream_handler k) data t =
      andthen (if fd_buffer_is_empty t then try_write (stream_handler k) data t else Inr (True, 0, t))
        (\<lambda>(ok, n, t). if \<not> ok then Inr (False, t) else finish n t)"
    using assms unfolding fd_send_def writeout_def finish_def by (simp add: open_stream_def)
  have works: "kernel_works t" using assms by (simp add: open_stream_def)
  obtain n rs where wr: "try_write (stream_handler k) data t
      = Inr (True, n, t\<lparr>os_replies := rs, os_written := os_written t @ take n data\<rparr>)"
    "set rs \<subseteq> set (os_replies t)"
    using try_write_works[OF works] by blast
  then have "open_stream (t\<lparr>os_replies := rs, os_written := os_written t @ take n data\<rparr>)"
    using assms by (intro open_streamI[OF assms]) (simp_all add: open_stream_def)
  from rest[OF this] show ?thesis using rest[OF assms] wr(1) by (simp add: run)
qed

context stream_laws
begin

lemma send_lossless:
  assumes "lossless t"
  shows "returns (\<lambda>(ok, t'). lossless t' \<and> (bst_state t' = BYTESTREAM_STATE_OPEN \<longleftrightarrow> bst_state t = BYTESTREAM_STATE_OPEN)
      \<and> fd_accepted t' = (if bst_state t = BYTESTREAM_STATE_OPEN then fd_accepted t @ data else fd_accepted t))
    (stream_send k data t)"
proof (cases "bst_state t = BYTESTREAM_STATE_OPEN")
  case False
  then show ?thesis using assms by (simp add: stream_send_def)
next
  case True
  then have opened: "open_stream t" and ok: "fd_ok {} t" "fd_state t = TRANSPORT_CONNECTED"
    using assms by (auto simp: lossless_def live_def ended_def open_stream_def)
  have "returns (\<lambda>r. (case r of (ok, t') \<Rightarrow> ok \<and> open_stream t' \<and> fd_accepted t' = fd_accepted t @ data) \<and> (case r of (ok, t') \<Rightarrow> fd_keeps {} t t'))
      (fd_send (stream_handler k) data t)"
    by (rule returns_conj[OF send_open[OF opened] returns_holds[OF transport.send_keeps[OF ok]]])
  then show ?thesis
    using True opened
    by (auto simp: stream_send_def open_stream_def needs_transport_def fd_keeps_def lossless_def live_def kernel_works_def
        elim!: returns_mono)
qed

lemma close_lossless:
  assumes "lossless t"
  shows "returns (\<lambda>t'. lossless t' \<and> bst_state t' \<noteq> BYTESTREAM_STATE_OPEN \<and> fd_accepted t' = fd_accepted t)
    (stream_do_close k e True t)"
proof (cases "bst_state t = BYTESTREAM_STATE_CLOSED")
  case True
  then show ?thesis using assms by (simp add: stream_do_close_def)
next
  case False
  then have t: "fd_ok {} t" "live t" "kernel_works t" using assms by (auto simp: lossless_def ended_def)
  note bytes = live_bytes[OF t(1,2)]
  have w: "lossless u \<and> bst_state u \<noteq> BYTESTREAM_STATE_OPEN \<and> fd_accepted u = fd_accepted t" if "waits t u" for u
    using that t same_fd_ok[of u t "{}"] same_fd_fields[of u t]
    by (simp add: waits_def lossless_def live_def kernel_works_def)
  have g: "lossless u \<and> bst_state u \<noteq> BYTESTREAM_STATE_OPEN \<and> fd_accepted u = fd_accepted t"
    if "gone {} t u" "output_bytes t = []" for u
    using that t bytes gone_ended[of "{}" t u] by (simp add: lossless_def gone_def kernel_works_def)
  show ?thesis
    using t False w g by (intro returns_mono[OF close_spec]) (auto simp: live_def)
qed

text \<open>After the callback of the write watch: the bytestream goes on, or it has written all and is closed.\<close>

lemma buffer_empty_live:
  assumes "fd_ok D u" "bst_has_transport u" "bst_callbacks u" "fd_state u = TRANSPORT_CONNECTED" "output_bytes u = []"
    "bst_state u = BYTESTREAM_STATE_OPEN \<or> bst_state u = BYTESTREAM_STATE_CLOSING" "kernel_works u"
  shows "returns (\<lambda>t'. (live t' \<or> ended t') \<and> kernel_works t' \<and> fd_accepted t' = fd_accepted u
      \<and> (bst_state t' = BYTESTREAM_STATE_OPEN \<longleftrightarrow> bst_state u = BYTESTREAM_STATE_OPEN)
      \<and> (bst_state u = BYTESTREAM_STATE_CLOSING \<longrightarrow> ended t'))
    (stream_handler k Buffer_empty_signal u)"
proof (cases "bst_state u = BYTESTREAM_STATE_OPEN")
  case True
  with assms have "open_stream u" by (simp add: open_stream_def)
  then show ?thesis
    using True by (intro returns_mono[OF buffer_empty_open]) (simp_all add: open_stream_def live_def)
next
  case False
  with assms(6) have closing: "bst_state u = BYTESTREAM_STATE_CLOSING" by simp
  have "os_written u = fd_accepted u" using assms(1,4,5) by (simp add: fd_ok_def output_watched_def)
  then have g: "ended t' \<and> kernel_works t' \<and> fd_accepted t' = fd_accepted u" if "gone D u t'" for t'
    using gone_ended[OF that] that assms(7) by (simp add: kernel_works_def gone_def)
  have "returns (gone D u) (bytestream_closed k u)" using assms(1,2) by (intro closed_gone) simp_all
  then have "returns (\<lambda>t'. (live t' \<or> ended t') \<and> kernel_works t' \<and> ended t'
      \<and> fd_accepted t' = fd_accepted u) (bytestream_closed k u)"
    by (rule returns_mono) (simp add: g)
  then show ?thesis using closing assms(3)
    by (auto simp: stream_handler_def transport_buffer_empty_cb_def ended_def elim!: returns_mono)
qed

lemma writable_live:
  assumes "fd_ok {} t" "kernel_works t" "live t" "(i, IO_OUT) \<in> set (ml_sources t)"
  shows "returns (\<lambda>(keep, t'). (live t' \<or> ended t') \<and> kernel_works t' \<and> fd_accepted t' = fd_accepted t
      \<and> (bst_state t' = BYTESTREAM_STATE_OPEN \<longleftrightarrow> bst_state t = BYTESTREAM_STATE_OPEN)
      \<and> (bst_state t = BYTESTREAM_STATE_CLOSING \<longrightarrow> os_replies t = [Write_takes (length (output_bytes t))]
           \<longrightarrow> ended t')) (channel_io_out (stream_handler k) t)"
proof -
  have buf: "fd_output_buffer t \<noteq> None" "i = fd_watch_out t"
    using assms(1,4) unfolding fd_ok_def one_watch_def by auto
  obtain n rs where wr: "try_write (stream_handler k) (output_bytes t) t
      = Inr (True, n, t\<lparr>os_replies := rs, os_written := os_written t @ take n (output_bytes t)\<rparr>)"
    "n \<le> length (output_bytes t)" "set rs \<subseteq> set (os_replies t)"
    using try_write_works[OF assms(2)] by blast
  define u where "u = t\<lparr>os_replies := rs, os_written := os_written t @ take n (output_bytes t),
      fd_output_buffer := Some (drop n (output_bytes t))\<rparr>"
  have eq: "(if n > 0 then v\<lparr>fd_output_buffer := Some (drop n (output_bytes v))\<rparr> else v) = u"
    if "v = t\<lparr>os_replies := rs, os_written := os_written t @ take n (output_bytes t)\<rparr>" for v
    using buf(1) that by (cases t) (auto simp: u_def output_bytes_def)
  have run: "channel_io_out (stream_handler k) t =
      (if output_bytes u = [] then andthen (stream_handler k Buffer_empty_signal (u\<lparr>fd_watch_out := 0\<rparr>)) (\<lambda>t. Inr (False, t))
       else Inr (True, u))"
    using buf(1) unfolding channel_io_out_def wr(1) by (simp only: andthen_simps assert_that_simps eq Let_def split) simp
  have u: "kernel_works u" "bst_has_transport u" "bst_callbacks u" "fd_state u = TRANSPORT_CONNECTED"
    "bst_state u = bst_state t" "output_bytes u = drop n (output_bytes t)"
    using assms(2,3) kernel_works_less[OF assms(2), of u] wr(3) by (simp_all add: u_def live_def output_bytes_def)
  have all: "os_replies t = [Write_takes (length (output_bytes t))] \<Longrightarrow> output_bytes u = []"
    using wr(1) u(6) by (simp add: try_write_def fd_write_def Let_def)
  have acc: "fd_accepted u = fd_accepted t" by (simp add: u_def)
  show ?thesis
  proof (cases "output_bytes u = []")
    case True
    have "fd_ok {i} (u\<lparr>fd_watch_out := 0\<rparr>)"
      using all_written[OF assms(1,4) wr(2) u_def] True u(6) by simp
    moreover have "output_bytes (u\<lparr>fd_watch_out := 0\<rparr>) = []" "kernel_works (u\<lparr>fd_watch_out := 0\<rparr>)"
      using True u(1) by (simp_all add: output_bytes_def kernel_works_def)
    ultimately have "returns (\<lambda>t'. (live t' \<or> ended t') \<and> kernel_works t' \<and> fd_accepted t' = fd_accepted (u\<lparr>fd_watch_out := 0\<rparr>)
          \<and> (bst_state t' = BYTESTREAM_STATE_OPEN \<longleftrightarrow> bst_state (u\<lparr>fd_watch_out := 0\<rparr>) = BYTESTREAM_STATE_OPEN)
          \<and> (bst_state (u\<lparr>fd_watch_out := 0\<rparr>) = BYTESTREAM_STATE_CLOSING \<longrightarrow> ended t'))
        (stream_handler k Buffer_empty_signal (u\<lparr>fd_watch_out := 0\<rparr>))"
      using u assms(3) by (intro buffer_empty_live) (auto simp: live_def)
    with True u(5) acc show ?thesis by (auto simp: run elim!: returns_mono)
  next
    case False
    with u assms(3) have "live u" by (auto simp: live_def)
    with False u(1,5) all acc show ?thesis by (auto simp: run)
  qed
qed

lemma live_removed [simp]: "live (source_remove i t) \<longleftrightarrow> live t" "ended (source_remove i t) \<longleftrightarrow> ended t"
  "kernel_works (source_remove i t) \<longleftrightarrow> kernel_works t" "fd_accepted (source_remove i t) = fd_accepted t"
  "bst_state (source_remove i t) = bst_state t"
  by (simp_all add: live_def ended_def kernel_works_def source_remove_def output_bytes_def)

lemma step_lossless:
  assumes "lossless t" "harmless op"
  shows "returns (\<lambda>t'. lossless t' \<and> (bst_state t' = BYTESTREAM_STATE_OPEN \<longleftrightarrow> bst_state t = BYTESTREAM_STATE_OPEN \<and> op \<noteq> Op_close)
      \<and> fd_accepted t' = fd_accepted t @ (case op of Op_send d \<Rightarrow> if bst_state t = BYTESTREAM_STATE_OPEN then d else [] | _ \<Rightarrow> []))
    (stream_step k op t)"
proof (cases op)
  case (Op_send d)
  with send_lossless[OF assms(1), of d] show ?thesis by (auto simp: case_prod_unfold elim!: returns_mono)
next
  case Op_close
  with close_lossless[OF assms(1)] show ?thesis by simp
next
  case (Op_readable i reply)
  have "lossless (t\<lparr>bst_events := es\<rparr>)" for es
    using assms(1) by (auto simp: lossless_def kernel_works_def live_def ended_def output_bytes_def)
  with Op_readable assms show ?thesis
    by (cases reply) (auto simp: dispatch_def channel_io_in_def fd_received_data_def stream_handler_def)
next
  case (Op_writable i)
  show ?thesis
  proof (cases "(i, IO_OUT) \<in> set (ml_sources t)")
    case False
    with Op_writable assms(1) show ?thesis by (simp add: dispatch_def)
  next
    case True
    have t: "fd_ok {} t" "kernel_works t" "live t"
      using assms(1) True unfolding lossless_def ended_def fd_ok_def one_watch_def by auto
    have "returns (\<lambda>t'. (live t' \<or> ended t') \<and> kernel_works t' \<and> fd_accepted t' = fd_accepted t
        \<and> (bst_state t' = BYTESTREAM_STATE_OPEN \<longleftrightarrow> bst_state t = BYTESTREAM_STATE_OPEN))
      (dispatch (i, IO_OUT) (channel_io_out (stream_handler k)) t)"
      using True writable_live[OF t True] by (auto simp: dispatch_def elim!: returns_mono)
    from returns_conj[OF this returns_holds[OF transport.io_out_keeps[OF t(1)]]] show ?thesis
      using Op_writable by (auto simp: lossless_def fd_keeps_def elim!: returns_mono)
  qed
qed (use assms(2) in simp_all)

lemma run_lossless:
  "lossless t \<Longrightarrow> \<forall>op \<in> set ops. harmless op \<Longrightarrow>
    returns (\<lambda>t'. lossless t' \<and> fd_accepted t' = fd_accepted t @ (if bst_state t = BYTESTREAM_STATE_OPEN then accepted_data ops else []))
      (stream_run k ops t)"
proof (induction ops arbitrary: t)
  case (Cons op ops)
  have "returns (\<lambda>t'. returns (\<lambda>t''. lossless t'' \<and> fd_accepted t'' = fd_accepted t
      @ (if bst_state t = BYTESTREAM_STATE_OPEN then accepted_data (op # ops) else [])) (stream_run k ops t')) (stream_step k op t)"
    by (rule returns_mono[OF step_lossless[of t op]])
      (use Cons in \<open>auto elim!: returns_mono[OF Cons.IH] split: stream_op.splits if_splits\<close>)
  then show ?case by (simp add: stream_run_def)
qed (simp add: stream_run_def)

text \<open>What a lossless bytestream looks like to its users.\<close>

lemma lossless_closing:
  assumes "lossless t" "bst_state t = BYTESTREAM_STATE_CLOSING"
  shows "(fd_watch_out t, IO_OUT) \<in> set (ml_sources t)
    \<and> returns (\<lambda>t'. bst_state t' = BYTESTREAM_STATE_CLOSED \<and> os_written t' = fd_accepted t)
        (stream_step k (Op_writable (fd_watch_out t)) (t\<lparr>os_replies := [Write_takes (length (output_bytes t))]\<rparr>))"
proof -
  let ?t = "t\<lparr>os_replies := [Write_takes (length (output_bytes t))]\<rparr>"
  have t: "fd_ok {} t" "live t" using assms by (auto simp: lossless_def ended_def)
  then have w: "(fd_watch_out t, IO_OUT) \<in> set (ml_sources t)"
    using assms(2) unfolding fd_ok_def live_def output_watched_def by auto
  have "fd_ok {} ?t" "live ?t" "kernel_works ?t" "output_bytes ?t = output_bytes t"
    using t by (simp_all add: fd_ok_defs live_def kernel_works_def)
  from writable_live[OF this(1,3,2), of "fd_watch_out t"] w this(4) assms(2)
  have "returns (\<lambda>(keep, t'). ended t' \<and> fd_accepted t' = fd_accepted t) (channel_io_out (stream_handler k) ?t)"
    by (auto elim!: returns_mono)
  with w show ?thesis
    by (auto simp: dispatch_def ended_def source_remove_def elim!: returns_mono)
qed

end

section \<open>A new connection\<close>

text \<open>A bytestream without a transport, in a main loop that has no write watch for it.\<close>

definition unconnected :: "'a stream_scheme \<Rightarrow> bool" where
  "unconnected t \<longleftrightarrow> \<not> bst_has_transport t \<and> 0 < ml_next t \<and> kernel_works t
     \<and> (\<forall>(i, c) \<in> set (ml_sources t). 0 < i \<and> i < ml_next t \<and> c \<noteq> IO_OUT)"

lemma set_transport_lossless:
  assumes "unconnected t" "0 \<le> fd"
  shows "returns (\<lambda>t'. lossless t' \<and> bst_state t' = BYTESTREAM_STATE_OPEN \<and> fd_accepted t' = []) (set_transport (Some fd) t)"
proof -
  define u where "u = (fd_transport_init t)\<lparr>fd_fd := fd, fd_channel := True, os_written := [], fd_accepted := [],
      ml_sources := ml_sources t @ [(ml_next t, IO_IN), (Suc (ml_next t), IO_ERR)], ml_next := Suc (Suc (ml_next t)),
      fd_watch_in := ml_next t, fd_watch_err := Suc (ml_next t), fd_state := TRANSPORT_CONNECTED\<rparr>"
  define v where "v = (set_bs_state BYTESTREAM_STATE_OPEN (u\<lparr>bst_has_transport := True, fd_handler := True\<rparr>))\<lparr>bst_callbacks := True\<rparr>"
  have run: "set_transport (Some fd) t = Inr v"
    using assms
    by (cases t) (simp add: set_transport_def unconnected_def fd_set_fd_def fd_transport_init_def add_watch_def fd_set_state_def
        nobody_def fd_set_handler_def u_def v_def Let_def)
  have fd: "fd_ok {} u"
    using assms(1) by (auto simp: u_def fd_ok_defs fd_transport_init_def unconnected_def)
  have "fd_ok {} (u\<lparr>bst_has_transport := True, fd_handler := True\<rparr>)"
    using fd by (simp add: fd_ok_defs)
  then have "fd_ok {} v" by (simp add: v_def)
  then have "lossless v" "bst_state v = BYTESTREAM_STATE_OPEN" "fd_accepted v = []"
    using assms(1) by (simp_all add: lossless_def live_def v_def u_def unconnected_def kernel_works_def fd_transport_init_def)
  then show ?thesis by (simp add: run)
qed

context stream_laws
begin

lemma connection_lossless:
  assumes "unconnected t" "0 \<le> fd" "\<forall>op \<in> set ops. harmless op"
  shows "returns (\<lambda>t'. lossless t' \<and> fd_accepted t' = accepted_data ops)
    (andthen (set_transport (Some fd) t) (stream_run k ops))"
  using assms(3) by (auto intro!: returns_mono[OF set_transport_lossless[OF assms(1,2)]] returns_mono[OF run_lossless])

end

lemma lossless_bytes:
  assumes "lossless t"
  shows "bst_state t = BYTESTREAM_STATE_CLOSED \<Longrightarrow> os_written t = fd_accepted t"
    and "bst_state t \<noteq> BYTESTREAM_STATE_CLOSED \<Longrightarrow> os_written t @ output_bytes t = fd_accepted t"
  using assms live_bytes[of "{}" t] by (auto simp: lossless_def live_def ended_def)

text \<open>
  C36. Closing a bytestream loses nothing. After a connection came in, whatever is sent, received and
  closed, in any order, and however many bytes the kernel takes at a time, as long as the connection itself
  does not fail: no operation aborts; what was written and what waits in the buffer are the data that was sent
  before the bytestream was closed, in order; a bytestream that is closed has written all of it; and one that
  still waits has a watch for its socket, and is closed, with all data written, as soon as the kernel takes the
  rest.
\<close>

theorem close_loses_nothing:
  fixes t :: "'a oob_scheme"
  assumes "unconnected t" "0 \<le> fd" "\<forall>op \<in> set ops. harmless op"
  shows "returns (\<lambda>t'.
      (if bst_state t' = BYTESTREAM_STATE_CLOSED then os_written t' = accepted_data ops
       else os_written t' @ output_bytes t' = accepted_data ops)
      \<and> (bst_state t' = BYTESTREAM_STATE_CLOSING \<longrightarrow>
          (fd_watch_out t', IO_OUT) \<in> set (ml_sources t')
          \<and> returns (\<lambda>t''. bst_state t'' = BYTESTREAM_STATE_CLOSED \<and> os_written t'' = accepted_data ops)
              (stream_step oob_kind (Op_writable (fd_watch_out t'))
                (t'\<lparr>os_replies := [Write_takes (length (output_bytes t'))]\<rparr>))))
    (andthen (set_transport (Some fd) t) (stream_run oob_kind ops))"
proof (rule returns_mono[OF oob.connection_lossless[OF assms]])
  fix t' :: "'a oob_scheme"
  assume t': "lossless t' \<and> fd_accepted t' = accepted_data ops"
  then show "(if bst_state t' = BYTESTREAM_STATE_CLOSED then os_written t' = accepted_data ops
       else os_written t' @ output_bytes t' = accepted_data ops)
      \<and> (bst_state t' = BYTESTREAM_STATE_CLOSING \<longrightarrow>
          (fd_watch_out t', IO_OUT) \<in> set (ml_sources t')
          \<and> returns (\<lambda>t''. bst_state t'' = BYTESTREAM_STATE_CLOSED \<and> os_written t'' = accepted_data ops)
              (stream_step oob_kind (Op_writable (fd_watch_out t'))
                (t'\<lparr>os_replies := [Write_takes (length (output_bytes t'))]\<rparr>)))"
    using lossless_bytes[of t'] oob.lossless_closing[of t'] by simp
qed

text \<open>
  Three bytes are sent, of which the kernel takes one; the bytestream is closed, then the socket becomes
  writable again, twice.
\<close>

definition example_oob :: oob where
  "example_oob = \<lparr>fd_state = TRANSPORT_DISCONNECTED, fd_handler = False, fd_fd = - 1, fd_channel = False, fd_watch_in = 0,
     fd_watch_out = 0, fd_watch_err = 0, fd_output_buffer = None, fd_receiving_blocked = False, fd_dispose_has_run = False,
     ml_sources = [], ml_next = 1, os_replies = [Write_takes 1, Write_again, Write_takes 9], os_written = [], fd_accepted = [],
     bst_has_transport = False, bst_callbacks = False, bst_state = BYTESTREAM_STATE_INITIATING, bst_write_blocked = False,
     bst_read_blocked = False, bst_events = [], ob_stream_id = [115], ob_stream_open_id = Some [105], ob_host = Some [104],
     ob_url = None, ob_recipient = False, ob_listener = Some 5298, ob_opening = 0, ob_disposed = False, ob_sent = []\<rparr>"

definition example_ops :: "stream_op list" where
  "example_ops = [Op_send [1, 2, 3], Op_close, Op_writable 3, Op_writable 3]"

lemmas stream_eval = fd_transport_init_def fd_set_fd_def add_watch_def fd_set_state_def nobody_def fd_set_handler_def
  set_transport_def stream_send_def fd_send_def writeout_def try_write_def fd_write_def output_bytes_def
  fd_buffer_is_empty_def stream_handler_def transport_buffer_empty_cb_def bytestream_closed_def stream_do_close_def
  set_bs_state_def change_write_blocked_state_def do_disconnect_def close_channel_def source_remove_def dispatch_def
  channel_io_out_def needs_transport_def oob_kind_def oob_closing_def oob_decline_def

lemma close_loses_nothing_witness:
  "\<exists>t. andthen (set_transport (Some 7) example_oob) (stream_run oob_kind example_ops) = Inr t
     \<and> bst_state t = BYTESTREAM_STATE_CLOSED \<and> os_written t = [1, 2, 3]"
proof -
  have "unconnected example_oob" "\<forall>op \<in> set example_ops. harmless op"
    by (simp_all add: unconnected_def example_oob_def example_ops_def kernel_works_def)
  note app = close_loses_nothing[OF this(1) _ this(2), of 7]
  have "returns (\<lambda>t. bst_state t = BYTESTREAM_STATE_CLOSED)
      (andthen (set_transport (Some 7) example_oob) (stream_run oob_kind example_ops))"
    by (simp add: stream_run_def example_oob_def example_ops_def stream_eval Let_def)
  with app show ?thesis by (auto simp: returns_iff example_ops_def)
qed

section \<open>Late connections\<close>

lemma new_connection_again:
  assumes "0 \<le> fd"
  shows "bst_has_transport t \<Longrightarrow> oob_new_connection_cb fd True t = Inl Assertion_failed"
    and "\<not> bst_has_transport t \<Longrightarrow> returns (\<lambda>t'. bst_state t' = BYTESTREAM_STATE_OPEN) (oob_new_connection_cb fd True t)"
  using assms
  by (simp_all add: oob_new_connection_cb_def set_transport_def fd_transport_init_def fd_set_fd_def add_watch_def
      fd_set_state_def nobody_def fd_set_handler_def Let_def)

text \<open>
  The listener of a bytestream is never stopped, and it does not look at the state of the bytestream.
  After the first connection, at whatever point of the bytestream's life, one more connection from an address
  that passes the check aborts the process while the bytestream is open or waits to be closed, and opens it
  again when it is closed already.
\<close>

theorem late_connection:
  fixes t :: "'a oob_scheme"
  assumes "unconnected t" "0 \<le> fd" "\<forall>op \<in> set ops. harmless op" "0 \<le> fd'"
  shows "returns (\<lambda>t'.
      if bst_state t' = BYTESTREAM_STATE_CLOSED
      then returns (\<lambda>t''. bst_state t'' = BYTESTREAM_STATE_OPEN) (oob_new_connection_cb fd' True t')
      else oob_new_connection_cb fd' True t' = Inl Assertion_failed)
    (andthen (oob_new_connection_cb fd True t) (stream_run oob_kind ops))"
proof -
  have "returns (\<lambda>t'. lossless t' \<and> fd_accepted t' = accepted_data ops)
      (andthen (oob_new_connection_cb fd True t) (stream_run oob_kind ops))"
    using oob.connection_lossless[OF assms(1-3)] assms(2) by (simp add: oob_new_connection_cb_def)
  then show ?thesis
    by (rule returns_mono) (auto simp: lossless_def live_def ended_def new_connection_again[OF assms(4)])
qed

lemma late_connection_witness:
  "\<exists>t. andthen (oob_new_connection_cb 7 True example_oob) (stream_run oob_kind example_ops) = Inr t
     \<and> returns (\<lambda>t'. bst_state t' = BYTESTREAM_STATE_OPEN) (oob_new_connection_cb 8 True t)"
proof -
  have "unconnected example_oob" "\<forall>op \<in> set example_ops. harmless op"
    by (simp_all add: unconnected_def example_oob_def example_ops_def kernel_works_def)
  note app = late_connection[OF this(1) _ this(2), of 7 8]
  have "returns (\<lambda>t. bst_state t = BYTESTREAM_STATE_CLOSED)
      (andthen (oob_new_connection_cb 7 True example_oob) (stream_run oob_kind example_ops))"
    by (simp add: stream_run_def example_oob_def example_ops_def stream_eval oob_new_connection_cb_def Let_def)
  with app show ?thesis by (auto simp: returns_iff)
qed

section \<open>The URL\<close>

lemma url_port:
  assumes "58 \<notin> set host" "port \<le> 65535"
  shows "oob_url_port (oob_make_url host port) = int port"
  using assms by (simp add: oob_url_port_def oob_make_url_def after_first_append c_str_def atoi_decimal)

lemma url_prefix: "has_prefix (oob_make_url host port) oob_url_prefix"
  by (simp add: has_prefix_def oob_make_url_def)

text \<open>
  C37. The two ends of an out-of-band bytestream find each other. The URL that the initiating side sends is
  accepted by the other side, which connects to the port that the listener of the first side has, and opens its
  bytestream, if the name of the host has no colon. For an IPv6 address written as digits this fails.
\<close>

theorem two_ends_meet:
  fixes a :: "'a oob_scheme" and b :: "'b oob_scheme"
  assumes "bst_state a = BYTESTREAM_STATE_INITIATING" "ob_host a = Some host" "ob_listener a = None"
    "58 \<notin> set host" "0 < port" "port \<le> 65535"
    and "ob_stream_id b = ob_stream_id a" "\<not> bst_has_transport b" "0 \<le> fd"
  shows "returns (\<lambda>(ok, a'). ok \<and> (\<exists>url. ob_sent a' = ob_sent a @ [Oob_open (ob_stream_id a) url]
      \<and> oob_url_port url = int port
      \<and> returns (\<lambda>b'. bst_state b' = BYTESTREAM_STATE_OPEN \<and> ob_recipient b')
          (andthen (received_stanza_cb \<lparr>iq_set = True, iq_result = False, iq_from = Some sender, iq_id = Some i,
              iq_query = Some (Some (ob_stream_id a), Some (Some url))\<rparr> b) (\<lambda>(_, b). opened_cb True True (Some fd) b))))
    (oob_initiate (Some port) i a)"
proof -
  let ?url = "oob_make_url host port"
  have conn: "returns (\<lambda>t'. bst_state t' = BYTESTREAM_STATE_OPEN \<and> ob_recipient t' \<and> ob_url t' = ob_url t)
      (andthen (set_transport None t) (\<lambda>t. andthen (ll_open_sockaddr (stream_handler oob_kind) (Some fd) t) (\<lambda>(_, t). Inr t)))"
    if "\<not> bst_has_transport t" "ob_recipient t" for t :: "'b oob_scheme"
    using that assms(9)
    by (simp add: set_transport_def fd_transport_init_def fd_set_handler_def ll_open_sockaddr_def fd_set_state_def
        stream_handler_def fd_set_fd_def add_watch_def Let_def set_bs_state_def)
  have "returns (\<lambda>b'. bst_state b' = BYTESTREAM_STATE_OPEN \<and> ob_recipient b')
      (andthen (received_stanza_cb \<lparr>iq_set = True, iq_result = False, iq_from = Some sender, iq_id = Some i,
          iq_query = Some (Some (ob_stream_id a), Some (Some ?url))\<rparr> b) (\<lambda>(_, b). opened_cb True True (Some fd) b))"
    using assms conn[of "b\<lparr>ob_recipient := True, ob_stream_open_id := Some i, ob_url := Some ?url\<rparr>"]
    by (auto simp: received_stanza_cb_def parse_oob_init_iq_def url_prefix opened_cb_def connect_to_url_def url_port
        elim!: returns_mono)
  then show ?thesis
    using assms url_port[OF assms(4,6)] by (simp add: oob_initiate_def oob_send_stanza_def Let_def)
qed

text \<open>A host \<open>h\<close>, port 5298, and the bytestream at the other end.\<close>

lemma two_ends_meet_witness:
  "\<exists>a' url. oob_initiate (Some 5298) [105] (example_oob\<lparr>ob_listener := None\<rparr>) = Inr (True, a') \<and> ob_sent a' = [Oob_open [115] url]
     \<and> returns (\<lambda>b'. bst_state b' = BYTESTREAM_STATE_OPEN)
         (andthen (received_stanza_cb \<lparr>iq_set = True, iq_result = False, iq_from = Some [97], iq_id = Some [105],
             iq_query = Some (Some [115], Some (Some url))\<rparr> (example_oob\<lparr>bst_state := BYTESTREAM_STATE_ACCEPTED\<rparr>))
           (\<lambda>(_, b). opened_cb True True (Some 7) b))"
proof -
  have "returns (\<lambda>(ok, a'). ok \<and> (\<exists>url. ob_sent a' = [] @ [Oob_open [115] url]
      \<and> oob_url_port url = int 5298
      \<and> returns (\<lambda>b'. bst_state b' = BYTESTREAM_STATE_OPEN \<and> ob_recipient b')
          (andthen (received_stanza_cb \<lparr>iq_set = True, iq_result = False, iq_from = Some [97], iq_id = Some [105],
              iq_query = Some (Some [115], Some (Some url))\<rparr> (example_oob\<lparr>bst_state := BYTESTREAM_STATE_ACCEPTED\<rparr>))
            (\<lambda>(_, b). opened_cb True True (Some 7) b))))
    (oob_initiate (Some 5298) [105] (example_oob\<lparr>ob_listener := None\<rparr>))"
    using two_ends_meet[where a = "example_oob\<lparr>ob_listener := None\<rparr>" and b = "example_oob\<lparr>bst_state := BYTESTREAM_STATE_ACCEPTED\<rparr>"
        and host = "[104]" and port = 5298 and fd = 7 and i = "[105]" and sender = "[97]"]
    by (simp add: example_oob_def)
  then show ?thesis by (auto simp: returns_iff elim!: holds_mono)
qed

section \<open>Addresses\<close>

lemma ll_open_direct:
  assumes "bst_has_transport t" "bst_callbacks t" "fd_state t = TRANSPORT_DISCONNECTED" "fd_fd t = - 1" "\<not> fd_receiving_blocked t"
    "bst_state t \<noteq> BYTESTREAM_STATE_CLOSED" "output_bytes t = []"
  shows "0 \<le> fd \<Longrightarrow> returns (\<lambda>(ret, t'). ret \<and> bst_state t' = BYTESTREAM_STATE_OPEN \<and> bst_has_transport t')
      (ll_open_sockaddr direct_handler (Some fd) t)"
    and "returns (\<lambda>(ret, t'). \<not> ret \<and> bst_state t' = BYTESTREAM_STATE_CLOSED \<and> \<not> bst_has_transport t')
      (ll_open_sockaddr direct_handler None t)"
  using assms
  by (simp_all add: ll_open_sockaddr_def fd_set_state_def direct_handler_def stream_handler_def fd_set_fd_def add_watch_def
      transport_disconnected_cb_def stream_do_close_def direct_kind_def bytestream_closed_def do_disconnect_def
      buffer_empty_iff output_bytes_def set_bs_state_def Let_def)

lemma set_transport_None:
  assumes "\<not> bst_has_transport t"
  obtains t' where "set_transport None t = Inr t'" "bst_has_transport t'" "bst_callbacks t'" "fd_state t' = TRANSPORT_DISCONNECTED"
    "fd_fd t' = - 1" "\<not> fd_receiving_blocked t'" "bst_state t' = bst_state t" "output_bytes t' = []"
  using assms by (simp add: set_transport_def fd_transport_init_def fd_set_handler_def Let_def output_bytes_def)

text \<open>
  A direct bytestream effectively tries one address. When the first address is reached, it is open; when
  there is no address, or the only one cannot be reached, it is closed and the caller is told. But when the
  first of several cannot be reached, the failure closes the bytestream, which drops its transport, and the loop
  goes on with the transport that is gone.
\<close>

theorem only_first_address:
  fixes t :: "'a direct_scheme"
  assumes "di_addresses t = Some addresses" "\<not> bst_has_transport t" "bst_state t \<noteq> BYTESTREAM_STATE_CLOSED"
    "\<forall>fd. Some fd \<in> set addresses \<longrightarrow> 0 \<le> fd"
  shows "case addresses of
      [] \<Rightarrow> returns (\<lambda>(ok, t'). \<not> ok \<and> bst_state t' = BYTESTREAM_STATE_CLOSED) (direct_initiate t)
    | Some fd # rest \<Rightarrow> returns (\<lambda>(ok, t'). ok \<and> bst_state t' = BYTESTREAM_STATE_OPEN) (direct_initiate t)
    | [None] \<Rightarrow> returns (\<lambda>(ok, t'). \<not> ok \<and> bst_state t' = BYTESTREAM_STATE_CLOSED) (direct_initiate t)
    | None # _ # _ \<Rightarrow> direct_initiate t = Inl Null_dereference"
proof (cases addresses)
  case Nil
  then show ?thesis
    using assms by (simp add: direct_initiate_def direct_close_def stream_do_close_def bytestream_closed_def direct_kind_def
        set_bs_state_def Let_def)
next
  case (Cons connected rest)
  obtain u where u: "set_transport None t = Inr u" "bst_has_transport u" "bst_callbacks u"
    "fd_state u = TRANSPORT_DISCONNECTED" "fd_fd u = - 1" "\<not> fd_receiving_blocked u" "bst_state u \<noteq> BYTESTREAM_STATE_CLOSED"
    "output_bytes u = []"
    using set_transport_None[OF assms(2)] assms(3) by metis
  have run: "direct_initiate t = try_addresses (connected # rest) u"
    using assms(1) Cons u(1) by (simp add: direct_initiate_def)
  show ?thesis
  proof (cases connected)
    case (Some fd)
    with Cons assms(4) have "0 \<le> fd" by auto
    then obtain v where "ll_open_sockaddr direct_handler (Some fd) u = Inr (True, v)" "bst_state v = BYTESTREAM_STATE_OPEN"
      using ll_open_direct(1)[OF u(2-8), of fd] by (auto simp: returns_iff)
    with Some Cons show ?thesis by (simp add: run needs_transport_def u(2))
  next
    case None
    obtain v where "ll_open_sockaddr direct_handler None u = Inr (False, v)" "bst_state v = BYTESTREAM_STATE_CLOSED"
      "\<not> bst_has_transport v"
      using ll_open_direct(2)[OF u(2-8)] by (auto simp: returns_iff)
    with None Cons show ?thesis by (cases rest) (simp_all add: run needs_transport_def u(2))
  qed
qed

text \<open>Two addresses, the first of which cannot be reached.\<close>

definition example_direct :: direct where
  "example_direct = \<lparr>fd_state = TRANSPORT_DISCONNECTED, fd_handler = False, fd_fd = - 1, fd_channel = False, fd_watch_in = 0,
     fd_watch_out = 0, fd_watch_err = 0, fd_output_buffer = None, fd_receiving_blocked = False, fd_dispose_has_run = False,
     ml_sources = [], ml_next = 1, os_replies = [], os_written = [], fd_accepted = [],
     bst_has_transport = False, bst_callbacks = False, bst_state = BYTESTREAM_STATE_LOCAL_PENDING, bst_write_blocked = False,
     bst_read_blocked = False, bst_events = [], di_addresses = Some [None, Some 7]\<rparr>"

lemma only_first_address_witness: "direct_initiate example_direct = Inl Null_dereference"
  using only_first_address[of example_direct "[None, Some 7]"] by (simp add: example_direct_def)

end
