(* ===== verification/Muc_Connection.thy ===== *)
theory Muc_Connection
  imports Node C_String
begin

text \<open>
  \<open>lib/gibber/gibber-muc-connection.c\<close>: one MUC on the multicast group. The connection owns the
  stack of the three transports (\<open>gibber-multicast-transport.c\<close> at the bottom, the causal and the
  membership transport, whose record it extends), connects them one after the other, turns the messages
  of stream 0 into stanzas and hands the other streams, which it numbers, to whoever uses them. Wocky's
  reader and writer are the record \<open>wocky\<close> of the functions the code calls; what the resolver and the
  sockets answer is an argument. Signals go to the log \<open>mu_signals\<close>; a signal handler that the code
  connects again with each attempt is counted, and the causal transport's \<open>connected\<close> handlers are
  listed by their ids, since the code disconnects one of them.
\<close>

section \<open>State\<close>

datatype muc_state = MUC_DISCONNECTED | MUC_CONNECTING | MUC_CONNECTED | MUC_DISCONNECTING

record ('r, 's) wocky =
  wk_push :: "u8 list \<Rightarrow> 'r \<Rightarrow> 'r"
  wk_failed :: "'r \<Rightarrow> bool"
  wk_reset :: "'r \<Rightarrow> 'r"
  wk_pop :: "'r \<Rightarrow> 's option \<times> 'r"
  wk_write :: "'s \<Rightarrow> u8 list"
  wk_clique :: c_string

datatype 's muc_signal =
    Muc_received_stanza "u8 list option" 's
  | Muc_received_data "u8 list option" u16 "u8 list"
  | Muc_parse_error
  | Muc_state_signal muc_state
  | Muc_new_senders "u8 list option list"
  | Muc_lost_senders "u8 list option list"

record ('r, 's) muc_connection = membership +
  mu_state :: muc_state
  mu_protocol :: c_string
  mu_address :: "c_string option"
  mu_port :: "c_string option"
  mu_reader :: 'r
  mu_streams_used :: "u16 list"
  mu_last_stream :: u16
  mu_connected_handlers :: nat \<comment> \<open>of the membership transport's \<open>connected\<close>\<close>
  mu_group_handlers :: nat \<comment> \<open>of its \<open>disconnected\<close>, \<open>new-senders\<close> and \<open>lost-senders\<close>\<close>
  mu_rmc_handlers :: "nat list" \<comment> \<open>of the causal transport's \<open>connected\<close>\<close>
  mu_rmc_handler :: nat
  mu_signals :: "'s muc_signal list"

definition muc_emit ::
    "'s muc_signal \<Rightarrow> ('r, 's, 'a) muc_connection_scheme \<Rightarrow> ('r, 's, 'a) muc_connection_scheme" where
  "muc_emit sg g = g\<lparr>mu_signals := mu_signals g @ [sg]\<rparr>"

section \<open>The multicast socket\<close>

text \<open>
  What the resolver answers: an error, after which the pointer that the code frees is whatever was on the
  stack (\<open>True\<close>: not NULL), or a number of addresses. What the system calls of
  \<open>_open_multicast\<close> return: the descriptor, whether each \<open>setsockopt\<close> in turn succeeds, and
  whether \<open>bind\<close> does.
\<close>

datatype resolver_reply = Resolver_error bool | Resolver_answers nat

datatype address_family = Family_inet | Family_inet6 | Family_other

record socket_reply =
  so_family :: address_family
  so_fd :: int
  so_options :: "bool list"
  so_bind :: bool

record network =
  nw_resolve :: "c_string \<Rightarrow> c_string \<Rightarrow> resolver_reply"
  nw_socket :: "c_string \<Rightarrow> c_string \<Rightarrow> socket_reply"

definition MAX_PACKET_SIZE :: nat where "MAX_PACKET_SIZE = 1440"

definition validate_address :: "network \<Rightarrow> c_string \<Rightarrow> c_string \<Rightarrow> bool outcome" where
  "validate_address N address port =
     (case nw_resolve N address port of
        Resolver_error dangling \<Rightarrow> if dangling then Inl Null_dereference else Inr False
      | Resolver_answers n \<Rightarrow> Inr (n = 1))"

text \<open>\<open>_open_multicast\<close>: the descriptor, or -1, and the descriptors that were closed again.\<close>

definition open_multicast :: "socket_reply \<Rightarrow> int \<times> int list" where
  "open_multicast s =
     (let fail = (- 1, if so_fd s > 0 then [so_fd s] else []);
          options = (case so_family s of Family_inet \<Rightarrow> 5 | _ \<Rightarrow> 1)
      in if so_family s = Family_other then (- 1, [])
         else if so_fd s < 0 then fail
         else if False \<in> set (take options (so_options s)) then fail
         else if \<not> so_bind s then fail
         else (so_fd s, []))"

definition multicast_connect ::
    "network \<Rightarrow> c_string \<Rightarrow> c_string \<Rightarrow> 'a causal_scheme \<Rightarrow> (bool \<times> 'a causal_scheme) outcome" where
  "multicast_connect N address port g =
     andthen (validate_address N address port) (\<lambda>valid.
     if \<not> valid \<or> fst (open_multicast (nw_socket N address port)) < 0
     then Inr (False, g\<lparr>ct_lower_connected := False\<rparr>)
     else andthen (assert_that (\<not> ct_lower_connected g)) (\<lambda>_.
          Inr (True, g\<lparr>ct_lower_connected := True\<rparr>)))"

definition multicast_disconnect :: "'a causal_scheme \<Rightarrow> 'a causal_scheme outcome" where
  "multicast_disconnect g =
     andthen (assert_that (ct_lower_connected g)) (\<lambda>_. Inr (g\<lparr>ct_lower_connected := False\<rparr>))"

text \<open>
  The result of \<open>gibber_multicast_transport_send\<close>: a datagram that \<open>sendto\<close> refuses still counts
  as sent.
\<close>

definition multicast_accepts :: "u8 list \<Rightarrow> bool" where
  "multicast_accepts raw \<longleftrightarrow> length raw \<le> MAX_PACKET_SIZE"

section \<open>Creating a connection\<close>

datatype muc_error =
    MUC_ERROR_INVALID_ADDRESS | MUC_ERROR_INVALID_PARAMETERS | MUC_ERROR_INVALID_PROTOCOL
  | MUC_ERROR_CONNECTION_FAILED

text \<open>
  The parameters are a table with the keys \<open>address\<close> and \<open>port\<close>, or NULL. An error that is set
  stays: \<open>g_set_error\<close> does not replace it.
\<close>

definition muc_connection_new ::
    "network \<Rightarrow> ('r, 's) wocky \<Rightarrow> 'r \<Rightarrow> u32 list \<Rightarrow> c_string \<Rightarrow> c_string option
     \<Rightarrow> (c_string option \<times> c_string option) option
     \<Rightarrow> (muc_error option \<times> ('r, 's) muc_connection option) outcome" where
  "muc_connection_new N W reader random name protocol parameters =
     (let err = (if protocol \<noteq> None \<and> protocol \<noteq> Some (wk_clique W)
                 then Some MUC_ERROR_INVALID_PROTOCOL else None);
          fail = (\<lambda>e. Inr (Some (case err of None \<Rightarrow> e | Some e' \<Rightarrow> e'), None));
          make = (\<lambda>address port.
            andthen (node_new name MAX_PACKET_SIZE multicast_accepts random
              \<lparr>mu_state = MUC_DISCONNECTED,
               mu_protocol = (case protocol of None \<Rightarrow> wk_clique W | Some p \<Rightarrow> p),
               mu_address = address, mu_port = port, mu_reader = reader, mu_streams_used = [0],
               mu_last_stream = 0, mu_connected_handlers = 0, mu_group_handlers = 0,
               mu_rmc_handlers = [], mu_rmc_handler = 0, mu_signals = []\<rparr>) (\<lambda>g.
            Inr (err, Some (g\<lparr>ct_lower_connected := False\<rparr>))))
      in case parameters of
           None \<Rightarrow> make None None
         | Some (Some address, Some port) \<Rightarrow>
             andthen (validate_address N address port) (\<lambda>valid.
             if valid then make (Some address) (Some port) else fail MUC_ERROR_INVALID_ADDRESS)
         | Some _ \<Rightarrow> fail MUC_ERROR_INVALID_PARAMETERS)"

section \<open>Handlers of the membership transport\<close>

definition rmtransport_connected_cb ::
    "('r, 's, 'a) muc_connection_scheme \<Rightarrow> ('r, 's, 'a) muc_connection_scheme" where
  "rmtransport_connected_cb g = muc_emit (Muc_state_signal MUC_CONNECTED) (g\<lparr>mu_state := MUC_CONNECTED\<rparr>)"

definition muc_disconnected_cb ::
    "('r, 's, 'a) muc_connection_scheme \<Rightarrow> ('r, 's, 'a) muc_connection_scheme" where
  "muc_disconnected_cb g =
     (if mu_state g = MUC_DISCONNECTED then g
      else muc_emit (Muc_state_signal MUC_DISCONNECTED) (g\<lparr>mu_state := MUC_DISCONNECTED\<rparr>))"

definition connection_received_data ::
    "('r, 's) wocky \<Rightarrow> u8 list option \<Rightarrow> u16 \<Rightarrow> u8 list
     \<Rightarrow> ('r, 's, 'a) muc_connection_scheme \<Rightarrow> ('r, 's, 'a) muc_connection_scheme outcome" where
  "connection_received_data W name stream_id data g =
     andthen (assert_that (length data > 0)) (\<lambda>_.
     if stream_id \<noteq> CAUSAL_DEFAULT_STREAM then Inr (muc_emit (Muc_received_data name stream_id data) g)
     else
       let reader = wk_push W data (mu_reader g);
           g = (if wk_failed W reader
                then muc_emit Muc_parse_error (g\<lparr>mu_reader := wk_reset W reader\<rparr>)
                else g\<lparr>mu_reader := reader\<rparr>);
           (stanza, reader) = wk_pop W (mu_reader g)
       in case stanza of
            None \<Rightarrow> Inr (g\<lparr>mu_reader := reader\<rparr>)
          | Some stanza \<Rightarrow>
              Inr (muc_emit (Muc_received_stanza name stanza) (g\<lparr>mu_reader := wk_reset W reader\<rparr>)))"

definition muc_app :: "('r, 's) wocky \<Rightarrow> ('r, 's, 'a) muc_connection_ext mt_upper" where
  "muc_app W ev g =
     (case ev of
        Mt_data name sender_id stream_id data \<Rightarrow> connection_received_data W name stream_id data g
      | New_senders names \<Rightarrow> Inr ((muc_emit (Muc_new_senders names) ^^ mu_group_handlers g) g)
      | Lost_senders names \<Rightarrow> Inr ((muc_emit (Muc_lost_senders names) ^^ mu_group_handlers g) g)
      | Mt_state_event TRANSPORT_CONNECTED \<Rightarrow>
          Inr ((rmtransport_connected_cb ^^ mu_connected_handlers g) g)
      | Mt_state_event TRANSPORT_DISCONNECTED \<Rightarrow>
          Inr ((muc_disconnected_cb ^^ mu_group_handlers g) g)
      | Mt_state_event _ \<Rightarrow> Inr g)"

section \<open>Handlers of the causal transport\<close>

text \<open>
  \<open>_rmctransport_connected_cb\<close>: connecting the membership transport returns TRUE or aborts, so its
  failure branch is dead. A handler that was disconnected by an earlier one is not called any more.
\<close>

definition rmctransport_connected_cb ::
    "('r, 's) wocky \<Rightarrow> nat \<Rightarrow> ('r, 's, 'a) muc_connection_scheme
     \<Rightarrow> ('r, 's, 'a) muc_connection_scheme outcome" where
  "rmctransport_connected_cb W i g =
     (if i \<in> set (mu_rmc_handlers g) then
        andthen (mt_connect (muc_app W) g) (\<lambda>g.
        Inr (g\<lparr>mu_rmc_handlers := remove1 (mu_rmc_handler g) (mu_rmc_handlers g)\<rparr>))
      else Inr g)"

primrec muc_up :: "('r, 's) wocky \<Rightarrow> nat \<Rightarrow> ('r, 's, 'a) muc_connection_ext mt_lower" where
  "muc_up W 0 ev g = Inl Out_of_fuel"
| "muc_up W (Suc n) ev g =
     andthen (if ev = State_event TRANSPORT_CONNECTED
              then foldo (rmctransport_connected_cb W) (mu_rmc_handlers g) g else Inr g)
       (membership_event (muc_app W) (muc_up W n) n ev)"

section \<open>Connecting\<close>

text \<open>The random numbers are the port, from 1024 to 65534, and the last part of the address, 1 to 253.\<close>

definition create_random_address ::
    "network \<Rightarrow> nat \<times> nat \<Rightarrow> ('r, 's, 'a) muc_connection_scheme
     \<Rightarrow> ('r, 's, 'a) muc_connection_scheme outcome" where
  "create_random_address N r g =
     (let port = decimal (fst r); address = c_str ''239.255.71.'' @ decimal (snd r) in
      andthen (validate_address N address port) (\<lambda>valid.
      andthen (assert_that valid) (\<lambda>_.
      Inr (g\<lparr>mu_address := Some address, mu_port := Some port\<rparr>))))"

definition connect_transports ::
    "network \<Rightarrow> ('r, 's) wocky \<Rightarrow> nat \<Rightarrow> ('r, 's, 'a) muc_connection_scheme
     \<Rightarrow> (bool \<times> ('r, 's, 'a) muc_connection_scheme) outcome" where
  "connect_transports N W n g =
     andthen (deref (mu_address g)) (\<lambda>address.
     andthen (deref (mu_port g)) (\<lambda>port.
     andthen (multicast_connect N address port g) (\<lambda>(ok, g).
     if ok then andthen (causal_connect (muc_up W n) g) (\<lambda>g. Inr (True, g)) else Inr (False, g))))"

text \<open>The \<open>do ... while (--attempts)\<close> loop.\<close>

fun connect_random ::
    "network \<Rightarrow> ('r, 's) wocky \<Rightarrow> nat \<Rightarrow> nat \<Rightarrow> (nat \<times> nat) list \<Rightarrow> ('r, 's, 'a) muc_connection_scheme
     \<Rightarrow> (bool \<times> ('r, 's, 'a) muc_connection_scheme) outcome" where
  "connect_random N W n 0 rs g = Inr (False, g)"
| "connect_random N W n (Suc k) [] g = Inl Out_of_fuel"
| "connect_random N W n (Suc k) (r # rs) g =
     andthen (create_random_address N r g) (\<lambda>g.
     andthen (connect_transports N W n g) (\<lambda>(ok, g).
     if ok then Inr (True, g) else connect_random N W n k rs g))"

definition MUC_CONNECT_ATTEMPTS :: nat where "MUC_CONNECT_ATTEMPTS = 10"

definition muc_connect ::
    "network \<Rightarrow> ('r, 's) wocky \<Rightarrow> nat \<Rightarrow> (nat \<times> nat) list \<Rightarrow> ('r, 's, 'a) muc_connection_scheme
     \<Rightarrow> (bool \<times> ('r, 's, 'a) muc_connection_scheme) outcome" where
  "muc_connect N W n random g =
     (if mu_state g \<noteq> MUC_DISCONNECTED then Inr (True, g)
      else
        let g = muc_emit (Muc_state_signal MUC_CONNECTING) (g\<lparr>mu_state := MUC_CONNECTING\<rparr>);
            g = g\<lparr>mu_connected_handlers := Suc (mu_connected_handlers g),
                  mu_rmc_handler := Suc (mu_rmc_handler g),
                  mu_rmc_handlers := mu_rmc_handlers g @ [Suc (mu_rmc_handler g)]\<rparr>
        in
        andthen (if mu_address g = None
                 then connect_random N W n MUC_CONNECT_ATTEMPTS random g
                 else connect_transports N W n g) (\<lambda>(ret, g).
        if \<not> ret then
          let g = muc_emit (Muc_state_signal MUC_DISCONNECTED) (g\<lparr>mu_state := MUC_DISCONNECTED\<rparr>)
          in andthen (if ct_lower_connected g then multicast_disconnect g else Inr g) (\<lambda>g.
             Inr (False, g))
        else Inr (True, g\<lparr>mu_group_handlers := Suc (mu_group_handlers g)\<rparr>)))"

definition muc_disconnect ::
    "('r, 's) wocky \<Rightarrow> nat \<Rightarrow> ('r, 's, 'a) muc_connection_scheme
     \<Rightarrow> ('r, 's, 'a) muc_connection_scheme outcome" where
  "muc_disconnect W n g =
     mt_disconnect (muc_app W) (muc_up W n)
       (muc_emit (Muc_state_signal MUC_DISCONNECTING) (g\<lparr>mu_state := MUC_DISCONNECTING\<rparr>))"

definition muc_get_parameters ::
    "('r, 's, 'a) muc_connection_scheme \<Rightarrow> (c_string option \<times> c_string option) outcome" where
  "muc_get_parameters g =
     andthen (assert_that (ct_lower_connected g)) (\<lambda>_. Inr (mu_address g, mu_port g))"

section \<open>Streams\<close>

definition stream_is_used :: "u16 \<Rightarrow> ('r, 's, 'a) muc_connection_scheme \<Rightarrow> bool" where
  "stream_is_used i g \<longleftrightarrow> i \<in> set (mu_streams_used g)"

definition muc_send ::
    "('r, 's) wocky \<Rightarrow> nat \<Rightarrow> 's \<Rightarrow> ('r, 's, 'a) muc_connection_scheme
     \<Rightarrow> (bool \<times> ('r, 's, 'a) muc_connection_scheme) outcome" where
  "muc_send W n stanza g = mt_do_send (muc_up W n) n (wk_write W stanza) g"

definition muc_send_raw ::
    "('r, 's) wocky \<Rightarrow> nat \<Rightarrow> u16 \<Rightarrow> u8 list \<Rightarrow> ('r, 's, 'a) muc_connection_scheme
     \<Rightarrow> (bool \<times> ('r, 's, 'a) muc_connection_scheme) outcome" where
  "muc_send_raw W n stream_id data g =
     andthen (assert_that (stream_is_used stream_id g)) (\<lambda>_.
     mt_send (muc_up W n) n stream_id data g)"

text \<open>The loop over the identifiers; the fuel stands for the number of its rounds.\<close>

primrec next_free_stream :: "nat \<Rightarrow> u16 list \<Rightarrow> u16 \<Rightarrow> u16 outcome" where
  "next_free_stream 0 used i = Inl Out_of_fuel"
| "next_free_stream (Suc k) used i =
     (if i \<in> set used then next_free_stream k used (if i = 65535 then 1 else i + 1) else Inr i)"

definition muc_new_stream ::
    "nat \<Rightarrow> ('r, 's, 'a) muc_connection_scheme \<Rightarrow> (u16 \<times> ('r, 's, 'a) muc_connection_scheme) outcome" where
  "muc_new_stream fuel g =
     (if length (mu_streams_used g) \<ge> 65535 then Inr (0, g)
      else
        andthen (next_free_stream fuel (mu_streams_used g) (mu_last_stream g + 1)) (\<lambda>i.
        Inr (i, g\<lparr>mu_last_stream := i, mu_streams_used := mu_streams_used g @ [i]\<rparr>)))"

text \<open>\<open>g_array_remove_index_fast\<close> moves the last element into the gap.\<close>

fun remove_fast :: "'b \<Rightarrow> 'b list \<Rightarrow> 'b list" where
  "remove_fast x [] = []"
| "remove_fast x (y # ys) =
     (if x \<noteq> y then y # remove_fast x ys
      else if ys = [] then [] else last ys # butlast ys)"

definition muc_free_stream ::
    "u16 \<Rightarrow> ('r, 's, 'a) muc_connection_scheme \<Rightarrow> ('r, 's, 'a) muc_connection_scheme outcome" where
  "muc_free_stream i g =
     andthen (assert_that (i \<noteq> 0)) (\<lambda>_.
     Inr (g\<lparr>mu_streams_used := remove_fast i (mu_streams_used g)\<rparr>))"

end
