(* ===== verification/Bytestream_Muc.thy ===== *)
theory Bytestream_Muc
  imports Bytestream Muc_Connection
begin

text \<open>
  The bytestreams of a MUC, \<open>lib/gibber/gibber-bytestream-muc.c\<close>: many of them share one MUC
  connection, each sends on a stream of its own, which it asks the connection for when it is first
  needed, and listens to the streams of the senders it has been told of. The operations work on the
  bytestream and on its connection. A room is the connection with all its bytestreams, open or closed.
\<close>

section \<open>State\<close>

datatype muc_stream_event =
    Muc_stream_state bytestream_state
  | Muc_stream_data c_string "u8 list"

record muc_stream =
  ms_self_id :: c_string
  ms_peer_id :: c_string
  ms_stream_id :: "c_string option"
  ms_state :: bytestream_state
  ms_multicast :: u16
  ms_senders :: "(c_string \<times> u16) list"
  ms_dispose_has_run :: bool
  ms_events :: "muc_stream_event list"

definition muc_stream_new :: "bytestream_state \<Rightarrow> c_string \<Rightarrow> c_string \<Rightarrow> muc_stream" where
  "muc_stream_new st self peer =
     \<lparr>ms_self_id = self, ms_peer_id = peer, ms_stream_id = None, ms_state = st,
      ms_multicast = 0, ms_senders = [],
      ms_dispose_has_run = False, ms_events = []\<rparr>"

definition ms_set_state :: "bytestream_state \<Rightarrow> muc_stream \<Rightarrow> muc_stream" where
  "ms_set_state st s =
     (if ms_state s \<noteq> st then s\<lparr>ms_state := st, ms_events := ms_events s @ [Muc_stream_state st]\<rparr> else s)"

section \<open>Operations\<close>

definition muc_stream_close ::
    "muc_stream \<Rightarrow> ('r, 's, 'a) muc_connection_scheme
     \<Rightarrow> (muc_stream \<times> ('r, 's, 'a) muc_connection_scheme) outcome" where
  "muc_stream_close s g =
     (if ms_state s = BYTESTREAM_STATE_CLOSED then Inr (s, g)
      else
        let s = ms_set_state BYTESTREAM_STATE_CLOSING s in
        andthen (if ms_multicast s \<noteq> 0 then muc_free_stream (ms_multicast s) g else Inr g) (\<lambda>g.
        Inr (ms_set_state BYTESTREAM_STATE_CLOSED s, g)))"

definition check_stream_id ::
    "nat \<Rightarrow> muc_stream \<Rightarrow> ('r, 's, 'a) muc_connection_scheme
     \<Rightarrow> (bool \<times> muc_stream \<times> ('r, 's, 'a) muc_connection_scheme) outcome" where
  "check_stream_id fuel s g =
     (if ms_multicast s \<noteq> 0 then Inr (True, s, g)
      else
        andthen (muc_new_stream fuel g) (\<lambda>(i, g).
        let s = s\<lparr>ms_multicast := i\<rparr> in
        if i = 0 then andthen (muc_stream_close s g) (\<lambda>(s, g). Inr (False, s, g))
        else
          andthen (assert_that (ms_stream_id s = None)) (\<lambda>_.
          Inr (True, s\<lparr>ms_stream_id := Some (decimal (unat i))\<rparr>, g))))"

text \<open>Reading the property \<open>stream-id\<close>.\<close>

definition muc_stream_get_id ::
    "nat \<Rightarrow> muc_stream \<Rightarrow> ('r, 's, 'a) muc_connection_scheme
     \<Rightarrow> (c_string option \<times> muc_stream \<times> ('r, 's, 'a) muc_connection_scheme) outcome" where
  "muc_stream_get_id fuel s g =
     andthen (check_stream_id fuel s g) (\<lambda>(_, s, g). Inr (ms_stream_id s, s, g))"

definition muc_stream_send ::
    "('r, 's) wocky \<Rightarrow> nat \<Rightarrow> nat \<Rightarrow> u8 list \<Rightarrow> muc_stream \<Rightarrow> ('r, 's, 'a) muc_connection_scheme
     \<Rightarrow> (bool \<times> muc_stream \<times> ('r, 's, 'a) muc_connection_scheme) outcome" where
  "muc_stream_send W n fuel data s g =
     andthen (check_stream_id fuel s g) (\<lambda>(ok, s, g).
     if \<not> ok then Inr (False, s, g)
     else andthen (muc_send_raw W n (ms_multicast s) data g) (\<lambda>(sent, g). Inr (sent, s, g)))"

definition muc_stream_dispose ::
    "muc_stream \<Rightarrow> ('r, 's, 'a) muc_connection_scheme
     \<Rightarrow> (muc_stream \<times> ('r, 's, 'a) muc_connection_scheme) outcome" where
  "muc_stream_dispose s g =
     (if ms_dispose_has_run s then Inr (s, g)
      else andthen (muc_stream_close (s\<lparr>ms_dispose_has_run := True\<rparr>) g) (\<lambda>(s, g).
           Inr (s\<lparr>ms_senders := []\<rparr>, g)))"

definition muc_stream_add_sender :: "c_string \<Rightarrow> u16 \<Rightarrow> muc_stream \<Rightarrow> muc_stream" where
  "muc_stream_add_sender sender i s = s\<lparr>ms_senders := AList.update sender i (ms_senders s)\<rparr>"

definition muc_stream_remove_sender :: "c_string \<Rightarrow> muc_stream \<Rightarrow> muc_stream" where
  "muc_stream_remove_sender sender s = s\<lparr>ms_senders := AList.delete sender (ms_senders s)\<rparr>"

text \<open>
  \<open>muc_connection_received_data_cb\<close>, the handler of the connection's \<open>received-data\<close>. A sender that
  is not in the table has the stream 0, and a NULL name cannot be hashed.
\<close>

definition muc_stream_received :: "c_string option \<Rightarrow> u16 \<Rightarrow> u8 list \<Rightarrow> muc_stream \<Rightarrow> muc_stream outcome" where
  "muc_stream_received sender i data s =
     andthen (deref sender) (\<lambda>sender.
     let j = (case map_of (ms_senders s) sender of None \<Rightarrow> 0 | Some j \<Rightarrow> j) in
     Inr (if j = 0 \<or> j \<noteq> i then s else s\<lparr>ms_events := ms_events s @ [Muc_stream_data sender data]\<rparr>))"

section \<open>Rooms\<close>

datatype room_operation =
    Room_new bytestream_state c_string c_string
  | Room_stream_id nat
  | Room_close nat
  | Room_dispose nat

type_synonym ('r, 's, 'a) room = "muc_stream list \<times> ('r, 's, 'a) muc_connection_scheme"

definition room_step ::
    "nat \<Rightarrow> room_operation \<Rightarrow> ('r, 's, 'a) room \<Rightarrow> ('r, 's, 'a) room outcome" where
  "room_step fuel p r =
     (let (ss, g) = r;
          on = (\<lambda>k f. if k < length ss
                      then andthen (f (ss ! k) g) (\<lambda>(s, g). Inr (ss[k := s], g)) else Inr r)
      in case p of
           Room_new st self peer \<Rightarrow> Inr (ss @ [muc_stream_new st self peer], g)
         | Room_stream_id k \<Rightarrow>
             on k (\<lambda>s g. andthen (muc_stream_get_id fuel s g) (\<lambda>(_, s, g). Inr (s, g)))
         | Room_close k \<Rightarrow> on k muc_stream_close
         | Room_dispose k \<Rightarrow> on k muc_stream_dispose)"

end
