(* ===== verification/Muc_Properties.thy ===== *)
theory Muc_Properties
  imports Bytestream_Muc
begin

text \<open>
  What the MUC connection and its bytestreams promise: streams that no two bytestreams share, a report of
  \<open>connect\<close> that fits the state, handlers that keep the contracts of the transports below; and the inputs
  on which the code aborts.
\<close>

section \<open>The next free stream\<close>

definition stream_distance :: "u16 \<Rightarrow> u16 \<Rightarrow> nat" where
  "stream_distance i j = (if i \<le> j then unat j - unat i else 65535 - unat i + unat j)"

lemma unat_u16: "unat (i :: u16) \<le> 65535"
  using unsigned_less[of i, where ?'a = nat] by simp

lemma distance_step:
  assumes "i \<noteq> j" "j \<noteq> 0"
  shows "Suc (stream_distance (if i = 65535 then 1 else i + 1) j) = stream_distance i j"
proof (cases "i = 65535")
  case True
  have "unat j \<noteq> 0" using assms(2) by (simp add: unat_eq_zero)
  moreover have "\<not> i \<le> j" "(1 :: u16) \<le> j"
    using assms True unat_u16[of j] \<open>unat j \<noteq> 0\<close> by (auto simp: word_le_nat_alt word_unat_eq_iff)
  ultimately show ?thesis using True by (simp add: stream_distance_def)
next
  case False
  then have "unat i < 65535" using unat_u16[of i] by (simp add: word_unat_eq_iff)
  then have "unat (i + 1) = Suc (unat i)" by (simp add: unat_word_ariths)
  with False assms unat_u16[of j] \<open>unat i < 65535\<close> show ?thesis
    by (auto simp: stream_distance_def word_le_nat_alt word_unat_eq_iff)
qed

lemma next_free_stream_finds:
  assumes "j \<notin> set used" "j \<noteq> 0" "stream_distance i j < k"
  shows "returns (\<lambda>x. x \<notin> set used) (next_free_stream k used i)"
  using assms(3)
proof (induction k arbitrary: i)
  case (Suc k)
  show ?case
  proof (cases "i \<in> set used")
    case True
    with assms have "Suc (stream_distance (if i = 65535 then 1 else i + 1) j) = stream_distance i j"
      by (intro distance_step) auto
    with Suc True show ?thesis by simp
  qed simp
qed simp

lemma free_stream_exists:
  assumes "distinct used" "length used < 65535"
  obtains j :: u16 where "j \<notin> set used" "j \<noteq> 0"
proof -
  have "card (UNIV - set used - {0 :: u16}) \<noteq> 0"
  proof -
    have "card (set used) < 65535" using assms by (simp add: distinct_card)
    moreover have "card (UNIV :: u16 set) = 65536" by (simp add: card_word)
    ultimately have "1 < card (UNIV - set used)" by (simp add: card_Diff_subset)
    then show ?thesis by (simp add: card_Diff_singleton_if)
  qed
  then have "UNIV - set used - {0 :: u16} \<noteq> {}" by (metis card.empty)
  then obtain j where "j \<in> UNIV - set used - {0}" by blast
  then show ?thesis by (intro that[of j]) auto
qed

definition streams_ok :: "u16 list \<Rightarrow> bool" where
  "streams_ok used \<longleftrightarrow> distinct used \<and> 0 \<in> set used"

lemma new_stream_spec:
  assumes "streams_ok (mu_streams_used g)" "65536 \<le> fuel"
  shows "returns (\<lambda>(i, g').
      if length (mu_streams_used g) < 65535
      then i \<noteq> 0 \<and> i \<notin> set (mu_streams_used g) \<and> mu_streams_used g' = mu_streams_used g @ [i]
      else i = 0 \<and> g' = g) (muc_new_stream fuel g)"
proof (cases "length (mu_streams_used g) < 65535")
  case True
  with assms obtain j where j: "j \<notin> set (mu_streams_used g)" "j \<noteq> 0"
    unfolding streams_ok_def by (elim conjE free_stream_exists)
  have "stream_distance i j < fuel" for i
    using assms(2) unat_u16[of j] unat_u16[of i] by (auto simp: stream_distance_def word_le_nat_alt)
  then have "returns (\<lambda>x. x \<notin> set (mu_streams_used g))
      (next_free_stream fuel (mu_streams_used g) (mu_last_stream g + 1))"
    by (rule next_free_stream_finds[OF j])
  then show ?thesis using True assms(1)
    by (auto simp: muc_new_stream_def streams_ok_def elim!: returns_mono)
qed (simp add: muc_new_stream_def)

lemma remove_fast_distinct:
  assumes "distinct xs"
  shows "distinct (remove_fast x xs) \<and> set (remove_fast x xs) = set xs - {x}"
  using assms
proof (induction xs)
  case (Cons y ys)
  have "set (last ys # butlast ys) = set ys \<and> distinct (last ys # butlast ys)" if "ys \<noteq> []"
    using that Cons.prems by (cases ys rule: rev_cases) auto
  with Cons show ?case by auto
qed simp

lemma remove_fast_ok:
  assumes "streams_ok used" "i \<noteq> 0"
  shows "streams_ok (remove_fast i used)" and "set (remove_fast i used) = set used - {i}"
  using remove_fast_distinct[of used i] assms by (auto simp: streams_ok_def)

section \<open>Rooms\<close>

text \<open>
  The identifiers of the open bytestreams are in use and differ, and a bytestream without an identifier has
  no name for it yet.
\<close>

definition holds_stream :: "muc_stream \<Rightarrow> bool" where
  "holds_stream s \<longleftrightarrow> ms_state s \<noteq> BYTESTREAM_STATE_CLOSED \<and> ms_multicast s \<noteq> 0"

definition named_ok :: "muc_stream \<Rightarrow> bool" where
  "named_ok s \<longleftrightarrow> ms_multicast s = 0 \<longrightarrow> ms_stream_id s = None"

definition room_ok :: "('r, 's, 'a) room \<Rightarrow> bool" where
  "room_ok r \<longleftrightarrow>
     streams_ok (mu_streams_used (snd r)) \<and> (\<forall>s \<in> set (fst r). named_ok s)
     \<and> (\<forall>s \<in> set (fst r). holds_stream s \<longrightarrow> ms_multicast s \<in> set (mu_streams_used (snd r)))
     \<and> sorted_wrt (\<lambda>s t. holds_stream s \<longrightarrow> holds_stream t \<longrightarrow> ms_multicast s \<noteq> ms_multicast t) (fst r)"

text \<open>What an operation may do to the bytestream \<open>s\<close>, so that the room stays well formed.\<close>

definition stream_moves :: "u16 list \<Rightarrow> muc_stream \<Rightarrow> muc_stream \<Rightarrow> u16 list \<Rightarrow> bool" where
  "stream_moves used s s' used' \<longleftrightarrow>
     streams_ok used' \<and> named_ok s'
     \<and> (holds_stream s' \<longrightarrow> ms_multicast s' \<in> set used'
          \<and> (if holds_stream s then ms_multicast s' = ms_multicast s else ms_multicast s' \<notin> set used))
     \<and> (\<forall>i \<in> set used. (holds_stream s \<longrightarrow> i \<noteq> ms_multicast s) \<longrightarrow> i \<in> set used')"

lemma moves_ok:
  assumes "room_ok (ss @ s # ts, g)" "stream_moves (mu_streams_used g) s s' (mu_streams_used g')"
  shows "room_ok (ss @ s' # ts, g')"
proof -
  have others: "ms_multicast t \<in> set (mu_streams_used g') \<and> (holds_stream s' \<longrightarrow> ms_multicast t \<noteq> ms_multicast s')"
    if "t \<in> set ss \<union> set ts" "holds_stream t" for t
  proof -
    have t: "ms_multicast t \<in> set (mu_streams_used g)" "holds_stream s \<Longrightarrow> ms_multicast t \<noteq> ms_multicast s"
      using assms(1) that by (auto simp: room_ok_def sorted_wrt_append)
    with assms(2) show ?thesis by (cases "holds_stream s") (auto simp: stream_moves_def)
  qed
  then have "\<forall>t \<in> set ss \<union> set ts. holds_stream t \<longrightarrow> ms_multicast t \<in> set (mu_streams_used g')
      \<and> (holds_stream s' \<longrightarrow> ms_multicast t \<noteq> ms_multicast s' \<and> ms_multicast s' \<noteq> ms_multicast t)" by metis
  then show ?thesis using assms
    unfolding room_ok_def stream_moves_def by (simp add: sorted_wrt_append ball_Un)
qed

lemma ms_set_state_fields [simp]:
  "ms_multicast (ms_set_state st s) = ms_multicast s" "ms_stream_id (ms_set_state st s) = ms_stream_id s"
  "ms_state (ms_set_state st s) = st"
  by (simp_all add: ms_set_state_def)

text \<open>A bytestream of a well-formed room.\<close>

definition fits :: "u16 list \<Rightarrow> muc_stream \<Rightarrow> bool" where
  "fits used s \<longleftrightarrow> streams_ok used \<and> named_ok s \<and> (holds_stream s \<longrightarrow> ms_multicast s \<in> set used)"

lemma stay_moves: "fits used s \<Longrightarrow> stream_moves used s s used"
  by (simp add: fits_def stream_moves_def)

lemma closed_moves:
  assumes "fits used s" "ms_state s' = BYTESTREAM_STATE_CLOSED"
    "ms_multicast s' = ms_multicast s" "ms_stream_id s' = ms_stream_id s"
    "used' = (if holds_stream s then remove_fast (ms_multicast s) used else used)"
  shows "stream_moves used s s' used'"
  using assms remove_fast_ok[of used "ms_multicast s"]
  by (simp add: stream_moves_def fits_def named_ok_def holds_stream_def)

lemma close_moves:
  assumes "fits (mu_streams_used g) s"
  shows "returns (\<lambda>(s', g'). stream_moves (mu_streams_used g) s s' (mu_streams_used g')) (muc_stream_close s g)"
  unfolding muc_stream_close_def muc_free_stream_def Let_def
  by (auto intro!: closed_moves[OF assms] simp: holds_stream_def stay_moves[OF assms])

lemma dispose_moves:
  assumes "fits (mu_streams_used g) s"
  shows "returns (\<lambda>(s', g'). stream_moves (mu_streams_used g) s s' (mu_streams_used g')) (muc_stream_dispose s g)"
  unfolding muc_stream_dispose_def muc_stream_close_def muc_free_stream_def Let_def
  by (auto intro!: closed_moves[OF assms] simp: holds_stream_def stay_moves[OF assms])

lemma get_id_moves:
  assumes "fits (mu_streams_used g) s" "65536 \<le> fuel"
  shows "returns (\<lambda>(i, s', g'). stream_moves (mu_streams_used g) s s' (mu_streams_used g'))
    (muc_stream_get_id fuel s g)"
proof (cases "ms_multicast s = 0")
  case True
  then have s: "ms_stream_id s = None" "s\<lparr>ms_multicast := 0\<rparr> = s"
    using assms(1) by (simp_all add: fits_def named_ok_def)
  have used: "streams_ok (mu_streams_used g)" using assms(1) by (simp add: fits_def)
  from new_stream_spec[OF used assms(2)] obtain i g' where new: "muc_new_stream fuel g = Inr (i, g')"
    "if length (mu_streams_used g) < 65535
     then i \<noteq> 0 \<and> i \<notin> set (mu_streams_used g) \<and> mu_streams_used g' = mu_streams_used g @ [i]
     else i = 0 \<and> g' = g"
    by (auto simp: returns_iff)
  show ?thesis
  proof (cases "i = 0")
    case True
    with new have g: "muc_new_stream fuel g = Inr (0, g)" by (simp split: if_splits)
    have "muc_stream_get_id fuel s g = andthen (muc_stream_close s g) (\<lambda>x. Inr (ms_stream_id (fst x), fst x, snd x))"
      using \<open>ms_multicast s = 0\<close> unfolding muc_stream_get_id_def check_stream_id_def g
      by (simp only: andthen_simps prod.case Let_def s simp_thms if_True if_False andthen_assoc split_beta fst_conv snd_conv)
    with close_moves[OF assms(1)] show ?thesis by (simp add: case_prod_unfold)
  next
    case False
    with new have "i \<notin> set (mu_streams_used g)" "mu_streams_used g' = mu_streams_used g @ [i]"
      by (simp_all split: if_splits)
    with False new(1) s True used show ?thesis
      by (simp add: muc_stream_get_id_def check_stream_id_def stream_moves_def streams_ok_def named_ok_def
          holds_stream_def)
  qed
qed (use stay_moves[OF assms(1)] in \<open>simp add: muc_stream_get_id_def check_stream_id_def\<close>)

lemma room_step_ok:
  assumes "room_ok r" "65536 \<le> fuel"
  shows "returns room_ok (room_step fuel p r)"
proof -
  obtain ss g where r: "r = (ss, g)" by (cases r)
  have at: "returns room_ok (andthen (f (ss ! k) g) (\<lambda>(s, g). Inr (ss[k := s], g)))"
    if k: "k < length ss" and f: "returns (\<lambda>(s', g'). stream_moves (mu_streams_used g) (ss ! k) s' (mu_streams_used g')) (f (ss ! k) g)"
    for k and f :: "muc_stream \<Rightarrow> ('a, 'b, 'c) muc_connection_scheme \<Rightarrow> (muc_stream \<times> ('a, 'b, 'c) muc_connection_scheme) outcome"
  proof -
    have "ss = take k ss @ ss ! k # drop (Suc k) ss" using k by (rule id_take_nth_drop)
    with assms(1) r have "room_ok (take k ss @ ss ! k # drop (Suc k) ss, g)" by simp
    note moves_ok[OF this]
    with f k show ?thesis by (auto simp: upd_conv_take_nth_drop elim!: returns_mono)
  qed
  have fits: "fits (mu_streams_used g) (ss ! k)" if "k < length ss" for k
    using assms(1) that by (auto simp: room_ok_def r fits_def)
  have id: "returns (\<lambda>(s', g'). stream_moves (mu_streams_used g) (ss ! k) s' (mu_streams_used g'))
      (andthen (muc_stream_get_id fuel (ss ! k) g) (\<lambda>(_, s, g). Inr (s, g)))" if "k < length ss" for k
    using get_id_moves[OF fits[OF that] assms(2)] by (auto simp: split_beta elim!: returns_mono)
  show ?thesis
  proof (cases p)
    case (Room_new st self peer)
    with assms(1) show ?thesis
      by (auto simp: r room_step_def room_ok_def muc_stream_new_def named_ok_def holds_stream_def sorted_wrt_append)
  next
    case (Room_stream_id k)
    then show ?thesis using assms(1) at[of k "\<lambda>s g. andthen (muc_stream_get_id fuel s g) (\<lambda>(_, s, g). Inr (s, g))"] id
      unfolding room_step_def r by (simp del: returns_simps(3))
  next
    case (Room_close k)
    then show ?thesis using assms(1) at[of k muc_stream_close] close_moves[OF fits]
      unfolding room_step_def r by (simp del: returns_simps(3))
  next
    case (Room_dispose k)
    then show ?thesis using assms(1) at[of k muc_stream_dispose] dispose_moves[OF fits]
      unfolding room_step_def r by (simp del: returns_simps(3))
  qed
qed

section \<open>A new connection\<close>

lemma muc_connection_new_streams:
  assumes "muc_connection_new N W reader random name protocol parameters = Inr (err, Some g)"
  shows "mu_streams_used g = [0]"
proof -
  have "holds (\<lambda>(err, r). \<forall>g. r = Some g \<longrightarrow> mu_streams_used g = [0])
      (muc_connection_new N W reader random name protocol parameters)"
    unfolding muc_connection_new_def node_new_def Let_def
    by (auto simp: holds_iff andthen_eq_Inr split: option.splits list.splits if_splits)
  with assms show ?thesis by simp
qed

definition example_wocky :: "(unit, unit) wocky" where
  "example_wocky = \<lparr>wk_push = \<lambda>_ r. r, wk_failed = \<lambda>_. False, wk_reset = \<lambda>r. r, wk_pop = \<lambda>r. (None, r),
     wk_write = \<lambda>_. [60], wk_clique = [99]\<rparr>"

definition example_network :: network where
  "example_network = \<lparr>nw_resolve = \<lambda>_ _. Resolver_answers 1,
     nw_socket = \<lambda>_ _. \<lparr>so_family = Family_inet, so_fd = 5, so_options = [], so_bind = True\<rparr>\<rparr>"

lemmas muc_example_simps = muc_connection_new_def node_new_def example_wocky_def example_network_def

lemma room_steps_ok: "room_ok r \<Longrightarrow> 65536 \<le> fuel \<Longrightarrow> returns room_ok (foldo (room_step fuel) ps r)"
  by (rule foldo_returns) (auto intro: room_step_ok)

text \<open>
  C38. The bytestreams of a room never mix: whatever bytestreams are created on a new MUC connection, asked for
  their stream, closed and disposed of, in any order, every operation returns (the search for a free stream
  ends, no assertion fails), two open bytestreams never have the same stream, and the stream of an open
  bytestream is in use on the connection, so that sending on it is allowed.
\<close>

theorem streams_are_private:
  assumes "muc_connection_new N W reader random name protocol parameters = Inr (err, Some g)"
    "65536 \<le> fuel"
  shows "returns (\<lambda>(ss, g').
      (\<forall>j k. j < length ss \<longrightarrow> k < length ss \<longrightarrow> j \<noteq> k \<longrightarrow> holds_stream (ss ! j) \<longrightarrow> holds_stream (ss ! k)
         \<longrightarrow> ms_multicast (ss ! j) \<noteq> ms_multicast (ss ! k))
      \<and> (\<forall>s \<in> set ss. holds_stream s \<longrightarrow> stream_is_used (ms_multicast s) g'))
    (foldo (room_step fuel) ps ([], g))"
proof -
  have "room_ok ([], g)"
    using muc_connection_new_streams[OF assms(1)] by (simp add: room_ok_def streams_ok_def)
  from room_steps_ok[OF this assms(2)] show ?thesis
  proof (rule returns_mono)
    fix r :: "('a, 'b, unit) room"
    assume "room_ok r"
    then show "case r of (ss, g') \<Rightarrow>
        (\<forall>j k. j < length ss \<longrightarrow> k < length ss \<longrightarrow> j \<noteq> k \<longrightarrow> holds_stream (ss ! j) \<longrightarrow> holds_stream (ss ! k)
           \<longrightarrow> ms_multicast (ss ! j) \<noteq> ms_multicast (ss ! k))
        \<and> (\<forall>s \<in> set ss. holds_stream s \<longrightarrow> stream_is_used (ms_multicast s) g')"
      by (auto simp: room_ok_def stream_is_used_def sorted_wrt_iff_nth_less neq_iff) metis+
  qed
qed

lemma streams_are_private_witness:
  "\<exists>g. muc_connection_new example_network example_wocky () [1] [97] None None = Inr (None, Some g)
    \<and> returns (\<lambda>(ss, g'). \<forall>s \<in> set ss. holds_stream s \<longrightarrow> stream_is_used (ms_multicast s) g')
       (foldo (room_step 65536)
          [Room_new BYTESTREAM_STATE_OPEN [97] [98], Room_stream_id 0, Room_close 0, Room_stream_id 0] ([], g))"
proof -
  obtain g where g: "muc_connection_new example_network example_wocky () [1] [97] None None = Inr (None, Some g)"
    by (simp add: muc_example_simps)
  have "returns (\<lambda>(ss, g'). \<forall>s \<in> set ss. holds_stream s \<longrightarrow> stream_is_used (ms_multicast s) g')
     (foldo (room_step 65536) ps ([], g))" for ps
    by (rule returns_mono[OF streams_are_private[OF g order_refl]]) auto
  with g show ?thesis by blast
qed

section \<open>The handlers of a MUC connection\<close>

text \<open>The connection keeps the contracts of the transports below, so the invariants of its node hold.\<close>

lemma same_funpow:
  assumes "\<And>g. keeps g (f g)"
  shows "keeps g ((f ^^ n) g)"
  by (induction n) (auto intro: keeps_trans assms)

lemma muc_app_keeps: "holds (keeps g) (muc_app W ev g)"
proof -
  have emit: "keeps g (muc_emit sg g)" for sg and g :: "('a, 'b, 'c) muc_connection_scheme"
    by (simp add: muc_emit_def)
  have "keeps g (rmtransport_connected_cb g)" "keeps g (muc_disconnected_cb g)"
    for g :: "('a, 'b, 'c) muc_connection_scheme"
    by (simp_all add: rmtransport_connected_cb_def muc_disconnected_cb_def muc_emit_def)
  then show ?thesis
    by (auto simp: muc_app_def connection_received_data_def muc_emit_def Let_def intro: same_funpow emit
        split: mt_event.split transport_state.split option.split prod.split)
qed

lemma muc_up_keeps: "holds (keeps g) (muc_up W n ev (g :: ('r, 's, 'a) muc_connection_scheme))"
proof (induction n arbitrary: ev g)
  case (Suc n)
  have m: "evolving_member (muc_up W n) (muc_app W :: ('r, 's, 'a) muc_connection_ext mt_upper)"
    by (intro evolving_member.intro evolving_upper.intro evolving_member_axioms.intro Suc.IH muc_app_keeps)
  have "holds (keeps g) (rmctransport_connected_cb W i g)" for i and g :: "('r, 's, 'a) muc_connection_scheme"
    unfolding rmctransport_connected_cb_def
    by (auto simp del: holds_simps(3) intro!: state_steps evolving_member.mt_connect_keeps[OF m])
  then show ?case
    by (auto simp del: holds_simps(3) intro!: state_steps keeps_foldo evolving_member.event_keeps[OF m])
qed simp

interpretation muc: evolving_member "muc_up W n" "muc_app W" for W n
  by unfold_locales (rule muc_up_keeps muc_app_keeps)+

section \<open>Connecting\<close>

text \<open>
  After \<open>connect\<close> the connection is on its way, with a multicast socket and the causal transport joining, or
  it is disconnected and the socket is closed.
\<close>

lemma causal_connect_muc:
  "holds (\<lambda>g'. ct_state g' = TRANSPORT_CONNECTING \<and> ct_lower_connected g' = ct_lower_connected g
      \<and> mu_state g' = mu_state g) (causal_connect (muc_up W (Suc n)) g)"
  by (auto simp: causal_connect_def start_joining_def transport_set_state_def membership_event_def holds_iff
      andthen_eq_Inr split: if_splits)

definition connecting :: "bool \<Rightarrow> ('r, 's, 'a) muc_connection_scheme \<Rightarrow> bool" where
  "connecting ok g \<longleftrightarrow> mu_state g = MUC_CONNECTING \<and> ct_lower_connected g = ok
     \<and> (ok \<longrightarrow> ct_state g = TRANSPORT_CONNECTING)"

lemma connect_transports_spec:
  assumes "mu_state g = MUC_CONNECTING"
  shows "holds (\<lambda>(ok, g'). connecting ok g') (connect_transports N W (Suc n) g)"
proof (rule holdsI)
  fix x assume run: "connect_transports N W (Suc n) g = Inr x"
  obtain ok g' where x: "x = (ok, g')" by (cases x)
  from run obtain addr port ok1 g1 where m: "multicast_connect N addr port g = Inr (ok1, g1)"
    "(if ok1 then andthen (causal_connect (muc_up W (Suc n)) g1) (\<lambda>g. Inr (True, g)) else Inr (False, g1)) = Inr (ok, g')"
    by (auto simp: connect_transports_def x andthen_eq_Inr)
  then have g1: "mu_state g1 = MUC_CONNECTING" "ct_lower_connected g1 = ok1"
    using assms by (auto simp: multicast_connect_def andthen_eq_Inr split: if_splits)
  show "case x of (ok, g') \<Rightarrow> connecting ok g'"
  proof (cases ok1)
    case True
    with m obtain g2 where "causal_connect (muc_up W (Suc n)) g1 = Inr g2" "ok" "g' = g2"
      by (auto simp: andthen_eq_Inr)
    with holdsD[OF causal_connect_muc] g1 True show ?thesis
      by (fastforce simp: x connecting_def)
  qed (use m g1 in \<open>auto simp: x connecting_def\<close>)
qed

lemma connect_random_spec:
  assumes "mu_state g = MUC_CONNECTING" "\<not> ct_lower_connected g"
  shows "holds (\<lambda>(ok, g'). connecting ok g') (connect_random N W (Suc n) k rs g)"
  using assms
proof (induction N W "Suc n" k rs g rule: connect_random.induct)
  case (3 N W k r rs g)
  show ?case
  proof (rule holdsI)
    fix x assume run: "connect_random N W (Suc n) (Suc k) (r # rs) g = Inr x"
    from run obtain g1 ok g2 where steps: "create_random_address N r g = Inr g1"
      "connect_transports N W (Suc n) g1 = Inr (ok, g2)"
      "(if ok then Inr (True, g2) else connect_random N W (Suc n) k rs g2) = Inr x"
      by (auto simp: andthen_eq_Inr)
    have "mu_state g1 = MUC_CONNECTING"
      using 3(2) steps(1) by (auto simp: create_random_address_def andthen_eq_Inr Let_def)
    from holdsD[OF connect_transports_spec[OF this] steps(2)] have g2: "connecting ok g2" by simp
    show "case x of (ok, g') \<Rightarrow> connecting ok g'"
    proof (cases ok)
      case False
      with g2 have "mu_state g2 = MUC_CONNECTING" "\<not> ct_lower_connected g2" by (simp_all add: connecting_def)
      with 3(1)[OF steps(1,2) HOL.refl False] steps(3) False show ?thesis by (auto dest: holdsD)
    qed (use g2 steps(3) in auto)
  qed
qed (simp_all add: connecting_def)

lemma muc_connect_reports:
  assumes "mu_state g = MUC_DISCONNECTED" "\<not> ct_lower_connected g"
  shows "holds (\<lambda>(ok, g'). ct_lower_connected g' = ok
      \<and> (if ok then mu_state g' = MUC_CONNECTING \<and> ct_state g' = TRANSPORT_CONNECTING
         else mu_state g' = MUC_DISCONNECTED)) (muc_connect N W (Suc n) random g)"
proof -
  define g1 where "g1 = (muc_emit (Muc_state_signal MUC_CONNECTING) (g\<lparr>mu_state := MUC_CONNECTING\<rparr>))
      \<lparr>mu_connected_handlers := Suc (mu_connected_handlers g), mu_rmc_handler := Suc (mu_rmc_handler g),
       mu_rmc_handlers := mu_rmc_handlers g @ [Suc (mu_rmc_handler g)]\<rparr>"
  define m where "m = (if mu_address g1 = None
      then connect_random N W (Suc n) MUC_CONNECT_ATTEMPTS random g1 else connect_transports N W (Suc n) g1)"
  have "mu_state g1 = MUC_CONNECTING" "\<not> ct_lower_connected g1"
    using assms by (simp_all add: g1_def muc_emit_def)
  then have m: "holds (\<lambda>(ok, g'). connecting ok g') m"
    by (simp add: m_def connect_random_spec connect_transports_spec)
  have run: "muc_connect N W (Suc n) random g = andthen m (\<lambda>(ret, g).
      if \<not> ret then
        let g = muc_emit (Muc_state_signal MUC_DISCONNECTED) (g\<lparr>mu_state := MUC_DISCONNECTED\<rparr>)
        in andthen (if ct_lower_connected g then multicast_disconnect g else Inr g) (\<lambda>g. Inr (False, g))
      else Inr (True, g\<lparr>mu_group_handlers := Suc (mu_group_handlers g)\<rparr>))"
    using assms(1) by (simp add: muc_connect_def m_def g1_def muc_emit_def Let_def)
  show ?thesis unfolding run holds_simps(3)
    by (rule holds_mono[OF m]) (auto simp: connecting_def muc_emit_def Let_def)
qed

section \<open>Faults\<close>

text \<open>
  \<open>disconnect\<close> of a connection that is not connected runs into the assertion of the multicast transport, since
  the causal transport closes the socket below it in any case.
\<close>

lemma disconnect_when_disconnected_aborts:
  assumes "ct_state g = TRANSPORT_DISCONNECTED" "\<not> ct_lower_connected g"
  shows "muc_disconnect W n g = Inl Assertion_failed"
  using assms
  by (simp add: muc_disconnect_def mt_disconnect_def Let_def muc_emit_def mt_set_transport_state_def muc_app_def
      flush_state_def causal_disconnect_def causal_disconnect_done_def)

text \<open>
  A closed bytestream keeps the number of its stream, which it has given back: sending on it aborts, or goes
  out on the stream of the bytestream that got the number since.
\<close>

lemma send_after_close:
  assumes "ms_multicast s \<noteq> 0"
  shows "muc_stream_send W n fuel data s g =
    (if stream_is_used (ms_multicast s) g
     then andthen (mt_send (muc_up W n) n (ms_multicast s) data g) (\<lambda>(sent, g). Inr (sent, s, g))
     else Inl Assertion_failed)"
  using assms by (simp add: muc_stream_send_def check_stream_id_def muc_send_raw_def)

text \<open>
  C39. An empty message from a member of the group aborts the process: a complete data packet whose total
  size is zero is well formed, the sender object hands it on as a message without bytes, and the MUC
  connection asserts that a message has at least one.
\<close>

theorem empty_message_aborts:
  assumes "g_store g a = Some s" "ct_self g \<noteq> Some a" "update_next_data_output_state s = Inr t"
    and "lookup_member (s_id t) g = Some m" "mi_state m = MEMBER_STATE_MEMBER"
    and "pkt_data p = Data flags 0 stream_id []"
  shows "output_single (causal_handler (muc_up W (Suc n))) a info p g = Inl Assertion_failed"
proof -
  have t: "s_id t = s_id s" using assms(3) by (auto simp: update_next_data_output_state_def andthen_eq_Inr)
  let ?t = "t\<lparr>s_state := max STATE_DATA_RUNNING (s_state t)\<rparr>"
  let ?g = "put_sender a ?t (put_sender a t g)"
  have "member_get_state (s_id t) ?g = MEMBER_STATE_MEMBER"
    using assms(4,5) t by (simp add: member_get_state_def lookup_member_def put_sender_def)
  then have "causal_handler (muc_up W (Suc n)) a (Received_data_signal stream_id []) ?g = Inl Assertion_failed"
    using assms(2) by (simp add: causal_handler_def get_sender_def membership_event_def received_data_def
        muc_app_def connection_received_data_def put_sender_def)
  moreover have "\<not> STATE_DATA_RUNNING \<le> s_state t \<Longrightarrow> s_state t \<le> STATE_DATA_RUNNING" by simp
  ultimately show ?thesis using assms(1,3,6)
    by (cases "STATE_DATA_RUNNING \<le> s_state t")
       (simp_all add: output_single_def packet_get_payload_def data_fields_def upd_sender_def
         get_sender_def signal_data_def set_state_def max_def)
qed

text \<open>A room with the members 5, which is the node itself, and 7, whose packet 0 is at hand.\<close>

definition example_room :: "(unit, unit) muc_connection outcome" where
  "example_room =
     andthen (muc_connection_new example_network example_wocky () [1] [97] None None) (\<lambda>(_, r).
     andthen (deref r) (\<lambda>g.
     let (a, g) = sender_new 5 (Some [97]) g; (b, g) = sender_new 7 (Some [98]) g
     in andthen (upd_sender b (\<lambda>s. Inr (s\<lparr>next_output_packet := 1\<rparr>)) (g\<lparr>ct_self := Some a\<rparr>)) (\<lambda>g.
        Inr (put_member 7 ((new_member_info 7)\<lparr>mi_state := MEMBER_STATE_MEMBER\<rparr>) g))))"

definition empty_message :: packet where
  "empty_message = (packet_new PACKET_TYPE_DATA 7 1440)\<lparr>pkt_data := Data 3 0 0 []\<rparr>"

definition example_info :: packet_info where
  "example_info = \<lparr>pi_packet_id = 0, pi_timeout = None, pi_repeating = False,
     pi_packet = Some empty_message, pi_acked = False, pi_popped = False\<rparr>"

lemma empty_message_aborts_witness:
  "\<exists>g. example_room = Inr g
     \<and> output_single (causal_handler (muc_up example_wocky 1)) 1 example_info empty_message g
       = Inl Assertion_failed"
proof -
  define s where "s = (schedule_progress_timer (sender_init 7 (Some [98])))\<lparr>next_output_packet := 1\<rparr>"
  obtain g where g: "example_room = Inr g" "ct_self g = Some 0" "g_store g 1 = Some s"
    "lookup_member 7 g = Some ((new_member_info 7)\<lparr>mi_state := MEMBER_STATE_MEMBER\<rparr>)"
    by (simp add: example_room_def muc_example_simps sender_new_def Let_def put_member_def lookup_member_def
        put_sender_def upd_sender_def get_sender_def s_def)
  have s: "s_id s = 7" "next_output_data_packet s = 0" "next_output_packet s = 1"
    by (simp_all add: s_def schedule_progress_timer_def sender_init_def)
  then have "update_next_data_output_state s = Inr (s\<lparr>next_output_data_packet := 1\<rparr>)"
    by (simp add: update_next_data_output_state_def seq_range_def)
  with g s have "output_single (causal_handler (muc_up example_wocky (Suc 0))) 1 example_info empty_message g
      = Inl Assertion_failed"
    by (intro empty_message_aborts[where t = "s\<lparr>next_output_data_packet := 1\<rparr>" and flags = 3 and stream_id = 0
          and m = "(new_member_info 7)\<lparr>mi_state := MEMBER_STATE_MEMBER\<rparr>"])
       (simp_all add: empty_message_def)
  with g(1) show ?thesis by auto
qed

end
