(* ===== verification/Connectors.thy ===== *)
theory Connectors
  imports Fd_Transport C_String
begin

text \<open>
  The ways to a connected descriptor: \<open>gibber-tcp-transport.c\<close> tries the addresses of a host one after
  the other without blocking, \<open>gibber-unix-transport.c\<close> connects to a socket in the file system at once
  and can ask for the credentials of the peer, and \<open>gibber-listener.c\<close> opens a listening socket for each
  address family and hands on what it accepts. The kernel's answers are arguments. \<open>gibber_normalize_address\<close>
  (\<open>gibber-util.c\<close>) works on the parts of a socket address.
\<close>

section \<open>TCP\<close>

text \<open>
  A candidate is what \<open>socket\<close> returns for one address of the host and what the first \<open>connect\<close> says; the
  answer to a later attempt, when the descriptor has become ready, is an input.
\<close>

datatype connect_reply = Connect_ok | Connect_later | Connect_fails

record tcp_transport = fd_transport +
  tcp_addresses :: "(int \<times> connect_reply) list option" \<comment> \<open>\<open>ans\<close>, from \<open>tmpaddr\<close> on\<close>
  tcp_channel :: "int option"
  tcp_watch :: bool

definition clean_connect_attempt :: "'a tcp_transport_scheme \<Rightarrow> 'a tcp_transport_scheme" where
  "clean_connect_attempt t = t\<lparr>tcp_watch := False, tcp_channel := None\<rparr>"

definition clean_all_connect_attempts :: "'a tcp_transport_scheme \<Rightarrow> 'a tcp_transport_scheme" where
  "clean_all_connect_attempts t = (clean_connect_attempt t)\<lparr>tcp_addresses := None\<rparr>"

definition tcp_failed ::
    "'a tcp_transport_ext transport_user \<Rightarrow> 'a tcp_transport_scheme \<Rightarrow> 'a tcp_transport_scheme outcome" where
  "tcp_failed H t = fd_set_state H TRANSPORT_DISCONNECTED (clean_all_connect_attempts t)"

definition tcp_connected ::
    "'a tcp_transport_ext transport_user \<Rightarrow> int \<Rightarrow> 'a tcp_transport_scheme \<Rightarrow> 'a tcp_transport_scheme outcome" where
  "tcp_connected H fd t = fd_set_fd H fd (clean_all_connect_attempts t)"

text \<open>\<open>new_connect_attempt\<close>, with the first \<open>try_to_connect\<close> on the new channel.\<close>

fun new_connect_attempt ::
    "'a tcp_transport_ext transport_user \<Rightarrow> (int \<times> connect_reply) list \<Rightarrow> 'a tcp_transport_scheme
     \<Rightarrow> 'a tcp_transport_scheme outcome" where
  "new_connect_attempt H [] t = tcp_failed H (t\<lparr>tcp_addresses := Some []\<rparr>)"
| "new_connect_attempt H ((fd, reply) # rest) t =
     (let t = t\<lparr>tcp_addresses := Some ((fd, reply) # rest)\<rparr> in
      if fd < 0 then tcp_failed H t
      else
        let t = t\<lparr>tcp_channel := Some fd, tcp_watch := True\<rparr> in
        case reply of
          Connect_ok \<Rightarrow> tcp_connected H fd t
        | Connect_later \<Rightarrow> Inr t
        | Connect_fails \<Rightarrow> new_connect_attempt H rest (clean_connect_attempt t))"

text \<open>The callback of the watch: the result says whether the watch stays.\<close>

definition try_to_connect ::
    "'a tcp_transport_ext transport_user \<Rightarrow> connect_reply \<Rightarrow> 'a tcp_transport_scheme
     \<Rightarrow> (bool \<times> 'a tcp_transport_scheme) outcome" where
  "try_to_connect H reply t =
     (case tcp_channel t of
        None \<Rightarrow> Inl Assertion_failed
      | Some fd \<Rightarrow>
          (case reply of
             Connect_ok \<Rightarrow> andthen (tcp_connected H fd t) (\<lambda>t. Inr (False, t))
           | Connect_later \<Rightarrow> Inr (True, t)
           | Connect_fails \<Rightarrow>
               andthen (deref (tcp_addresses t)) (\<lambda>as.
               andthen (new_connect_attempt H (tl as) (clean_connect_attempt t)) (\<lambda>t. Inr (False, t)))))"

text \<open>\<open>resolved\<close>: the addresses from \<open>getaddrinfo\<close>, or its failure.\<close>

definition tcp_connect ::
    "'a tcp_transport_ext transport_user \<Rightarrow> (int \<times> connect_reply) list option \<Rightarrow> 'a tcp_transport_scheme
     \<Rightarrow> 'a tcp_transport_scheme outcome" where
  "tcp_connect H resolved t =
     andthen (fd_set_state H TRANSPORT_CONNECTING t) (\<lambda>t.
     andthen (assert_that (tcp_addresses t = None \<and> tcp_channel t = None)) (\<lambda>_.
     case resolved of
       None \<Rightarrow> fd_set_state H TRANSPORT_DISCONNECTED t
     | Some as \<Rightarrow> new_connect_attempt H as t))"

section \<open>UNIX sockets\<close>

text \<open>
  \<open>connected\<close> is the descriptor that \<open>socket\<close> and \<open>connect\<close> give, if they succeed, and
  \<open>report\<close> says whether the caller passes a place for the error.
\<close>

definition unix_connect ::
    "'a transport_user \<Rightarrow> bool \<Rightarrow> int option \<Rightarrow> 'a fd_transport_scheme \<Rightarrow> (bool \<times> 'a fd_transport_scheme) outcome" where
  "unix_connect H report connected t =
     andthen (fd_set_state H TRANSPORT_CONNECTING t) (\<lambda>t.
     case connected of
       Some fd \<Rightarrow> andthen (fd_set_fd H fd t) (\<lambda>t. Inr (True, t))
     | None \<Rightarrow>
         andthen (assert_that report) (\<lambda>_.
         andthen (H Error_signal t) (\<lambda>t.
         andthen (fd_set_state H TRANSPORT_DISCONNECTED t) (\<lambda>t. Inr (False, t)))))"

text \<open>
  Reading while the user waits for credentials: the callback gets the data and the credentials, or an error,
  and is forgotten. Without a callback the data goes to the handler, as for every transport.
\<close>

record credentials =
  cr_pid :: int
  cr_uid :: int
  cr_gid :: int

datatype credentials_call =
    Got_credentials "u8 list" credentials
  | No_credentials "u8 list"
  | Credentials_error

datatype message_reply = Message "u8 list" "credentials option" | Message_error

definition unix_recv_credentials :: "bool \<Rightarrow> bool \<times> bool" where
  "unix_recv_credentials waiting = (if waiting then (False, True) else (True, True))"

definition unix_read :: "bool \<Rightarrow> message_reply \<Rightarrow> (io_result \<times> credentials_call option \<times> bool) option" where
  "unix_read waiting reply =
     (if \<not> waiting then None
      else case reply of
             Message_error \<Rightarrow> Some (IO_RESULT_ERROR, Some Credentials_error, False)
           | Message d None \<Rightarrow> Some (IO_RESULT_SUCCESS, Some (No_credentials (take 1024 d)), False)
           | Message d (Some c) \<Rightarrow> Some (IO_RESULT_SUCCESS, Some (Got_credentials (take 1024 d) c), False))"

section \<open>Addresses\<close>

datatype socket_address =
    Inet "u8 list" u16 \<comment> \<open>four bytes and the port\<close>
  | Inet6 "u8 list" u16 \<comment> \<open>sixteen bytes and the port\<close>
  | Unix_path "u8 list"

definition v4_mapped_prefix :: "u8 list" where
  "v4_mapped_prefix = [0, 0, 0, 0, 0, 0, 0, 0, 0, 0, 255, 255]"

definition normalize_address :: "socket_address \<Rightarrow> socket_address" where
  "normalize_address a =
     (case a of
        Inet6 bytes port \<Rightarrow> if take 12 bytes = v4_mapped_prefix then Inet (drop 12 bytes) port else a
      | _ \<Rightarrow> a)"

section \<open>Listening\<close>

datatype listener_error =
    LISTENER_ERROR_ALREADY_LISTENING | LISTENER_ERROR_ADDRESS_IN_USE
  | LISTENER_ERROR_FAMILY_NOT_SUPPORTED | LISTENER_ERROR_FAILED

datatype family = FAMILY_INET | FAMILY_INET6 | FAMILY_UNIX

text \<open>
  One listening socket: its descriptor and what it was bound to. The kernel answers the calls of
  \<open>add_listener\<close> in turn; \<open>kn_bound\<close> is the port that \<open>getsockname\<close> reports.
\<close>

record kernel =
  kn_socket :: "family \<Rightarrow> int + listener_error"
  kn_setsockopt :: "family \<Rightarrow> bool"
  kn_bind :: "family \<Rightarrow> nat \<Rightarrow> listener_error option"
  kn_listen :: "family \<Rightarrow> nat \<Rightarrow> listener_error option"
  kn_bound :: "family \<Rightarrow> nat \<Rightarrow> nat option"

record listener =
  li_listeners :: "(family \<times> nat) list" \<comment> \<open>family and port of each socket\<close>
  li_listening :: bool
  li_port :: nat

definition listener_new :: listener where
  "listener_new = \<lparr>li_listeners = [], li_listening = False, li_port = 0\<rparr>"

definition clean_listeners :: "listener \<Rightarrow> listener" where
  "clean_listeners l = l\<lparr>li_listeners := [], li_listening := False, li_port := 0\<rparr>"

definition add_listener :: "kernel \<Rightarrow> family \<Rightarrow> nat \<Rightarrow> listener \<Rightarrow> listener_error option \<times> listener" where
  "add_listener K f port l =
     (case kn_socket K f of
        Inr e \<Rightarrow> (Some e, l)
      | Inl fd \<Rightarrow>
          if \<not> kn_setsockopt K f then (Some LISTENER_ERROR_FAILED, l)
          else case kn_bind K f port of
            Some e \<Rightarrow> (Some e, l)
          | None \<Rightarrow>
              (case kn_listen K f port of
                 Some e \<Rightarrow> (Some e, l)
               | None \<Rightarrow>
                   (case kn_bound K f port of
                      None \<Rightarrow> (Some LISTENER_ERROR_FAILED, l)
                    | Some p \<Rightarrow>
                        (None, l\<lparr>li_port := (if f = FAMILY_UNIX then 0 else p),
                                 li_listeners := li_listeners l @ [(f, p)]\<rparr>))))"

text \<open>The loop over the addresses of \<open>getaddrinfo\<close>; the last error is kept.\<close>

fun listen_loop ::
    "kernel \<Rightarrow> nat \<Rightarrow> family list \<Rightarrow> listener_error option \<Rightarrow> listener
     \<Rightarrow> (bool \<times> listener_error option \<times> listener) outcome" where
  "listen_loop K port [] err l = Inr (True, err, l)"
| "listen_loop K port (f # fs) err l =
     andthen (assert_that (\<not> (port = 0 \<and> li_port l \<noteq> 0 \<and> f = FAMILY_UNIX))) (\<lambda>_.
     let p = (if port = 0 \<and> li_port l \<noteq> 0 then li_port l else port);
         (e, l) = add_listener K f p l
     in case e of
          Some e \<Rightarrow>
            if e \<noteq> LISTENER_ERROR_FAMILY_NOT_SUPPORTED then Inr (False, Some e, l)
            else listen_loop K port fs (Some e) l
        | None \<Rightarrow> listen_loop K port fs err (l\<lparr>li_listening := True\<rparr>))"

definition listen_tcp_af ::
    "kernel \<Rightarrow> nat \<Rightarrow> family list option \<Rightarrow> listener \<Rightarrow> (bool \<times> listener_error option \<times> listener) outcome" where
  "listen_tcp_af K port resolved l =
     (if li_listening l then Inr (False, Some LISTENER_ERROR_ALREADY_LISTENING, l)
      else case resolved of
             None \<Rightarrow> Inr (False, Some LISTENER_ERROR_FAILED, clean_listeners l)
           | Some fs \<Rightarrow>
               andthen (listen_loop K port fs None (l\<lparr>li_port := 0\<rparr>)) (\<lambda>(ok, err, l).
               if \<not> ok \<or> li_listeners l = [] then Inr (False, err, clean_listeners l)
               else Inr (True, None, l)))"

definition listen_socket ::
    "kernel \<Rightarrow> bool \<Rightarrow> listener \<Rightarrow> bool \<times> listener_error option \<times> listener" where
  "listen_socket K abstract l =
     (if li_listening l then (False, Some LISTENER_ERROR_ALREADY_LISTENING, l)
      else if abstract then (False, Some LISTENER_ERROR_FAILED, l)
      else case add_listener K FAMILY_UNIX 0 l of
             (None, l) \<Rightarrow> (True, None, l\<lparr>li_listening := True\<rparr>)
           | (Some e, l) \<Rightarrow> (False, Some e, l))"

text \<open>
  \<open>listener_io_in_cb\<close>: the new transport is connected before anybody can have connected to its signals.
  What \<open>accept\<close> returned is used as it is.
\<close>

definition listener_accept ::
    "int \<Rightarrow> 'a fd_transport_scheme \<Rightarrow> 'a fd_transport_scheme outcome" where
  "listener_accept nfd t = fd_set_fd (\<lambda>_ t. Inr t) nfd (fd_transport_init t)"

section \<open>What they promise\<close>

text \<open>A connection attempt without a pending answer ends connected or disconnected.\<close>

lemma tcp_ends:
  assumes "\<And>ev t. H ev t = Inr t"
  shows "holds (\<lambda>t'. fd_state t' = TRANSPORT_DISCONNECTED) (tcp_failed H t)"
    and "fd_state t \<noteq> TRANSPORT_CONNECTED \<Longrightarrow> holds (\<lambda>t'. fd_state t' = TRANSPORT_CONNECTED) (tcp_connected H fd t)"
  by (simp_all add: tcp_failed_def tcp_connected_def fd_set_fd_def fd_set_state_def Let_def add_watch_def assms
      clean_connect_attempt_def clean_all_connect_attempts_def)

lemma new_connect_attempt_ends:
  assumes "\<And>ev t. H ev t = Inr t" "fd_state t = TRANSPORT_CONNECTING"
  shows "holds (\<lambda>t'. fd_state t' = TRANSPORT_CONNECTED \<or> fd_state t' = TRANSPORT_DISCONNECTED
      \<or> (fd_state t' = TRANSPORT_CONNECTING \<and> tcp_watch t' \<and> tcp_channel t' \<noteq> None)) (new_connect_attempt H as t)"
  using assms
proof (induction H as t rule: new_connect_attempt.induct)
  case (1 H t)
  show ?case unfolding new_connect_attempt.simps by (rule holds_mono[OF tcp_ends(1)[OF 1(1)]]) simp
next
  case (2 H fd reply rest t)
  note ends = tcp_ends[OF 2(2)]
  show ?case
  proof (cases "fd < 0")
    case True
    then show ?thesis unfolding new_connect_attempt.simps Let_def if_P[OF True]
      by (intro holds_mono[OF ends(1)]) simp
  next
    case False
    let ?t = "t\<lparr>tcp_addresses := Some ((fd, reply) # rest), tcp_channel := Some fd, tcp_watch := True\<rparr>"
    show ?thesis
    proof (cases reply)
      case Connect_ok
      have "holds (\<lambda>t'. fd_state t' = TRANSPORT_CONNECTED) (tcp_connected H fd ?t)"
        using 2(3) by (intro ends(2)) simp
      then show ?thesis using False Connect_ok by (auto simp: Let_def elim!: holds_mono)
    next
      case Connect_fails
      then show ?thesis using False 2(1)[OF HOL.refl False HOL.refl Connect_fails] 2(2,3)
        by (simp add: Let_def clean_connect_attempt_def)
    qed (use False 2(3) in simp)
  qed
qed

text \<open>All sockets of a listener that chose its port itself listen on the same one.\<close>

lemma listen_loop_port:
  assumes "\<And>f p q. kn_bound K f p = Some q \<Longrightarrow> q \<noteq> 0 \<and> (p \<noteq> 0 \<longrightarrow> q = p)"
    and "listen_loop K port fs err l = Inr (ok, e, l')" "FAMILY_UNIX \<notin> set fs"
    and "\<forall>(f, p) \<in> set (li_listeners l). p = li_port l" "li_listeners l = [] \<longleftrightarrow> li_port l = 0"
    and "li_listeners l \<noteq> [] \<longrightarrow> port \<noteq> 0 \<longrightarrow> li_port l = port"
  shows "\<forall>(f, p) \<in> set (li_listeners l'). p = li_port l'"
  using assms(2-)
proof (induction fs arbitrary: err l)
  case (Cons f fs)
  define p where "p = (if port = 0 \<and> li_port l \<noteq> 0 then li_port l else port)"
  obtain r m where add: "add_listener K f p l = (r, m)" by fastforce
  have f: "f \<noteq> FAMILY_UNIX" using Cons.prems(2) by auto
  have run: "(case r of Some e \<Rightarrow> if e \<noteq> LISTENER_ERROR_FAMILY_NOT_SUPPORTED then Inr (False, Some e, m)
        else listen_loop K port fs (Some e) m
      | None \<Rightarrow> listen_loop K port fs err (m\<lparr>li_listening := True\<rparr>)) = Inr (ok, e, l')"
    using Cons.prems(1) add f unfolding p_def by simp
  show ?case
  proof (cases r)
    case None
    from add None obtain q where q: "kn_bound K f p = Some q"
      "m = l\<lparr>li_port := q, li_listeners := li_listeners l @ [(f, q)]\<rparr>"
      using f by (auto simp: add_listener_def split: sum.splits if_splits option.splits)
    have pq: "q \<noteq> 0" "p \<noteq> 0 \<Longrightarrow> q = p" using assms(1)[OF q(1)] by auto
    have same: "li_listeners l \<noteq> [] \<Longrightarrow> q = li_port l"
      using pq Cons.prems(4,5) by (cases "port = 0") (auto simp: p_def)
    have all: "\<forall>(f', p') \<in> set (li_listeners l). p' = q"
      using same Cons.prems(3) by (cases "li_listeners l = []") auto
    have port: "port \<noteq> 0 \<Longrightarrow> q = port" using pq by (simp add: p_def)
    show ?thesis
      by (rule Cons.IH[of err "m\<lparr>li_listening := True\<rparr>"])
         (use run None Cons.prems(2,3) q pq all same port in auto)
  next
    case (Some e')
    then have "m = l" using add by (auto simp: add_listener_def split: sum.splits if_splits option.splits)
    with Some run Cons show ?thesis by (auto split: if_splits)
  qed
qed auto

lemma normalize_idem: "normalize_address (normalize_address a) = normalize_address a"
  by (auto simp: normalize_address_def split: socket_address.split)

end
