(* ===== verification/Tube_Link.thy ===== *)
theory Tube_Link
  imports Bytestream_Direct Bytestream_Oob Connectors
begin

text \<open>
  One connection of a stream tube, \<open>src/tube-stream.c\<close>: the socket of a local application on one side, a
  bytestream to the peer on the other, and the code that carries the bytes from one to the other and stops
  the faster side. The three tables of the tube and the signal handlers it has connected are flags of the
  connection, whose record extends the one of its transport; the bytestream is a value of \<open>'b\<close> with its
  methods, which return what it signals, and the tube's handlers run on these signals when the method has
  returned. The tube itself is \<open>Tube_Stream\<close>.
\<close>

section \<open>State\<close>

datatype close_reason = Cancelled | Connection_lost | Connection_refused

text \<open>What the main loop does to a descriptor: one of its watches fires.\<close>

datatype watch_op =
    Readable nat read_reply
  | Writable nat
  | Failing nat

definition watch_step ::
    "'a transport_user \<Rightarrow> watch_op \<Rightarrow> 'a fd_transport_scheme \<Rightarrow> 'a fd_transport_scheme outcome" where
  "watch_step H p t =
     (case p of
        Readable i reply \<Rightarrow> dispatch (i, IO_IN) (channel_io_in H reply) t
      | Writable i \<Rightarrow> dispatch (i, IO_OUT) (channel_io_out H) t
      | Failing i \<Rightarrow> dispatch (i, IO_ERR) (channel_io_err H) t)"

text \<open>What a stream tube uses of a bytestream; \<open>fc_step\<close> is what the main loop does to it.\<close>

type_synonym 'b flow_method = "'b \<Rightarrow> ('b \<times> stream_event list) outcome"

record 'b flow_class =
  fc_state :: "'b \<Rightarrow> bytestream_state"
  fc_send :: "u8 list \<Rightarrow> 'b flow_method"
  fc_close :: "'b flow_method"
  fc_block :: "bool \<Rightarrow> 'b flow_method"
  fc_step :: "watch_op \<Rightarrow> 'b flow_method"

record 'b link = tcp_transport +
  lk_bytestream :: 'b
  lk_to_transport :: bool \<comment> \<open>in \<open>bytestream_to_transport\<close>\<close>
  lk_to_bytestream :: bool \<comment> \<open>in \<open>transport_to_bytestream\<close>\<close>
  lk_connection_id :: u32 \<comment> \<open>its value in \<open>transport_to_id\<close>, or zero\<close>
  lk_state_cb :: bool
  lk_data_cbs :: bool
  lk_transport_cbs :: bool
  lk_closed :: "(u32 \<times> close_reason) list"

type_synonym ('b, 'a) link_user = "('b, 'a) link_ext tcp_transport_ext transport_user"
type_synonym ('b, 'a) reaction = "stream_event \<Rightarrow> ('b, 'a) link_scheme \<Rightarrow> ('b, 'a) link_scheme outcome"

text \<open>The two records in a connection have fields in common; these rules keep them apart.\<close>

lemma bytestream_update [simp]:
  "fd_state (lk\<lparr>lk_bytestream := b\<rparr>) = fd_state lk" "fd_handler (lk\<lparr>lk_bytestream := b\<rparr>) = fd_handler lk"
  "fd_output_buffer (lk\<lparr>lk_bytestream := b\<rparr>) = fd_output_buffer lk" "ml_sources (lk\<lparr>lk_bytestream := b\<rparr>) = ml_sources lk"
  "ml_next (lk\<lparr>lk_bytestream := b\<rparr>) = ml_next lk" "os_replies (lk\<lparr>lk_bytestream := b\<rparr>) = os_replies lk"
  "os_written (lk\<lparr>lk_bytestream := b\<rparr>) = os_written lk" "fd_channel (lk\<lparr>lk_bytestream := b\<rparr>) = fd_channel lk"
  "fd_watch_in (lk\<lparr>lk_bytestream := b\<rparr>) = fd_watch_in lk" "fd_watch_out (lk\<lparr>lk_bytestream := b\<rparr>) = fd_watch_out lk"
  "lk_bytestream (lk\<lparr>fd_handler := x\<rparr>) = lk_bytestream lk" "lk_bytestream (lk\<lparr>lk_data_cbs := x\<rparr>) = lk_bytestream lk"
  "lk_bytestream (lk\<lparr>lk_bytestream := b\<rparr>) = b" "lk_bytestream (lk\<lparr>lk_to_bytestream := x\<rparr>) = lk_bytestream lk"
  "lk_bytestream (lk\<lparr>lk_transport_cbs := x\<rparr>) = lk_bytestream lk"
  by simp_all

text \<open>A method of the bytestream, and the tube's handlers on its signals.\<close>

definition on_bytestream ::
    "('b, 'a) reaction \<Rightarrow> 'b flow_method \<Rightarrow> ('b, 'a) link_scheme \<Rightarrow> ('b, 'a) link_scheme outcome" where
  "on_bytestream react f lk =
     andthen (f (lk_bytestream lk)) (\<lambda>(b, es). foldo react es (lk\<lparr>lk_bytestream := b\<rparr>))"

section \<open>Removing a connection\<close>

text \<open>The tables hold the last references to the transport, which is disposed when it is removed from them.\<close>

definition fire_connection_closed :: "close_reason \<Rightarrow> ('b, 'a) link_scheme \<Rightarrow> ('b, 'a) link_scheme" where
  "fire_connection_closed reason lk =
     (if lk_connection_id lk = 0 then lk
      else lk\<lparr>lk_connection_id := 0, lk_closed := lk_closed lk @ [(lk_connection_id lk, reason)]\<rparr>)"

definition remove_transport ::
    "('b, 'a) link_user \<Rightarrow> ('b, 'a) link_scheme \<Rightarrow> ('b, 'a) link_scheme outcome" where
  "remove_transport H lk =
     andthen (do_disconnect H (lk\<lparr>lk_transport_cbs := False\<rparr>)) (\<lambda>lk.
     Inr (clean_all_connect_attempts ((fire_connection_closed Connection_lost lk)
            \<lparr>lk_to_bytestream := False, lk_to_transport := False, lk_connection_id := 0\<rparr>)))"

section \<open>Handlers of the transport\<close>

definition tube_transport_handler ::
    "'b flow_class \<Rightarrow> ('b, 'a) reaction \<Rightarrow> u8 list \<Rightarrow> ('b, 'a) link_scheme \<Rightarrow> ('b, 'a) link_scheme outcome" where
  "tube_transport_handler C react d lk =
     (if \<not> lk_to_bytestream lk then Inr lk else on_bytestream react (fc_send C d) lk)"

definition tube_transport_disconnected_cb ::
    "'b flow_class \<Rightarrow> ('b, 'a) reaction \<Rightarrow> ('b, 'a) link_scheme \<Rightarrow> ('b, 'a) link_scheme outcome" where
  "tube_transport_disconnected_cb C react lk =
     (let lk = fire_connection_closed Cancelled lk in
      if \<not> lk_to_bytestream lk then Inr lk else on_bytestream react (fc_close C) lk)"

definition tube_buffer_empty_cb ::
    "'b flow_class \<Rightarrow> ('b, 'a) link_user \<Rightarrow> ('b, 'a) reaction \<Rightarrow> ('b, 'a) link_scheme
     \<Rightarrow> ('b, 'a) link_scheme outcome" where
  "tube_buffer_empty_cb C H react lk =
     andthen (assert_that (lk_to_bytestream lk)) (\<lambda>_.
     if fc_state C (lk_bytestream lk) = BYTESTREAM_STATE_CLOSED then remove_transport H lk
     else on_bytestream react (fc_block C False) lk)"

section \<open>Handlers of the bytestream\<close>

definition add_transport :: "('b, 'a) link_scheme \<Rightarrow> ('b, 'a) link_scheme outcome" where
  "add_transport lk =
     andthen (fd_set_handler True lk) (\<lambda>lk.
     Inr (fd_block_receiving False (lk\<lparr>lk_to_bytestream := True, lk_transport_cbs := True\<rparr>)))"

definition extra_bytestream_state_changed_cb ::
    "('b, 'a) link_user \<Rightarrow> bytestream_state \<Rightarrow> ('b, 'a) link_scheme \<Rightarrow> ('b, 'a) link_scheme outcome" where
  "extra_bytestream_state_changed_cb H st lk =
     (case st of
        BYTESTREAM_STATE_OPEN \<Rightarrow>
          andthen (assert_that (lk_to_transport lk)) (\<lambda>_. add_transport (lk\<lparr>lk_data_cbs := True\<rparr>))
      | BYTESTREAM_STATE_CLOSED \<Rightarrow>
          if lk_to_transport lk \<and> fd_buffer_is_empty lk then remove_transport H lk else Inr lk
      | _ \<Rightarrow> Inr lk)"

definition bytestream_write_blocked_cb ::
    "bool \<Rightarrow> ('b, 'a) link_scheme \<Rightarrow> ('b, 'a) link_scheme outcome" where
  "bytestream_write_blocked_cb blocked lk =
     andthen (assert_that (lk_to_transport lk)) (\<lambda>_. Inr (fd_block_receiving blocked lk))"

text \<open>Blocking the bytestream signals nothing that the tube listens to.\<close>

definition tube_data_received_cb ::
    "'b flow_class \<Rightarrow> ('b, 'a) link_user \<Rightarrow> u8 list \<Rightarrow> ('b, 'a) link_scheme \<Rightarrow> ('b, 'a) link_scheme outcome" where
  "tube_data_received_cb C H d lk =
     andthen (assert_that (lk_to_transport lk)) (\<lambda>_.
     andthen (fd_send H d lk) (\<lambda>(ok, lk).
     if \<not> ok \<or> fd_buffer_is_empty lk then Inr lk
     else
       andthen (fc_block C True (lk_bytestream lk)) (\<lambda>(b, _). Inr (lk\<lparr>lk_bytestream := b\<rparr>))))"

definition link_react :: "'b flow_class \<Rightarrow> ('b, 'a) link_user \<Rightarrow> ('b, 'a) reaction" where
  "link_react C H e lk =
     (case e of
        State_changed st \<Rightarrow>
          if lk_state_cb lk then extra_bytestream_state_changed_cb H st lk else Inr lk
      | Write_blocked b \<Rightarrow> if lk_data_cbs lk then bytestream_write_blocked_cb b lk else Inr lk
      | Data_received d \<Rightarrow> if lk_data_cbs lk then tube_data_received_cb C H d lk else Inr lk)"

text \<open>
  The user of the transport. Its handlers can cause another signal of the transport, for which there is
  fuel; a signal without a handler needs none.
\<close>

primrec link_handler :: "'b flow_class \<Rightarrow> nat \<Rightarrow> ('b, 'a) link_user" where
  "link_handler C 0 ev lk =
     (if lk_transport_cbs lk \<or> (case ev of Received_data d \<Rightarrow> True | _ \<Rightarrow> False) then Inl Out_of_fuel else Inr lk)"
| "link_handler C (Suc n) ev lk =
     (let H = link_handler C n; react = link_react C H in
      case ev of
        Received_data d \<Rightarrow> tube_transport_handler C react d lk
      | State_signal s \<Rightarrow>
          if s = TRANSPORT_DISCONNECTED \<and> lk_transport_cbs lk
          then tube_transport_disconnected_cb C react lk else Inr lk
      | Buffer_empty_signal \<Rightarrow> if lk_transport_cbs lk then tube_buffer_empty_cb C H react lk else Inr lk
      | Error_signal \<Rightarrow> Inr lk)"

section \<open>The main loop\<close>

text \<open>What happens to a connection: a watch of one of its ends, or of a pending connection attempt.\<close>

datatype link_op = Local watch_op | Remote watch_op | Connecting connect_reply

definition link_step ::
    "'b flow_class \<Rightarrow> link_op \<Rightarrow> ('b, 'a) link_scheme \<Rightarrow> ('b, 'a) link_scheme outcome" where
  "link_step C p lk =
     (case p of
        Local q \<Rightarrow> watch_step (link_handler C 2) q lk
      | Remote q \<Rightarrow> on_bytestream (link_react C (link_handler C 2)) (fc_step C q) lk
      | Connecting reply \<Rightarrow>
          if tcp_watch lk
          then andthen (try_to_connect (link_handler C 2) reply lk) (\<lambda>(keep, lk). Inr lk)
          else Inr lk)"

definition link_run ::
    "'b flow_class \<Rightarrow> link_op list \<Rightarrow> ('b, 'a) link_scheme \<Rightarrow> ('b, 'a) link_scheme outcome" where
  "link_run C = foldo (link_step C)"

section \<open>The bytestreams of tubes\<close>

text \<open>The events of a method are what it adds to the list of events.\<close>

definition with_events ::
    "('a stream_scheme \<Rightarrow> 'a stream_scheme outcome) \<Rightarrow> 'a stream_scheme flow_method" where
  "with_events f t =
     andthen (f (t\<lparr>bst_events := []\<rparr>)) (\<lambda>t. Inr (t\<lparr>bst_events := []\<rparr>, bst_events t))"

definition stream_flow :: "'a stream_scheme stream_kind \<Rightarrow> 'a stream_scheme flow_class" where
  "stream_flow k =
     \<lparr>fc_state = bst_state,
      fc_send = (\<lambda>d. with_events (\<lambda>t. andthen (stream_send k d t) (\<lambda>(_, t). Inr t))),
      fc_close = with_events (stream_do_close k None True),
      fc_block = (\<lambda>b. with_events (stream_block_reading b)),
      fc_step = (\<lambda>p. with_events (watch_step (stream_handler k) p))\<rparr>"

definition direct_flow :: "'a direct_scheme flow_class" where
  "direct_flow = stream_flow direct_kind"

definition oob_flow :: "'a oob_scheme flow_class" where
  "oob_flow = stream_flow oob_kind"

end
