(* ===== verification/Link_Flow.thy ===== *)
theory Link_Flow
  imports Stream_Flow Tube_Link
begin

text \<open>
  Back-pressure. \<open>fd_invariant\<close> is a contract between a transport and a user that may stop with a fault:
  a property of the state that the transport's own steps keep, as long as the user's handlers do, holds
  whenever an operation returns. \<open>flow_laws\<close> is what a stream tube needs of a bytestream: one that is
  blocked reads nothing, and one that is not reads at most a block at a time. Both kinds of bytestreams
  over sockets keep it, and a tube's connection then never has more than one block waiting.
\<close>

section \<open>Transports whose user may stop with a fault\<close>

definition torn_down :: "transport_state \<Rightarrow> 'a fd_transport_scheme \<Rightarrow> 'a fd_transport_scheme" where
  "torn_down st t = (close_channel t)\<lparr>fd_fd := - 1, fd_output_buffer := None, fd_state := st\<rparr>"

locale fd_invariant =
  fixes H :: "'a transport_user" and P :: "'a fd_transport_scheme \<Rightarrow> bool"
  assumes signalled: "P t \<Longrightarrow> (\<forall>d. ev \<noteq> Received_data d) \<Longrightarrow>
      (ev = Buffer_empty_signal \<longrightarrow> output_bytes t = []) \<Longrightarrow> holds P (H ev t)"
    and torn_down: "P t \<Longrightarrow> P (torn_down st t)"
    and written: "P t \<Longrightarrow> P (t\<lparr>os_replies := rs, os_written := w\<rparr>)"
    and accepted: "P t \<Longrightarrow> P (t\<lparr>fd_accepted := a\<rparr>)"
    and dropped: "P t \<Longrightarrow> P (t\<lparr>fd_output_buffer := Some (drop n (output_bytes t))\<rparr>)"
    and unwatched: "P t \<Longrightarrow> P (t\<lparr>fd_watch_out := i\<rparr>)"
    and removed: "P t \<Longrightarrow> P (source_remove i t)"
begin

lemma do_disconnect_holds:
  assumes "P t"
  shows "holds P (do_disconnect H t)"
proof -
  have gone: "P (torn_down (fd_state t) t)" "P (torn_down TRANSPORT_DISCONNECTED t)" using assms by (rule torn_down)+
  have "do_disconnect H t = (if fd_state t = TRANSPORT_DISCONNECTED then Inr t
      else if fd_dispose_has_run t then Inr (torn_down (fd_state t) t)
      else H (State_signal TRANSPORT_DISCONNECTED) (torn_down TRANSPORT_DISCONNECTED t))"
    by (cases t) (auto simp: do_disconnect_def fd_set_state_def torn_down_def Let_def)
  then show ?thesis using assms gone signalled[OF gone(2), of "State_signal TRANSPORT_DISCONNECTED"] by simp
qed

lemma failed_holds:
  "P t \<Longrightarrow> holds P (andthen (H Error_signal t) (do_disconnect H))"
  by (auto intro: holds_mono[OF signalled] do_disconnect_holds)

lemma try_write_holds:
  assumes "P t"
  shows "holds (\<lambda>(ok, n, t'). P t' \<and> (ok \<longrightarrow> (\<exists>rs w. t' = t\<lparr>os_replies := rs, os_written := w\<rparr>)))
    (try_write H data t)"
proof -
  have same: "\<exists>rs w. t = t\<lparr>os_replies := rs, os_written := w\<rparr>"
    by (rule exI[of _ "os_replies t"], rule exI[of _ "os_written t"]) simp
  have w: "P (t\<lparr>os_replies := rs, os_written := w\<rparr>)" for rs :: "write_reply list" and w using assms by (rule written)
  have r: "P (t\<lparr>os_replies := rs\<rparr>)" for rs using w[where rs = rs and w = "os_written t"] by simp
  have upd: "\<exists>rs' w. t\<lparr>os_replies := rs\<rparr> = t\<lparr>os_replies := rs', os_written := w\<rparr>" for rs
    by (rule exI[of _ rs], rule exI[of _ "os_written t"]) simp
  show ?thesis
  proof (cases "os_replies t")
    case (Cons reply rs)
    show ?thesis
    proof (cases reply)
      case (Write_takes n)
      with Cons w show ?thesis by (auto simp: try_write_def fd_write_def Let_def)
    next
      case Write_again
      with Cons r upd show ?thesis by (simp add: try_write_def fd_write_def Let_def)
    next
      case Write_error
      with Cons failed_holds[OF r[of rs]] show ?thesis
        by (auto simp: try_write_def fd_write_def Let_def elim!: holds_mono)
    next
      case Write_eof
      with Cons do_disconnect_holds[OF r[of rs]] show ?thesis
        by (auto simp: try_write_def fd_write_def Let_def elim!: holds_mono)
    qed
  qed (use assms same in \<open>simp add: try_write_def fd_write_def\<close>)
qed

lemma channel_io_out_holds:
  assumes "P t"
  shows "holds (\<lambda>(keep, t'). P t') (channel_io_out H t)"
proof -
  define finish where "finish = (\<lambda>(ok, written, t). if \<not> ok then Inr (False, t)
    else
      let t = (if written > 0 then t\<lparr>fd_output_buffer := Some (drop written (output_bytes t))\<rparr> else t) in
      if output_bytes t = []
      then andthen (H Buffer_empty_signal (t\<lparr>fd_watch_out := 0\<rparr>)) (\<lambda>t. Inr (False, t))
      else Inr (True, t))"
  have run: "channel_io_out H t = andthen (assert_that (fd_output_buffer t \<noteq> None)) (\<lambda>_.
      andthen (try_write H (output_bytes t) t) finish)"
    unfolding channel_io_out_def finish_def ..
  have fin: "holds (\<lambda>(keep, t'). P t') (finish (ok, n, u))" if "P u" for ok n u
    using that dropped[OF that, of n] signalled[where ev = Buffer_empty_signal, OF unwatched[where i = 0, OF that]]
      signalled[where ev = Buffer_empty_signal, OF unwatched[where i = 0, OF dropped[where n = n, OF that]]]
    by (auto simp: finish_def Let_def output_bytes_def elim!: holds_mono)
  show ?thesis unfolding run
    by (auto intro!: holds_mono[OF try_write_holds[OF assms]] simp: fin)
qed

lemma channel_io_err_holds: "P t \<Longrightarrow> holds (\<lambda>(keep, t'). P t') (channel_io_err H t)"
  unfolding channel_io_err_def
  by (auto intro!: holds_mono[OF signalled] holds_mono[OF do_disconnect_holds])

lemma channel_io_in_holds:
  assumes "P t" "\<And>d. length d \<le> 1024 \<Longrightarrow> holds P (H (Received_data d) t)"
  shows "holds (\<lambda>(keep, t'). P t') (channel_io_in H reply t)"
proof (cases reply)
  case (Read_bytes d)
  with assms show ?thesis by (auto simp: channel_io_in_def fd_received_data_def elim!: holds_mono)
next
  case Read_error
  with assms(1) show ?thesis unfolding channel_io_in_def
    by (auto intro!: holds_mono[OF signalled] holds_mono[OF do_disconnect_holds])
next
  case Read_eof
  with assms(1) show ?thesis unfolding channel_io_in_def
    by (auto intro!: holds_mono[OF do_disconnect_holds])
qed (use assms(1) in \<open>simp add: channel_io_in_def\<close>)

lemma dispatch_holds:
  assumes "P t" "source \<in> set (ml_sources t) \<Longrightarrow> holds (\<lambda>(keep, t'). P t') (callback t)"
  shows "holds P (dispatch source callback t)"
  using assms by (auto simp: dispatch_def removed elim!: holds_mono)

lemma watch_step_holds:
  assumes "P t"
    "\<And>i d. (i, IO_IN) \<in> set (ml_sources t) \<Longrightarrow> length d \<le> 1024 \<Longrightarrow> holds P (H (Received_data d) t)"
  shows "holds P (watch_step H p t)"
  unfolding watch_step_def
  by (cases p) (use assms in \<open>auto intro!: dispatch_holds channel_io_in_holds channel_io_out_holds channel_io_err_holds\<close>)

text \<open>What is sent grows the buffer.\<close>

lemma writeout_holds:
  assumes "P t" "data \<noteq> [] \<or> output_bytes t = [] \<or> (\<forall>u. P u \<longrightarrow> holds P (H Buffer_empty_signal u))"
    and "\<And>u n. P u \<Longrightarrow> output_bytes u = output_bytes t \<Longrightarrow>
      Q (u\<lparr>fd_output_buffer := Some (output_bytes u @ drop n data)\<rparr>)"
    and "\<And>u i. Q u \<Longrightarrow> Q (u\<lparr>ml_sources := ml_sources u @ [(ml_next u, IO_OUT)], ml_next := Suc (ml_next u), fd_watch_out := ml_next u\<rparr>)"
  shows "holds (\<lambda>(ok, t'). P t' \<or> (ok \<and> Q t')) (writeout H data t)"
proof -
  define finish where "finish = (\<lambda>(ok, written, t). if \<not> ok then Inr (False, t)
     else
       let t = t\<lparr>fd_accepted := fd_accepted t @ data\<rparr> in
       if written = length data then andthen (H Buffer_empty_signal t) (\<lambda>t. Inr (True, t))
       else
         let t = t\<lparr>fd_output_buffer := Some (output_bytes t @ drop written data)\<rparr> in
         if fd_watch_out t = 0
         then let (i, t) = add_watch IO_OUT t in Inr (True, t\<lparr>fd_watch_out := i\<rparr>)
         else Inr (True, t))"
  have run: "writeout H data t =
      andthen (if fd_buffer_is_empty t then try_write H data t else Inr (True, 0, t)) finish"
    unfolding writeout_def finish_def ..
  have fin: "holds (\<lambda>(ok, t'). P t' \<or> (ok \<and> Q t')) (finish (ok, n, u))"
    if u: "P u" "ok \<longrightarrow> output_bytes u = output_bytes t \<and> (output_bytes t = [] \<or> n = 0)" for ok n u
  proof (cases ok)
    case True
    let ?v = "u\<lparr>fd_accepted := fd_accepted u @ data\<rparr>"
    have v: "P ?v" "output_bytes ?v = output_bytes t"
      using accepted[OF u(1)] u(2) True by (simp_all add: output_bytes_def)
    let ?x = "?v\<lparr>fd_output_buffer := Some (output_bytes ?v @ drop n data)\<rparr>"
    have Q: "Q ?x" using v by (rule assms(3))
    have "holds P (H Buffer_empty_signal ?v)" if "n = length data"
      using that assms(2) v u(2) True signalled[OF v(1), of Buffer_empty_signal] by auto
    with True v Q assms(4)[OF Q] show ?thesis
      unfolding finish_def by (auto simp: Let_def add_watch_def elim!: holds_mono)
  qed (use u in \<open>simp add: finish_def\<close>)
  have "holds (\<lambda>(ok, n, u). P u \<and> (ok \<longrightarrow> output_bytes u = output_bytes t \<and> (output_bytes t = [] \<or> n = 0)))
      (if fd_buffer_is_empty t then try_write H data t else Inr (True, 0, t))"
    using assms(1) by (auto intro!: holds_mono[OF try_write_holds] simp: output_bytes_def fd_buffer_is_empty_def)
  then show ?thesis unfolding run by (auto elim!: holds_mono simp: fin)
qed

end

section \<open>What a tube needs of a bytestream\<close>

definition no_data :: "stream_event list \<Rightarrow> bool" where
  "no_data es \<longleftrightarrow> (\<forall>d. Data_received d \<notin> set es)"

definition one_block :: "stream_event list \<Rightarrow> bool" where
  "one_block es \<longleftrightarrow> no_data es \<or> (\<exists>d. length d \<le> 1024 \<and> es = [Data_received d])"

locale flow_laws =
  fixes C :: "'b flow_class" and blocked valid :: "'b \<Rightarrow> bool"
  assumes send: "valid b \<Longrightarrow> holds (\<lambda>(b', es). valid b' \<and> blocked b' = blocked b \<and> no_data es) (fc_send C d b)"
    and close: "valid b \<Longrightarrow> holds (\<lambda>(b', es). valid b' \<and> blocked b' = blocked b \<and> no_data es) (fc_close C b)"
    and block: "valid b \<Longrightarrow> holds (\<lambda>(b', es). valid b' \<and> blocked b' = x \<and> es = []) (fc_block C x b)"
    and step: "valid b \<Longrightarrow> holds (\<lambda>(b', es). valid b' \<and> blocked b' = blocked b
      \<and> (if blocked b then no_data es else one_block es)) (fc_step C p b)"

section \<open>Bytestreams over sockets\<close>

text \<open>A descriptor that is blocked for reading is not watched, and the read watch is the only one.\<close>

definition reads_watched :: "'a stream_scheme \<Rightarrow> bool" where
  "reads_watched t \<longleftrightarrow> 0 < ml_next t \<and> (\<forall>i. (i, IO_IN) \<in> set (ml_sources t) \<longrightarrow> 0 < i \<and> i = fd_watch_in t)
     \<and> (bst_read_blocked t \<longrightarrow> fd_watch_in t = 0)"

definition reads_ok :: "bool \<Rightarrow> 'a stream_scheme \<Rightarrow> bool" where
  "reads_ok blocked t \<longleftrightarrow> reads_watched t \<and> bst_read_blocked t = blocked \<and> no_data (bst_events t)"

lemmas reads_defs = reads_ok_def reads_watched_def no_data_def

lemma reads_torn_down: "reads_ok rb t \<Longrightarrow> reads_ok rb (torn_down st t)"
  using close_channel_sources(1)[of t]
  by (cases t) (auto simp: reads_defs torn_down_def close_channel_def source_remove_def Let_def)

lemma reads_ok_steps [simp]:
  "reads_ok rb (t\<lparr>os_replies := rs\<rparr>) = reads_ok rb t" "reads_ok rb (t\<lparr>os_written := w\<rparr>) = reads_ok rb t"
  "reads_ok rb (t\<lparr>fd_accepted := a\<rparr>) = reads_ok rb t" "reads_ok rb (t\<lparr>fd_output_buffer := buf\<rparr>) = reads_ok rb t"
  "reads_ok rb (t\<lparr>fd_watch_out := i\<rparr>) = reads_ok rb t" "reads_ok rb (t\<lparr>bst_callbacks := b\<rparr>) = reads_ok rb t"
  "reads_ok rb (t\<lparr>bst_has_transport := b\<rparr>) = reads_ok rb t"
  by (simp_all add: reads_defs)

lemma reads_ok_signals:
  "reads_ok rb t \<Longrightarrow> reads_ok rb (set_bs_state s t)"
  "reads_ok rb t \<Longrightarrow> reads_ok rb (change_write_blocked_state b t)"
  by (auto simp: reads_defs set_bs_state_def change_write_blocked_state_def)

lemma reads_ok_removed: "reads_ok rb t \<Longrightarrow> reads_ok rb (source_remove i t)"
  by (auto simp: reads_defs source_remove_def)

interpretation nobody_reads: fd_invariant nobody "reads_ok rb" for rb
  by unfold_locales (simp_all add: nobody_def reads_torn_down reads_ok_removed)

context stream_laws
begin

lemma kind_reads:
  assumes "reads_ok rb t"
  shows "reads_ok rb (sk_decline k e t)" "reads_ok rb (sk_closing k t)"
  using decline_same[of e t] closing_same[of t] assms
  by (simp_all add: reads_defs stream.truncate_def)

lemma closed_reads:
  assumes "reads_ok rb t"
  shows "holds (reads_ok rb) (bytestream_closed k t)"
  unfolding bytestream_closed_def Let_def
  by (auto intro!: holds_mono[OF nobody_reads.do_disconnect_holds[of rb]] reads_ok_signals kind_reads assms)

lemma close_reads:
  assumes "reads_ok rb t"
  shows "holds (reads_ok rb) (stream_do_close k e w t)"
  unfolding stream_do_close_def Let_def
  by (auto intro!: closed_reads reads_ok_signals kind_reads assms)

lemma handler_reads:
  assumes "reads_ok rb t" "\<forall>d. ev \<noteq> Received_data d"
  shows "holds (reads_ok rb) (stream_handler k ev t)"
  using assms
  by (auto simp: stream_handler_def transport_disconnected_cb_def transport_buffer_empty_cb_def
      intro!: close_reads closed_reads reads_ok_signals split: transport_event.split)

end

sublocale stream_laws \<subseteq> reads: fd_invariant "stream_handler k" "reads_ok rb" for rb
  by unfold_locales (simp_all add: handler_reads reads_torn_down reads_ok_removed)

context stream_laws
begin

lemma send_reads:
  assumes "reads_ok rb t"
  shows "holds (reads_ok rb) (andthen (stream_send k d t) (\<lambda>(_, t). Inr t))"
proof -
  have "holds (\<lambda>(ok, t'). reads_ok rb t' \<or> (ok \<and> reads_ok rb t')) (writeout (stream_handler k) d t)"
    by (rule reads.writeout_holds[OF assms]) (auto simp: handler_reads reads_defs)
  then have "holds (\<lambda>(ok, t'). reads_ok rb t') (fd_send (stream_handler k) d t)"
    by (auto simp: fd_send_def elim!: holds_mono)
  then show ?thesis using assms unfolding stream_send_def needs_transport_def
    by (auto elim!: holds_mono intro!: close_reads reads_ok_signals)
qed

lemma block_reads:
  assumes "reads_watched t" "bst_events t = []"
  shows "holds (\<lambda>t'. reads_watched t' \<and> bst_read_blocked t' = x \<and> bst_events t' = []) (stream_block_reading x t)"
  using assms unfolding stream_block_reading_def needs_transport_def
  by (auto simp: fd_block_receiving_def reads_watched_def add_watch_def source_remove_def Let_def)

lemma step_reads:
  assumes "reads_watched t" "bst_events t = []"
  shows "holds (\<lambda>t'. reads_watched t' \<and> bst_read_blocked t' = bst_read_blocked t
      \<and> (if bst_read_blocked t then no_data (bst_events t') else one_block (bst_events t')))
    (watch_step (stream_handler k) p t)"
proof (cases "\<exists>i d. p = Readable i (Read_bytes d) \<and> (i, IO_IN) \<in> set (ml_sources t)")
  case True
  then obtain i d where p: "p = Readable i (Read_bytes d)" "(i, IO_IN) \<in> set (ml_sources t)" by blast
  then have "\<not> bst_read_blocked t" using assms(1) by (auto simp: reads_watched_def)
  with p assms show ?thesis
    by (auto simp: watch_step_def dispatch_def channel_io_in_def fd_received_data_def stream_handler_def
        one_block_def no_data_def reads_watched_def)
next
  case False
  have ok: "reads_ok (bst_read_blocked t) t" using assms by (simp add: reads_defs)
  have "holds (reads_ok (bst_read_blocked t)) (watch_step (stream_handler k) p t)"
  proof (cases "\<exists>i d. p = Readable i (Read_bytes d)")
    case True
    with False ok show ?thesis by (auto simp: watch_step_def dispatch_def)
  next
    case other: False
    show ?thesis
    proof (cases p)
      case (Readable i reply)
      with other have "\<forall>d. reply \<noteq> Read_bytes d" by blast
      then have "holds (\<lambda>(keep, t'). reads_ok (bst_read_blocked t) t') (channel_io_in (stream_handler k) reply t)"
        using ok by (cases reply) (auto simp: channel_io_in_def
            intro!: holds_mono[OF handler_reads] holds_mono[OF reads.do_disconnect_holds])
      then show ?thesis unfolding watch_step_def using Readable ok by (auto intro!: reads.dispatch_holds)
    qed (use ok in \<open>auto simp: watch_step_def intro!: reads.dispatch_holds reads.channel_io_out_holds reads.channel_io_err_holds\<close>)
  qed
  then show ?thesis by (rule holds_mono) (auto simp: reads_ok_def one_block_def)
qed

end

sublocale stream_laws \<subseteq> flow: flow_laws "stream_flow k" bst_read_blocked reads_watched
proof unfold_locales
  fix b :: "'a stream_scheme" and d e x p
  assume b: "reads_watched b"
  let ?b = "b\<lparr>bst_events := []\<rparr>"
  have w: "reads_watched ?b" "reads_ok (bst_read_blocked b) ?b" using b by (simp_all add: reads_defs)
  have fin: "reads_watched (t\<lparr>bst_events := []\<rparr>) = reads_watched t" for t :: "'a stream_scheme"
    by (simp add: reads_watched_def)
  show "holds (\<lambda>(b', es). reads_watched b' \<and> bst_read_blocked b' = bst_read_blocked b \<and> no_data es)
      (fc_send (stream_flow k) d b)"
    using send_reads[OF w(2), of d]
    by (auto simp: stream_flow_def with_events_def fin reads_ok_def elim!: holds_mono)
  show "holds (\<lambda>(b', es). reads_watched b' \<and> bst_read_blocked b' = bst_read_blocked b \<and> no_data es)
      (fc_close (stream_flow k) b)"
    using close_reads[OF w(2), of None True]
    by (auto simp: stream_flow_def with_events_def fin reads_ok_def elim!: holds_mono)
  show "holds (\<lambda>(b', es). reads_watched b' \<and> bst_read_blocked b' = x \<and> es = []) (fc_block (stream_flow k) x b)"
    using block_reads[OF w(1), of x]
    by (auto simp: stream_flow_def with_events_def fin elim!: holds_mono)
  show "holds (\<lambda>(b', es). reads_watched b' \<and> bst_read_blocked b' = bst_read_blocked b
      \<and> (if bst_read_blocked b then no_data es else one_block es)) (fc_step (stream_flow k) p b)"
    using step_reads[OF w(1), of p]
    by (auto simp: stream_flow_def with_events_def fin elim!: holds_mono)
qed

section \<open>The connections of a tube\<close>

text \<open>
  What waits for a slow application is one block at most, and while it waits the peer is not read. The end of a
  connection is reported once, and only if the connection has an id; a \<open>fresh\<close> one has none yet.
\<close>

definition reported :: "bool \<Rightarrow> u32 \<Rightarrow> (u32 \<times> close_reason) list \<Rightarrow> bool" where
  "reported fresh i closed \<longleftrightarrow>
     (if i = 0 then length closed \<le> (if fresh then 0 else 1) else \<not> fresh \<and> closed = [])"

definition backed_up :: "bool \<Rightarrow> ('b \<Rightarrow> bool) \<Rightarrow> ('b \<Rightarrow> bool) \<Rightarrow> ('b, 'a) link_scheme \<Rightarrow> bool" where
  "backed_up fresh blocked valid lk \<longleftrightarrow> valid (lk_bytestream lk) \<and> length (output_bytes lk) \<le> 1024
     \<and> (output_bytes lk \<noteq> [] \<longrightarrow> blocked (lk_bytestream lk))
     \<and> reported fresh (lk_connection_id lk) (lk_closed lk)"

lemma output_bytes_updates [simp]:
  "output_bytes (t\<lparr>fd_output_buffer := None\<rparr>) = []" "output_bytes (t\<lparr>fd_output_buffer := Some bs\<rparr>) = bs"
  "output_bytes (t\<lparr>fd_state := st\<rparr>) = output_bytes t" "output_bytes (t\<lparr>fd_handler := h\<rparr>) = output_bytes t"
  "output_bytes (t\<lparr>os_replies := rs\<rparr>) = output_bytes t" "output_bytes (t\<lparr>os_written := w\<rparr>) = output_bytes t"
  "output_bytes (t\<lparr>fd_accepted := w\<rparr>) = output_bytes t" "output_bytes (t\<lparr>fd_watch_out := i\<rparr>) = output_bytes t"
  "output_bytes (t\<lparr>ml_sources := ss\<rparr>) = output_bytes t" "output_bytes (t\<lparr>ml_next := i\<rparr>) = output_bytes t"
  "output_bytes (t\<lparr>fd_fd := n\<rparr>) = output_bytes t" "output_bytes (t\<lparr>fd_channel := x\<rparr>) = output_bytes t"
  "output_bytes (t\<lparr>fd_watch_in := i\<rparr>) = output_bytes t" "output_bytes (t\<lparr>fd_watch_err := i\<rparr>) = output_bytes t"
  by (simp_all add: output_bytes_def)

lemma link_updates [simp]:
  "output_bytes (l\<lparr>lk_bytestream := b\<rparr>) = output_bytes l" "output_bytes (l\<lparr>lk_to_transport := x\<rparr>) = output_bytes l"
  "output_bytes (l\<lparr>lk_to_bytestream := x\<rparr>) = output_bytes l" "output_bytes (l\<lparr>lk_connection_id := i\<rparr>) = output_bytes l"
  "output_bytes (l\<lparr>lk_data_cbs := x\<rparr>) = output_bytes l" "output_bytes (l\<lparr>lk_transport_cbs := x\<rparr>) = output_bytes l"
  "output_bytes (l\<lparr>lk_closed := cs\<rparr>) = output_bytes l" "output_bytes (l\<lparr>lk_state_cb := x\<rparr>) = output_bytes l"
  by (simp_all add: output_bytes_def)

lemma torn_down_link [simp]: "output_bytes (torn_down st t) = []" "lk_bytestream (torn_down st l) = lk_bytestream l"
  "lk_connection_id (torn_down st l) = lk_connection_id l" "lk_closed (torn_down st l) = lk_closed l"
  by (simp_all add: torn_down_def output_bytes_def close_channel_def source_remove_def Let_def)

lemma block_receiving_link [simp]:
  "output_bytes (fd_block_receiving x t) = output_bytes t"
  "lk_bytestream (fd_block_receiving x l) = lk_bytestream l"
  "lk_connection_id (fd_block_receiving x l) = lk_connection_id l" "lk_closed (fd_block_receiving x l) = lk_closed l"
  by (simp_all add: fd_block_receiving_def source_remove_def add_watch_def Let_def output_bytes_def)

lemma fire_connection_closed_link [simp]:
  "output_bytes (fire_connection_closed r l) = output_bytes l"
  "lk_bytestream (fire_connection_closed r l) = lk_bytestream l"
  "lk_connection_id (fire_connection_closed r l) = 0"
  by (simp_all add: fire_connection_closed_def)

lemma fire_reported [simp]:
  "reported fresh (lk_connection_id l) (lk_closed l) \<Longrightarrow> reported fresh 0 (lk_closed (fire_connection_closed r l))"
  by (auto simp: reported_def fire_connection_closed_def split: if_splits)

lemma source_remove_link [simp]:
  "output_bytes (source_remove i t) = output_bytes t" "lk_bytestream (source_remove i l) = lk_bytestream l"
  "lk_connection_id (source_remove i l) = lk_connection_id l" "lk_closed (source_remove i l) = lk_closed l"
  by (simp_all add: source_remove_def)

lemma tcp_updates [simp]:
  "output_bytes (l\<lparr>tcp_addresses := as\<rparr>) = output_bytes l" "output_bytes (l\<lparr>tcp_watch := x\<rparr>) = output_bytes l"
  "output_bytes (l\<lparr>tcp_channel := c\<rparr>) = output_bytes l"
  by (simp_all add: output_bytes_def)

lemma clean_attempts_link [simp]:
  "output_bytes (clean_connect_attempt l) = output_bytes l" "lk_bytestream (clean_connect_attempt l) = lk_bytestream l"
  "output_bytes (clean_all_connect_attempts l) = output_bytes l"
  "lk_bytestream (clean_all_connect_attempts l) = lk_bytestream l"
  "lk_connection_id (clean_all_connect_attempts l) = lk_connection_id l"
  "lk_closed (clean_all_connect_attempts l) = lk_closed l"
  "lk_connection_id (clean_connect_attempt l) = lk_connection_id l" "lk_closed (clean_connect_attempt l) = lk_closed l"
  by (simp_all add: clean_connect_attempt_def clean_all_connect_attempts_def)

locale flow_links = flow_laws C blocked valid for C :: "'b flow_class" and blocked valid +
  fixes fresh :: bool
begin

abbreviation "ok \<equiv> backed_up fresh blocked valid"

lemma remove_holds:
  assumes "fd_invariant H ok" "ok lk"
  shows "holds ok (remove_transport H lk)"
  unfolding remove_transport_def
  by (simp, rule holds_mono[OF fd_invariant.do_disconnect_holds[OF assms(1)]])
     (use assms(2) in \<open>auto simp: backed_up_def\<close>)

lemma react_holds:
  assumes H: "fd_invariant H ok" and lk: "ok lk" and e: "\<forall>d. e \<noteq> Data_received d"
  shows "holds ok (link_react C H e lk)"
proof -
  note removed = remove_holds[OF H lk]
  have "holds ok (extra_bytestream_state_changed_cb H st lk)" for st
    using lk removed by (auto simp: extra_bytestream_state_changed_cb_def add_transport_def fd_set_handler_def
        backed_up_def split: bytestream_state.split)
  then show ?thesis using lk e
    by (auto simp: link_react_def bytestream_write_blocked_cb_def backed_up_def split: stream_event.split)
qed

lemma reactions_hold:
  assumes "fd_invariant H ok" "ok lk" "no_data es"
  shows "holds ok (foldo (link_react C H) es lk)"
  by (rule foldo_holds) (use assms in \<open>auto simp: no_data_def intro!: react_holds\<close>)

lemma method_holds:
  assumes "fd_invariant H ok" "ok lk"
    "holds (\<lambda>(b', es). valid b' \<and> blocked b' = blocked (lk_bytestream lk) \<and> no_data es) (f (lk_bytestream lk))"
  shows "holds ok (on_bytestream (link_react C H) f lk)"
  unfolding on_bytestream_def holds_simps(3)
  by (rule holds_mono[OF assms(3)]) (use assms(2) in \<open>auto intro!: reactions_hold[OF assms(1)] simp: backed_up_def\<close>)

lemma fd_invariant_link:
  assumes "\<And>t ev. ok t \<Longrightarrow> (\<forall>d. ev \<noteq> Received_data d) \<Longrightarrow>
      (ev = Buffer_empty_signal \<longrightarrow> output_bytes t = []) \<Longrightarrow> holds ok (H ev t)"
  shows "fd_invariant H ok"
  by unfold_locales (auto simp: backed_up_def assms)

lemma handler_invariant: "fd_invariant (link_handler C n) (ok :: ('b, 'c) link_scheme \<Rightarrow> bool)"
proof (induction n)
  case 0
  show ?case by (rule fd_invariant_link) simp
next
  case (Suc n)
  let ?H = "link_handler C n"
  have dis: "holds ok (tube_transport_disconnected_cb C (link_react C ?H) t)" if "ok t"
    for t :: "('b, 'c) link_scheme"
  proof -
    let ?t = "fire_connection_closed Cancelled t"
    have t: "ok ?t" "valid (lk_bytestream ?t)" using that by (simp_all add: backed_up_def)
    show ?thesis
      unfolding tube_transport_disconnected_cb_def Let_def
      using method_holds[where f = "fc_close C", OF Suc.IH t(1) close[OF t(2)]] t(1) by simp
  qed
  have empty: "holds ok (tube_buffer_empty_cb C ?H (link_react C ?H) t)" if "ok t" "output_bytes t = []"
    for t :: "('b, 'c) link_scheme"
  proof -
    have "holds ok (remove_transport ?H t)" using that(1) by (rule remove_holds[OF Suc.IH])
    moreover have "holds ok (on_bytestream (link_react C ?H) (fc_block C False) t)"
      unfolding on_bytestream_def holds_simps(3)
      by (rule holds_mono[OF block]) (use that in \<open>auto simp: backed_up_def\<close>)
    ultimately show ?thesis by (simp add: tube_buffer_empty_cb_def)
  qed
  show ?case
    by (rule fd_invariant_link) (auto simp: Let_def dis empty split: transport_event.split)
qed

lemma set_state_holds:
  assumes "fd_invariant H ok" "ok lk"
  shows "holds ok (fd_set_state H st lk)"
proof -
  have "holds ok (H (State_signal st) (lk\<lparr>fd_state := st\<rparr>))"
    by (rule fd_invariant.signalled[OF assms(1)]) (use assms(2) in \<open>simp_all add: backed_up_def\<close>)
  then show ?thesis using assms(2) by (simp add: fd_set_state_def)
qed

lemma tcp_holds:
  fixes lk :: "('b, 'c) link_scheme"
  assumes H: "fd_invariant H ok" and lk: "ok lk"
  shows "holds ok (tcp_failed H lk)" and "holds ok (tcp_connected H fd lk)"
proof -
  have cleaned: "ok (clean_all_connect_attempts lk)" using lk by (simp add: backed_up_def)
  then show "holds ok (tcp_failed H lk)" unfolding tcp_failed_def by (rule set_state_holds[OF H])
  have "holds ok (fd_set_fd H fd u)" if "ok u" for u :: "('b, 'c) link_scheme"
    unfolding fd_set_fd_def Let_def add_watch_def
    by (auto intro!: set_state_holds[OF H]) (use that in \<open>simp_all add: backed_up_def\<close>)
  with cleaned show "holds ok (tcp_connected H fd lk)" by (simp add: tcp_connected_def)
qed

lemma new_connect_attempt_holds:
  fixes lk :: "('b, 'c) link_scheme"
  assumes "fd_invariant H ok" "ok lk"
  shows "holds ok (new_connect_attempt H as lk)"
  using assms
proof (induction H as lk rule: new_connect_attempt.induct)
  case (1 H lk)
  have "ok (lk\<lparr>tcp_addresses := Some []\<rparr>)" using 1(2) by (simp add: backed_up_def)
  then show ?case unfolding new_connect_attempt.simps by (rule tcp_holds(1)[OF 1(1)])
next
  case (2 H fd reply rest lk)
  let ?lk = "lk\<lparr>tcp_addresses := Some ((fd, reply) # rest)\<rparr>"
  have lk: "ok ?lk" "ok (?lk\<lparr>tcp_channel := Some fd, tcp_watch := True\<rparr>)" using 2(3) by (simp_all add: backed_up_def)
  from lk(2) have "ok (clean_connect_attempt (?lk\<lparr>tcp_channel := Some fd, tcp_watch := True\<rparr>))"
    by (simp add: backed_up_def)
  then show ?case
    using tcp_holds(1)[OF 2(2) lk(1)] tcp_holds(2)[OF 2(2) lk(2), of fd] lk 2(1)[OF HOL.refl _ HOL.refl _ 2(2)]
    by (cases reply) (simp_all add: Let_def)
qed

lemma link_step_holds:
  fixes lk :: "('b, 'c) link_scheme"
  assumes "ok lk"
  shows "holds ok (link_step C p lk)"
proof (cases p)
  case (Local q)
  have "holds ok (tube_transport_handler C (link_react C (link_handler C 1)) d t)" if "ok t"
    for d and t :: "('b, 'c) link_scheme"
  proof -
    have "valid (lk_bytestream t)" using that by (simp add: backed_up_def)
    then show ?thesis
      unfolding tube_transport_handler_def
      using method_holds[where f = "fc_send C d", OF handler_invariant that send] that by simp
  qed
  with Local show ?thesis
    unfolding link_step_def
    by (simp, intro fd_invariant.watch_step_holds[OF handler_invariant assms])
       (simp add: numeral_2_eq_2 assms)
next
  case (Remote q)
  let ?H = "link_handler C 2"
  have received: "holds ok (tube_data_received_cb C ?H d t)"
    if t: "ok t" "output_bytes t = []" "length d \<le> 1024" for d and t :: "('b, 'c) link_scheme"
  proof -
    let ?Q = "\<lambda>u. valid (lk_bytestream u) \<and> length (output_bytes u) \<le> 1024
      \<and> reported fresh (lk_connection_id u) (lk_closed u)"
    have "holds (\<lambda>(r, t'). ok t' \<or> (r \<and> ?Q t')) (writeout ?H d t)"
      by (rule fd_invariant.writeout_holds[OF handler_invariant t(1)]) (use t in \<open>auto simp: backed_up_def\<close>)
    then have "holds (\<lambda>(r, t'). ok t' \<or> (r \<and> ?Q t')) (fd_send ?H d t)" by (simp add: fd_send_def)
    moreover have "holds ok (if \<not> r \<or> fd_buffer_is_empty u then Inr u
        else andthen (fc_block C True (lk_bytestream u)) (\<lambda>(b, _). Inr (u\<lparr>lk_bytestream := b\<rparr>)))"
      if "ok u \<or> (r \<and> ?Q u)" for r and u :: "('b, 'c) link_scheme"
    proof (cases "\<not> r \<or> fd_buffer_is_empty u")
      case True
      then show ?thesis using that by (auto simp: backed_up_def buffer_empty_iff)
    next
      case False
      have "valid (lk_bytestream u)" using that by (auto simp: backed_up_def)
      from block[OF this, of True] show ?thesis
        using that False by (auto simp: backed_up_def elim!: holds_mono)
    qed
    ultimately show ?thesis unfolding tube_data_received_cb_def
      by (auto elim!: holds_mono simp del: holds_simps(4))
  qed
  have lk: "valid (lk_bytestream lk)" "\<not> blocked (lk_bytestream lk) \<Longrightarrow> output_bytes lk = []"
    using assms by (auto simp: backed_up_def)
  have "holds ok (foldo (link_react C ?H) es (lk\<lparr>lk_bytestream := b\<rparr>))"
    if b: "valid b" "blocked b = blocked (lk_bytestream lk)"
      "if blocked (lk_bytestream lk) then no_data es else one_block es" for b es
  proof (cases "no_data es")
    case True
    have "ok (lk\<lparr>lk_bytestream := b\<rparr>)" using assms b(1,2) by (simp add: backed_up_def)
    then show ?thesis using True by (rule reactions_hold[OF handler_invariant])
  next
    case False
    then obtain d where "length d \<le> 1024" "es = [Data_received d]" "\<not> blocked (lk_bytestream lk)"
      using b(3) by (auto simp: one_block_def split: if_splits)
    moreover from this have "ok (lk\<lparr>lk_bytestream := b\<rparr>)" "output_bytes lk = []"
      using assms b(1,2) lk(2) by (simp_all add: backed_up_def)
    ultimately show ?thesis by (auto simp: link_react_def intro!: received)
  qed
  then show ?thesis using Remote step[OF lk(1), of q]
    unfolding link_step_def on_bytestream_def by (auto elim!: holds_mono)
next
  case (Connecting reply)
  have "ok (clean_connect_attempt lk)" using assms by (simp add: backed_up_def)
  then have "holds (\<lambda>(keep, lk'). ok lk') (try_to_connect (link_handler C 2) reply lk)"
    using assms unfolding try_to_connect_def
    by (auto intro!: holds_mono[OF tcp_holds(2)[OF handler_invariant]]
        holds_mono[OF new_connect_attempt_holds[OF handler_invariant]]
        split: option.split connect_reply.split)
  then show ?thesis using Connecting assms by (auto simp: link_step_def elim!: holds_mono)
qed

lemma link_run_holds:
  fixes lk :: "('b, 'c) link_scheme"
  shows "ok lk \<Longrightarrow> holds ok (link_run C ps lk)"
  unfolding link_run_def by (rule foldo_holds) (auto intro: link_step_holds)

end

sublocale stream_laws \<subseteq> links: flow_links "stream_flow k" bst_read_blocked reads_watched fresh for fresh
  by unfold_locales

end
