(* ===== verification/Tube_Stream.thy ===== *)
theory Tube_Stream
  imports Tube_Link Tube_Dbus
begin

text \<open>
  Stream tubes, \<open>src/tube-stream.c\<close>: the tube as a channel (offered, accepted, opened, closed), the socket
  on which it listens for local applications or the service it connects them to, the listener for the
  peer, and its connections, each a \<open>link\<close>. What the code asks for outside is an argument: the
  bytestream it creates for a contact it knows, the kernel's answers when it connects or listens, the result
  of a negotiation. A bytestream is a value of \<open>'b\<close> with its methods; \<open>ts_signals\<close> is what the tube emits
  and sends, except for the connections that are closed, which each \<open>link\<close> lists itself.
\<close>

section \<open>Data\<close>

datatype socket_address_type =
    SOCKET_ADDRESS_TYPE_UNIX | SOCKET_ADDRESS_TYPE_IPV4 | SOCKET_ADDRESS_TYPE_IPV6
  | Other_address_type nat

text \<open>The \<open>GValue\<close> of an address, by its type: \<open>ay\<close>, or an IP address and a port.\<close>

datatype tube_address =
    Path_address "u8 list"
  | Ip4_address "u8 list" nat
  | Ip6_address "u8 list" nat
  | Other_value

datatype tube_error = Invalid_argument | Not_implemented | Cannot_listen listener_error

datatype stream_signal =
    Tube_event tube_signal
  | New_connection u32
  | New_remote_connection u32 u32 \<comment> \<open>the contact and the connection id\<close>
  | New_local_connection u32
  | Connection_closed u32 close_reason
  | Iq_result_sent
  | Close_sent

record 'b tube_stream =
  ts_handle_type :: handle_type
  ts_requested :: bool
  ts_iq_req :: bool
  ts_links :: "'b link list"
  ts_negotiating :: "(tcp_transport \<times> u32) list" \<comment> \<open>transports that wait for an answer to the stream initiation\<close>
  ts_last_connection_id :: u32
  ts_state :: tube_state
  ts_address_type :: socket_address_type
  ts_address :: "tube_address option"
  ts_access_control :: access_control
  ts_local_listener :: "listener option"
  ts_contact_listener :: "listener option"
  ts_offer_needed :: bool
  ts_destroyed :: bool
  ts_signals :: "stream_signal list"

text \<open>The methods of a bytestream that set it up. \<open>tb_initiate\<close> and \<open>tb_accept_socket\<close> say whether they succeed.\<close>

record 'b tube_bytestream =
  tb_flow :: "'b flow_class"
  tb_initiate :: "'b \<Rightarrow> (bool \<times> 'b \<times> stream_event list) outcome"
  tb_accept_socket :: "int \<Rightarrow> 'b \<Rightarrow> (bool \<times> 'b \<times> stream_event list) outcome"
  tb_accept :: "'b flow_method"

text \<open>The service of the local application, as the kernel answers when the tube connects to it.\<close>

record service =
  sv_unix :: "int option"
  sv_tcp :: "(int \<times> connect_reply) list option"

definition ts_emit :: "stream_signal \<Rightarrow> 'b tube_stream \<Rightarrow> 'b tube_stream" where
  "ts_emit s ts = ts\<lparr>ts_signals := ts_signals ts @ [s]\<rparr>"

text \<open>The constructor; \<open>initiated\<close> says that the initiator is ourselves.\<close>

definition tube_stream_new :: "handle_type \<Rightarrow> bool \<Rightarrow> bool \<Rightarrow> bool \<Rightarrow> 'b tube_stream" where
  "tube_stream_new ht requested initiated iq =
     \<lparr>ts_handle_type = ht, ts_requested = requested, ts_iq_req = iq, ts_links = [], ts_negotiating = [],
      ts_last_connection_id = 0,
      ts_state = (if initiated then TUBE_STATE_NOT_OFFERED else TUBE_STATE_LOCAL_PENDING),
      ts_address_type = SOCKET_ADDRESS_TYPE_UNIX, ts_address = None, ts_access_control = ACCESS_CONTROL_LOCALHOST,
      ts_local_listener = None, ts_contact_listener = None, ts_offer_needed = initiated,
      ts_destroyed = False, ts_signals = []\<rparr>"

section \<open>Connections\<close>

definition transport_new :: "write_reply list \<Rightarrow> tcp_transport" where
  "transport_new replies =
     \<lparr>fd_state = TRANSPORT_DISCONNECTED, fd_handler = False, fd_fd = - 1, fd_channel = False, fd_watch_in = 0,
      fd_watch_out = 0, fd_watch_err = 0, fd_output_buffer = None, fd_receiving_blocked = False,
      fd_dispose_has_run = False, ml_sources = [], ml_next = 1, os_replies = replies, os_written = [],
      fd_accepted = [], tcp_addresses = None, tcp_channel = None, tcp_watch = False\<rparr>"

text \<open>
  The pair is inserted into \<open>bytestream_to_transport\<close>, and the tube connects to the state of the
  bytestream.
\<close>

definition link_of :: "tcp_transport \<Rightarrow> u32 \<Rightarrow> 'b \<Rightarrow> 'b link" where
  "link_of t i b = tcp_transport.extend t (link.fields b True False i True False False [])"

definition on_link ::
    "nat \<Rightarrow> ('b link \<Rightarrow> 'b link outcome) \<Rightarrow> 'b tube_stream \<Rightarrow> 'b tube_stream outcome" where
  "on_link i f ts =
     (if i < length (ts_links ts)
      then andthen (f (ts_links ts ! i)) (\<lambda>lk. Inr (ts\<lparr>ts_links := (ts_links ts)[i := lk]\<rparr>))
      else Inr ts)"

definition tube_react :: "'b tube_bytestream \<Rightarrow> ('b, unit) reaction" where
  "tube_react B = link_react (tb_flow B) (link_handler (tb_flow B) 2)"

text \<open>A method with a result.\<close>

definition ask_bytestream ::
    "'b tube_bytestream \<Rightarrow> ('b \<Rightarrow> (bool \<times> 'b \<times> stream_event list) outcome) \<Rightarrow> 'b link \<Rightarrow> (bool \<times> 'b link) outcome" where
  "ask_bytestream B f lk =
     andthen (f (lk_bytestream lk)) (\<lambda>(r, b, es).
     andthen (foldo (tube_react B) es (lk\<lparr>lk_bytestream := b\<rparr>)) (\<lambda>lk. Inr (r, lk)))"

text \<open>\<open>generate_connection_id\<close> returns the id; the caller has the transport.\<close>

definition generate_connection_id :: "'b tube_stream \<Rightarrow> u32 \<times> 'b tube_stream" where
  "generate_connection_id ts =
     (let i = ts_last_connection_id ts + 1 in (i, ts\<lparr>ts_last_connection_id := i\<rparr>))"

text \<open>
  A local application has connected, and gets a bytestream of its own. \<open>b\<close> is the bytestream to the
  initiator, if the contact is known.
\<close>

definition start_stream_direct ::
    "'b tube_bytestream \<Rightarrow> 'b option \<Rightarrow> tcp_transport \<Rightarrow> 'b tube_stream \<Rightarrow> (bool \<times> 'b tube_stream) outcome" where
  "start_stream_direct B b t ts =
     andthen (assert_that (ts_handle_type ts = TP_HANDLE_TYPE_CONTACT)) (\<lambda>_.
     case b of
       None \<Rightarrow> Inr (False, ts)
     | Some b \<Rightarrow>
         andthen (ask_bytestream B (tb_initiate B) (link_of t 0 b)) (\<lambda>(ok, lk).
         if ok then Inr (True, ts\<lparr>ts_links := ts_links ts @ [lk]\<rparr>)
         else
           andthen (on_bytestream (tube_react B) (fc_close (tb_flow B)) lk) (\<lambda>lk.
           Inr (False, ts\<lparr>ts_links := ts_links ts @ [lk]\<rparr>))))"

text \<open>
  \<open>negotiated\<close>: \<open>None\<close> if the contact is not known, and then what the error path has freed is freed
  again, else the result of \<open>negotiate_stream\<close>.
\<close>

definition start_stream_initiation :: "bool option \<Rightarrow> 'b tube_stream \<Rightarrow> bool outcome" where
  "start_stream_initiation negotiated ts =
     andthen (assert_that (ts_handle_type ts = TP_HANDLE_TYPE_ROOM)) (\<lambda>_. deref negotiated)"

definition local_new_connection_cb ::
    "'b tube_bytestream \<Rightarrow> 'b option \<Rightarrow> bool option \<Rightarrow> int \<Rightarrow> write_reply list \<Rightarrow> 'b tube_stream \<Rightarrow> 'b tube_stream outcome" where
  "local_new_connection_cb B b negotiated fd replies ts =
     andthen (listener_accept fd (transport_new replies)) (\<lambda>t.
     let t = fd_block_receiving True t in
     case ts_handle_type ts of
       TP_HANDLE_TYPE_CONTACT \<Rightarrow>
         andthen (start_stream_direct B b t ts) (\<lambda>(ok, ts).
         if \<not> ok then Inr ts
         else
           let (i, ts) = generate_connection_id ts in
           andthen (on_link (length (ts_links ts) - 1) (\<lambda>lk. Inr (lk\<lparr>lk_connection_id := i\<rparr>)) ts) (\<lambda>ts.
           Inr (ts_emit (New_local_connection i) ts)))
     | TP_HANDLE_TYPE_ROOM \<Rightarrow>
         andthen (start_stream_initiation negotiated ts) (\<lambda>ok.
         if \<not> ok then Inr ts
         else
           let (i, ts) = generate_connection_id ts in
           Inr (ts_emit (New_local_connection i) (ts\<lparr>ts_negotiating := ts_negotiating ts @ [(t, i)]\<rparr>))))"

text \<open>
  The answer to the initiation of the stream number \<open>k\<close>: the bytestream, unless it was refused. Nothing keeps the tube
  for the callback, so when it has been closed it is gone.
\<close>

definition extra_bytestream_negotiate_cb :: "nat \<Rightarrow> 'b option \<Rightarrow> 'b tube_stream \<Rightarrow> 'b tube_stream outcome" where
  "extra_bytestream_negotiate_cb k b ts =
     (if k \<ge> length (ts_negotiating ts) then Inr ts
      else
        let (t, i) = ts_negotiating ts ! k;
            waiting = take k (ts_negotiating ts) @ drop (Suc k) (ts_negotiating ts)
        in if ts_destroyed ts then Inl Null_dereference
           else case b of
             None \<Rightarrow>
               Inr (let ts = ts\<lparr>ts_negotiating := waiting\<rparr> in
                    if i = 0 then ts else ts_emit (Connection_closed i Connection_refused) ts)
           | Some b \<Rightarrow> Inr (ts\<lparr>ts_negotiating := waiting, ts_links := ts_links ts @ [link_of t i b]\<rparr>))"

text \<open>The peer has connected: the tube connects to the service of the local application.\<close>

definition new_connection_to_socket ::
    "service \<Rightarrow> 'b \<Rightarrow> write_reply list \<Rightarrow> 'b tube_stream \<Rightarrow> 'b tube_stream outcome" where
  "new_connection_to_socket V b replies ts =
     andthen (assert_that (ts_requested ts)) (\<lambda>_.
     andthen (case ts_address_type ts of
                SOCKET_ADDRESS_TYPE_UNIX \<Rightarrow>
                  andthen (deref (ts_address ts)) (\<lambda>_.
                  andthen (unix_connect nobody False (sv_unix V) (transport_new replies)) (\<lambda>(_, t). Inr t))
              | Other_address_type n \<Rightarrow> Inl Assertion_failed
              | _ \<Rightarrow>
                  andthen (deref (ts_address ts)) (\<lambda>_. tcp_connect nobody (sv_tcp V) (transport_new replies))) (\<lambda>t.
     let t = fd_block_receiving True t; (i, ts) = generate_connection_id ts
     in Inr (ts\<lparr>ts_links := ts_links ts @ [link_of t i b]\<rparr>)))"

text \<open>The result says whether the bytestream was taken, as the connection at the end of the list.\<close>

definition tube_stream_add_bytestream ::
    "'b tube_bytestream \<Rightarrow> service \<Rightarrow> u32 \<Rightarrow> 'b \<Rightarrow> write_reply list \<Rightarrow> 'b tube_stream \<Rightarrow> (bool \<times> 'b tube_stream) outcome" where
  "tube_stream_add_bytestream B V contact b replies ts =
     (if \<not> ts_requested ts then andthen (fc_close (tb_flow B) b) (\<lambda>_. Inr (False, ts))
      else
        andthen (new_connection_to_socket V b replies ts) (\<lambda>ts.
        let n = length (ts_links ts) - 1;
            ts = (if ts_state ts = TUBE_STATE_REMOTE_PENDING
                  then ts_emit (Tube_event Tube_opened) (ts\<lparr>ts_state := TUBE_STATE_OPEN\<rparr>) else ts)
        in andthen (on_link n (on_bytestream (tube_react B) (tb_accept B)) ts) (\<lambda>ts.
           let ts = ts_emit (New_connection contact) ts in
           andthen (assert_that (ts_access_control ts = ACCESS_CONTROL_LOCALHOST)) (\<lambda>_.
           let i = lk_connection_id (ts_links ts ! n) in
           andthen (assert_that (i \<noteq> 0)) (\<lambda>_. Inr (True, ts_emit (New_remote_connection contact i) ts))))))"

text \<open>
  A connection to \<open>contact_listener\<close>; \<open>peer\<close> is a new bytestream to the contact and the handle of its name,
  if the contact is known.
\<close>

definition contact_new_connection_cb ::
    "'b tube_bytestream \<Rightarrow> service \<Rightarrow> ('b \<times> u32) option \<Rightarrow> int \<Rightarrow> write_reply list \<Rightarrow> 'b tube_stream \<Rightarrow> 'b tube_stream outcome" where
  "contact_new_connection_cb B V peer fd replies ts =
     andthen (assert_that (fd \<ge> 0)) (\<lambda>_.
     andthen (assert_that (ts_handle_type ts = TP_HANDLE_TYPE_CONTACT)) (\<lambda>_.
     case peer of
       None \<Rightarrow> Inr ts
     | Some (b, contact) \<Rightarrow>
         andthen (tube_stream_add_bytestream B V contact b replies ts) (\<lambda>(taken, ts).
         if \<not> taken then Inr ts
         else on_link (length (ts_links ts) - 1)
                (\<lambda>lk. andthen (ask_bytestream B (tb_accept_socket B fd) lk) (\<lambda>(_, lk). Inr lk)) ts)))"

section \<open>Opening and closing\<close>

text \<open>\<open>suffix\<close> are the random characters of the name of the socket.\<close>

definition loopback4 :: "u8 list" where
  "loopback4 = map of_char ''127.0.0.1''"

definition loopback6 :: "u8 list" where
  "loopback6 = map of_char ''::1''"

definition stream_path :: "u8 list \<Rightarrow> u8 list" where
  "stream_path suffix = map of_char ''/tmp/stream-'' @ suffix"

definition tube_stream_open ::
    "kernel \<Rightarrow> nat list \<Rightarrow> 'b tube_stream \<Rightarrow> (listener_error option \<times> 'b tube_stream) outcome" where
  "tube_stream_open K random ts =
     (if ts_requested ts then Inr (None, ts)
      else
        andthen (assert_that (ts_address ts = None \<and> ts_local_listener ts = None)) (\<lambda>_.
        case ts_address_type ts of
          SOCKET_ADDRESS_TYPE_UNIX \<Rightarrow>
            (let (ok, err, l) = listen_socket K False listener_new;
                 ts = ts\<lparr>ts_address := Some (Path_address (stream_path (generate_ascii_string (take 8 random)))),
                         ts_local_listener := Some l\<rparr>
             in if ok then Inr (None, ts)
                else andthen (assert_that (err \<noteq> None)) (\<lambda>_. Inr (err, ts)))
        | SOCKET_ADDRESS_TYPE_IPV4 \<Rightarrow>
            andthen (listen_tcp_af K 0 (Some [FAMILY_INET]) listener_new) (\<lambda>(ok, err, l).
            let ts = ts\<lparr>ts_local_listener := Some l\<rparr> in
            if ok then Inr (None, ts\<lparr>ts_address := Some (Ip4_address loopback4 (li_port l))\<rparr>)
            else andthen (assert_that (err \<noteq> None)) (\<lambda>_. Inr (err, ts)))
        | SOCKET_ADDRESS_TYPE_IPV6 \<Rightarrow>
            andthen (listen_tcp_af K 0 (Some [FAMILY_INET6]) listener_new) (\<lambda>(ok, err, l).
            let ts = ts\<lparr>ts_local_listener := Some l\<rparr> in
            if ok then Inr (None, ts\<lparr>ts_address := Some (Ip6_address loopback6 (li_port l))\<rparr>)
            else andthen (assert_that (err \<noteq> None)) (\<lambda>_. Inr (err, ts)))
        | Other_address_type n \<Rightarrow> Inl Assertion_failed))"

text \<open>Closing. The signals of both ends are disconnected first, so neither end calls the tube back.\<close>

definition close_each_extra_bytestream :: "'b flow_class \<Rightarrow> 'b link \<Rightarrow> 'b link outcome" where
  "close_each_extra_bytestream C lk =
     (if \<not> lk_to_transport lk then Inr lk
      else
        let lk = lk\<lparr>lk_state_cb := False, lk_data_cbs := False, lk_transport_cbs := False\<rparr> in
        andthen (fc_close C (lk_bytestream lk)) (\<lambda>(b, _).
        andthen (do_disconnect nobody (lk\<lparr>lk_bytestream := b\<rparr>)) (\<lambda>lk.
        Inr (clean_all_connect_attempts
          ((fire_connection_closed Cancelled lk)\<lparr>lk_to_bytestream := False, lk_to_transport := False\<rparr>)))))"

primrec close_links :: "'b flow_class \<Rightarrow> 'b link list \<Rightarrow> 'b link list outcome" where
  "close_links C [] = Inr []"
| "close_links C (lk # lks) =
     andthen (close_each_extra_bytestream C lk) (\<lambda>lk. andthen (close_links C lks) (\<lambda>lks. Inr (lk # lks)))"

definition tube_stream_close ::
    "'b tube_bytestream \<Rightarrow> bool \<Rightarrow> 'b tube_stream \<Rightarrow> 'b tube_stream outcome" where
  "tube_stream_close B closed_remotely ts =
     (if ts_destroyed ts then Inr ts
      else
        andthen (close_links (tb_flow B) (ts_links ts)) (\<lambda>lks.
        let ts = ts\<lparr>ts_links := lks\<rparr>;
            ts = (if \<not> closed_remotely \<and> ts_handle_type ts = TP_HANDLE_TYPE_CONTACT then ts_emit Close_sent ts else ts);
            ts = (if ts_handle_type ts = TP_HANDLE_TYPE_CONTACT then ts\<lparr>ts_contact_listener := None\<rparr> else ts)
        in Inr (ts_emit (Tube_event Channel_destroyed) (ts_emit (Tube_event Tube_closed) ts)
                  \<lparr>ts_destroyed := True\<rparr>)))"

section \<open>Offering and accepting\<close>

definition tube_stream_accept ::
    "'b tube_bytestream \<Rightarrow> kernel \<Rightarrow> nat list \<Rightarrow> 'b tube_stream \<Rightarrow> (tube_error option \<times> 'b tube_stream) outcome" where
  "tube_stream_accept B K random ts =
     (if ts_state ts \<noteq> TUBE_STATE_LOCAL_PENDING then Inr (None, ts)
      else
        andthen (tube_stream_open K random ts) (\<lambda>(err, ts).
        case err of
          Some e \<Rightarrow> andthen (tube_stream_close B False ts) (\<lambda>ts. Inr (Some (Cannot_listen e), ts))
        | None \<Rightarrow>
            andthen (if ts_handle_type ts = TP_HANDLE_TYPE_CONTACT
                     then andthen (assert_that (ts_iq_req ts)) (\<lambda>_. Inr (ts_emit Iq_result_sent (ts\<lparr>ts_iq_req := False\<rparr>)))
                     else Inr ts) (\<lambda>ts.
            Inr (None, ts_emit (Tube_event (Tube_state_changed TUBE_STATE_OPEN))
                   (ts_emit (Tube_event Tube_opened) (ts\<lparr>ts_state := TUBE_STATE_OPEN\<rparr>))))))"

definition tube_stream_accepted :: "'b tube_stream \<Rightarrow> 'b tube_stream" where
  "tube_stream_accepted ts =
     (if ts_state ts = TUBE_STATE_OPEN then ts
      else ts_emit (Tube_event (Tube_state_changed TUBE_STATE_OPEN))
             (ts_emit (Tube_event Tube_opened) (ts\<lparr>ts_state := TUBE_STATE_OPEN\<rparr>)))"

definition tube_stream_offer_needed :: "'b tube_stream \<Rightarrow> bool \<times> 'b tube_stream" where
  "tube_stream_offer_needed ts = (ts_offer_needed ts, ts\<lparr>ts_offer_needed := False\<rparr>)"

text \<open>The result is the port, or \<open>-1\<close>; \<open>families\<close> are those of the addresses from \<open>getaddrinfo\<close>.\<close>

definition tube_stream_listen :: "kernel \<Rightarrow> family list option \<Rightarrow> 'b tube_stream \<Rightarrow> (int \<times> 'b tube_stream) outcome" where
  "tube_stream_listen K families ts =
     andthen (assert_that (ts_contact_listener ts = None)) (\<lambda>_.
     andthen (listen_tcp_af K 0 families listener_new) (\<lambda>(ok, err, l).
     Inr (if ok then int (li_port l) else - 1, ts\<lparr>ts_contact_listener := Some l\<rparr>)))"

definition tube_stream_offer :: "'b tube_stream \<Rightarrow> 'b tube_stream outcome" where
  "tube_stream_offer ts =
     andthen (assert_that (ts_state ts = TUBE_STATE_NOT_OFFERED)) (\<lambda>_.
     Inr (ts_emit (Tube_event Tube_offered)
       (case ts_handle_type ts of
          TP_HANDLE_TYPE_CONTACT \<Rightarrow>
            ts_emit (Tube_event (Tube_state_changed TUBE_STATE_REMOTE_PENDING))
              (ts\<lparr>ts_state := TUBE_STATE_REMOTE_PENDING\<rparr>)
        | TP_HANDLE_TYPE_ROOM \<Rightarrow>
            ts_emit (Tube_event Tube_opened)
              (ts_emit (Tube_event (Tube_state_changed TUBE_STATE_OPEN)) (ts\<lparr>ts_state := TUBE_STATE_OPEN\<rparr>)))))"

text \<open>
  The checks of an address. \<open>stat\<close> of a path: whether it is a socket, unless it fails. \<open>numeric\<close> says which
  strings are numeric addresses of a family; a path has at most the size of \<open>sun_path\<close>, without its end.
\<close>

definition SUN_PATH_SIZE :: nat where
  "SUN_PATH_SIZE = 108"

definition check_unix_params ::
    "(u8 list \<Rightarrow> bool option) \<Rightarrow> tube_address \<Rightarrow> access_control \<Rightarrow> bool" where
  "check_unix_params stat address ac =
     (case address of
        Path_address path \<Rightarrow>
          if length path > SUN_PATH_SIZE - 1 then False
          else if 0 \<in> set path then False
          else if stat path \<noteq> Some True then False
          else ac = ACCESS_CONTROL_LOCALHOST
      | _ \<Rightarrow> False)"

definition check_ip_params ::
    "(family \<Rightarrow> u8 list \<Rightarrow> bool) \<Rightarrow> socket_address_type \<Rightarrow> tube_address \<Rightarrow> access_control \<Rightarrow> bool outcome" where
  "check_ip_params numeric ty address ac =
     (case (ty, address) of
        (SOCKET_ADDRESS_TYPE_IPV4, Ip4_address ip port) \<Rightarrow> Inr (numeric FAMILY_INET ip \<and> ac = ACCESS_CONTROL_LOCALHOST)
      | (SOCKET_ADDRESS_TYPE_IPV4, _) \<Rightarrow> Inr False
      | (SOCKET_ADDRESS_TYPE_IPV6, Ip6_address ip port) \<Rightarrow> Inr (numeric FAMILY_INET6 ip \<and> ac = ACCESS_CONTROL_LOCALHOST)
      | (SOCKET_ADDRESS_TYPE_IPV6, _) \<Rightarrow> Inr False
      | _ \<Rightarrow> Inl Assertion_failed)"

definition check_params ::
    "(u8 list \<Rightarrow> bool option) \<Rightarrow> (family \<Rightarrow> u8 list \<Rightarrow> bool) \<Rightarrow> socket_address_type \<Rightarrow> tube_address
     \<Rightarrow> access_control \<Rightarrow> tube_error option outcome" where
  "check_params stat numeric ty address ac =
     (case ty of
        SOCKET_ADDRESS_TYPE_UNIX \<Rightarrow>
          Inr (if check_unix_params stat address ac then None else Some Invalid_argument)
      | Other_address_type n \<Rightarrow> Inr (Some Not_implemented)
      | _ \<Rightarrow>
          andthen (check_ip_params numeric ty address ac) (\<lambda>ok. Inr (if ok then None else Some Invalid_argument)))"

definition tube_stream_offer_async ::
    "(u8 list \<Rightarrow> bool option) \<Rightarrow> (family \<Rightarrow> u8 list \<Rightarrow> bool) \<Rightarrow> socket_address_type \<Rightarrow> tube_address
     \<Rightarrow> access_control \<Rightarrow> 'b tube_stream \<Rightarrow> (tube_error option \<times> 'b tube_stream) outcome" where
  "tube_stream_offer_async stat numeric ty address ac ts =
     (if ts_state ts \<noteq> TUBE_STATE_NOT_OFFERED then Inr (Some Invalid_argument, ts)
      else
        andthen (check_params stat numeric ty address ac) (\<lambda>err.
        case err of
          Some e \<Rightarrow> Inr (Some e, ts)
        | None \<Rightarrow>
            andthen (assert_that (case ty of Other_address_type n \<Rightarrow> False | _ \<Rightarrow> True)) (\<lambda>_.
            andthen (assert_that (ts_address ts = None)) (\<lambda>_.
            andthen (assert_that (ts_access_control ts = ACCESS_CONTROL_LOCALHOST)) (\<lambda>_.
            andthen (tube_stream_offer
              (ts\<lparr>ts_address_type := ty, ts_address := Some address, ts_access_control := ac\<rparr>)) (\<lambda>ts.
            Inr (None, ts)))))))"

definition tube_stream_accept_async ::
    "'b tube_bytestream \<Rightarrow> kernel \<Rightarrow> nat list \<Rightarrow> socket_address_type \<Rightarrow> access_control \<Rightarrow> 'b tube_stream
     \<Rightarrow> (tube_error option \<times> 'b tube_stream) outcome" where
  "tube_stream_accept_async B K random ty ac ts =
     (if ts_state ts \<noteq> TUBE_STATE_LOCAL_PENDING then Inr (Some Invalid_argument, ts)
      else case ty of
        Other_address_type n \<Rightarrow> Inr (Some Not_implemented, ts)
      | _ \<Rightarrow>
          if ac \<noteq> ACCESS_CONTROL_LOCALHOST then Inr (Some Invalid_argument, ts)
          else tube_stream_accept B K random (ts\<lparr>ts_address_type := ty, ts_access_control := ac\<rparr>))"

section \<open>The tube\<close>

text \<open>What happens to a tube: calls over D-Bus and from the manager of the tubes, and the main loop.\<close>

datatype 'b tube_op =
    Op_offer "u8 list \<Rightarrow> bool option" "family \<Rightarrow> u8 list \<Rightarrow> bool" socket_address_type tube_address access_control
  | Op_accept kernel "nat list" socket_address_type access_control
  | Op_accepted
  | Op_listen kernel "family list option"
  | Op_close_tube bool
  | Op_local_connection "'b option" "bool option" int "write_reply list"
  | Op_contact_connection service "('b \<times> u32) option" int "write_reply list"
  | Op_bytestream service u32 'b "write_reply list"
  | Op_negotiated nat "'b option"
  | Op_link nat link_op
  | Op_waiting nat watch_op

text \<open>The main loop runs for a transport that waits for the answer, too; nobody listens to it yet.\<close>

definition waiting_step :: "nat \<Rightarrow> watch_op \<Rightarrow> 'b tube_stream \<Rightarrow> 'b tube_stream outcome" where
  "waiting_step k q ts =
     (if k < length (ts_negotiating ts)
      then
        let (t, i) = ts_negotiating ts ! k in
        andthen (watch_step nobody q t) (\<lambda>t. Inr (ts\<lparr>ts_negotiating := (ts_negotiating ts)[k := (t, i)]\<rparr>))
      else Inr ts)"

definition tube_step :: "'b tube_bytestream \<Rightarrow> 'b tube_op \<Rightarrow> 'b tube_stream \<Rightarrow> 'b tube_stream outcome" where
  "tube_step B p ts =
     (case p of
        Op_offer stat numeric ty a ac \<Rightarrow>
          andthen (tube_stream_offer_async stat numeric ty a ac ts) (\<lambda>(_, ts). Inr ts)
      | Op_accept K random ty ac \<Rightarrow>
          andthen (tube_stream_accept_async B K random ty ac ts) (\<lambda>(_, ts). Inr ts)
      | Op_accepted \<Rightarrow> Inr (tube_stream_accepted ts)
      | Op_listen K families \<Rightarrow> andthen (tube_stream_listen K families ts) (\<lambda>(_, ts). Inr ts)
      | Op_close_tube remotely \<Rightarrow> tube_stream_close B remotely ts
      | Op_local_connection b negotiated fd replies \<Rightarrow> local_new_connection_cb B b negotiated fd replies ts
      | Op_contact_connection V peer fd replies \<Rightarrow> contact_new_connection_cb B V peer fd replies ts
      | Op_bytestream V contact b replies \<Rightarrow>
          andthen (tube_stream_add_bytestream B V contact b replies ts) (\<lambda>(_, ts). Inr ts)
      | Op_negotiated k b \<Rightarrow> extra_bytestream_negotiate_cb k b ts
      | Op_link i q \<Rightarrow> on_link i (link_step (tb_flow B) q) ts
      | Op_waiting k q \<Rightarrow> waiting_step k q ts)"

definition tube_run :: "'b tube_bytestream \<Rightarrow> 'b tube_op list \<Rightarrow> 'b tube_stream \<Rightarrow> 'b tube_stream outcome" where
  "tube_run B = foldo (tube_step B)"

section \<open>Tubes over direct bytestreams and over stream initiation\<close>

definition with_result ::
    "('a stream_scheme \<Rightarrow> (bool \<times> 'a stream_scheme) outcome) \<Rightarrow> 'a stream_scheme
     \<Rightarrow> (bool \<times> 'a stream_scheme \<times> stream_event list) outcome" where
  "with_result f t =
     andthen (f (t\<lparr>bst_events := []\<rparr>)) (\<lambda>(r, t). Inr (r, t\<lparr>bst_events := []\<rparr>, bst_events t))"

definition direct_tube :: "'a direct_scheme tube_bytestream" where
  "direct_tube =
     \<lparr>tb_flow = direct_flow, tb_initiate = with_result direct_initiate,
      tb_accept_socket = (\<lambda>fd. with_result (direct_accept_socket fd)), tb_accept = (\<lambda>b. Inr (b, []))\<rparr>"

text \<open>A bytestream that came through stream initiation is neither initiated nor given a socket by the tube.\<close>

definition oob_tube :: "'a oob_scheme tube_bytestream" where
  "oob_tube =
     \<lparr>tb_flow = oob_flow, tb_initiate = (\<lambda>b. Inr (False, b, [])),
      tb_accept_socket = (\<lambda>fd b. Inr (False, b, [])), tb_accept = with_events (\<lambda>b. Inr (oob_accept b))\<rparr>"

end
