(* ===== verification/Tube_Properties.thy ===== *)
theory Tube_Properties
  imports Link_Flow Tube_Stream
begin

text \<open>
  What stream tubes promise. \<open>tube_laws\<close> adds to \<open>flow_laws\<close> what a tube needs of the methods that set a
  bytestream up; from it follows the invariant of all connections of a tube. The life cycle of a tube
  does not depend on its bytestreams.
\<close>

section \<open>Back-pressure of all connections\<close>

interpretation idle: fd_invariant nobody "\<lambda>t :: 'a fd_transport_scheme. output_bytes t = []"
  by unfold_locales (simp_all add: nobody_def)

definition link_ok :: "('b \<Rightarrow> bool) \<Rightarrow> ('b \<Rightarrow> bool) \<Rightarrow> 'b link \<Rightarrow> bool" where
  "link_ok = backed_up False"

definition tube_ok :: "('b \<Rightarrow> bool) \<Rightarrow> ('b \<Rightarrow> bool) \<Rightarrow> 'b tube_stream \<Rightarrow> bool" where
  "tube_ok blocked valid ts \<longleftrightarrow>
     (\<forall>lk \<in> set (ts_links ts). link_ok blocked valid lk) \<and> (\<forall>(t, i) \<in> set (ts_negotiating ts). output_bytes t = [])"

definition op_ok :: "('b \<Rightarrow> bool) \<Rightarrow> 'b tube_op \<Rightarrow> bool" where
  "op_ok new p \<longleftrightarrow>
     (case p of
        Op_local_connection (Some b) _ _ _ \<Rightarrow> new b
      | Op_contact_connection _ (Some (b, _)) _ _ \<Rightarrow> new b
      | Op_bytestream _ _ b _ \<Rightarrow> new b
      | Op_negotiated _ (Some b) \<Rightarrow> new b
      | _ \<Rightarrow> True)"

locale tube_laws = flow_laws "tb_flow B" blocked valid for B :: "'b tube_bytestream" and blocked valid +
  fixes new :: "'b \<Rightarrow> bool"
  assumes new: "new b \<Longrightarrow> valid b"
    and initiate: "new b \<Longrightarrow> holds (\<lambda>(r, b', es). valid b' \<and> blocked b' = blocked b \<and> no_data es) (tb_initiate B b)"
    and accept_socket: "new b \<Longrightarrow>
      holds (\<lambda>(r, b', es). valid b' \<and> blocked b' = blocked b \<and> no_data es) (tb_accept_socket B fd b)"
    and accept: "new b \<Longrightarrow>
      holds (\<lambda>(b', es). new b' \<and> blocked b' = blocked b \<and> (\<forall>e \<in> set es. e = State_changed BYTESTREAM_STATE_ACCEPTED)) (tb_accept B b)"

sublocale tube_laws \<subseteq> links: flow_links "tb_flow B" blocked valid fresh for fresh
  by unfold_locales

lemma link_of_fields [simp]:
  "lk_bytestream (link_of t i b) = b" "lk_connection_id (link_of t i b) = i" "lk_closed (link_of t i b) = []"
  "output_bytes (link_of t i b) = output_bytes t"
  by (simp_all add: link_of_def link.defs tcp_transport.extend_def output_bytes_def)

lemma tube_ok_simps [simp]:
  "tube_ok f g (ts_emit s ts) = tube_ok f g ts" "tube_ok f g (ts\<lparr>ts_state := st\<rparr>) = tube_ok f g ts"
  "tube_ok f g (ts\<lparr>ts_last_connection_id := i\<rparr>) = tube_ok f g ts" "tube_ok f g (ts\<lparr>ts_iq_req := x\<rparr>) = tube_ok f g ts"
  "tube_ok f g (ts\<lparr>ts_address := a\<rparr>) = tube_ok f g ts" "tube_ok f g (ts\<lparr>ts_address_type := ty\<rparr>) = tube_ok f g ts"
  "tube_ok f g (ts\<lparr>ts_access_control := ac\<rparr>) = tube_ok f g ts" "tube_ok f g (ts\<lparr>ts_local_listener := l\<rparr>) = tube_ok f g ts"
  "tube_ok f g (ts\<lparr>ts_contact_listener := l\<rparr>) = tube_ok f g ts" "tube_ok f g (ts\<lparr>ts_destroyed := x\<rparr>) = tube_ok f g ts"
  by (simp_all add: tube_ok_def ts_emit_def)

lemma transport_quiet:
  "output_bytes (fd_transport_init t) = []" "output_bytes (transport_new rs) = []"
  by (simp_all add: fd_transport_init_def transport_new_def output_bytes_def)

lemma set_fd_quiet: "output_bytes t = [] \<Longrightarrow> holds (\<lambda>t'. output_bytes t' = []) (fd_set_fd nobody fd t)"
  by (auto simp: fd_set_fd_def Let_def add_watch_def fd_set_state_def nobody_def)

lemma nobody_quiet:
  assumes "output_bytes t = []"
  shows "holds (\<lambda>t'. output_bytes t' = []) (fd_set_state nobody st t)"
    and "holds (\<lambda>t'. output_bytes t' = []) (fd_set_fd nobody fd t)"
  using set_fd_quiet[OF assms] assms by (simp_all add: fd_set_state_def nobody_def)

text \<open>The anonymous handlers of \<open>listener_accept\<close> do what \<open>nobody\<close> does.\<close>

lemma listener_quiet: "holds (\<lambda>t'. output_bytes t' = []) (listener_accept fd t)"
proof -
  have "(\<lambda>_ t. Inr t) = (nobody :: 'a transport_user)" by (simp add: nobody_def fun_eq_iff)
  then show ?thesis unfolding listener_accept_def by (simp add: set_fd_quiet transport_quiet)
qed

lemma unix_quiet:
  assumes "output_bytes t = []"
  shows "holds (\<lambda>(ok, t'). output_bytes t' = []) (unix_connect nobody report c t)"
  using assms unfolding unix_connect_def
  by (auto simp: nobody_def[of Error_signal] intro!: holds_mono[OF nobody_quiet(1)] holds_mono[OF nobody_quiet(2)] split: option.split)

lemma clean_quiet [simp]: "output_bytes (clean_all_connect_attempts t) = output_bytes t"
  "output_bytes (clean_connect_attempt t) = output_bytes t"
  by (simp_all add: output_bytes_def clean_all_connect_attempts_def clean_connect_attempt_def)

lemma tcp_quiet:
  fixes t :: "'a tcp_transport_scheme"
  assumes "output_bytes t = []"
  shows "holds (\<lambda>t'. output_bytes t' = []) (tcp_connect nobody resolved t)"
proof -
  have attempt: "holds (\<lambda>t'. output_bytes t' = []) (new_connect_attempt nobody as t)"
    if "output_bytes t = []" for as and t :: "'a tcp_transport_scheme"
    using that
  proof (induction "nobody :: 'a tcp_transport_ext transport_user" as t rule: new_connect_attempt.induct)
    case (2 fd reply rest t)
    then show ?case
      by (cases reply) (simp_all add: Let_def tcp_failed_def tcp_connected_def nobody_quiet)
  qed (simp add: tcp_failed_def nobody_quiet)
  show ?thesis unfolding tcp_connect_def
    by (auto intro!: holds_mono[OF nobody_quiet(1)[OF assms]] simp: attempt nobody_quiet(1) split: option.split)
qed

context tube_laws
begin

abbreviation "lok \<equiv> link_ok blocked valid"
abbreviation "tok \<equiv> tube_ok blocked valid"

lemma fresh_ok: "backed_up True blocked valid lk \<Longrightarrow> lok (lk\<lparr>lk_connection_id := i\<rparr>)"
  by (auto simp: link_ok_def backed_up_def reported_def split: if_splits)

lemma link_of_ok: "output_bytes t = [] \<Longrightarrow> valid b \<Longrightarrow> lok (link_of t i b)"
  "output_bytes t = [] \<Longrightarrow> valid b \<Longrightarrow> backed_up True blocked valid (link_of t 0 b)"
  by (simp_all add: link_ok_def backed_up_def reported_def)

lemma on_link_holds:
  assumes "tok ts" "\<And>lk. lk \<in> set (ts_links ts) \<Longrightarrow> lok lk \<Longrightarrow> holds lok (f lk)"
  shows "holds tok (on_link i f ts)"
proof (cases "i < length (ts_links ts)")
  case True
  then have "holds lok (f (ts_links ts ! i))" using assms by (auto simp: tube_ok_def)
  then show ?thesis using True assms(1) unfolding on_link_def
    by (auto simp: tube_ok_def elim!: holds_mono dest!: set_update_subset_insert[THEN subsetD])
qed (use assms(1) in \<open>simp add: on_link_def\<close>)

lemma ask_holds:
  assumes "backed_up fr blocked valid lk"
    "holds (\<lambda>(r, b', es). valid b' \<and> blocked b' = blocked (lk_bytestream lk) \<and> no_data es) (f (lk_bytestream lk))"
  shows "holds (\<lambda>(r, lk'). backed_up fr blocked valid lk') (ask_bytestream B f lk)"
  unfolding ask_bytestream_def tube_react_def
  by (simp, rule holds_mono[OF assms(2)])
     (use assms(1) in \<open>auto simp: backed_up_def intro!: links.reactions_hold[OF links.handler_invariant, unfolded backed_up_def]\<close>)

lemma method_ok:
  assumes "backed_up fr blocked valid lk"
    "holds (\<lambda>(b', es). valid b' \<and> blocked b' = blocked (lk_bytestream lk) \<and> no_data es) (f (lk_bytestream lk))"
  shows "holds (backed_up fr blocked valid) (on_bytestream (tube_react B) f lk)"
  unfolding tube_react_def by (rule links.method_holds[where f = f, OF links.handler_invariant assms])

lemma close_ok:
  assumes "backed_up fr blocked valid lk"
  shows "holds (backed_up fr blocked valid) (on_bytestream (tube_react B) (fc_close (tb_flow B)) lk)"
  by (rule method_ok[where f = "fc_close (tb_flow B)", OF assms])
     (rule close, use assms in \<open>simp add: backed_up_def\<close>)

lemma add_link:
  "tok ts \<Longrightarrow> lok lk \<Longrightarrow> tok (ts\<lparr>ts_links := ts_links ts @ [lk]\<rparr>)"
  by (auto simp: tube_ok_def)

lemma backed_up_fresh: "backed_up True blocked valid lk \<Longrightarrow> lok lk"
  by (auto simp: link_ok_def backed_up_def reported_def split: if_splits)

lemma start_direct_holds:
  assumes "tok ts" "output_bytes t = []" "\<And>b'. b = Some b' \<Longrightarrow> new b'"
  shows "holds (\<lambda>(ok, ts'). tok ts' \<and> (ok \<longrightarrow> (\<exists>lk. backed_up True blocked valid lk
      \<and> ts' = ts\<lparr>ts_links := ts_links ts @ [lk]\<rparr>))) (start_stream_direct B b t ts)"
proof (cases b)
  case (Some b')
  then have b': "new b'" "valid b'" using assms(3) by (auto intro: new)
  have lk: "backed_up True blocked valid (link_of t 0 b')" using assms(2) b' by (simp add: link_of_ok)
  have "holds (\<lambda>(ok, lk). backed_up True blocked valid lk) (ask_bytestream B (tb_initiate B) (link_of t 0 b'))"
    by (rule ask_holds[OF lk]) (use initiate[OF b'(1)] in simp)
  moreover have more: "tok (ts\<lparr>ts_links := ts_links ts @ [lk]\<rparr>)" if "backed_up True blocked valid lk" for lk
    using add_link[OF assms(1) backed_up_fresh[OF that]] .
  moreover have "holds (\<lambda>lk. tok (ts\<lparr>ts_links := ts_links ts @ [lk]\<rparr>)) (on_bytestream (tube_react B) (fc_close (tb_flow B)) lk)"
    if "backed_up True blocked valid lk" for lk
    by (rule holds_mono[OF close_ok[OF that] more])
  ultimately show ?thesis using Some unfolding start_stream_direct_def by (auto elim!: holds_mono)
qed (use assms(1) in \<open>simp add: start_stream_direct_def\<close>)

lemma local_connection_holds:
  assumes "tok ts" "\<And>b'. b = Some b' \<Longrightarrow> new b'"
  shows "holds tok (local_new_connection_cb B b negotiated fd replies ts)"
proof -
  have blocked_quiet: "output_bytes (fd_block_receiving True t) = []" if "output_bytes t = []" for t :: tcp_transport
    using that by simp
  have direct: "holds tok (andthen (start_stream_direct B b t ts) (\<lambda>(ok, ts). if \<not> ok then Inr ts
       else let (i, ts) = generate_connection_id ts in
         andthen (on_link (length (ts_links ts) - 1) (\<lambda>lk. Inr (lk\<lparr>lk_connection_id := i\<rparr>)) ts) (\<lambda>ts.
         Inr (ts_emit (New_local_connection i) ts))))"
    if "output_bytes t = []" for t
    unfolding holds_simps(3)
    by (rule holds_mono[OF start_direct_holds[OF assms(1) that assms(2)]])
       (auto simp: generate_connection_id_def on_link_def Let_def tube_ok_def ts_emit_def nth_append
         list_update_append fresh_ok)
  show ?thesis unfolding local_new_connection_cb_def Let_def
    unfolding holds_simps(3)[of tok "listener_accept fd (transport_new replies)"]
  proof (rule holds_mono[OF listener_quiet], goal_cases)
    case (1 t)
    have "tok (ts\<lparr>ts_last_connection_id := i, ts_negotiating := ts_negotiating ts @ [(fd_block_receiving True t, j)]\<rparr>)"
      for i j using 1 assms(1) by (auto simp: tube_ok_def)
    with direct[OF blocked_quiet[OF 1], unfolded Let_def] assms(1) show ?case
      by (cases "ts_handle_type ts")
         (auto simp: Let_def start_stream_initiation_def generate_connection_id_def cong: prod.case_cong)
  qed
qed

lemma close_links_holds: "\<forall>lk \<in> set lks. lok lk \<Longrightarrow> holds (\<lambda>lks'. \<forall>lk \<in> set lks'. lok lk) (close_links (tb_flow B) lks)"
proof (induction lks)
  case (Cons lk lks)
  have nobody: "fd_invariant nobody lok"
    unfolding link_ok_def by (rule links.fd_invariant_link) (simp add: nobody_def)
  have "holds lok (close_each_extra_bytestream (tb_flow B) lk)"
  proof -
    have lk: "lok lk" "valid (lk_bytestream lk)" using Cons.prems by (simp_all add: link_ok_def backed_up_def)
    let ?lk = "\<lambda>b. lk\<lparr>lk_state_cb := False, lk_data_cbs := False, lk_transport_cbs := False, lk_bytestream := b\<rparr>"
    let ?done = "\<lambda>u. clean_all_connect_attempts ((fire_connection_closed Cancelled u)
        \<lparr>lk_to_bytestream := False, lk_to_transport := False\<rparr>)"
    have finished: "lok (?done u)" if "lok u" for u :: "'b link" using that by (simp add: link_ok_def backed_up_def)
    have "holds (\<lambda>u. lok (?done u)) (do_disconnect nobody (?lk b))"
      if "valid b" "blocked b = blocked (lk_bytestream lk)" for b
      by (rule holds_mono[OF fd_invariant.do_disconnect_holds[OF nobody] finished])
         (use lk that in \<open>simp_all add: link_ok_def backed_up_def\<close>)
    then show ?thesis using lk close[OF lk(2)]
      unfolding close_each_extra_bytestream_def by (auto simp: Let_def elim!: holds_mono)
  qed
  with Cons show ?case by (auto elim!: holds_mono)
qed simp

lemma close_holds: "tok ts \<Longrightarrow> holds tok (tube_stream_close B r ts)"
  using close_links_holds[of "ts_links ts"] unfolding tube_stream_close_def
  by (auto simp: tube_ok_def Let_def ts_emit_def elim!: holds_mono)

lemma open_holds: "tok ts \<Longrightarrow> holds (\<lambda>(err, ts'). tok ts') (tube_stream_open K random ts)"
  unfolding tube_stream_open_def
  by (cases "ts_address_type ts") (auto simp: Let_def split: prod.splits elim!: holds_mono intro!: holdsI)

lemma accept_holds: "tok ts \<Longrightarrow> holds (\<lambda>(err, ts'). tok ts') (tube_stream_accept B K random ts)"
  unfolding tube_stream_accept_def
  by (auto simp: close_holds intro!: holds_mono[OF open_holds] holds_mono[OF close_holds] split: option.split)

lemma accept_async_holds: "tok ts \<Longrightarrow> holds (\<lambda>(err, ts'). tok ts') (tube_stream_accept_async B K random ty ac ts)"
  unfolding tube_stream_accept_async_def
  by (auto intro!: accept_holds split: socket_address_type.split)

lemma offer_holds: "tok ts \<Longrightarrow> holds (\<lambda>(err, ts'). tok ts') (tube_stream_offer_async stat numeric ty a ac ts)"
  unfolding tube_stream_offer_async_def tube_stream_offer_def
  by (auto split: option.split handle_type.split intro!: holdsI)

lemma to_socket_holds:
  assumes "tok ts" "new b"
  shows "holds (\<lambda>ts'. \<exists>lk. lok lk \<and> lk_bytestream lk = b \<and> ts_links ts' = ts_links ts @ [lk] \<and> tok ts')
    (new_connection_to_socket V b replies ts)"
proof -
  define finish where "finish = (\<lambda>t. let t = fd_block_receiving True t; (i, ts) = generate_connection_id ts
     in Inr (ts\<lparr>ts_links := ts_links ts @ [link_of t i b]\<rparr>) :: 'b tube_stream outcome)"
  have fin: "holds (\<lambda>ts'. \<exists>lk. lok lk \<and> lk_bytestream lk = b \<and> ts_links ts' = ts_links ts @ [lk] \<and> tok ts') (finish t)"
    if "output_bytes t = []" for t
    using that assms by (auto simp: finish_def generate_connection_id_def Let_def link_of_ok new tube_ok_def)
  show ?thesis unfolding new_connection_to_socket_def finish_def[symmetric]
    by (cases "ts_address_type ts")
       (auto simp: fin transport_quiet split: prod.split
         intro!: holds_mono[OF unix_quiet[OF transport_quiet(2)]] holds_mono[OF tcp_quiet[OF transport_quiet(2)]])
qed

lemma accepting_holds:
  assumes "lok lk" "new (lk_bytestream lk)"
  shows "holds (\<lambda>lk'. lok lk' \<and> new (lk_bytestream lk')) (on_bytestream (tube_react B) (tb_accept B) lk)"
proof -
  have same: "tube_react B (State_changed BYTESTREAM_STATE_ACCEPTED) u = Inr u" for u
    by (simp add: tube_react_def link_react_def extra_bytestream_state_changed_cb_def)
  have "foldo (tube_react B) es u = Inr u" if "\<forall>e \<in> set es. e = State_changed BYTESTREAM_STATE_ACCEPTED" for es u
    using that same by (induction es) simp_all
  then show ?thesis using accept[OF assms(2)] assms(1) unfolding on_bytestream_def
    by (auto simp: link_ok_def backed_up_def new elim!: holds_mono)
qed

lemma on_last_holds:
  assumes "ts_links ts = lks @ [lk]" "holds P (f lk)"
  shows "holds (\<lambda>ts'. \<exists>lk'. P lk' \<and> ts' = ts\<lparr>ts_links := lks @ [lk']\<rparr>) (on_link (length lks) f ts)"
  using assms by (auto simp: on_link_def list_update_append elim!: holds_mono)

lemma accept_last_holds:
  assumes "tok ts" "ts_links ts = lks @ [lk]" "new (lk_bytestream lk)"
  shows "holds (\<lambda>ts'. tok ts' \<and> (\<exists>lk'. ts_links ts' = lks @ [lk'] \<and> new (lk_bytestream lk')))
    (on_link (length lks) (on_bytestream (tube_react B) (tb_accept B)) ts)"
proof -
  have "lok lk" using assms(1,2) by (simp add: tube_ok_def)
  note finished = on_last_holds[where f = "on_bytestream (tube_react B) (tb_accept B)", OF assms(2)
      accepting_holds[OF this assms(3)]]
  show ?thesis by (rule holds_mono[OF finished]) (use assms(1,2) in \<open>auto simp: tube_ok_def\<close>)
qed

lemma add_bytestream_holds:
  assumes "tok ts" "new b"
  shows "holds (\<lambda>(taken, ts'). tok ts' \<and> (taken \<longrightarrow>
      (\<exists>lks lk. ts_links ts' = lks @ [lk] \<and> new (lk_bytestream lk)))) (tube_stream_add_bytestream B V c b replies ts)"
proof (cases "ts_requested ts")
  case True
  define finish where "finish = (\<lambda>n (ts :: 'b tube_stream).
       let ts = ts_emit (New_connection c) ts in
       andthen (assert_that (ts_access_control ts = ACCESS_CONTROL_LOCALHOST)) (\<lambda>_.
       let i = lk_connection_id (ts_links ts ! n) in
       andthen (assert_that (i \<noteq> 0)) (\<lambda>_. Inr (True, ts_emit (New_remote_connection c i) ts))))"
  have run: "tube_stream_add_bytestream B V c b replies ts = andthen (new_connection_to_socket V b replies ts) (\<lambda>ts.
        let n = length (ts_links ts) - 1;
            ts = (if ts_state ts = TUBE_STATE_REMOTE_PENDING
                  then ts_emit (Tube_event Tube_opened) (ts\<lparr>ts_state := TUBE_STATE_OPEN\<rparr>) else ts)
        in andthen (on_link n (on_bytestream (tube_react B) (tb_accept B)) ts) (finish n))"
    unfolding tube_stream_add_bytestream_def finish_def using True by simp
  have fin: "holds (\<lambda>(taken, ts'). tok ts' \<and> (taken \<longrightarrow> (\<exists>lks lk. ts_links ts' = lks @ [lk] \<and> new (lk_bytestream lk))))
      (finish n u)" if "tok u" "ts_links u = lks @ [lk]" "new (lk_bytestream lk)" for n u lks lk
    using that by (auto simp: finish_def Let_def ts_emit_def tube_ok_def)
  show ?thesis unfolding run holds_simps(3)
  proof (rule holds_mono[OF to_socket_holds[OF assms]], goal_cases)
    case (1 u)
    then obtain lk where u: "lk_bytestream lk = b" "ts_links u = ts_links ts @ [lk]" "tok u" by blast
    define v where "v = (if ts_state u = TUBE_STATE_REMOTE_PENDING
        then ts_emit (Tube_event Tube_opened) (u\<lparr>ts_state := TUBE_STATE_OPEN\<rparr>) else u)"
    have v: "ts_links v = ts_links ts @ [lk]" "tok v" using u by (simp_all add: v_def ts_emit_def tube_ok_def)
    have "holds (\<lambda>u'. tok u' \<and> (\<exists>lk'. ts_links u' = ts_links ts @ [lk'] \<and> new (lk_bytestream lk')))
        (on_link (length (ts_links ts)) (on_bytestream (tube_react B) (tb_accept B)) v)"
      by (rule accept_last_holds[OF v(2,1)]) (use u(1) assms(2) in simp)
    then show ?case using u(2) unfolding v_def[symmetric] Let_def
      by (auto elim!: holds_mono intro: fin)
  qed
qed (use assms(1) in \<open>auto simp: tube_stream_add_bytestream_def\<close>)

lemma contact_holds:
  assumes "tok ts" "\<And>b c. peer = Some (b, c) \<Longrightarrow> new b"
  shows "holds tok (contact_new_connection_cb B V peer fd replies ts)"
proof (cases peer)
  case (Some p)
  obtain b c where p: "p = (b, c)" by fastforce
  have "holds tok (on_link (length (ts_links u) - 1)
        (\<lambda>lk. andthen (ask_bytestream B (tb_accept_socket B fd) lk) (\<lambda>(_, lk). Inr lk)) u)"
    if u: "tok u" "ts_links u = lks @ [lk]" "new (lk_bytestream lk)" for u lks lk
  proof -
    have lk: "lok lk" using u by (simp add: tube_ok_def)
    have "holds (\<lambda>(r, lk'). lok lk') (ask_bytestream B (tb_accept_socket B fd) lk)"
      unfolding link_ok_def
      by (rule ask_holds[where f = "tb_accept_socket B fd", OF lk[unfolded link_ok_def] accept_socket[OF u(3)]])
    then have "holds lok (andthen (ask_bytestream B (tb_accept_socket B fd) lk) (\<lambda>(_, lk). Inr lk))"
      by (auto elim!: holds_mono)
    note finished = on_last_holds[where f = "\<lambda>lk. andthen (ask_bytestream B (tb_accept_socket B fd) lk) (\<lambda>(_, lk). Inr lk)",
        OF u(2) this]
    show ?thesis using u(2) by (simp, intro holds_mono[OF finished]) (use u(1,2) in \<open>auto simp: tube_ok_def\<close>)
  qed
  then show ?thesis using Some p assms unfolding contact_new_connection_cb_def
    by (auto intro!: holds_mono[OF add_bytestream_holds] simp: split_beta)
qed (use assms(1) in \<open>simp add: contact_new_connection_cb_def\<close>)

lemma negotiated_holds:
  assumes "tok ts" "\<And>b'. b = Some b' \<Longrightarrow> new b'"
  shows "holds tok (extra_bytestream_negotiate_cb k b ts)"
proof (cases "k < length (ts_negotiating ts)")
  case True
  obtain t i where k: "ts_negotiating ts ! k = (t, i)" by fastforce
  have "output_bytes t = []" using nth_mem[OF True] assms(1) k by (auto simp: tube_ok_def)
  then show ?thesis using True k assms unfolding extra_bytestream_negotiate_cb_def
    by (auto simp: Let_def tube_ok_def ts_emit_def new link_of_ok dest: in_set_takeD in_set_dropD split: option.split)
qed (use assms(1) in \<open>simp add: extra_bytestream_negotiate_cb_def\<close>)

lemma waiting_holds:
  assumes "tok ts"
  shows "holds tok (waiting_step k q ts)"
proof (cases "k < length (ts_negotiating ts)")
  case True
  obtain t i where k: "ts_negotiating ts ! k = (t, i)" by fastforce
  have t: "output_bytes t = []" using nth_mem[OF True] assms k by (auto simp: tube_ok_def)
  have "holds (\<lambda>t'. output_bytes t' = []) (watch_step nobody q t)"
    by (rule idle.watch_step_holds[OF t]) (simp add: nobody_def t)
  then show ?thesis using True k assms unfolding waiting_step_def
    by (auto simp: tube_ok_def elim!: holds_mono dest!: set_update_subset_insert[THEN subsetD])
qed (use assms in \<open>simp add: waiting_step_def\<close>)

lemma tube_step_holds:
  assumes "tok ts" "op_ok new p"
  shows "holds tok (tube_step B p ts)"
proof (cases p)
  case (Op_offer stat numeric ty a ac)
  then show ?thesis unfolding tube_step_def by (auto intro!: holds_mono[OF offer_holds[OF assms(1)]])
next
  case (Op_accept K random ty ac)
  then show ?thesis unfolding tube_step_def by (auto intro!: holds_mono[OF accept_async_holds[OF assms(1)]])
next
  case (Op_link i q)
  have "holds tok (on_link i (link_step (tb_flow B) q) ts)"
    by (rule on_link_holds[OF assms(1)]) (simp add: link_ok_def links.link_step_holds)
  with Op_link show ?thesis by (simp add: tube_step_def)
next
  case (Op_local_connection b negotiated fd replies)
  with assms show ?thesis unfolding tube_step_def
    by (auto intro!: local_connection_holds simp: op_ok_def split: option.splits)
next
  case (Op_contact_connection V peer fd replies)
  with assms show ?thesis unfolding tube_step_def
    by (auto intro!: contact_holds simp: op_ok_def split: option.splits)
next
  case (Op_bytestream V c b replies)
  with assms show ?thesis unfolding tube_step_def
    by (auto intro!: holds_mono[OF add_bytestream_holds] simp: op_ok_def)
next
  case (Op_negotiated k b)
  with assms show ?thesis unfolding tube_step_def
    by (auto intro!: negotiated_holds simp: op_ok_def split: option.splits)
qed (use assms(1) in \<open>auto simp: tube_step_def tube_stream_accepted_def tube_stream_listen_def close_holds waiting_holds
    intro!: holdsI\<close>)

lemma tube_run_holds:
  "tok ts \<Longrightarrow> \<forall>p \<in> set ps. op_ok new p \<Longrightarrow> holds tok (tube_run B ps ts)"
  unfolding tube_run_def by (rule foldo_holds) (auto intro: tube_step_holds)

end

section \<open>Tubes over direct bytestreams\<close>

text \<open>A new bytestream has no transport yet, so nothing is watched.\<close>

definition new_stream :: "'a stream_scheme \<Rightarrow> bool" where
  "new_stream b \<longleftrightarrow> ml_sources b = [] \<and> 0 < ml_next b \<and> \<not> bst_read_blocked b"

lemma new_reads: "new_stream b \<Longrightarrow> reads_watched b"
  by (simp add: new_stream_def reads_watched_def)

lemma set_transport_reads:
  assumes "new_stream b" "bst_events b = []"
  shows "holds (\<lambda>b'. reads_ok False b' \<and> (fd = None \<longrightarrow> new_stream b')) (set_transport fd b)"
  using assms unfolding set_transport_def
  by (auto simp: fd_transport_init_def fd_set_fd_def fd_set_state_def nobody_def fd_set_handler_def add_watch_def
      Let_def set_bs_state_def new_stream_def reads_defs split: option.split)

lemma open_sockaddr_reads:
  assumes "reads_ok False b" "new_stream b"
  shows "holds (\<lambda>(r, b'). reads_ok False b' \<and> (\<not> r \<longrightarrow> new_stream b')) (ll_open_sockaddr direct_handler c b)"
proof (cases c)
  case None
  with assms show ?thesis
    by (auto simp: ll_open_sockaddr_def fd_set_state_def direct_handler_def stream_handler_def
        transport_disconnected_cb_def stream_do_close_def bytestream_closed_def do_disconnect_def direct_kind_def
        Let_def set_bs_state_def new_stream_def reads_defs)
next
  case (Some fd)
  with assms show ?thesis
    by (auto simp: ll_open_sockaddr_def fd_set_fd_def fd_set_state_def add_watch_def direct_handler_def stream_handler_def
        Let_def set_bs_state_def new_stream_def reads_defs)
qed

lemma try_addresses_reads:
  "reads_ok False b \<Longrightarrow> new_stream b \<Longrightarrow> holds (\<lambda>(r, b'). reads_ok False b') (try_addresses as b)"
proof (induction as arbitrary: b)
  case (Cons c as)
  then show ?case by (auto simp: needs_transport_def intro!: holds_mono[OF open_sockaddr_reads])
qed simp

lemma initiate_reads:
  assumes "new_stream b" "bst_events b = []"
  shows "holds (\<lambda>(r, b'). reads_ok False b') (direct_initiate b)"
proof -
  have b: "reads_ok False b" using assms new_reads[OF assms(1)] by (simp add: reads_ok_def new_stream_def no_data_def)
  have "holds (reads_ok False) (direct_close e b)" for e
    unfolding direct_close_def by (rule direct.close_reads[OF b])
  then show ?thesis unfolding direct_initiate_def
    by (auto intro!: holds_mono[OF set_transport_reads[OF assms]] try_addresses_reads elim!: holds_mono)
qed

lemma events_taken: "reads_watched (t\<lparr>bst_events := es\<rparr>) = reads_watched t" "new_stream (t\<lparr>bst_events := es\<rparr>) = new_stream t"
  by (simp_all add: reads_watched_def new_stream_def)

lemma direct_sets_up:
  fixes b :: "'a direct_scheme"
  assumes b: "new_stream b"
  shows "holds (\<lambda>(r, b', es). reads_watched b' \<and> bst_read_blocked b' = bst_read_blocked b \<and> no_data es)
      (tb_initiate direct_tube b)"
    and "holds (\<lambda>(r, b', es). reads_watched b' \<and> bst_read_blocked b' = bst_read_blocked b \<and> no_data es)
      (tb_accept_socket direct_tube fd b)"
proof -
  have n: "new_stream (b\<lparr>bst_events := []\<rparr>)" "\<not> bst_read_blocked b" using b by (simp_all add: new_stream_def)
  show "holds (\<lambda>(r, b', es). reads_watched b' \<and> bst_read_blocked b' = bst_read_blocked b \<and> no_data es)
      (tb_initiate direct_tube b)"
    using initiate_reads[OF n(1)] n(2) by (auto simp: direct_tube_def with_result_def events_taken reads_ok_def elim!: holds_mono)
  show "holds (\<lambda>(r, b', es). reads_watched b' \<and> bst_read_blocked b' = bst_read_blocked b \<and> no_data es)
      (tb_accept_socket direct_tube fd b)"
    using n(2) new_reads[OF b] set_transport_reads[OF n(1), of "Some fd"]
    by (auto simp: direct_tube_def with_result_def direct_accept_socket_def events_taken reads_ok_def no_data_def elim!: holds_mono)
qed

lemma direct_tube_flow: "flow_laws (tb_flow direct_tube) bst_read_blocked reads_watched"
  unfolding direct_tube_def direct_flow_def by (simp, rule direct.flow.flow_laws_axioms)

lemma oob_tube_flow: "flow_laws (tb_flow oob_tube) bst_read_blocked reads_watched"
  unfolding oob_tube_def oob_flow_def by (simp, rule oob.flow.flow_laws_axioms)

interpretation direct_tubes: tube_laws direct_tube bst_read_blocked reads_watched new_stream
  by (intro tube_laws.intro tube_laws_axioms.intro direct_tube_flow direct_sets_up)
     (auto simp: new_reads direct_tube_def)

interpretation oob_tubes: tube_laws oob_tube bst_read_blocked reads_watched reads_watched
  by (intro tube_laws.intro tube_laws_axioms.intro oob_tube_flow)
     (auto simp: oob_tube_def with_events_def oob_accept_def set_bs_state_def oob_send_stanza_def
       reads_watched_def no_data_def)

end
