(* ===== verification/Tube_Life.thy ===== *)
theory Tube_Life
  imports Tube_Properties
begin

text \<open>
  The life of a stream tube: \<open>life_step\<close> is the state machine its users see, and every step of a tube, over
  any kind of bytestream, is one of its steps or none. Then the behaviours at the edges: the first connection
  that comes before the answer, and the service that is not there.
\<close>

section \<open>The life cycle\<close>

definition emitted :: "tube_signal \<Rightarrow> 'b tube_stream \<Rightarrow> nat" where
  "emitted e ts = length (filter (\<lambda>s. s = Tube_event e) (ts_signals ts))"

text \<open>The state, whether the channel is destroyed, and how often it was opened, announced as open, and closed.\<close>

type_synonym life = "tube_state \<times> bool \<times> nat \<times> nat \<times> nat"

definition life :: "'b tube_stream \<Rightarrow> life" where
  "life ts = (ts_state ts, ts_destroyed ts, emitted Tube_opened ts,
     emitted (Tube_state_changed TUBE_STATE_OPEN) ts, emitted Tube_closed ts)"

inductive life_step :: "life \<Rightarrow> life \<Rightarrow> bool" where
  offered: "life_step (TUBE_STATE_NOT_OFFERED, d, opened, announced, closed)
      (TUBE_STATE_REMOTE_PENDING, d, opened, announced, closed)"
| opened: "st \<noteq> TUBE_STATE_OPEN \<Longrightarrow> announced' = announced \<or> announced' = Suc announced \<Longrightarrow>
    life_step (st, d, opened, announced, closed) (TUBE_STATE_OPEN, d, Suc opened, announced', closed)"
| closed: "life_step (st, False, opened, announced, closed) (st, True, opened, announced, Suc closed)"

inductive_simps life_step_simps: "life_step l (st, d, opened, announced, closed)"

abbreviation life_moves :: "life \<Rightarrow> life \<Rightarrow> bool" where
  "life_moves \<equiv> life_step\<^sup>=\<^sup>="

lemma emitted_emit [simp]:
  "emitted e (ts_emit s ts) = (if s = Tube_event e then Suc (emitted e ts) else emitted e ts)"
  by (simp add: emitted_def ts_emit_def)

lemma emitted_updates [simp]:
  "emitted e (ts\<lparr>ts_state := st\<rparr>) = emitted e ts" "emitted e (ts\<lparr>ts_links := lks\<rparr>) = emitted e ts"
  "emitted e (ts\<lparr>ts_negotiating := ns\<rparr>) = emitted e ts" "emitted e (ts\<lparr>ts_last_connection_id := i\<rparr>) = emitted e ts"
  "emitted e (ts\<lparr>ts_iq_req := x\<rparr>) = emitted e ts" "emitted e (ts\<lparr>ts_address := a\<rparr>) = emitted e ts"
  "emitted e (ts\<lparr>ts_address_type := ty\<rparr>) = emitted e ts" "emitted e (ts\<lparr>ts_access_control := ac\<rparr>) = emitted e ts"
  "emitted e (ts\<lparr>ts_local_listener := l\<rparr>) = emitted e ts" "emitted e (ts\<lparr>ts_contact_listener := l\<rparr>) = emitted e ts"
  "emitted e (ts\<lparr>ts_destroyed := x\<rparr>) = emitted e ts"
  by (simp_all add: emitted_def)

lemma emit_fields [simp]:
  "ts_state (ts_emit s ts) = ts_state ts" "ts_destroyed (ts_emit s ts) = ts_destroyed ts"
  "ts_handle_type (ts_emit s ts) = ts_handle_type ts"
  by (simp_all add: ts_emit_def)

lemma on_link_life: "holds (\<lambda>ts'. life ts' = life ts) (on_link i f ts)"
  by (auto simp: on_link_def life_def intro!: holdsI)

lemma open_life: "holds (\<lambda>(err, ts'). life ts' = life ts \<and> ts_handle_type ts' = ts_handle_type ts) (tube_stream_open K random ts)"
  unfolding tube_stream_open_def
  by (cases "ts_address_type ts") (auto simp: Let_def life_def split: prod.splits intro!: holdsI)

lemma to_socket_life: "holds (\<lambda>ts'. life ts' = life ts) (new_connection_to_socket V b replies ts)"
  unfolding new_connection_to_socket_def
  by (auto simp: Let_def generate_connection_id_def life_def intro!: holdsI)

lemma direct_life: "holds (\<lambda>(ok, ts'). life ts' = life ts) (start_stream_direct B b t ts)"
  unfolding start_stream_direct_def by (auto simp: life_def andthen_eq_Inr intro!: holdsI split: option.split if_splits)

lemma life_emits [simp]:
  "life (ts_emit (New_connection c) ts) = life ts" "life (ts_emit (New_remote_connection c i) ts) = life ts"
  "life (ts_emit (New_local_connection i) ts) = life ts" "life (ts_emit (Connection_closed i r) ts) = life ts"
  "life (ts_emit Iq_result_sent ts) = life ts" "life (ts_emit Close_sent ts) = life ts"
  "life (ts_emit (Tube_event Tube_offered) ts) = life ts" "life (ts_emit (Tube_event Channel_destroyed) ts) = life ts"
  "life (ts\<lparr>ts_links := lks\<rparr>) = life ts" "life (ts\<lparr>ts_negotiating := ns\<rparr>) = life ts"
  "life (ts\<lparr>ts_last_connection_id := i\<rparr>) = life ts" "life (ts\<lparr>ts_iq_req := x\<rparr>) = life ts"
  "life (ts\<lparr>ts_address := a\<rparr>) = life ts" "life (ts\<lparr>ts_address_type := ty\<rparr>) = life ts"
  "life (ts\<lparr>ts_access_control := ac\<rparr>) = life ts" "life (ts\<lparr>ts_contact_listener := l\<rparr>) = life ts"
  by (simp_all add: life_def)

lemma close_life: "holds (\<lambda>ts'. life_moves (life ts) (life ts')) (tube_stream_close B r ts)"
  unfolding tube_stream_close_def
  by (auto simp: Let_def life_def life_step_simps intro!: holdsI)

lemma opens_life:
  "ts_state ts \<noteq> TUBE_STATE_OPEN \<Longrightarrow> life_step (life ts) (life (ts_emit (Tube_event (Tube_state_changed TUBE_STATE_OPEN))
     (ts_emit (Tube_event Tube_opened) (ts\<lparr>ts_state := TUBE_STATE_OPEN\<rparr>))))"
  "ts_state ts \<noteq> TUBE_STATE_OPEN \<Longrightarrow> life_step (life ts) (life (ts_emit (Tube_event Tube_opened)
     (ts_emit (Tube_event (Tube_state_changed TUBE_STATE_OPEN)) (ts\<lparr>ts_state := TUBE_STATE_OPEN\<rparr>))))"
  "ts_state ts \<noteq> TUBE_STATE_OPEN \<Longrightarrow> life_step (life ts) (life (ts_emit (Tube_event Tube_opened)
     (ts\<lparr>ts_state := TUBE_STATE_OPEN\<rparr>)))"
  "ts_state ts = TUBE_STATE_NOT_OFFERED \<Longrightarrow> life_step (life ts) (life (ts_emit
     (Tube_event (Tube_state_changed TUBE_STATE_REMOTE_PENDING)) (ts\<lparr>ts_state := TUBE_STATE_REMOTE_PENDING\<rparr>)))"
  by (simp_all add: life_def life_step_simps)

lemma state_of_life: "life u = life v \<Longrightarrow> ts_state u = ts_state v"
  by (simp add: life_def)

lemma accept_life: "holds (\<lambda>(err, ts'). life_moves (life ts) (life ts')) (tube_stream_accept B K random ts)"
proof (cases "ts_state ts = TUBE_STATE_LOCAL_PENDING")
  case True
  define finish where "finish = (\<lambda>(err, ts). case err of
          Some e \<Rightarrow> andthen (tube_stream_close B False ts) (\<lambda>ts. Inr (Some (Cannot_listen e), ts))
        | None \<Rightarrow>
            andthen (if ts_handle_type ts = TP_HANDLE_TYPE_CONTACT
                     then andthen (assert_that (ts_iq_req ts)) (\<lambda>_. Inr (ts_emit Iq_result_sent (ts\<lparr>ts_iq_req := False\<rparr>)))
                     else Inr ts) (\<lambda>ts.
            Inr (None, ts_emit (Tube_event (Tube_state_changed TUBE_STATE_OPEN))
                   (ts_emit (Tube_event Tube_opened) (ts\<lparr>ts_state := TUBE_STATE_OPEN\<rparr>)))))"
  have run: "tube_stream_accept B K random ts = andthen (tube_stream_open K random ts) finish"
    unfolding tube_stream_accept_def finish_def using True by simp
  have fin: "holds (\<lambda>(err, ts'). life_moves (life u) (life ts')) (finish (err, u))"
    if "ts_state u = TUBE_STATE_LOCAL_PENDING" for err u
  proof (cases err)
    case None
    have opens: "life_step (life u) (life (ts_emit (Tube_event (Tube_state_changed TUBE_STATE_OPEN))
        (ts_emit (Tube_event Tube_opened) (v\<lparr>ts_state := TUBE_STATE_OPEN\<rparr>))))" if "life v = life u" for v
      unfolding that[symmetric]
      by (rule opens_life(1)) (use state_of_life[OF that] \<open>ts_state u = _\<close> in simp)
    with None show ?thesis by (auto simp: finish_def intro: opens)
  qed (auto simp: finish_def intro!: holds_mono[OF close_life])
  show ?thesis unfolding run holds_simps(3)
    by (rule holds_mono[OF open_life]) (use fin True state_of_life in force)
qed (simp add: tube_stream_accept_def)

lemma add_bytestream_life:
  "holds (\<lambda>(taken, ts'). life_moves (life ts) (life ts')) (tube_stream_add_bytestream B V c b replies ts)"
proof -
  define opened where "opened = (\<lambda>ts :: 'a tube_stream. if ts_state ts = TUBE_STATE_REMOTE_PENDING
      then ts_emit (Tube_event Tube_opened) (ts\<lparr>ts_state := TUBE_STATE_OPEN\<rparr>) else ts)"
  define finish where "finish = (\<lambda>n (ts :: 'a tube_stream).
       let ts = ts_emit (New_connection c) ts in
       andthen (assert_that (ts_access_control ts = ACCESS_CONTROL_LOCALHOST)) (\<lambda>_.
       let i = lk_connection_id (ts_links ts ! n) in
       andthen (assert_that (i \<noteq> 0)) (\<lambda>_. Inr (True, ts_emit (New_remote_connection c i) ts))))"
  have run: "tube_stream_add_bytestream B V c b replies ts = (if \<not> ts_requested ts
      then andthen (fc_close (tb_flow B) b) (\<lambda>_. Inr (False, ts))
      else andthen (new_connection_to_socket V b replies ts) (\<lambda>ts.
        let n = length (ts_links ts) - 1; ts = opened ts
        in andthen (on_link n (on_bytestream (tube_react B) (tb_accept B)) ts) (finish n)))"
    unfolding tube_stream_add_bytestream_def finish_def opened_def ..
  have op: "life_moves (life u) (life (opened u))" for u :: "'a tube_stream"
    using opens_life(3)[of u] by (simp add: opened_def)
  have fin: "holds (\<lambda>(taken, ts'). life ts' = life u) (finish n u)" for n u
    by (auto simp: finish_def Let_def)
  have op': "life_moves (life ts) (life (opened u))" if "life u = life ts" for u
    using op[of u] unfolding that .
  show ?thesis unfolding run
    by (auto simp: Let_def intro!: holds_mono[OF to_socket_life] holds_mono[OF on_link_life]
        holds_mono[OF fin] dest: op')
qed

lemma same_moves: "life v = life u \<Longrightarrow> life_moves (life u) (life v)"
  by simp

lemma local_life: "holds (\<lambda>ts'. life ts' = life ts) (local_new_connection_cb B b negotiated fd replies ts)"
  unfolding local_new_connection_cb_def start_stream_initiation_def generate_connection_id_def
  by (auto simp: Let_def intro!: holdsI holds_mono[OF direct_life] dest!: holdsD[OF on_link_life] simp: andthen_eq_Inr split: handle_type.splits if_splits)

lemma contact_life: "holds (\<lambda>ts'. life_moves (life ts) (life ts')) (contact_new_connection_cb B V peer fd replies ts)"
  unfolding contact_new_connection_cb_def
  by (auto intro!: holds_mono[OF add_bytestream_life] holds_mono[OF on_link_life] split: option.split)

lemma negotiated_life: "holds (\<lambda>ts'. life ts' = life ts) (extra_bytestream_negotiate_cb k b ts)"
  by (auto simp: extra_bytestream_negotiate_cb_def Let_def split_beta intro!: holdsI split: option.splits if_splits)

lemma offer_life: "holds (\<lambda>(err, ts'). life_moves (life ts) (life ts')) (tube_stream_offer_async stat numeric ty a ac ts)"
  using opens_life(2,4)[of "ts\<lparr>ts_address_type := ty, ts_address := Some a, ts_access_control := ac\<rparr>"]
  by (auto simp: tube_stream_offer_async_def tube_stream_offer_def split: option.split handle_type.split intro!: holdsI)

lemma accept_async_life:
  "holds (\<lambda>(err, ts'). life_moves (life ts) (life ts')) (tube_stream_accept_async B K random ty ac ts)"
  using accept_life[of "ts\<lparr>ts_address_type := ty, ts_access_control := ac\<rparr>" B K random]
  by (auto simp: tube_stream_accept_async_def split: socket_address_type.split)

lemma waiting_life: "holds (\<lambda>ts'. life ts' = life ts) (waiting_step k q ts)"
  by (auto simp: waiting_step_def split_beta intro!: holdsI)

lemma tube_step_life: "holds (\<lambda>ts'. life_moves (life ts) (life ts')) (tube_step B p ts)"
proof (cases p)
  case Op_accepted
  then show ?thesis using opens_life(1)[of ts] by (auto simp: tube_step_def tube_stream_accepted_def)
next
  case (Op_listen K families)
  then show ?thesis by (auto simp: tube_step_def tube_stream_listen_def intro!: holdsI)
next
  case (Op_link i q)
  then show ?thesis unfolding tube_step_def by (auto intro!: holds_mono[OF on_link_life])
qed (auto simp: tube_step_def intro!: holds_mono[OF close_life] holds_mono[OF contact_life]
      holds_mono[OF offer_life] holds_mono[OF accept_async_life] holds_mono[OF add_bytestream_life]
      holds_mono[OF local_life] holds_mono[OF negotiated_life] holds_mono[OF waiting_life])

lemma tube_run_life: "holds (\<lambda>ts'. life_step\<^sup>*\<^sup>* (life ts) (life ts')) (tube_run B ps ts)"
  unfolding tube_run_def
proof (rule foldo_holds)
  fix p and u :: "'a tube_stream" assume "life_step\<^sup>*\<^sup>* (life ts) (life u)"
  then show "holds (\<lambda>ts'. life_step\<^sup>*\<^sup>* (life ts) (life ts')) (tube_step B p u)"
    by (auto intro!: holds_mono[OF tube_step_life])
qed simp

section \<open>What users see\<close>

lemma life_new [simp]:
  "life (tube_stream_new ht requested initiated iq) =
     (if initiated then TUBE_STATE_NOT_OFFERED else TUBE_STATE_LOCAL_PENDING, False, 0, 0, 0)"
  by (simp add: life_def tube_stream_new_def emitted_def)

definition life_ok :: "life \<Rightarrow> bool" where
  "life_ok = (\<lambda>(st, destroyed, opened, announced, closed).
     opened = (if st = TUBE_STATE_OPEN then 1 else 0) \<and> announced \<le> opened \<and> closed = (if destroyed then 1 else 0))"

lemma life_ok_steps: "life_step\<^sup>*\<^sup>* l l' \<Longrightarrow> life_ok l \<Longrightarrow> life_ok l'"
  by (induction rule: rtranclp_induct) (auto simp: life_ok_def elim!: life_step.cases)

text \<open>
  C11. A stream tube, over any kind of bytestreams, goes through the states that its users are told: whatever
  happens to it, its state, its destruction and the signals about them follow the state machine
  \<open>life_step\<close>. It is opened at most once, and exactly if it is open in the end, it is announced as open at
  most that often, and it is closed once.
\<close>

theorem tube_life_cycle:
  fixes ts :: "'b tube_stream"
  assumes "tube_run B ps (tube_stream_new ht requested initiated iq) = Inr ts"
  shows "life_step\<^sup>*\<^sup>* (life (tube_stream_new ht requested initiated iq :: 'b tube_stream)) (life ts)
    \<and> emitted Tube_opened ts = (if ts_state ts = TUBE_STATE_OPEN then 1 else 0)
    \<and> emitted (Tube_state_changed TUBE_STATE_OPEN) ts \<le> emitted Tube_opened ts
    \<and> emitted Tube_closed ts = (if ts_destroyed ts then 1 else 0)"
proof -
  have steps: "life_step\<^sup>*\<^sup>* (life (tube_stream_new ht requested initiated iq :: 'b tube_stream)) (life ts)"
    using holdsD[OF tube_run_life assms] .
  then have "life_ok (life ts)" by (rule life_ok_steps) (simp add: life_ok_def)
  with steps show ?thesis by (simp add: life_def life_ok_def)
qed

lemma opened_stays:
  "life_step\<^sup>*\<^sup>* l l' \<Longrightarrow> l = (TUBE_STATE_OPEN, d, opened, announced, closed) \<Longrightarrow>
   \<exists>d' closed'. l' = (TUBE_STATE_OPEN, d', opened, announced, closed')"
  by (induction rule: rtranclp_induct) (auto elim!: life_step.cases)

lemma add_bytestream_opens:
  assumes "ts_requested ts" "ts_state ts = TUBE_STATE_REMOTE_PENDING"
  shows "holds (\<lambda>(taken, u). life u = (TUBE_STATE_OPEN, ts_destroyed ts, Suc (emitted Tube_opened ts),
      emitted (Tube_state_changed TUBE_STATE_OPEN) ts, emitted Tube_closed ts))
    (tube_stream_add_bytestream B V c b replies ts)"
  unfolding tube_stream_add_bytestream_def using assms
  by (auto simp: Let_def intro!: holds_mono[OF to_socket_life] holds_mono[OF on_link_life])
     (auto simp: life_def)

text \<open>
  When the peer connects before its answer to the offer has come, the tube is opened by this connection
  and never announced as open: no later event changes that, the answer included.
\<close>

theorem early_connection_is_silent:
  assumes "ts_requested ts" "ts_state ts = TUBE_STATE_REMOTE_PENDING"
    and "emitted (Tube_state_changed TUBE_STATE_OPEN) ts = 0"
    and "tube_run B (Op_contact_connection V (Some (b, c)) fd replies # ps) ts = Inr v"
  shows "ts_state v = TUBE_STATE_OPEN \<and> emitted Tube_opened v = Suc (emitted Tube_opened ts)
    \<and> emitted (Tube_state_changed TUBE_STATE_OPEN) v = 0"
proof -
  from assms(4) obtain u where u: "contact_new_connection_cb B V (Some (b, c)) fd replies ts = Inr u"
    "tube_run B ps u = Inr v"
    by (auto simp: tube_run_def tube_step_def andthen_eq_Inr)
  have "holds (\<lambda>u. life u = (TUBE_STATE_OPEN, ts_destroyed ts, Suc (emitted Tube_opened ts), 0, emitted Tube_closed ts))
      (contact_new_connection_cb B V (Some (b, c)) fd replies ts)"
    unfolding contact_new_connection_cb_def using assms(3)
    by (auto intro!: holds_mono[OF add_bytestream_opens[OF assms(1,2)]] holds_mono[OF on_link_life])
  from opened_stays[OF holdsD[OF tube_run_life u(2)] holdsD[OF this u(1)]] show ?thesis
    by (auto simp: life_def)
qed

text \<open>
  C12. Back-pressure of stream tubes over direct bytestreams: whatever happens to a tube, each of its
  connections holds at most one block of 1024 bytes for its application, the peer is not read while
  anything waits, and \<open>ConnectionClosed\<close> is reported once for a connection, after which it has no id.
\<close>

theorem tube_back_pressure:
  assumes "tube_run direct_tube ps (tube_stream_new ht requested initiated iq) = Inr ts"
    and "\<forall>p \<in> set ps. op_ok new_stream p"
  shows "\<forall>lk \<in> set (ts_links ts). length (output_bytes lk) \<le> 1024
    \<and> (output_bytes lk \<noteq> [] \<longrightarrow> bst_read_blocked (lk_bytestream lk) \<and> fd_watch_in (lk_bytestream lk) = 0)
    \<and> length (lk_closed lk) \<le> 1 \<and> (lk_closed lk \<noteq> [] \<longrightarrow> lk_connection_id lk = 0)"
proof -
  have "tube_ok bst_read_blocked reads_watched (tube_stream_new ht requested initiated iq)"
    by (simp add: tube_ok_def tube_stream_new_def)
  from holdsD[OF direct_tubes.tube_run_holds[OF this assms(2)] assms(1)] show ?thesis
    by (auto simp: tube_ok_def link_ok_def backed_up_def reported_def reads_watched_def split: if_splits)
qed

section \<open>A service that is not there\<close>

text \<open>A direct bytestream as it is created for a peer that has connected.\<close>

definition pending_direct :: "'a direct_scheme \<Rightarrow> bool" where
  "pending_direct b \<longleftrightarrow> new_stream b \<and> bst_state b = BYTESTREAM_STATE_LOCAL_PENDING \<and> \<not> bst_has_transport b"

text \<open>What the bytestream is once it has taken the socket of the peer.\<close>

lemma accept_socket_opens:
  assumes "pending_direct b" "fd \<ge> 0"
  shows "\<exists>b'. tb_accept_socket direct_tube fd b = Inr (True, b', [State_changed BYTESTREAM_STATE_OPEN])
    \<and> bst_state b' = BYTESTREAM_STATE_OPEN \<and> (ml_next b, IO_IN) \<in> set (ml_sources b') \<and> fd_handler b' \<and> bst_events b' = []"
  using assms
  by (simp add: direct_tube_def with_result_def direct_accept_socket_def set_transport_def pending_direct_def
      fd_transport_init_def fd_set_fd_def fd_set_state_def nobody_def fd_set_handler_def add_watch_def Let_def
      set_bs_state_def new_stream_def)

lemma refused_tcp:
  "r \<noteq> Connect_ok \<Longrightarrow> \<exists>t. tcp_connect nobody (Some [(s, r)]) (transport_new replies) = Inr t
     \<and> fd_state t \<noteq> TRANSPORT_CONNECTED \<and> \<not> fd_handler t"
  by (cases r) (auto simp: tcp_connect_def fd_set_state_def nobody_def transport_new_def Let_def tcp_failed_def
      clean_all_connect_attempts_def clean_connect_attempt_def)

lemma data_needs_connection:
  assumes "lk_data_cbs lk" "lk_to_transport lk" "fd_state lk \<noteq> TRANSPORT_CONNECTED"
    and "(i, IO_IN) \<in> set (ml_sources (lk_bytestream lk))" "fd_handler (lk_bytestream lk)"
  shows "link_step direct_flow (Remote (Readable i (Read_bytes d))) lk = Inl Assertion_failed"
  using assms
  by (simp add: link_step_def on_bytestream_def direct_flow_def stream_flow_def with_events_def watch_step_def
      dispatch_def channel_io_in_def fd_received_data_def stream_handler_def link_react_def tube_data_received_cb_def
      fd_send_def)

lemma block_receiving_state [simp]: "fd_state (fd_block_receiving x t) = fd_state t"
  "fd_handler (fd_block_receiving x t) = fd_handler t" "lk_data_cbs (fd_block_receiving x l) = lk_data_cbs l"
  "lk_to_transport (fd_block_receiving x l) = lk_to_transport l"
  by (simp_all add: fd_block_receiving_def source_remove_def add_watch_def Let_def)

lemma link_of_state [simp]: "fd_state (link_of t i b) = fd_state t" "fd_handler (link_of t i b) = fd_handler t"
  "lk_to_transport (link_of t i b)" "lk_state_cb (link_of t i b)"
  by (simp_all add: link_of_def link.defs tcp_transport.extend_def)

text \<open>The connection of a peer to a service that has not answered.\<close>

lemma contact_waits:
  assumes "ts_requested ts" "ts_handle_type ts = TP_HANDLE_TYPE_CONTACT" "ts_access_control ts = ACCESS_CONTROL_LOCALHOST"
    and "ts_address ts \<noteq> None" "pending_direct b" "fd \<ge> 0" "ts_last_connection_id ts + 1 \<noteq> 0"
    and "ts_address_type ts = SOCKET_ADDRESS_TYPE_IPV4 \<or> ts_address_type ts = SOCKET_ADDRESS_TYPE_IPV6"
    and "sv_tcp V = Some [(s, r)]" "r \<noteq> Connect_ok"
  shows "\<exists>lk ts'. contact_new_connection_cb direct_tube V (Some (b, c)) fd replies ts = Inr ts'
    \<and> ts_links ts' = ts_links ts @ [lk] \<and> lk_data_cbs lk \<and> lk_to_transport lk \<and> fd_state lk \<noteq> TRANSPORT_CONNECTED
    \<and> (ml_next b, IO_IN) \<in> set (ml_sources (lk_bytestream lk)) \<and> fd_handler (lk_bytestream lk)"
proof -
  obtain t where t: "tcp_connect nobody (Some [(s, r)]) (transport_new replies) = Inr t"
    "fd_state t \<noteq> TRANSPORT_CONNECTED" "\<not> fd_handler t" using refused_tcp[OF assms(10)] by blast
  obtain a where a: "ts_address ts = Some a" using assms(4) by blast
  let ?i = "ts_last_connection_id ts + 1"
  let ?lk = "link_of (fd_block_receiving True t) ?i b"
  obtain b' where b': "tb_accept_socket direct_tube fd b = Inr (True, b', [State_changed BYTESTREAM_STATE_OPEN])"
    "(ml_next b, IO_IN) \<in> set (ml_sources b')" "fd_handler b'"
    using accept_socket_opens[OF assms(5,6)] by blast
  have at: "ts_address_type ts = SOCKET_ADDRESS_TYPE_UNIX \<Longrightarrow> False" "\<nexists>n. ts_address_type ts = Other_address_type n"
    using assms(8) by auto
  have added: "\<exists>u. tube_stream_add_bytestream direct_tube V c b replies ts = Inr (True, u)
      \<and> ts_links u = ts_links ts @ [?lk]"
    using assms a t
    by (auto simp: tube_stream_add_bytestream_def new_connection_to_socket_def Let_def generate_connection_id_def
        on_link_def on_bytestream_def direct_tube_def ts_emit_def nth_append list_update_append)
  then obtain u where u: "tube_stream_add_bytestream direct_tube V c b replies ts = Inr (True, u)"
    "ts_links u = ts_links ts @ [?lk]" by blast
  have "\<exists>lk. ask_bytestream direct_tube (tb_accept_socket direct_tube fd) ?lk = Inr (True, lk)
      \<and> lk_data_cbs lk \<and> lk_to_transport lk \<and> fd_state lk \<noteq> TRANSPORT_CONNECTED \<and> lk_bytestream lk = b'"
    using b' t(2,3) by (simp add: ask_bytestream_def tube_react_def link_react_def extra_bytestream_state_changed_cb_def
        add_transport_def fd_set_handler_def)
  then show ?thesis using u b'(2,3) assms(2,6)
    by (auto simp: contact_new_connection_cb_def on_link_def nth_append list_update_append)
qed

text \<open>
  C13. A peer that connects to a stream tube whose local service is not there, or has not accepted the connection yet,
  and sends a byte, aborts the process: the code gives no place for the error of a UNIX socket, and it
  sends what the peer has sent to a transport that is not connected.
\<close>

theorem dead_service_aborts:
  assumes "ts_requested ts" "ts_handle_type ts = TP_HANDLE_TYPE_CONTACT" "ts_access_control ts = ACCESS_CONTROL_LOCALHOST"
    and "ts_address ts \<noteq> None" "pending_direct b" "fd \<ge> 0" "ts_last_connection_id ts + 1 \<noteq> 0"
    and "ts_address_type ts = SOCKET_ADDRESS_TYPE_UNIX \<and> sv_unix V = None
      \<or> ts_address_type ts \<in> {SOCKET_ADDRESS_TYPE_IPV4, SOCKET_ADDRESS_TYPE_IPV6}
        \<and> (\<exists>s r. sv_tcp V = Some [(s, r)] \<and> r \<noteq> Connect_ok)"
  shows "tube_run direct_tube [Op_contact_connection V (Some (b, c)) fd replies,
      Op_link (length (ts_links ts)) (Remote (Readable (ml_next b) (Read_bytes d)))] ts = Inl Assertion_failed"
  using assms(8)
proof (elim disjE conjE exE)
  assume "ts_address_type ts = SOCKET_ADDRESS_TYPE_UNIX" "sv_unix V = None"
  with assms show ?thesis
    by (auto simp: tube_run_def tube_step_def contact_new_connection_cb_def tube_stream_add_bytestream_def
        new_connection_to_socket_def unix_connect_def fd_set_state_def nobody_def transport_new_def)
next
  fix s r assume "ts_address_type ts \<in> {SOCKET_ADDRESS_TYPE_IPV4, SOCKET_ADDRESS_TYPE_IPV6}"
    "sv_tcp V = Some [(s, r)]" "r \<noteq> Connect_ok"
  then obtain lk ts' where
    "contact_new_connection_cb direct_tube V (Some (b, c)) fd replies ts = Inr ts'" "ts_links ts' = ts_links ts @ [lk]"
    "link_step direct_flow (Remote (Readable (ml_next b) (Read_bytes d))) lk = Inl Assertion_failed"
    using contact_waits[OF assms(1-7), of V s r c replies] data_needs_connection[of _ "ml_next b" d] by blast
  then show ?thesis by (simp add: tube_run_def tube_step_def on_link_def direct_tube_def)
qed

section \<open>Witnesses\<close>

definition example_peer :: direct where
  "example_peer =
     \<lparr>fd_state = TRANSPORT_DISCONNECTED, fd_handler = False, fd_fd = - 1, fd_channel = False, fd_watch_in = 0,
      fd_watch_out = 0, fd_watch_err = 0, fd_output_buffer = None, fd_receiving_blocked = False,
      fd_dispose_has_run = False, ml_sources = [], ml_next = 1, os_replies = [], os_written = [], fd_accepted = [],
      bst_has_transport = False, bst_callbacks = False, bst_state = BYTESTREAM_STATE_LOCAL_PENDING,
      bst_write_blocked = False, bst_read_blocked = False, bst_events = [], di_addresses = None\<rparr>"

definition example_tube :: "direct tube_stream" where
  "example_tube = tube_stream_new TP_HANDLE_TYPE_CONTACT True True False"

definition example_offer :: "direct tube_op" where
  "example_offer = Op_offer (\<lambda>_. Some True) (\<lambda>_ _. True) SOCKET_ADDRESS_TYPE_UNIX (Path_address [47]) ACCESS_CONTROL_LOCALHOST"

text \<open>The service is there and takes one byte at a time.\<close>

definition example_tube_ops :: "direct tube_op list" where
  "example_tube_ops =
     [example_offer,
      Op_contact_connection \<lparr>sv_unix = Some 5, sv_tcp = None\<rparr> (Some (example_peer, 7)) 4 [Write_takes 1, Write_takes 1],
      Op_link 0 (Remote (Readable 1 (Read_bytes [1, 2, 3]))), Op_accepted]"

lemma example_tube_run: "case tube_run direct_tube example_tube_ops example_tube of Inl e \<Rightarrow> False
  | Inr ts \<Rightarrow> map output_bytes (ts_links ts) = [[2, 3]]"
  by code_simp

lemma example_tube_closed: "case tube_run direct_tube (example_tube_ops @ [Op_close_tube False]) example_tube of Inl e \<Rightarrow> False
  | Inr ts \<Rightarrow> ts_state ts = TUBE_STATE_OPEN \<and> ts_destroyed ts"
  by code_simp

lemma example_tube_offered: "case tube_run direct_tube [example_offer] example_tube of Inl e \<Rightarrow> False
  | Inr ts \<Rightarrow> ts_requested ts \<and> ts_handle_type ts = TP_HANDLE_TYPE_CONTACT
      \<and> ts_access_control ts = ACCESS_CONTROL_LOCALHOST \<and> ts_address ts \<noteq> None \<and> ts_last_connection_id ts = 0
      \<and> ts_address_type ts = SOCKET_ADDRESS_TYPE_UNIX \<and> ts_links ts = []
      \<and> ts_state ts = TUBE_STATE_REMOTE_PENDING \<and> emitted (Tube_state_changed TUBE_STATE_OPEN) ts = 0"
  by code_simp

lemma example_peer_new: "new_stream example_peer" "pending_direct example_peer"
  by (simp_all add: example_peer_def new_stream_def pending_direct_def)

lemma example_tube_ops_ok: "\<forall>p \<in> set example_tube_ops. op_ok new_stream p"
  by (simp add: example_tube_ops_def example_offer_def op_ok_def example_peer_new)

lemma tube_life_cycle_witness:
  "case tube_run direct_tube (example_tube_ops @ [Op_close_tube False]) example_tube of Inl e \<Rightarrow> False
   | Inr ts \<Rightarrow> emitted Tube_opened ts = 1 \<and> emitted Tube_closed ts = 1"
proof -
  obtain ts where ts: "tube_run direct_tube (example_tube_ops @ [Op_close_tube False]) example_tube = Inr ts"
    "ts_state ts = TUBE_STATE_OPEN" "ts_destroyed ts"
    using example_tube_closed by (auto split: sum.splits)
  from tube_life_cycle[OF ts(1)[unfolded example_tube_def]] ts(2,3) have "emitted Tube_opened ts = 1 \<and> emitted Tube_closed ts = 1"
    by simp
  with ts(1) show ?thesis by simp
qed

lemma early_connection_is_silent_witness:
  "case tube_run direct_tube example_tube_ops example_tube of Inl e \<Rightarrow> False
   | Inr ts \<Rightarrow> ts_state ts = TUBE_STATE_OPEN \<and> emitted (Tube_state_changed TUBE_STATE_OPEN) ts = 0"
proof -
  obtain u where u: "tube_step direct_tube example_offer example_tube = Inr u" "ts_requested u"
    "ts_state u = TUBE_STATE_REMOTE_PENDING" "emitted (Tube_state_changed TUBE_STATE_OPEN) u = 0"
    using example_tube_offered by (auto simp: tube_run_def andthen_def split: sum.splits)
  obtain v where "tube_run direct_tube example_tube_ops example_tube = Inr v"
    using example_tube_run by (auto split: sum.splits)
  moreover from this u(1) have "tube_run direct_tube (tl example_tube_ops) u = Inr v"
    by (simp add: tube_run_def example_tube_ops_def)
  note early_connection_is_silent[OF u(2-4) this[unfolded example_tube_ops_def list.sel]]
  ultimately show ?thesis by simp
qed

lemma tube_back_pressure_witness:
  "case tube_run direct_tube example_tube_ops example_tube of Inl e \<Rightarrow> False
   | Inr ts \<Rightarrow> (\<exists>lk \<in> set (ts_links ts). output_bytes lk = [2, 3] \<and> bst_read_blocked (lk_bytestream lk))"
proof -
  obtain ts where ts: "tube_run direct_tube example_tube_ops example_tube = Inr ts" "map output_bytes (ts_links ts) = [[2, 3]]"
    using example_tube_run by (auto split: sum.splits)
  from tube_back_pressure[OF ts(1)[unfolded example_tube_def] example_tube_ops_ok] ts show ?thesis by (cases "ts_links ts") auto
qed

lemma dead_service_aborts_witness:
  "tube_run direct_tube [example_offer, Op_contact_connection \<lparr>sv_unix = None, sv_tcp = None\<rparr> (Some (example_peer, 7)) 4 [],
     Op_link 0 (Remote (Readable 1 (Read_bytes [1])))] example_tube = Inl Assertion_failed"
proof -
  obtain u where u: "tube_step direct_tube example_offer example_tube = Inr u" "ts_requested u"
    "ts_handle_type u = TP_HANDLE_TYPE_CONTACT" "ts_access_control u = ACCESS_CONTROL_LOCALHOST" "ts_address u \<noteq> None"
    "ts_last_connection_id u + 1 \<noteq> 0" "ts_address_type u = SOCKET_ADDRESS_TYPE_UNIX" "ts_links u = []"
    using example_tube_offered by (auto simp: tube_run_def andthen_def split: sum.splits)
  have "ml_next example_peer = 1" by (simp add: example_peer_def)
  with dead_service_aborts[OF u(2-5) example_peer_new(2) _ u(6), of 4 "\<lparr>sv_unix = None, sv_tcp = None\<rparr>" 7 "[]" "[1]"] u
  show ?thesis by (simp add: tube_run_def)
qed

end
