(* ===== verification/Tubes_Manager.thy ===== *)
theory Tubes_Manager
  imports Tube_Stream Capability_Set
begin

text \<open>
  The manager of the tubes to single contacts, \<open>src/tubes-manager.c\<close>: it parses the stanzas that offer and
  close tubes, answers the requests of local clients, keeps the table of tubes and says which services a
  contact has. The channels are those of \<open>Tube_Stream\<close> and \<open>Tube_Dbus\<close>. A stanza is what the code
  reads of it, the parameters of a tube are a value of \<open>'p\<close>, and \<open>tm_events\<close> is what the manager
  emits and sends.
\<close>

section \<open>Parsing\<close>

text \<open>
  \<open>g_ascii_strtoull (s, NULL, 10)\<close>: as \<open>strtol\<close>, on 64 bits without sign; a number that is too
  big is clamped, a negative one wraps around.
\<close>

definition strtoull10 :: "c_string \<Rightarrow> nat" where
  "strtoull10 s =
     (let t = dropWhile is_blank s;
          neg = (t \<noteq> [] \<and> hd t = 45);
          u = (if t \<noteq> [] \<and> (hd t = 45 \<or> hd t = 43) then tl t else t);
          v = nat (digits_value (takeWhile is_digit u))
      in if v > 2 ^ 64 - 1 then 2 ^ 64 - 1 else if neg then (2 ^ 64 - v) mod 2 ^ 64 else v)"

datatype tube_type = Stream_tube | Dbus_tube

record 'p tube_node =
  tn_id :: "c_string option"
  tn_type :: "c_string option"
  tn_service :: "c_string option"
  tn_parameters :: 'p
  tn_transport :: "c_string option option" \<comment> \<open>the child \<open>transport\<close> and its port\<close>

record 'p tube_iq =
  ti_from :: "c_string option"
  ti_tube :: "'p tube_node option"
  ti_close :: "c_string option option" \<comment> \<open>the node \<open>close\<close> and its id\<close>

record 'p tube_info =
  in_close :: bool
  in_initiator :: u32
  in_id :: u32
  in_type :: tube_type
  in_service :: "c_string option"
  in_parameters :: 'p
  in_port :: u32

text \<open>\<open>None\<close> is the error that is sent back. \<open>ensure\<close> is the handle of a name, zero if it is not valid.\<close>

definition extract_tube_id :: "c_string option \<Rightarrow> u32 option" where
  "extract_tube_id str =
     (case str of
        None \<Rightarrow> None
      | Some s \<Rightarrow>
          let tmp = strtoull10 s in
          if tmp = 0 \<or> tmp > 2 ^ 32 - 1 then None else Some (of_nat tmp))"

definition extract_port :: "c_string option option \<Rightarrow> u32 option" where
  "extract_port transport =
     (case transport of
        None \<Rightarrow> None
      | Some None \<Rightarrow> None
      | Some (Some str) \<Rightarrow>
          (case strtol10 str of (tmp, rest) \<Rightarrow> if rest \<noteq> [] then None else Some (word_of_int tmp)))"

definition tube_type_of :: "c_string option \<Rightarrow> tube_type option" where
  "tube_type_of str =
     (if str = Some (c_str ''stream'') then Some Stream_tube
      else if str = Some (c_str ''dbus'') then Some Dbus_tube else None)"

definition extract_tube_information ::
    "(c_string \<Rightarrow> u32) \<Rightarrow> 'p \<Rightarrow> 'p tube_iq \<Rightarrow> 'p tube_info option" where
  "extract_tube_information ensure no_parameters iq =
     (case ti_from iq of
        None \<Rightarrow> None
      | Some from \<Rightarrow>
          if ensure from = 0 then None
          else case (ti_tube iq, ti_close iq) of
            (None, None) \<Rightarrow> None
          | (Some _, Some _) \<Rightarrow> None
          | (None, Some str) \<Rightarrow>
              (case extract_tube_id str of
                 None \<Rightarrow> None
               | Some i \<Rightarrow> Some \<lparr>in_close = True, in_initiator = ensure from, in_id = i, in_type = Stream_tube,
                                in_service = None, in_parameters = no_parameters, in_port = 0\<rparr>)
          | (Some tube, None) \<Rightarrow>
              (case extract_tube_id (tn_id tube) of
                 None \<Rightarrow> None
               | Some i \<Rightarrow>
                   (case tube_type_of (tn_type tube) of
                      None \<Rightarrow> None
                    | Some ty \<Rightarrow>
                        (case extract_port (tn_transport tube) of
                           None \<Rightarrow> None
                         | Some port \<Rightarrow>
                             Some \<lparr>in_close = False, in_initiator = ensure from, in_id = i, in_type = ty,
                                   in_service = tn_service tube, in_parameters = tn_parameters tube,
                                   in_port = port\<rparr>))))"

section \<open>State\<close>

datatype ('b, 'm, 'd) channel = Stream_channel "'b tube_stream" | Dbus_channel "('m, 'd) tube_dbus"

record ('b, 'm, 'd, 'p) managed =
  mt_channel :: "('b, 'm, 'd) channel"
  mt_handle :: u32
  mt_service :: "c_string option"
  mt_parameters :: 'p
  mt_port :: u32

datatype request_error = Request_invalid_argument | Request_invalid_handle | Request_not_available

datatype manager_event =
    New_channel u32 "nat option" \<comment> \<open>the tube, and the token of the request\<close>
  | Channel_closed u32
  | Request_satisfied nat u32
  | Request_failed nat request_error
  | Iq_error_sent

text \<open>\<open>tm_tubes\<close> is \<open>None\<close> once the connection is gone and the table has been dropped.\<close>

record ('b, 'm, 'd, 'p) tubes_manager =
  tm_tubes :: "(u32 \<times> ('b, 'm, 'd, 'p) managed) list option"
  tm_events :: "manager_event list"

text \<open>What the channels use: the two kinds of bytestreams, and what a D-Bus tube is created with.\<close>

record ('b, 'd) tube_methods =
  me_stream :: "'b tube_bytestream"
  me_dbus :: "'d bytestream_class"
  me_listen :: "u8 list \<Rightarrow> u8 list option"
  me_name :: "u8 list"
  me_bytestream :: 'd

definition tubes_manager_new :: "('b, 'm, 'd, 'p) tubes_manager" where
  "tubes_manager_new = \<lparr>tm_tubes = Some [], tm_events = []\<rparr>"

definition tm_emit :: "manager_event \<Rightarrow> ('b, 'm, 'd, 'p) tubes_manager \<Rightarrow> ('b, 'm, 'd, 'p) tubes_manager" where
  "tm_emit e tm = tm\<lparr>tm_events := tm_events tm @ [e]\<rparr>"

text \<open>A look at a table that was dropped finds nothing, and an insertion is lost.\<close>

definition tm_lookup :: "u32 \<Rightarrow> ('b, 'm, 'd, 'p) tubes_manager \<Rightarrow> ('b, 'm, 'd, 'p) managed option" where
  "tm_lookup i tm = (case tm_tubes tm of None \<Rightarrow> None | Some ts \<Rightarrow> map_of ts i)"

definition tm_insert ::
    "u32 \<Rightarrow> ('b, 'm, 'd, 'p) managed \<Rightarrow> ('b, 'm, 'd, 'p) tubes_manager \<Rightarrow> ('b, 'm, 'd, 'p) tubes_manager" where
  "tm_insert i mt tm = tm\<lparr>tm_tubes := map_option (AList.update i mt) (tm_tubes tm)\<rparr>"

section \<open>Channels\<close>

definition channel_type :: "('b, 'm, 'd) channel \<Rightarrow> tube_type" where
  "channel_type c = (case c of Stream_channel ts \<Rightarrow> Stream_tube | Dbus_channel t \<Rightarrow> Dbus_tube)"

definition channel_gone :: "('b, 'm, 'd) channel \<Rightarrow> bool" where
  "channel_gone c =
     (case c of Stream_channel ts \<Rightarrow> ts_destroyed ts | Dbus_channel t \<Rightarrow> Channel_destroyed \<in> set (td_signals t))"

definition tube_iface_close ::
    "('b, 'd) tube_methods \<Rightarrow> bool \<Rightarrow> ('b, 'm, 'd) channel \<Rightarrow> ('b, 'm, 'd) channel outcome" where
  "tube_iface_close M remotely c =
     (case c of
        Stream_channel ts \<Rightarrow>
          andthen (tube_stream_close (me_stream M) remotely ts) (\<lambda>ts. Inr (Stream_channel ts))
      | Dbus_channel t \<Rightarrow> andthen (do_close (me_dbus M) (me_listen M) t) (\<lambda>t. Inr (Dbus_channel t)))"

text \<open>What \<open>channel_closed_cb\<close> does when the channel has just been closed.\<close>

definition channel_closed_cb ::
    "u32 \<Rightarrow> ('b, 'm, 'd, 'p) tubes_manager \<Rightarrow> ('b, 'm, 'd, 'p) tubes_manager" where
  "channel_closed_cb i tm = (tm_emit (Channel_closed i) tm)\<lparr>tm_tubes := map_option (AList.delete i) (tm_tubes tm)\<rparr>"

text \<open>An operation on the channel of a tube, and the signal of its end.\<close>

definition on_channel ::
    "u32 \<Rightarrow> (('b, 'm, 'd) channel \<Rightarrow> ('b, 'm, 'd) channel outcome)
     \<Rightarrow> ('b, 'm, 'd, 'p) tubes_manager \<Rightarrow> ('b, 'm, 'd, 'p) tubes_manager outcome" where
  "on_channel i f tm =
     (case tm_lookup i tm of
        None \<Rightarrow> Inr tm
      | Some mt \<Rightarrow>
          andthen (f (mt_channel mt)) (\<lambda>c.
          Inr (if channel_gone c \<and> \<not> channel_gone (mt_channel mt) then channel_closed_cb i tm
               else tm_insert i (mt\<lparr>mt_channel := c\<rparr>) tm)))"

text \<open>Every tube is created as requested, with ourselves as the initiator; \<open>iq\<close> says whether it comes with a stanza.\<close>

definition create_new_tube ::
    "('b, 'd) tube_methods \<Rightarrow> tube_type \<Rightarrow> u32 \<Rightarrow> c_string option \<Rightarrow> 'p \<Rightarrow> u32 \<Rightarrow> u32 \<Rightarrow> bool
     \<Rightarrow> ('b, 'm, 'd, 'p) tubes_manager \<Rightarrow> ('b, 'm, 'd, 'p) tubes_manager outcome" where
  "create_new_tube M ty handle service params i port iq tm =
     andthen (case ty of
                Stream_tube \<Rightarrow> Inr (Stream_channel (tube_stream_new TP_HANDLE_TYPE_CONTACT True True iq))
              | Dbus_tube \<Rightarrow>
                  andthen (tube_new (me_dbus M) (me_listen M) TP_HANDLE_TYPE_CONTACT True (me_name M) (me_bytestream M) [])
                    (\<lambda>t. Inr (Dbus_channel t))) (\<lambda>c.
     Inr (tm_insert i \<lparr>mt_channel = c, mt_handle = handle, mt_service = service, mt_parameters = params,
                       mt_port = port\<rparr> tm))"

section \<open>Stanzas\<close>

definition iq_tube_request_cb ::
    "('b, 'd) tube_methods \<Rightarrow> (c_string \<Rightarrow> u32) \<Rightarrow> 'p \<Rightarrow> 'p tube_iq
     \<Rightarrow> ('b, 'm, 'd, 'p) tubes_manager \<Rightarrow> ('b, 'm, 'd, 'p) tubes_manager outcome" where
  "iq_tube_request_cb M ensure no_parameters stanza tm =
     (case extract_tube_information ensure no_parameters stanza of
        None \<Rightarrow> Inr (tm_emit Iq_error_sent tm)
      | Some info \<Rightarrow>
          let i = in_id info in
          if in_close info then on_channel i (tube_iface_close M True) tm
          else
            andthen (case tm_lookup i tm of
                       None \<Rightarrow> create_new_tube M (in_type info) (in_initiator info) (in_service info)
                                 (in_parameters info) i (in_port info) True tm
                     | Some _ \<Rightarrow> Inr tm) (\<lambda>tm.
            Inr (tm_emit (New_channel i None) tm)))"

section \<open>Requests\<close>

datatype requested_type = Request_stream_tube | Request_dbus_tube | Request_other

record tube_request =
  rq_contact :: bool \<comment> \<open>the target is a contact\<close>
  rq_type :: requested_type
  rq_unknown :: bool \<comment> \<open>it has a property that is not allowed\<close>
  rq_service :: "c_string option"
  rq_handle :: u32

text \<open>The random numbers are between 1 and \<open>G_MAXINT32 - 1\<close>.\<close>

primrec generate_tube_id :: "nat list \<Rightarrow> ('b, 'm, 'd, 'p) tubes_manager \<Rightarrow> u32 outcome" where
  "generate_tube_id [] tm = Inl Out_of_fuel"
| "generate_tube_id (r # rs) tm =
     (if tm_lookup (of_nat r) tm \<noteq> None then generate_tube_id rs tm else Inr (of_nat r))"

definition tubes_manager_lookup ::
    "tube_type \<Rightarrow> u32 \<Rightarrow> c_string option \<Rightarrow> ('b, 'm, 'd, 'p) tubes_manager \<Rightarrow> u32 option" where
  "tubes_manager_lookup ty handle service tm =
     (case tm_tubes tm of
        None \<Rightarrow> None
      | Some ts \<Rightarrow>
          map_option fst (find (\<lambda>(i, mt). channel_type (mt_channel mt) = ty \<and> mt_handle mt = handle
            \<and> mt_service mt = service) ts))"

text \<open>The result says whether the request is one for this manager. D-Bus tubes are disabled.\<close>

definition requestotron ::
    "('b, 'd) tube_methods \<Rightarrow> (u32 \<Rightarrow> bool) \<Rightarrow> u32 \<Rightarrow> 'p \<Rightarrow> nat list \<Rightarrow> nat \<Rightarrow> tube_request \<Rightarrow> bool
     \<Rightarrow> ('b, 'm, 'd, 'p) tubes_manager \<Rightarrow> (bool \<times> ('b, 'm, 'd, 'p) tubes_manager) outcome" where
  "requestotron M is_valid self_handle no_parameters randoms token rq require_new tm =
     (if \<not> rq_contact rq then Inr (False, tm)
      else if rq_type rq \<noteq> Request_stream_tube then Inr (False, tm)
      else if rq_unknown rq \<or> rq_service rq = None then Inr (True, tm_emit (Request_failed token Request_invalid_argument) tm)
      else if \<not> is_valid (rq_handle rq) then Inr (True, tm_emit (Request_failed token Request_invalid_handle) tm)
      else if rq_handle rq = self_handle then Inr (True, tm_emit (Request_failed token Request_not_available) tm)
      else case tubes_manager_lookup Stream_tube (rq_handle rq) (rq_service rq) tm of
             None \<Rightarrow>
               andthen (generate_tube_id randoms tm) (\<lambda>i.
               andthen (create_new_tube M Stream_tube (rq_handle rq) (rq_service rq) no_parameters i 0 False tm) (\<lambda>tm.
               Inr (True, tm_emit (New_channel i (Some token)) tm)))
           | Some i \<Rightarrow>
               if require_new then Inr (True, tm_emit (Request_failed token Request_not_available) tm)
               else Inr (True, tm_emit (Request_satisfied token i) tm))"

section \<open>The end of the connection\<close>

primrec close_channels ::
    "('b, 'd) tube_methods \<Rightarrow> (u32 \<times> ('b, 'm, 'd, 'p) managed) list
     \<Rightarrow> ('b, 'm, 'd, 'p) tubes_manager \<Rightarrow> ('b, 'm, 'd, 'p) tubes_manager outcome" where
  "close_channels M [] tm = Inr tm"
| "close_channels M (p # ps) tm =
     andthen (tube_iface_close M False (mt_channel (snd p))) (\<lambda>c.
     close_channels M ps (if channel_gone c \<and> \<not> channel_gone (mt_channel (snd p)) then channel_closed_cb (fst p) tm else tm))"

definition tubes_manager_close_all ::
    "('b, 'd) tube_methods \<Rightarrow> ('b, 'm, 'd, 'p) tubes_manager \<Rightarrow> ('b, 'm, 'd, 'p) tubes_manager outcome" where
  "tubes_manager_close_all M tm =
     (case tm_tubes tm of None \<Rightarrow> Inr tm | Some ts \<Rightarrow> close_channels M ts (tm\<lparr>tm_tubes := None\<rparr>))"

section \<open>The manager\<close>

text \<open>What happens to it. \<open>Channel_does\<close> is any operation on the channel of a tube.\<close>

datatype ('b, 'm, 'd, 'p) manager_op =
    Stanza "'p tube_iq"
  | Request "nat list" nat tube_request bool
  | Channel_does u32 "('b, 'm, 'd) channel \<Rightarrow> ('b, 'm, 'd) channel outcome"
  | Connection_gone

definition manager_step ::
    "('b, 'd) tube_methods \<Rightarrow> (c_string \<Rightarrow> u32) \<Rightarrow> (u32 \<Rightarrow> bool) \<Rightarrow> u32 \<Rightarrow> 'p \<Rightarrow> ('b, 'm, 'd, 'p) manager_op
     \<Rightarrow> ('b, 'm, 'd, 'p) tubes_manager \<Rightarrow> ('b, 'm, 'd, 'p) tubes_manager outcome" where
  "manager_step M ensure is_valid self_handle no_parameters p tm =
     (case p of
        Stanza st \<Rightarrow> iq_tube_request_cb M ensure no_parameters st tm
      | Request randoms token rq new \<Rightarrow>
          andthen (requestotron M is_valid self_handle no_parameters randoms token rq new tm) (\<lambda>(_, tm). Inr tm)
      | Channel_does i f \<Rightarrow> on_channel i f tm
      | Connection_gone \<Rightarrow> tubes_manager_close_all M tm)"

section \<open>Capabilities\<close>

text \<open>
  \<open>ns\<close> is \<open>WOCKY_TELEPATHY_NS_TUBES\<close>. A class of channels that a contact supports has a fixed service or is the
  generic class of stream tubes.
\<close>

datatype channel_class = Service_class tube_type c_string | Generic_class

definition STREAM_CAP_PREFIX :: "c_string \<Rightarrow> c_string" where
  "STREAM_CAP_PREFIX ns = ns @ c_str ''/stream#''"

definition DBUS_CAP_PREFIX :: "c_string \<Rightarrow> c_string" where
  "DBUS_CAP_PREFIX ns = ns @ c_str ''/dbus#''"

definition contact_caps_of :: "c_string \<Rightarrow> c_string \<Rightarrow> channel_class option" where
  "contact_caps_of ns cap =
     (if \<not> has_prefix cap ns then None
      else if has_prefix cap (STREAM_CAP_PREFIX ns)
        then Some (Service_class Stream_tube (drop (length (STREAM_CAP_PREFIX ns)) cap))
      else if has_prefix cap (DBUS_CAP_PREFIX ns)
        then Some (Service_class Dbus_tube (drop (length (DBUS_CAP_PREFIX ns)) cap))
      else None)"

definition get_contact_caps_from_set :: "c_string \<Rightarrow> bool \<Rightarrow> capability_set \<Rightarrow> channel_class set" where
  "get_contact_caps_from_set ns is_self caps =
     (let features = capability_set_features caps;
          supports_tubes = (is_self \<or> (\<exists>c \<in> features. has_prefix c ns))
      in {k. \<exists>c \<in> features. contact_caps_of ns c = Some k} \<union> (if supports_tubes then {Generic_class} else {}))"

record client_filter =
  cf_contact :: bool
  cf_type :: requested_type
  cf_service :: "c_string option"

definition add_cap :: "c_string \<Rightarrow> client_filter \<Rightarrow> capability_set \<Rightarrow> capability_set" where
  "add_cap ns cap caps =
     (if cf_type cap = Request_other then caps
      else if \<not> cf_contact cap then caps
      else case cf_service cap of
        None \<Rightarrow> caps
      | Some service \<Rightarrow>
          capability_set_add
            ((if cf_type cap = Request_stream_tube then STREAM_CAP_PREFIX ns else DBUS_CAP_PREFIX ns) @ service) caps)"

definition represent_client :: "c_string \<Rightarrow> client_filter list \<Rightarrow> capability_set \<Rightarrow> capability_set" where
  "represent_client ns filters caps = fold (add_cap ns) filters caps"

end
