(* ===== verification/Tubes_Properties.thy ===== *)
theory Tubes_Properties
  imports Tubes_Manager Tube_Life
begin

text \<open>
  What the manager of the tubes does: its table has each tube once and no dead one, the stanzas it believes,
  and the services that it advertises and finds.
\<close>

section \<open>The table\<close>

definition table_ok :: "('b, 'm, 'd, 'p) tubes_manager \<Rightarrow> bool" where
  "table_ok tm \<longleftrightarrow> (\<forall>tab. tm_tubes tm = Some tab \<longrightarrow>
     distinct (map fst tab) \<and> (\<forall>i mt. map_of tab i = Some mt \<longrightarrow> \<not> channel_gone (mt_channel mt)))"

lemma holds_all: "(\<And>x. P x) \<Longrightarrow> holds P m"
  by (simp add: holds_iff)

lemma table_ok_emit [simp]: "table_ok (tm_emit e tm) = table_ok tm"
  by (simp add: table_ok_def tm_emit_def)











lemma lookup_find:
  "tubes_manager_lookup ty h s tm = Some i \<Longrightarrow> table_ok tm \<Longrightarrow>
   \<exists>mt. tm_lookup i tm = Some mt \<and> channel_type (mt_channel mt) = ty \<and> mt_handle mt = h \<and> mt_service mt = s"
  by (auto simp: tubes_manager_lookup_def tm_lookup_def table_ok_def find_Some_iff map_of_eq_Some_iff
      intro!: bexI[where P = "\<lambda>p. p = (_, _)"] split: option.splits) (metis map_of_is_SomeI nth_mem prod.collapse)



section \<open>Requests\<close>







section \<open>Offers that come in\<close>

lemma lookup_inserted: "tm_tubes tm = Some tab \<Longrightarrow> tm_lookup i (tm_insert i mt tm) = Some mt"
  by (simp add: tm_lookup_def tm_insert_def update_conv')

lemma lookup_emit [simp]: "tm_lookup i (tm_emit e tm) = tm_lookup i tm"
  by (simp add: tm_lookup_def tm_emit_def)

lemma never_pending:
  "life_step\<^sup>*\<^sup>* l l' \<Longrightarrow> fst l \<noteq> TUBE_STATE_LOCAL_PENDING \<Longrightarrow> fst l' \<noteq> TUBE_STATE_LOCAL_PENDING"
  by (induction rule: rtranclp_induct) (auto elim!: life_step.cases)

text \<open>
  C16. A stream tube that a contact offers can never be accepted. The manager creates it as if it had been
  requested by a local client, and whatever happens to it afterwards, it is not in the state in which
  \<open>Accept\<close> is allowed: the method returns an error and changes nothing.
\<close>

theorem offered_tube_is_never_accepted:
  assumes "extract_tube_information ensure np st = Some info" "\<not> in_close info" "in_type info = Stream_tube"
    and "tm_tubes tm = Some tab" "tm_lookup (in_id info) tm = None"
    and "iq_tube_request_cb M ensure np st tm = Inr tm'"
  shows "\<exists>mt ts. tm_lookup (in_id info) tm' = Some mt \<and> mt_channel mt = Stream_channel ts
    \<and> mt_handle mt = in_initiator info \<and> ts_state ts = TUBE_STATE_NOT_OFFERED
    \<and> (\<forall>ps ts'. tube_run (me_stream M) ps ts = Inr ts' \<longrightarrow>
        (\<forall>K random ty ac. tube_stream_accept_async (me_stream M) K random ty ac ts' = Inr (Some Invalid_argument, ts')))"
proof -
  let ?ts = "tube_stream_new TP_HANDLE_TYPE_CONTACT True True True :: 'b tube_stream"
  have never: "ts_state ts' \<noteq> TUBE_STATE_LOCAL_PENDING" if "tube_run (me_stream M) ps ?ts = Inr ts'" for ps ts'
    using never_pending[OF holdsD[OF tube_run_life that]] by (simp add: life_def[of ts'])
  from assms show ?thesis
    by (auto simp: iq_tube_request_cb_def create_new_tube_def Let_def lookup_inserted tube_stream_accept_async_def
        dest!: never) (simp add: tube_stream_new_def)
qed

lemma closed_remotely:
  assumes "\<not> ts_destroyed ts" "tube_stream_close B True ts = Inr ts'"
  shows "ts_destroyed ts' \<and> ts_signals ts' = ts_signals ts @ [Tube_event Tube_closed, Tube_event Channel_destroyed]"
proof -
  have "holds (\<lambda>ts'. ts_destroyed ts' \<and> ts_signals ts' = ts_signals ts @ [Tube_event Tube_closed, Tube_event Channel_destroyed])
      (tube_stream_close B True ts)"
    unfolding tube_stream_close_def using assms(1) by (simp add: Let_def ts_emit_def holds_all)
  with assms(2) show ?thesis by simp
qed

text \<open>
  A tube is closed by a stanza from anybody: the sender of the stanza is not compared with the contact of
  the tube, so every contact that knows the number of a tube can end it.
\<close>

theorem anybody_closes:
  assumes "extract_tube_information ensure np st = Some info" "in_close info"
    and "tm_lookup (in_id info) tm = Some mt" "mt_channel mt = Stream_channel ts" "\<not> ts_destroyed ts"
    and "in_initiator info \<noteq> mt_handle mt"
    and "tube_stream_close (me_stream M) True ts = Inr ts'"
  shows "\<exists>tm'. iq_tube_request_cb M ensure np st tm = Inr tm' \<and> tm_lookup (in_id info) tm' = None
    \<and> tm_events tm' = tm_events tm @ [Channel_closed (in_id info)] \<and> Close_sent \<notin> set (drop (length (ts_signals ts)) (ts_signals ts'))"
proof -
  have "ts_destroyed ts'" "ts_signals ts' = ts_signals ts @ [Tube_event Tube_closed, Tube_event Channel_destroyed]"
    using closed_remotely[OF assms(5,7)] by simp_all
  moreover have "on_channel (in_id info) (tube_iface_close M True) tm = Inr (channel_closed_cb (in_id info) tm)"
    using assms(3-5,7) \<open>ts_destroyed ts'\<close> by (simp add: on_channel_def tube_iface_close_def channel_gone_def)
  moreover have "tm_lookup (in_id info) (channel_closed_cb (in_id info) tm) = None"
    by (simp add: tm_lookup_def channel_closed_cb_def tm_emit_def delete_conv' split: option.split)
  ultimately show ?thesis using assms(1,2)
    by (simp add: iq_tube_request_cb_def channel_closed_cb_def tm_emit_def)
qed

section \<open>Services\<close>

text \<open>
  C17. The services that the clients advertise are those that are found in the capabilities: the classes that
  \<open>get_contact_caps\<close> reads off the set that \<open>represent_client\<close> writes are exactly the tubes to
  contacts with a service among the filters, each with its service, and the generic class if there is one.
\<close>

theorem services_are_found:
  assumes "ns \<noteq> []" "hd ns \<noteq> QUIRK_PREFIX_CHAR"
  shows "get_contact_caps_from_set ns is_self (represent_client ns filters capability_set_new) =
    {Service_class ty s |ty s. \<exists>f \<in> set filters. cf_contact f \<and> cf_service f = Some s
       \<and> cf_type f = (case ty of Stream_tube \<Rightarrow> Request_stream_tube | Dbus_tube \<Rightarrow> Request_dbus_tube)}
    \<union> (if is_self \<or> (\<exists>f \<in> set filters. cf_contact f \<and> cf_service f \<noteq> None \<and> cf_type f \<noteq> Request_other)
       then {Generic_class} else {})"
proof -
  define cap where "cap = (\<lambda>ty s. (if ty = Request_stream_tube then STREAM_CAP_PREFIX ns else DBUS_CAP_PREFIX ns) @ s)"
  have added: "represent_client ns filters caps = caps \<union> {cap (cf_type f) s |f s. f \<in> set filters
      \<and> cf_contact f \<and> cf_service f = Some s \<and> cf_type f \<noteq> Request_other}" for caps
    unfolding represent_client_def cap_def
    by (induction filters arbitrary: caps) (auto simp: add_cap_def capability_set_add_def split: option.split)
  have features: "capability_set_features {cap (cf_type f) s |f s. P f s} = {cap (cf_type f) s |f s. P f s}" for P
    using assms by (auto simp: capability_set_features_def cap_def STREAM_CAP_PREFIX_def DBUS_CAP_PREFIX_def)
  have found: "contact_caps_of ns (cap Request_stream_tube s) = Some (Service_class Stream_tube s)"
    "contact_caps_of ns (cap Request_dbus_tube s) = Some (Service_class Dbus_tube s)"
    "has_prefix (cap t s) ns" for s t
    by (simp_all add: contact_caps_of_def cap_def has_prefix_def STREAM_CAP_PREFIX_def DBUS_CAP_PREFIX_def c_str_def)
  let ?A = "{cap (cf_type f) s |f s. f \<in> set filters \<and> cf_contact f \<and> cf_service f = Some s \<and> cf_type f \<noteq> Request_other}"
  let ?req = "\<lambda>ty. case ty of Stream_tube \<Rightarrow> Request_stream_tube | Dbus_tube \<Rightarrow> Request_dbus_tube"
  have cls: "contact_caps_of ns (cap t s) = Some k \<longleftrightarrow> (\<exists>ty. t = ?req ty \<and> k = Service_class ty s)"
    if "t \<noteq> Request_other" for t s k
  proof -
    have "(\<exists>ty. Q ty) \<longleftrightarrow> Q Stream_tube \<or> Q Dbus_tube" for Q by (metis tube_type.exhaust)
    with that found(1,2)[of s] show ?thesis by (cases t) auto
  qed
  have req: "?req ty \<noteq> Request_other" for ty by (cases ty) simp_all
  have "{k. \<exists>c \<in> ?A. contact_caps_of ns c = Some k} = {Service_class ty s |ty s. \<exists>f \<in> set filters. cf_contact f
      \<and> cf_service f = Some s \<and> cf_type f = ?req ty}" (is "?L = ?R")
  proof (rule set_eqI)
    fix k
    have "k \<in> ?L \<longleftrightarrow> (\<exists>f s. f \<in> set filters \<and> cf_contact f \<and> cf_service f = Some s \<and> cf_type f \<noteq> Request_other
        \<and> contact_caps_of ns (cap (cf_type f) s) = Some k)" by blast
    also have "\<dots> \<longleftrightarrow> (\<exists>f s ty. f \<in> set filters \<and> cf_contact f \<and> cf_service f = Some s \<and> cf_type f = ?req ty
        \<and> k = Service_class ty s)" by (metis cls req)
    also have "\<dots> \<longleftrightarrow> k \<in> ?R" by blast
    finally show "k \<in> ?L \<longleftrightarrow> k \<in> ?R" .
  qed
  moreover have "(\<exists>c \<in> ?A. has_prefix c ns) \<longleftrightarrow> (\<exists>f \<in> set filters. cf_contact f \<and> cf_service f \<noteq> None \<and> cf_type f \<noteq> Request_other)"
    using found(3) by blast
  ultimately show ?thesis
    unfolding get_contact_caps_from_set_def added capability_set_new_def Un_empty_left features Let_def by simp
qed

section \<open>Witnesses\<close>

text \<open>The contact \<open>a\<close> offers the tube 7, and the contact \<open>bb\<close> closes it.\<close>

definition example_methods :: "(direct, unit) tube_methods" where
  "example_methods =
     \<lparr>me_stream = direct_tube,
      me_dbus = \<lparr>bs_state = (\<lambda>_. BYTESTREAM_STATE_OPEN), bs_is_muc = (\<lambda>_. False), bs_send = (\<lambda>_ b. (False, b, [])),
                 bs_close = (\<lambda>b. (b, [])), bs_set_state = (\<lambda>_ b. (b, []))\<rparr>,
      me_listen = (\<lambda>_. None), me_name = [], me_bytestream = ()\<rparr>"

definition example_ensure :: "c_string \<Rightarrow> u32" where
  "example_ensure s = of_nat (length s)"

definition example_offer_iq :: "unit tube_iq" where
  "example_offer_iq =
     \<lparr>ti_from = Some (c_str ''a''),
      ti_tube = Some \<lparr>tn_id = Some (c_str ''7''), tn_type = Some (c_str ''stream''), tn_service = Some (c_str ''x''),
                      tn_parameters = (), tn_transport = Some (Some (c_str ''80''))\<rparr>,
      ti_close = None\<rparr>"

definition example_close_iq :: "unit tube_iq" where
  "example_close_iq = \<lparr>ti_from = Some (c_str ''bb''), ti_tube = None, ti_close = Some (Some (c_str ''7''))\<rparr>"

type_synonym example_manager = "(direct, unit, unit, unit) tubes_manager"

lemma example_offer_info: "extract_tube_information example_ensure () example_offer_iq =
    Some \<lparr>in_close = False, in_initiator = 1, in_id = 7, in_type = Stream_tube, in_service = Some (c_str ''x''),
          in_parameters = (), in_port = 80\<rparr>"
  by (simp add: example_offer_iq_def example_close_iq_def extract_tube_information_def example_ensure_def extract_tube_id_def
      strtoull10_def tube_type_of_def extract_port_def strtol10_def c_str_def digits_value_def is_blank_def is_digit_def Let_def)

lemma example_close_info: "extract_tube_information example_ensure () example_close_iq =
    Some \<lparr>in_close = True, in_initiator = 2, in_id = 7, in_type = Stream_tube, in_service = None,
          in_parameters = (), in_port = 0\<rparr>"
  by (simp add: example_offer_iq_def example_close_iq_def extract_tube_information_def example_ensure_def extract_tube_id_def
      strtoull10_def tube_type_of_def extract_port_def strtol10_def c_str_def digits_value_def is_blank_def is_digit_def Let_def)

definition example_managed :: "(direct, unit, unit, unit) managed" where
  "example_managed = \<lparr>mt_channel = Stream_channel (tube_stream_new TP_HANDLE_TYPE_CONTACT True True True), mt_handle = 1,
     mt_service = Some (c_str ''x''), mt_parameters = (), mt_port = 80\<rparr>"

definition example_offered_tm :: example_manager where
  "example_offered_tm = \<lparr>tm_tubes = Some [(7, example_managed)], tm_events = [New_channel 7 None]\<rparr>"

lemma example_offer_result:
  "iq_tube_request_cb example_methods example_ensure () example_offer_iq tubes_manager_new = Inr example_offered_tm"
  by (simp add: iq_tube_request_cb_def example_offer_info tm_lookup_def tubes_manager_new_def create_new_tube_def
      tm_insert_def tm_emit_def example_offered_tm_def example_managed_def)

lemma offered_tube_is_never_accepted_witness:
  "tube_stream_accept_async direct_tube \<lparr>kn_socket = \<lambda>_. Inl 3, kn_setsockopt = \<lambda>_. True, kn_bind = \<lambda>_ _. None,
     kn_listen = \<lambda>_ _. None, kn_bound = \<lambda>_ _. Some 0\<rparr> [] SOCKET_ADDRESS_TYPE_UNIX ACCESS_CONTROL_LOCALHOST
     (tube_stream_new TP_HANDLE_TYPE_CONTACT True True True :: direct tube_stream)
   = Inr (Some Invalid_argument, tube_stream_new TP_HANDLE_TYPE_CONTACT True True True)"
proof -
  have new: "tm_tubes (tubes_manager_new :: example_manager) = Some []" "tm_lookup 7 (tubes_manager_new :: example_manager) = None"
    by (simp_all add: tubes_manager_new_def tm_lookup_def)
  have run: "tube_run direct_tube [] ts = Inr ts" for ts by (simp add: tube_run_def)
  from offered_tube_is_never_accepted[OF example_offer_info _ _ new(1) _ example_offer_result] new(2)
  show ?thesis
    by (auto simp: example_offered_tm_def tm_lookup_def example_managed_def example_methods_def run
        dest!: spec[of _ "[]"])
qed

lemma anybody_closes_witness:
  "\<exists>tm'. iq_tube_request_cb example_methods example_ensure () example_close_iq example_offered_tm = Inr tm'
     \<and> tm_lookup 7 tm' = None"
proof -
  have closed: "\<exists>ts'. tube_stream_close (me_stream example_methods) True
      (tube_stream_new TP_HANDLE_TYPE_CONTACT True True True) = Inr ts'"
    by (simp add: tube_stream_close_def tube_stream_new_def)
  then obtain ts' where ts': "tube_stream_close (me_stream example_methods) True
      (tube_stream_new TP_HANDLE_TYPE_CONTACT True True True) = Inr ts'" by blast
  have tube: "tm_lookup 7 example_offered_tm = Some example_managed" "mt_handle example_managed = 1"
    "mt_channel example_managed = Stream_channel (tube_stream_new TP_HANDLE_TYPE_CONTACT True True True)"
    by (simp_all add: example_offered_tm_def tm_lookup_def example_managed_def)
  from anybody_closes[OF example_close_info _ _ tube(3) _ _ ts'] tube(1,2) show ?thesis
    by (auto simp: tube_stream_new_def)
qed




lemma services_are_found_witness:
  "get_contact_caps_from_set (c_str ''t'') False (represent_client (c_str ''t'')
     [\<lparr>cf_contact = True, cf_type = Request_stream_tube, cf_service = Some (c_str ''x'')\<rparr>] capability_set_new)
   = {Service_class Stream_tube (c_str ''x''), Generic_class}"
proof -
  have "c_str ''t'' \<noteq> []" "hd (c_str ''t'') \<noteq> QUIRK_PREFIX_CHAR" by (simp_all add: c_str_def QUIRK_PREFIX_CHAR_def)
  from services_are_found[OF this, of False "[\<lparr>cf_contact = True, cf_type = Request_stream_tube, cf_service = Some (c_str ''x'')\<rparr>]"]
  show ?thesis by (auto split: tube_type.splits) (metis tube_type.exhaust)
qed

end
