(* ===== verification/File_Offer.thy ===== *)
theory File_Offer
  imports C_String
begin

text \<open>
  Offering a file, \<open>lib/gibber/gibber-oob-file-transfer.c\<close> with its base class
  \<open>gibber-file-transfer.c\<close>: the file transfer as an object, the stanza that offers a file, and how it is read
  at the other end. A stanza is what the code reads and writes of it. GLib's URI escaping and Wocky's data
  forms are arguments: \<open>escape\<close> and \<open>unescape\<close>, \<open>form_of\<close> and \<open>node_of\<close>; \<open>'x\<close> is a node with a form,
  \<open>'f\<close> a form.
\<close>

type_synonym u64 = "64 word"

section \<open>Strings\<close>

text \<open>\<open>g_strstrip\<close> removes the white space of \<open>g_ascii_isspace\<close> at both ends.\<close>

definition is_g_space :: "u8 \<Rightarrow> bool" where
  "is_g_space c \<longleftrightarrow> c \<in> {32, 9, 10, 12, 13}"

definition g_strstrip :: "c_string \<Rightarrow> c_string" where
  "g_strstrip s = rev (dropWhile is_g_space (rev (dropWhile is_g_space s)))"

text \<open>What follows the last slash, \<open>g_strrstr (s, "/") + 1\<close>.\<close>

definition after_last_slash :: "c_string \<Rightarrow> c_string option" where
  "after_last_slash s = (if 47 \<in> set s then Some (rev (takeWhile (\<lambda>c. c \<noteq> 47) (rev s))) else None)"

text \<open>\<open>g_ascii_strtoull (s, NULL, 0)\<close>, where the prefix says what the base is.\<close>

definition digit_in_base :: "nat \<Rightarrow> u8 \<Rightarrow> nat option" where
  "digit_in_base base c =
     (let v = (if 48 \<le> c \<and> c \<le> 57 then Some (unat c - 48)
               else if 65 \<le> c \<and> c \<le> 90 then Some (unat c - 55)
               else if 97 \<le> c \<and> c \<le> 122 then Some (unat c - 87) else None)
      in case v of None \<Rightarrow> None | Some d \<Rightarrow> if d < base then Some d else None)"

definition digits_in_base :: "nat \<Rightarrow> c_string \<Rightarrow> nat" where
  "digits_in_base base s =
     foldl (\<lambda>v c. v * base + the (digit_in_base base c)) 0 (takeWhile (\<lambda>c. digit_in_base base c \<noteq> None) s)"

definition g_ascii_strtoull :: "c_string \<Rightarrow> u64" where
  "g_ascii_strtoull s =
     (let t = dropWhile is_blank s;
          neg = (t \<noteq> [] \<and> hd t = 45);
          u = (if t \<noteq> [] \<and> (hd t = 45 \<or> hd t = 43) then tl t else t);
          v = (if take 2 u = c_str ''0x'' \<or> take 2 u = c_str ''0X'' then digits_in_base 16 (drop 2 u)
               else if take 1 u = c_str ''0'' then digits_in_base 8 u else digits_in_base 10 u)
      in if v > 2 ^ 64 - 1 then of_nat (2 ^ 64 - 1) else if neg then - of_nat v else of_nat v)"

section \<open>Stanzas\<close>

record file_url =
  fu_content :: "c_string option"
  fu_type :: "c_string option"
  fu_mime_type :: "c_string option"
  fu_size :: "c_string option"

record 'x file_query =
  fq_url :: "file_url option"
  fq_desc :: "c_string option option" \<comment> \<open>the node \<open>desc\<close> and its content\<close>
  fq_x :: "'x list"

record file_error =
  fe_code :: "c_string option"
  fe_type :: "c_string option"

record 'x file_stanza =
  fs_name :: c_string
  fs_from :: "c_string option"
  fs_to :: "c_string option"
  fs_type :: "c_string option"
  fs_id :: "c_string option"
  fs_query :: "'x file_query option"
  fs_error :: "file_error option"

section \<open>State\<close>

text \<open>
  A \<open>GibberOobFileTransfer\<close>. The server is known by its port, the message \<open>msg\<close> by a number. The last
  fields are what the transfer does to the outside: the bytes it writes to the local application, the stanzas
  it sends, and its calls of libsoup.
\<close>

datatype http_event =
    Http_status nat u32 \<comment> \<open>of a message\<close>
  | Http_encoding_appended nat
  | Http_append nat "u8 list"
  | Http_complete nat
  | Http_unpause nat
  | Http_get_queued c_string
  | Http_handler_added c_string
  | Http_handler_removed c_string

record ('x, 'f) file_transfer =
  xf_id :: c_string
  xf_self_id :: c_string
  xf_peer_id :: c_string
  xf_filename :: "c_string option"
  xf_description :: "c_string option"
  xf_content_type :: "c_string option"
  xf_outgoing :: bool
  xf_dataforms :: "'f list"
  xf_size :: u64
  xf_server :: "nat option"
  xf_handler :: bool \<comment> \<open>the server calls \<open>http_server_cb\<close>\<close>
  xf_msg :: "nat option"
  xf_served_name :: "c_string option"
  xf_url :: "c_string option"
  xf_channel :: bool
  xf_transferred_bytes :: u64
  xf_cancelled :: bool
  xf_watches :: nat \<comment> \<open>watches on the channel\<close>
  xf_watched_msgs :: "nat list" \<comment> \<open>messages whose \<open>wrote-chunk\<close> is connected\<close>
  xf_written :: "u8 list"
  xf_stanzas :: "'x file_stanza list"
  xf_http :: "http_event list"

text \<open>\<open>generate_id\<close> with the value of its counter, and a new transfer.\<close>

definition generate_id :: "nat \<Rightarrow> c_string" where
  "generate_id n = c_str ''gibber-file-transfer-'' @ decimal n"

definition file_transfer_new ::
    "c_string \<Rightarrow> c_string \<Rightarrow> c_string \<Rightarrow> c_string option \<Rightarrow> c_string option \<Rightarrow> c_string option \<Rightarrow> bool
     \<Rightarrow> ('x, 'f) file_transfer" where
  "file_transfer_new i self peer filename description content_type outgoing =
     \<lparr>xf_id = i, xf_self_id = self, xf_peer_id = peer, xf_filename = filename, xf_description = description,
      xf_content_type = content_type, xf_outgoing = outgoing, xf_dataforms = [], xf_size = 0, xf_server = None,
      xf_handler = False, xf_msg = None, xf_served_name = None, xf_url = None, xf_channel = False, xf_transferred_bytes = 0,
      xf_cancelled = False, xf_watches = 0, xf_watched_msgs = [], xf_written = [], xf_stanzas = [], xf_http = []\<rparr>"

section \<open>Reading an offer\<close>

definition is_file_offer :: "'x file_stanza \<Rightarrow> bool" where
  "is_file_offer stanza =
     (if fs_name stanza \<noteq> c_str ''iq'' \<or> fs_type stanza \<noteq> Some (c_str ''set'') then False
      else case fs_query stanza of
        None \<Rightarrow> False
      | Some query \<Rightarrow>
          (case fq_url query of
             None \<Rightarrow> False
           | Some url \<Rightarrow>
               (case fu_content url of
                  None \<Rightarrow> False
                | Some content \<Rightarrow>
                    if content = [] then False
                    else has_prefix (if hd content = 10 then tl content else content) (c_str ''http://''))))"

definition extract_dataforms :: "('x \<Rightarrow> 'f option) \<Rightarrow> 'x list \<Rightarrow> 'f list" where
  "extract_dataforms form_of xs = List.map_filter form_of xs"

text \<open>\<open>None\<close> is the error that is returned.\<close>

definition new_from_stanza_with_from ::
    "(c_string \<Rightarrow> c_string option) \<Rightarrow> ('x \<Rightarrow> 'f option) \<Rightarrow> c_string option \<Rightarrow> 'x file_stanza
     \<Rightarrow> ('x, 'f) file_transfer option" where
  "new_from_stanza_with_from unescape form_of peer_id stanza =
     (if fs_name stanza \<noteq> c_str ''iq'' then None
      else case peer_id of None \<Rightarrow> None | Some peer \<Rightarrow>
      (case fs_to stanza of None \<Rightarrow> None | Some self_id \<Rightarrow>
      if fs_type stanza \<noteq> Some (c_str ''set'') then None
      else case fs_id stanza of None \<Rightarrow> None | Some i \<Rightarrow>
      (case fs_query stanza of None \<Rightarrow> None | Some query \<Rightarrow>
      (case fq_url query of None \<Rightarrow> None | Some url_node \<Rightarrow>
      (case fu_content url_node of None \<Rightarrow> None | Some content \<Rightarrow>
      if fu_type url_node \<noteq> None \<and> fu_type url_node \<noteq> Some (c_str ''file'') then None
      else let url = g_strstrip content in
      (case after_last_slash url of None \<Rightarrow> None | Some name \<Rightarrow>
         let content_type = (case fu_mime_type url_node of
               None \<Rightarrow> Some (c_str ''application/octet-stream'') | Some ty \<Rightarrow> Some ty);
             description = (case fq_desc query of None \<Rightarrow> None | Some d \<Rightarrow> d)
         in Some ((file_transfer_new i self_id peer (unescape name) description content_type False)
              \<lparr>xf_size := (case fu_size url_node of None \<Rightarrow> 0 | Some s \<Rightarrow> g_ascii_strtoull s),
               xf_url := Some url, xf_dataforms := extract_dataforms form_of (fq_x query)\<rparr>)))))))"

section \<open>Writing an offer\<close>

text \<open>
  \<open>conn\<close> is the borrowed connection: whether its local address is an IPv6 address, and its host. The file
  name and the port are read through pointers that have to be there.
\<close>

definition create_transfer_offer ::
    "(c_string \<Rightarrow> c_string) \<Rightarrow> ('f \<Rightarrow> 'x) \<Rightarrow> (bool \<times> c_string) option \<Rightarrow> ('x, 'f, 'a) file_transfer_scheme
     \<Rightarrow> ('x file_stanza option \<times> ('x, 'f, 'a) file_transfer_scheme) outcome" where
  "create_transfer_offer escape node_of conn t =
     (case conn of
        None \<Rightarrow> Inr (None, t)
      | Some (ipv6, host_name) \<Rightarrow>
          andthen (deref (xf_filename t)) (\<lambda>filename.
          andthen (deref (xf_server t)) (\<lambda>port.
          let host = (if ipv6 then c_str ''['' @ host_name @ c_str '']'' else host_name);
              url = c_str ''http://'' @ host @ c_str '':'' @ decimal port @ c_str ''/'' @ xf_id t @ c_str ''/''
                @ escape filename;
              served_name = c_str ''/'' @ xf_id t @ c_str ''/'' @ filename;
              url_node = \<lparr>fu_content = Some url, fu_type = Some (c_str ''file''), fu_mime_type = xf_content_type t,
                fu_size = if xf_size t > 0 then Some (decimal (unat (xf_size t))) else None\<rparr>;
              stanza = \<lparr>fs_name = c_str ''iq'', fs_from = Some (xf_self_id t), fs_to = Some (xf_peer_id t),
                fs_type = Some (c_str ''set''), fs_id = Some (xf_id t),
                fs_query = Some \<lparr>fq_url = Some url_node, fq_desc = Some (xf_description t),
                  fq_x = map node_of (xf_dataforms t)\<rparr>,
                fs_error = None\<rparr>
          in Inr (Some stanza, t\<lparr>xf_url := Some url, xf_served_name := Some served_name\<rparr>))))"

end
