(* ===== verification/File_Transfer.thy ===== *)
theory File_Transfer
  imports File_Offer
begin

text \<open>
  Moving a file over HTTP, \<open>lib/gibber/gibber-oob-file-transfer.c\<close>: the side that offers runs a server and
  feeds it, block by block, with what the local application writes; the other side requests the file and
  writes what comes to its application. Signals run the handlers of the channel at once, so the operations
  take them as \<open>H\<close>, a function on the whole state, which a channel extends.
\<close>

section \<open>Signals\<close>

datatype file_transfer_error = Ft_not_connected | Ft_not_found | Ft_not_acceptable

datatype ft_signal =
    Remote_accepted
  | Finished
  | Ft_error file_transfer_error
  | Transferred_chunk u64
  | Ft_cancelled

definition xf_log :: "http_event \<Rightarrow> ('x, 'f, 'a) file_transfer_scheme \<Rightarrow> ('x, 'f, 'a) file_transfer_scheme" where
  "xf_log e t = t\<lparr>xf_http := xf_http t @ [e]\<rparr>"

definition xf_send_stanza ::
    "'x file_stanza \<Rightarrow> ('x, 'f, 'a) file_transfer_scheme \<Rightarrow> ('x, 'f, 'a) file_transfer_scheme" where
  "xf_send_stanza st t = t\<lparr>xf_stanzas := xf_stanzas t @ [st]\<rparr>"

definition transferred_chunk ::
    "(ft_signal \<Rightarrow> ('x, 'f, 'a) file_transfer_scheme \<Rightarrow> ('x, 'f, 'a) file_transfer_scheme outcome) \<Rightarrow> u64
     \<Rightarrow> ('x, 'f, 'a) file_transfer_scheme \<Rightarrow> ('x, 'f, 'a) file_transfer_scheme outcome" where
  "transferred_chunk H n t =
     andthen (H (Transferred_chunk n) t) (\<lambda>t. Inr (t\<lparr>xf_transferred_bytes := xf_transferred_bytes t + n\<rparr>))"

section \<open>Cancelling\<close>

definition reply_stanza ::
    "c_string \<Rightarrow> c_string option \<Rightarrow> file_error option \<Rightarrow> ('x, 'f, 'a) file_transfer_scheme \<Rightarrow> 'x file_stanza" where
  "reply_stanza ty url err t =
     \<lparr>fs_name = c_str ''iq'', fs_from = Some (xf_self_id t), fs_to = Some (xf_peer_id t), fs_type = Some ty,
      fs_id = Some (xf_id t),
      fs_query = map_option (\<lambda>u. \<lparr>fq_url = Some \<lparr>fu_content = Some u, fu_type = None, fu_mime_type = None,
        fu_size = None\<rparr>, fq_desc = None, fq_x = []\<rparr>) url,
      fs_error = err\<rparr>"

definition xf_cancel ::
    "nat \<Rightarrow> ('x, 'f, 'a) file_transfer_scheme \<Rightarrow> ('x, 'f, 'a) file_transfer_scheme outcome" where
  "xf_cancel error_code t =
     (if xf_cancelled t then Inr t
      else let t = t\<lparr>xf_cancelled := True\<rparr> in
      if xf_outgoing t then Inr t
      else andthen (assert_that (error_code = 404 \<or> error_code = 406)) (\<lambda>_.
        let err = \<lparr>fe_code = Some (decimal error_code),
                   fe_type = Some (if error_code = 404 then c_str ''cancel'' else c_str ''modify'')\<rparr>
        in Inr (xf_send_stanza (reply_stanza (c_str ''error'') (xf_url t) (Some err) t) t)))"

section \<open>Receiving\<close>

text \<open>\<open>g_io_channel_write_chars\<close> on no channel does nothing.\<close>

definition http_client_chunk_cb ::
    "(ft_signal \<Rightarrow> ('x, 'f, 'a) file_transfer_scheme \<Rightarrow> ('x, 'f, 'a) file_transfer_scheme outcome)
     \<Rightarrow> u32 \<Rightarrow> u8 list \<Rightarrow> ('x, 'f, 'a) file_transfer_scheme \<Rightarrow> ('x, 'f, 'a) file_transfer_scheme outcome" where
  "http_client_chunk_cb H status_code chunk t =
     (if xf_cancelled t then Inr t
      else let t = (if xf_channel t then t\<lparr>xf_written := xf_written t @ chunk\<rparr> else t) in
      if status_code \<noteq> 200
        then Inr (t\<lparr>xf_transferred_bytes := xf_transferred_bytes t + of_nat (length chunk)\<rparr>)
      else transferred_chunk H (of_nat (length chunk)) t)"

definition http_client_finished_chunks_cb ::
    "(ft_signal \<Rightarrow> ('x, 'f, 'a) file_transfer_scheme \<Rightarrow> ('x, 'f, 'a) file_transfer_scheme outcome)
     \<Rightarrow> u32 \<Rightarrow> ('x, 'f, 'a) file_transfer_scheme \<Rightarrow> ('x, 'f, 'a) file_transfer_scheme outcome" where
  "http_client_finished_chunks_cb H status_code t =
     (let t = t\<lparr>xf_msg := None, xf_channel := False\<rparr> in
      if xf_size t > xf_transferred_bytes t then H Ft_cancelled t
      else if status_code \<noteq> 200 then H (Ft_error Ft_not_found) t
      else andthen (transferred_chunk H 0 (xf_send_stanza (reply_stanza (c_str ''result'') None None t) t))
             (H Finished))"

text \<open>\<open>msg\<close> is the new message, if the URL can be parsed.\<close>

definition xf_receive ::
    "(ft_signal \<Rightarrow> ('x, 'f, 'a) file_transfer_scheme \<Rightarrow> ('x, 'f, 'a) file_transfer_scheme outcome)
     \<Rightarrow> nat option \<Rightarrow> ('x, 'f, 'a) file_transfer_scheme \<Rightarrow> ('x, 'f, 'a) file_transfer_scheme outcome" where
  "xf_receive H msg t =
     (if xf_outgoing t then Inr t
      else let t = t\<lparr>xf_msg := msg\<rparr> in
      if msg = None then andthen (xf_cancel 404 t) (H (Ft_error Ft_not_found))
      else andthen (deref (xf_url t)) (\<lambda>url. Inr (xf_log (Http_get_queued url) (t\<lparr>xf_channel := True\<rparr>))))"

section \<open>Sending\<close>

definition http_server_wrote_chunk_cb ::
    "('x, 'f, 'a) file_transfer_scheme \<Rightarrow> ('x, 'f, 'a) file_transfer_scheme" where
  "http_server_wrote_chunk_cb t =
     (if xf_channel t \<and> \<not> xf_cancelled t then t\<lparr>xf_watches := xf_watches t + 1\<rparr> else t)"

definition xf_send :: "('x, 'f, 'a) file_transfer_scheme \<Rightarrow> ('x, 'f, 'a) file_transfer_scheme" where
  "xf_send t =
     (if \<not> xf_outgoing t then t
      else case xf_msg t of
        None \<Rightarrow> t
      | Some m \<Rightarrow> http_server_wrote_chunk_cb (t\<lparr>xf_channel := True, xf_watched_msgs := xf_watched_msgs t @ [m]\<rparr>))"

text \<open>The header of the AppleSingle encoding.\<close>

definition apple_single_header :: "u64 \<Rightarrow> u8 list" where
  "apple_single_header file_size =
     be32 0x51600 @ be32 0x20000 @ be32 0 @ be32 0 @ be32 0 @ be32 0 @ be16 1 @ be32 1 @ be32 38 @ be32 (ucast file_size)"

definition http_server_cb ::
    "(ft_signal \<Rightarrow> ('x, 'f, 'a) file_transfer_scheme \<Rightarrow> ('x, 'f, 'a) file_transfer_scheme outcome)
     \<Rightarrow> nat \<Rightarrow> bool \<Rightarrow> c_string \<Rightarrow> c_string option
     \<Rightarrow> ('x, 'f, 'a) file_transfer_scheme \<Rightarrow> ('x, 'f, 'a) file_transfer_scheme outcome" where
  "http_server_cb H msg is_get path accept_encoding t =
     (if \<not> is_get then Inr (xf_log (Http_status msg 501) t)
      else if Some path \<noteq> xf_served_name t then Inr (xf_log (Http_status msg 404) t)
      else let t = (xf_log (Http_status msg 200) t)\<lparr>xf_msg := Some msg\<rparr>;
               t = (if accept_encoding = Some (c_str ''AppleSingle'')
                    then xf_log (Http_unpause msg) (xf_log (Http_append msg (apple_single_header (xf_size t)))
                           (xf_log (Http_encoding_appended msg) t))
                    else t)
           in H Remote_accepted t)"

text \<open>
  What a read of the channel returns. The callback of a watch: the condition, and the result, which says
  whether the watch stays.
\<close>

datatype channel_read = Read_normal "u8 list" | Read_again | Read_eof | Read_failed

definition close_transfer ::
    "('x, 'f, 'a) file_transfer_scheme \<Rightarrow> (bool \<times> ('x, 'f, 'a) file_transfer_scheme) outcome" where
  "close_transfer t =
     andthen (deref (xf_msg t)) (\<lambda>m.
     andthen (deref (xf_served_name t)) (\<lambda>name.
     Inr (False, (xf_log (Http_handler_removed name) (xf_log (Http_unpause m) (xf_log (Http_complete m) t)))
       \<lparr>xf_channel := False, xf_handler := False\<rparr>)))"

definition input_channel_readable_cb ::
    "(ft_signal \<Rightarrow> ('x, 'f, 'a) file_transfer_scheme \<Rightarrow> ('x, 'f, 'a) file_transfer_scheme outcome)
     \<Rightarrow> bool \<Rightarrow> channel_read \<Rightarrow> ('x, 'f, 'a) file_transfer_scheme
     \<Rightarrow> (bool \<times> ('x, 'f, 'a) file_transfer_scheme) outcome" where
  "input_channel_readable_cb H g_io_in r t =
     (if g_io_in then
        (case r of
           Read_normal buff \<Rightarrow>
             andthen (deref (xf_msg t)) (\<lambda>m.
             andthen (transferred_chunk H (of_nat (length buff)) (xf_log (Http_unpause m) (xf_log (Http_append m buff) t)))
               (\<lambda>t. Inr (False, t)))
         | Read_again \<Rightarrow> Inr (True, t)
         | Read_eof \<Rightarrow> close_transfer t
         | Read_failed \<Rightarrow> close_transfer t)
      else close_transfer t)"

text \<open>The main loop calls it for a watch and drops the watch if it says so.\<close>

definition channel_watch ::
    "(ft_signal \<Rightarrow> ('x, 'f, 'a) file_transfer_scheme \<Rightarrow> ('x, 'f, 'a) file_transfer_scheme outcome)
     \<Rightarrow> bool \<Rightarrow> channel_read \<Rightarrow> ('x, 'f, 'a) file_transfer_scheme \<Rightarrow> ('x, 'f, 'a) file_transfer_scheme outcome" where
  "channel_watch H g_io_in r t =
     (if xf_watches t = 0 then Inr t
      else andthen (input_channel_readable_cb H g_io_in r t)
             (\<lambda>(stays, t). Inr (if stays then t else t\<lparr>xf_watches := xf_watches t - 1\<rparr>)))"

section \<open>Offering\<close>

definition create_and_send_transfer_offer ::
    "(ft_signal \<Rightarrow> ('x, 'f, 'a) file_transfer_scheme \<Rightarrow> ('x, 'f, 'a) file_transfer_scheme outcome)
     \<Rightarrow> (c_string \<Rightarrow> c_string) \<Rightarrow> ('f \<Rightarrow> 'x) \<Rightarrow> (bool \<times> c_string) option
     \<Rightarrow> ('x, 'f, 'a) file_transfer_scheme \<Rightarrow> ('x, 'f, 'a) file_transfer_scheme outcome" where
  "create_and_send_transfer_offer H escape node_of conn t =
     andthen (create_transfer_offer escape node_of conn t) (\<lambda>(stanza, t).
     case stanza of
       None \<Rightarrow> H (Ft_error Ft_not_connected) t
     | Some st \<Rightarrow>
         andthen (deref (xf_served_name t)) (\<lambda>name.
         Inr (xf_send_stanza st (xf_log (Http_handler_added name) (t\<lparr>xf_handler := True\<rparr>)))))"

text \<open>\<open>opened\<close> says whether the connection could be opened, \<open>port\<close> is the one of the new server.\<close>

definition porter_open_cb ::
    "(ft_signal \<Rightarrow> ('x, 'f, 'a) file_transfer_scheme \<Rightarrow> ('x, 'f, 'a) file_transfer_scheme outcome)
     \<Rightarrow> (c_string \<Rightarrow> c_string) \<Rightarrow> ('f \<Rightarrow> 'x) \<Rightarrow> bool \<Rightarrow> (bool \<times> c_string) option \<Rightarrow> nat
     \<Rightarrow> ('x, 'f, 'a) file_transfer_scheme \<Rightarrow> ('x, 'f, 'a) file_transfer_scheme outcome" where
  "porter_open_cb H escape node_of opened conn port t =
     (if \<not> opened then H (Ft_error Ft_not_connected) t
      else if conn = None then H (Ft_error Ft_not_connected) t
      else create_and_send_transfer_offer H escape node_of conn (t\<lparr>xf_server := Some port\<rparr>))"

text \<open>
  The result says whether the connection to the contact has to be opened first; then \<open>porter_open_cb\<close> goes on.
\<close>

definition xf_offer ::
    "(ft_signal \<Rightarrow> ('x, 'f, 'a) file_transfer_scheme \<Rightarrow> ('x, 'f, 'a) file_transfer_scheme outcome)
     \<Rightarrow> (c_string \<Rightarrow> c_string) \<Rightarrow> ('f \<Rightarrow> 'x) \<Rightarrow> (bool \<times> c_string) option
     \<Rightarrow> ('x, 'f, 'a) file_transfer_scheme \<Rightarrow> (bool \<times> ('x, 'f, 'a) file_transfer_scheme) outcome" where
  "xf_offer H escape node_of conn t =
     (if \<not> xf_outgoing t then Inr (False, t)
      else if xf_server t \<noteq> None
        then andthen (create_and_send_transfer_offer H escape node_of conn t) (\<lambda>t. Inr (False, t))
      else Inr (True, t))"

section \<open>Answers\<close>

definition xf_received_stanza ::
    "(ft_signal \<Rightarrow> ('x, 'f, 'a) file_transfer_scheme \<Rightarrow> ('x, 'f, 'a) file_transfer_scheme outcome)
     \<Rightarrow> 'x file_stanza \<Rightarrow> ('x, 'f, 'a) file_transfer_scheme \<Rightarrow> ('x, 'f, 'a) file_transfer_scheme outcome" where
  "xf_received_stanza H stanza t =
     (if fs_name stanza \<noteq> c_str ''iq'' then Inr t
      else case fs_type stanza of
        None \<Rightarrow> Inr t
      | Some ty \<Rightarrow>
          if ty = c_str ''result'' then H Finished t
          else (case fs_error stanza of
                  None \<Rightarrow> Inr t
                | Some err \<Rightarrow>
                    let t = t\<lparr>xf_cancelled := True\<rparr>;
                        code = (case fe_code err of None \<Rightarrow> fe_type err | Some c \<Rightarrow> Some c)
                    in case code of
                         None \<Rightarrow> H (Ft_error Ft_not_found) t
                       | Some c \<Rightarrow>
                           if fst (strtol10 c) = 406 then H Ft_cancelled t else H (Ft_error Ft_not_found) t))"

text \<open>The handler for the stanzas of the connection; the result says whether the stanza was for this transfer.\<close>

definition xf_received_stanza_cb ::
    "(ft_signal \<Rightarrow> ('x, 'f, 'a) file_transfer_scheme \<Rightarrow> ('x, 'f, 'a) file_transfer_scheme outcome)
     \<Rightarrow> 'x file_stanza \<Rightarrow> ('x, 'f, 'a) file_transfer_scheme
     \<Rightarrow> (bool \<times> ('x, 'f, 'a) file_transfer_scheme) outcome" where
  "xf_received_stanza_cb H stanza t =
     (if fs_id stanza = Some (xf_id t)
      then andthen (xf_received_stanza H stanza t) (\<lambda>t. Inr (True, t))
      else Inr (False, t))"

end
