(* ===== verification/File_Channel.thy ===== *)
theory File_Channel
  imports File_Transfer
begin

text \<open>
  The channel of a file transfer, \<open>src/file-transfer-channel.c\<close>: what the local client sees and does. It
  drives the transfer, whose record it extends, and its signal handlers run inside the transfer's signals;
  for each of them the record counts how often it is connected. The local socket is whether it is there and
  watched; \<open>fch_signals\<close> is what goes to the client. The clock is an argument, in seconds and microseconds.
\<close>

section \<open>State\<close>

datatype file_state = State_none | State_pending | State_accepted | State_open | State_completed | State_cancelled

datatype change_reason =
    Reason_none | Reason_requested | Reason_local_stopped | Reason_remote_stopped | Reason_local_error
  | Reason_remote_error

datatype channel_signal =
    File_transfer_state_changed file_state change_reason
  | Transferred_bytes_changed u64
  | Initial_offset_defined u64
  | Uri_defined c_string
  | Method_returned
  | Method_failed
  | File_channel_closed

record ('x, 'f) file_channel = "('x, 'f) file_transfer" +
  fch_has_ft :: bool
  fch_requested :: bool
  fch_last_emitted :: "int \<times> int"
  fch_progress_timer :: "u32 option"
  fch_socket :: bool
  fch_listening :: bool \<comment> \<open>the watch on the local socket\<close>
  fch_remote_accepted :: bool
  fch_pending_channel :: bool
  fch_state :: file_state
  fch_size :: u64
  fch_transferred_bytes :: u64
  fch_initial_offset :: u64
  fch_uri :: "c_string option"
  fch_on_remote_accepted :: nat
  fch_on_error :: nat
  fch_on_cancelled :: nat
  fch_on_chunk :: nat
  fch_on_finished :: nat
  fch_holds :: int
  fch_destroyed :: bool
  fch_signals :: "channel_signal list"

type_synonym ('x, 'f, 'a) channel_op = "('x, 'f, 'a) file_channel_scheme \<Rightarrow> ('x, 'f, 'a) file_channel_scheme outcome"

definition fch_emit :: "channel_signal \<Rightarrow> ('x, 'f, 'a) file_channel_scheme \<Rightarrow> ('x, 'f, 'a) file_channel_scheme" where
  "fch_emit e c = c\<lparr>fch_signals := fch_signals c @ [e]\<rparr>"

definition fch_set_state ::
    "file_state \<Rightarrow> change_reason \<Rightarrow> ('x, 'f, 'a) file_channel_scheme \<Rightarrow> ('x, 'f, 'a) file_channel_scheme" where
  "fch_set_state st reason c =
     (if fch_state c = st then c else fch_emit (File_transfer_state_changed st reason) (c\<lparr>fch_state := st\<rparr>))"

section \<open>Progress\<close>

definition emit_progress_update ::
    "int \<times> int \<Rightarrow> ('x, 'f, 'a) file_channel_scheme \<Rightarrow> ('x, 'f, 'a) file_channel_scheme" where
  "emit_progress_update now c =
     (fch_emit (Transferred_bytes_changed (fch_transferred_bytes c)) (c\<lparr>fch_last_emitted := now\<rparr>))
       \<lparr>fch_progress_timer := None\<rparr>"

text \<open>\<open>gint\<close> arithmetic; the delay of the timer is a \<open>guint\<close>.\<close>

definition ft_transferred_chunk_cb ::
    "int \<times> int \<Rightarrow> u64 \<Rightarrow> ('x, 'f, 'a) file_channel_scheme \<Rightarrow> ('x, 'f, 'a) file_channel_scheme" where
  "ft_transferred_chunk_cb now count c =
     (let c = c\<lparr>fch_transferred_bytes := fch_transferred_bytes c + count\<rparr> in
      if fch_transferred_bytes c \<ge> fch_size c then emit_progress_update now c
      else if fch_progress_timer c \<noteq> None then c
      else let interval = word_of_int (fst now - fst (fch_last_emitted c)) :: u32 in
      if sint interval > 1 then emit_progress_update now c
      else let usecs = snd now - snd (fch_last_emitted c);
               msecs = (if usecs < 0 then - (- usecs div 1000) else usecs div 1000);
               interval = interval * 1000 + word_of_int msecs;
               interval = (if sint interval < 0 then - interval else interval)
           in if sint interval > 1000 then emit_progress_update now c
              else c\<lparr>fch_progress_timer := Some (1000 - interval)\<rparr>)"

definition emit_progress_update_cb ::
    "int \<times> int \<Rightarrow> ('x, 'f, 'a) file_channel_scheme \<Rightarrow> ('x, 'f, 'a) file_channel_scheme" where
  "emit_progress_update_cb now c = (if fch_progress_timer c = None then c else emit_progress_update now c)"

section \<open>Signals of the transfer\<close>

definition error_cb :: "file_transfer_error \<Rightarrow> ('x, 'f, 'a) channel_op" where
  "error_cb code c =
     (let receiver = (\<not> fch_requested c) in
      andthen (if code = Ft_not_found \<and> receiver then xf_cancel 404 c else Inr c) (\<lambda>c.
      Inr (fch_set_state State_cancelled (if receiver then Reason_local_error else Reason_remote_error) c)))"

definition ft_finished_cb :: "('x, 'f, 'a) file_channel_scheme \<Rightarrow> ('x, 'f, 'a) file_channel_scheme" where
  "ft_finished_cb c = (let c = fch_set_state State_completed Reason_none c in c\<lparr>fch_holds := fch_holds c - 1\<rparr>)"

definition ft_remote_cancelled_cb :: "('x, 'f, 'a) channel_op" where
  "ft_remote_cancelled_cb c =
     andthen (xf_cancel 406 c) (\<lambda>c.
     let c = fch_set_state State_cancelled Reason_remote_stopped c in Inr (c\<lparr>fch_holds := fch_holds c - 1\<rparr>))"

definition remote_accepted_cb :: "('x, 'f, 'a) file_channel_scheme \<Rightarrow> ('x, 'f, 'a) file_channel_scheme" where
  "remote_accepted_cb c =
     (let c = c\<lparr>fch_remote_accepted := True\<rparr>;
          c = (if fch_pending_channel c then (xf_send c)\<lparr>fch_pending_channel := False\<rparr> else c);
          c = (if fch_socket c
               then fch_set_state State_open Reason_none (fch_emit (Initial_offset_defined (fch_initial_offset c)) c)
               else fch_set_state State_accepted Reason_none c)
      in c\<lparr>fch_on_finished := fch_on_finished c + 1\<rparr>)"

primrec repeated :: "nat \<Rightarrow> ('s \<Rightarrow> 's outcome) \<Rightarrow> 's \<Rightarrow> 's outcome" where
  "repeated 0 f s = Inr s"
| "repeated (Suc n) f s = andthen (f s) (repeated n f)"

definition channel_handler :: "int \<times> int \<Rightarrow> ft_signal \<Rightarrow> ('x, 'f, 'a) channel_op" where
  "channel_handler now sig c =
     (case sig of
        Remote_accepted \<Rightarrow> repeated (fch_on_remote_accepted c) (\<lambda>c. Inr (remote_accepted_cb c)) c
      | Finished \<Rightarrow> repeated (fch_on_finished c) (\<lambda>c. Inr (ft_finished_cb c)) c
      | Ft_error code \<Rightarrow> repeated (fch_on_error c) (error_cb code) c
      | Transferred_chunk count \<Rightarrow> repeated (fch_on_chunk c) (\<lambda>c. Inr (ft_transferred_chunk_cb now count c)) c
      | Ft_cancelled \<Rightarrow> repeated (fch_on_cancelled c) ft_remote_cancelled_cb c)"

section \<open>The contact and the end\<close>

definition contact_lost_cb :: "('x, 'f, 'a) file_channel_scheme \<Rightarrow> ('x, 'f, 'a) file_channel_scheme" where
  "contact_lost_cb c =
     (if fch_state c \<noteq> State_pending then c else fch_set_state State_cancelled Reason_remote_stopped c)"

definition file_channel_close :: "('x, 'f, 'a) channel_op" where
  "file_channel_close c =
     andthen (if fch_state c \<noteq> State_completed \<and> fch_state c \<noteq> State_cancelled
              then if \<not> fch_has_ft c then Inl Null_dereference
                   else andthen (xf_cancel 406 c) (\<lambda>c. Inr (fch_set_state State_cancelled Reason_local_stopped c))
              else Inr c) (\<lambda>c.
     Inr ((fch_emit File_channel_closed c)\<lparr>fch_destroyed := True\<rparr>))"

section \<open>Methods\<close>

definition SOCKET_ADDRESS_TYPE_UNIX :: nat where "SOCKET_ADDRESS_TYPE_UNIX = 0"
definition SOCKET_ADDRESS_TYPE_IPV4 :: nat where "SOCKET_ADDRESS_TYPE_IPV4 = 2"
definition SOCKET_ADDRESS_TYPE_IPV6 :: nat where "SOCKET_ADDRESS_TYPE_IPV6 = 3"
definition SOCKET_ACCESS_CONTROL_LOCALHOST :: nat where "SOCKET_ACCESS_CONTROL_LOCALHOST = 0"

definition available_socket_types :: "(nat \<times> nat list) list" where
  "available_socket_types =
     [(SOCKET_ADDRESS_TYPE_UNIX, [SOCKET_ACCESS_CONTROL_LOCALHOST]),
      (SOCKET_ADDRESS_TYPE_IPV4, [SOCKET_ACCESS_CONTROL_LOCALHOST]),
      (SOCKET_ADDRESS_TYPE_IPV6, [SOCKET_ACCESS_CONTROL_LOCALHOST])]"

definition check_address_and_access_control :: "nat \<Rightarrow> nat \<Rightarrow> bool" where
  "check_address_and_access_control address_type access_control =
     (case map_of available_socket_types address_type of
        None \<Rightarrow> False
      | Some access_arr \<Rightarrow> access_control \<in> set access_arr)"

text \<open>\<open>bound\<close>: the socket is created, bound and listens.\<close>

definition setup_local_socket ::
    "bool \<Rightarrow> ('x, 'f, 'a) file_channel_scheme \<Rightarrow> bool \<times> ('x, 'f, 'a) file_channel_scheme" where
  "setup_local_socket bound c = (if bound then (True, c\<lparr>fch_socket := True, fch_listening := True\<rparr>) else (False, c))"

text \<open>
  When the socket cannot be set up, the method returns an error, which frees its context, and goes on: it
  answers once more, with the address of a socket that is not there.
\<close>

definition accept_file :: "nat \<Rightarrow> nat \<Rightarrow> bool \<Rightarrow> ('x, 'f, 'a) channel_op" where
  "accept_file address_type access_control bound c =
     (if \<not> fch_has_ft c then Inl Null_dereference
      else if fch_state c \<noteq> State_pending then Inr (fch_emit Method_failed c)
      else if \<not> check_address_and_access_control address_type access_control then Inr (fch_emit Method_failed c)
      else
        let c = c\<lparr>fch_on_finished := fch_on_finished c + 1, fch_on_chunk := fch_on_chunk c + 1,
                  fch_on_cancelled := fch_on_cancelled c + 1\<rparr>
        in case setup_local_socket bound c of (ok, c) \<Rightarrow>
           if \<not> ok then Inl Null_dereference
           else let c = fch_set_state State_accepted Reason_requested c;
                    c = fch_emit Method_returned c;
                    c = c\<lparr>fch_initial_offset := 0\<rparr>;
                    c = fch_emit (Initial_offset_defined (fch_initial_offset c)) c
                in Inr (fch_set_state State_open Reason_none c))"

definition provide_file :: "nat \<Rightarrow> nat \<Rightarrow> bool \<Rightarrow> ('x, 'f, 'a) channel_op" where
  "provide_file address_type access_control bound c =
     (if \<not> fch_requested c then Inr (fch_emit Method_failed c)
      else if fch_socket c then Inr (fch_emit Method_failed c)
      else if \<not> check_address_and_access_control address_type access_control then Inr (fch_emit Method_failed c)
      else case setup_local_socket bound c of (ok, c) \<Rightarrow>
        if \<not> ok then Inl Null_dereference
        else let c = (if fch_remote_accepted c
                      then fch_set_state State_open Reason_requested
                             (fch_emit (Initial_offset_defined (fch_initial_offset c)) c)
                      else c)
             in Inr (fch_emit Method_returned c))"

definition file_channel_set_uri :: "c_string \<Rightarrow> ('x, 'f, 'a) channel_op" where
  "file_channel_set_uri uri c =
     (if fch_uri c \<noteq> None \<or> fch_requested c \<or> fch_state c \<noteq> State_pending then Inr (fch_emit Method_failed c)
      else Inr (fch_emit (Uri_defined uri) (c\<lparr>fch_uri := Some uri\<rparr>)))"

text \<open>
  Somebody connects to the local socket, once: \<open>g_io_in\<close> is the condition, \<open>accepted\<close> says whether \<open>accept\<close>
  works, \<open>msg\<close> is the message of the request for the file, if its URL can be parsed.
\<close>

definition accept_local_socket_connection ::
    "int \<times> int \<Rightarrow> bool \<Rightarrow> bool \<Rightarrow> nat option \<Rightarrow> ('x, 'f, 'a) channel_op" where
  "accept_local_socket_connection now g_io_in accepted msg c =
     (let c = c\<lparr>fch_listening := False\<rparr> in
      andthen (assert_that (fch_has_ft c)) (\<lambda>_.
      if \<not> g_io_in \<or> \<not> accepted then Inr c
      else if \<not> xf_outgoing c then xf_receive (channel_handler now) msg c
      else if fch_remote_accepted c then Inr (xf_send c)
      else Inr (c\<lparr>fch_pending_channel := True\<rparr>)))"

section \<open>New channels\<close>

definition file_channel_init ::
    "('x, 'f) file_transfer \<Rightarrow> bool \<Rightarrow> bool \<Rightarrow> u64 \<Rightarrow> u64 \<Rightarrow> c_string option \<Rightarrow> nat \<Rightarrow> nat \<Rightarrow> nat \<Rightarrow> ('x, 'f) file_channel" where
  "file_channel_init t has_ft requested file_size offset uri on_remote_accepted on_cancelled on_chunk =
     file_transfer.extend t
       \<lparr>fch_has_ft = has_ft, fch_requested = requested, fch_last_emitted = (0, 0), fch_progress_timer = None,
        fch_socket = False, fch_listening = False, fch_remote_accepted = False, fch_pending_channel = False,
        fch_state = State_pending, fch_size = file_size, fch_transferred_bytes = 0, fch_initial_offset = offset,
        fch_uri = uri, fch_on_remote_accepted = on_remote_accepted, fch_on_error = 1,
        fch_on_cancelled = on_cancelled, fch_on_chunk = on_chunk, fch_on_finished = 0, fch_holds = 1,
        fch_destroyed = False, fch_signals = [File_transfer_state_changed State_pending Reason_none]\<rparr>"

text \<open>A channel for an offer; \<open>None\<close> is the error that is sent back.\<close>

definition file_channel_new_from_stanza ::
    "(c_string \<Rightarrow> c_string option) \<Rightarrow> ('x \<Rightarrow> 'f option) \<Rightarrow> c_string \<Rightarrow> 'x file_stanza \<Rightarrow> ('x, 'f) file_channel option" where
  "file_channel_new_from_stanza unescape form_of contact stanza =
     map_option (\<lambda>t. file_channel_init t True False (xf_size t) 0 None 0 0 0)
       (new_from_stanza_with_from unescape form_of (Some contact) stanza)"

text \<open>
  A channel for a file that a client offers, from \<open>file_channel_new\<close> to \<open>send_file_offer\<close>; the transfer gets
  the next number of \<open>generate_id\<close>. Opening the connection to the contact comes next.
\<close>

definition SALUT_UNDEFINED_FILE_SIZE :: u64 where
  "SALUT_UNDEFINED_FILE_SIZE = - 1"

definition send_file_offer ::
    "nat \<Rightarrow> c_string \<Rightarrow> c_string \<Rightarrow> c_string \<Rightarrow> c_string option \<Rightarrow> c_string option \<Rightarrow> u64 \<Rightarrow> u64 \<Rightarrow> c_string option
     \<Rightarrow> 'f list \<Rightarrow> ('x, 'f) file_channel" where
  "send_file_offer n self_id contact filename description content_type file_size offset uri forms =
     (let t = file_transfer_new (generate_id n) self_id contact (Some filename) description content_type True;
          t = t\<lparr>xf_size := file_size, xf_dataforms := forms\<rparr>
      in file_channel_init t True True file_size offset uri 1 1 1)"

definition file_channel_offer_file ::
    "nat \<Rightarrow> c_string \<Rightarrow> c_string \<Rightarrow> c_string \<Rightarrow> c_string option \<Rightarrow> c_string option \<Rightarrow> u64 \<Rightarrow> u64 \<Rightarrow> c_string option
     \<Rightarrow> 'f list \<Rightarrow> ('x, 'f) file_channel outcome" where
  "file_channel_offer_file n self_id contact filename description content_type file_size offset uri forms =
     andthen (assert_that (filename \<noteq> [])) (\<lambda>_.
     andthen (assert_that (file_size \<noteq> SALUT_UNDEFINED_FILE_SIZE)) (\<lambda>_.
     Inr (send_file_offer n self_id contact filename description content_type file_size offset uri forms)))"

section \<open>The channel\<close>

text \<open>
  What happens to a channel. A block or the end of a response comes for a request that is under way, a
  written block for a message whose signal is connected, a connection that is opened for an offer. A channel that was closed is disposed of, and its
  transfer with it.
\<close>

datatype 'x file_op =
    Accept_file nat nat bool
  | Provide_file nat nat bool
  | Set_uri c_string
  | Close_file_channel
  | Contact_lost
  | Connection_opened bool "(bool \<times> c_string) option" nat
  | Client_connects bool bool "nat option"
  | Stanza_received "'x file_stanza"
  | Response_chunk u32 "u8 list"
  | Response_end u32
  | Http_request nat bool c_string "c_string option"
  | Wrote_chunk nat
  | Channel_ready bool channel_read
  | Progress_timer

definition file_channel_step ::
    "(c_string \<Rightarrow> c_string) \<Rightarrow> ('f \<Rightarrow> 'x) \<Rightarrow> int \<times> int \<Rightarrow> 'x file_op \<Rightarrow> ('x, 'f, 'a) channel_op" where
  "file_channel_step escape node_of now p c =
     (let H = channel_handler now in
      if fch_destroyed c then Inr c
      else case p of
        Accept_file ty ac bound \<Rightarrow> accept_file ty ac bound c
      | Provide_file ty ac bound \<Rightarrow> provide_file ty ac bound c
      | Set_uri uri \<Rightarrow> file_channel_set_uri uri c
      | Close_file_channel \<Rightarrow> file_channel_close c
      | Contact_lost \<Rightarrow> Inr (contact_lost_cb c)
      | Connection_opened opened conn port \<Rightarrow>
          if xf_outgoing c \<and> xf_server c = None then porter_open_cb H escape node_of opened conn port c else Inr c
      | Client_connects g_io_in accepted msg \<Rightarrow>
          if fch_listening c then accept_local_socket_connection now g_io_in accepted msg c else Inr c
      | Stanza_received st \<Rightarrow> andthen (xf_received_stanza_cb H st c) (\<lambda>(_, c). Inr c)
      | Response_chunk status chunk \<Rightarrow>
          if \<not> xf_outgoing c \<and> xf_msg c \<noteq> None then http_client_chunk_cb H status chunk c else Inr c
      | Response_end status \<Rightarrow>
          if \<not> xf_outgoing c \<and> xf_msg c \<noteq> None then http_client_finished_chunks_cb H status c else Inr c
      | Http_request msg is_get path enc \<Rightarrow>
          if xf_handler c then http_server_cb H msg is_get path enc c else Inr c
      | Wrote_chunk msg \<Rightarrow>
          Inr (if msg \<in> set (xf_watched_msgs c) then http_server_wrote_chunk_cb c else c)
      | Channel_ready g_io_in r \<Rightarrow> channel_watch H g_io_in r c
      | Progress_timer \<Rightarrow> Inr (emit_progress_update_cb now c))"

fun file_channel_run ::
    "(c_string \<Rightarrow> c_string) \<Rightarrow> ('f \<Rightarrow> 'x) \<Rightarrow> ((int \<times> int) \<times> 'x file_op) list \<Rightarrow> ('x, 'f, 'a) channel_op" where
  "file_channel_run escape node_of [] c = Inr c"
| "file_channel_run escape node_of ((now, p) # ps) c =
     andthen (file_channel_step escape node_of now p c) (file_channel_run escape node_of ps)"

end
