(* ===== verification/File_Manager.thy ===== *)
theory File_Manager
  imports File_Channel Capability_Set
begin

text \<open>
  The manager of file transfers, \<open>src/ft-manager.c\<close>, and what \<open>src/file-transfer-channel.c\<close> does with the
  metadata of a file: offers that come in, requests of local clients, the list of channels, and the
  capabilities that say which files a contact takes. A data form is a value of \<open>'f\<close>; \<open>make_form\<close> parses the
  form with the given fields and \<open>form_fields\<close> are the raw values of its fields.
\<close>

section \<open>Metadata\<close>

type_synonym form_fields = "(c_string \<times> c_string list option) list"

definition NS_TP_FT_METADATA_SERVICE :: c_string where
  "NS_TP_FT_METADATA_SERVICE = c_str ''http://telepathy.freedesktop.org/xmpp/file-transfer-service''"

definition NS_TP_FT_METADATA :: c_string where
  "NS_TP_FT_METADATA = c_str ''http://telepathy.freedesktop.org/xmpp/file-transfer-metadata''"

definition add_metadata_forms ::
    "(form_fields \<Rightarrow> 'f option) \<Rightarrow> c_string option \<Rightarrow> (c_string \<times> c_string list) list option \<Rightarrow> 'f list" where
  "add_metadata_forms make_form service_name metadata =
     (case service_name of
        None \<Rightarrow> []
      | Some name \<Rightarrow>
          if name = [] then []
          else List.map_filter make_form
            [[(c_str ''FORM_TYPE'', Some [NS_TP_FT_METADATA_SERVICE]), (c_str ''ServiceName'', Some [name])]])
     @ (case metadata of
          None \<Rightarrow> []
        | Some table \<Rightarrow>
            if table = [] then []
            else List.map_filter make_form
              [(c_str ''FORM_TYPE'', Some [NS_TP_FT_METADATA]) # map (\<lambda>(key, vals). (key, Some vals)) table])"

primrec find_data_form :: "('f \<Rightarrow> form_fields) \<Rightarrow> c_string \<Rightarrow> 'f list \<Rightarrow> 'f option outcome" where
  "find_data_form form_fields form_type [] = Inr None"
| "find_data_form form_fields form_type (form # forms) =
     (case map_of (form_fields form) (c_str ''FORM_TYPE'') of
        None \<Rightarrow> find_data_form form_fields form_type forms
      | Some raw_value_contents \<Rightarrow>
          andthen (deref raw_value_contents) (\<lambda>vals.
          if vals \<noteq> [] \<and> hd vals = form_type then Inr (Some form)
          else find_data_form form_fields form_type forms))"

definition extract_service_name :: "('f \<Rightarrow> form_fields) \<Rightarrow> 'f list \<Rightarrow> c_string option outcome" where
  "extract_service_name form_fields forms =
     andthen (find_data_form form_fields NS_TP_FT_METADATA_SERVICE forms) (\<lambda>form.
     Inr (case form of
            None \<Rightarrow> None
          | Some f \<Rightarrow>
              (case map_of (form_fields f) (c_str ''ServiceName'') of
                 Some (Some (name # _)) \<Rightarrow> Some name
               | _ \<Rightarrow> None)))"

definition extract_metadata :: "('f \<Rightarrow> form_fields) \<Rightarrow> 'f list \<Rightarrow> form_fields option outcome" where
  "extract_metadata form_fields forms =
     andthen (find_data_form form_fields NS_TP_FT_METADATA forms) (\<lambda>form.
     Inr (map_option (\<lambda>f. filter (\<lambda>(var, _). var \<noteq> c_str ''FORM_TYPE'') (form_fields f)) form))"

section \<open>State\<close>

text \<open>A channel is known by its number.\<close>

datatype file_request_error =
    File_invalid_handle | File_not_implemented | File_invalid_argument | File_not_available | File_not_capable

datatype file_manager_event =
    File_new_channel nat "nat option"
  | File_request_failed nat file_request_error
  | File_error_sent

record ('x, 'f) file_manager =
  fm_channels :: "(nat \<times> ('x, 'f) file_channel) list"
  fm_next :: nat
  fm_events :: "file_manager_event list"

definition fm_emit :: "file_manager_event \<Rightarrow> ('x, 'f) file_manager \<Rightarrow> ('x, 'f) file_manager" where
  "fm_emit e m = m\<lparr>fm_events := fm_events m @ [e]\<rparr>"

definition file_channel_closed :: "nat \<Rightarrow> ('x, 'f) file_manager \<Rightarrow> ('x, 'f) file_manager" where
  "file_channel_closed i m =
     (if fm_channels m = [] then m else m\<lparr>fm_channels := filter (\<lambda>(j, _). j \<noteq> i) (fm_channels m)\<rparr>)"

definition channel_created ::
    "('x, 'f) file_channel \<Rightarrow> nat option \<Rightarrow> ('x, 'f) file_manager \<Rightarrow> ('x, 'f) file_manager" where
  "channel_created c request_token m =
     fm_emit (File_new_channel (fm_next m) request_token)
       (m\<lparr>fm_channels := fm_channels m @ [(fm_next m, c)], fm_next := fm_next m + 1\<rparr>)"

section \<open>Offers that come in\<close>

text \<open>The result says whether the stanza was for the manager. \<open>lookup\<close> is the handle of the contact.\<close>

definition message_stanza_callback ::
    "(c_string \<Rightarrow> c_string option) \<Rightarrow> ('x \<Rightarrow> 'f option) \<Rightarrow> ('f \<Rightarrow> form_fields) \<Rightarrow> (c_string \<Rightarrow> u32) \<Rightarrow> c_string
     \<Rightarrow> 'x file_stanza \<Rightarrow> ('x, 'f) file_manager \<Rightarrow> (bool \<times> ('x, 'f) file_manager) outcome" where
  "message_stanza_callback unescape form_of form_fields lookup contact stanza m =
     (if \<not> is_file_offer stanza then Inr (False, m)
      else andthen (assert_that (lookup contact \<noteq> 0)) (\<lambda>_.
        case file_channel_new_from_stanza unescape form_of contact stanza of
          None \<Rightarrow> Inr (True, fm_emit File_error_sent m)
        | Some c \<Rightarrow>
            andthen (extract_service_name form_fields (xf_dataforms c)) (\<lambda>_.
            andthen (extract_metadata form_fields (xf_dataforms c)) (\<lambda>_.
            Inr (True, channel_created c None m)))))"

section \<open>Requests\<close>

record file_request =
  fr_file_transfer :: bool
  fr_contact :: bool
  fr_handle :: u32
  fr_content_type :: "c_string option"
  fr_filename :: "c_string option"
  fr_size :: u64 \<comment> \<open>zero if it is missing\<close>
  fr_hash_type :: "nat option"
  fr_hash :: "c_string option"
  fr_description :: "c_string option"
  fr_initial_offset :: u64
  fr_uri :: "c_string option"
  fr_service_name :: "c_string option"
  fr_metadata :: "(c_string \<times> c_string list) list option"

definition TP_NUM_FILE_HASH_TYPES :: nat where "TP_NUM_FILE_HASH_TYPES = 4"

text \<open>
  The checks of a request, in their order; \<open>contact_of\<close> is the name and the capabilities of a contact that
  is online.
\<close>

definition check_file_request ::
    "(u32 \<Rightarrow> bool) \<Rightarrow> u32 \<Rightarrow> (u32 \<Rightarrow> (c_string \<times> capability_set) option) \<Rightarrow> file_request
     \<Rightarrow> file_request_error + (c_string \<times> c_string \<times> c_string)" where
  "check_file_request is_valid self_handle contact_of rq =
     (if \<not> is_valid (fr_handle rq) then Inl File_invalid_handle
      else if fr_handle rq = self_handle then Inl File_not_implemented
      else case fr_content_type rq of None \<Rightarrow> Inl File_invalid_argument | Some content_type \<Rightarrow>
      (case fr_filename rq of None \<Rightarrow> Inl File_invalid_argument | Some filename \<Rightarrow>
      if fr_size rq = 0 then Inl File_invalid_argument
      else let hash_type = (case fr_hash_type rq of None \<Rightarrow> 0 | Some h \<Rightarrow> h) in
      if hash_type \<ge> TP_NUM_FILE_HASH_TYPES then Inl File_invalid_argument
      else if hash_type \<noteq> 0 \<and> fr_hash rq = None then Inl File_invalid_argument
      else if (case fr_metadata rq of None \<Rightarrow> False | Some table \<Rightarrow> map_of table (c_str ''FORM_TYPE'') \<noteq> None)
        then Inl File_invalid_argument
      else case contact_of (fr_handle rq) of None \<Rightarrow> Inl File_not_available | Some (name, caps) \<Rightarrow>
      if (fr_service_name rq \<noteq> None \<or> fr_metadata rq \<noteq> None) \<and> \<not> capability_set_has caps NS_TP_FT_METADATA
        then Inl File_not_capable
      else Inr (name, filename, content_type)))"

text \<open>The result says whether the request is one for this manager; \<open>n\<close> is the counter of \<open>generate_id\<close>.\<close>

definition ft_manager_handle_request ::
    "(form_fields \<Rightarrow> 'f option) \<Rightarrow> (u32 \<Rightarrow> bool) \<Rightarrow> u32 \<Rightarrow> (u32 \<Rightarrow> (c_string \<times> capability_set) option) \<Rightarrow> c_string \<Rightarrow> nat
     \<Rightarrow> nat \<Rightarrow> file_request \<Rightarrow> ('x, 'f) file_manager \<Rightarrow> (bool \<times> ('x, 'f) file_manager) outcome" where
  "ft_manager_handle_request make_form is_valid self_handle contact_of self_id n token rq m =
     (if \<not> fr_file_transfer rq then Inr (False, m)
      else if \<not> fr_contact rq then Inr (False, m)
      else case check_file_request is_valid self_handle contact_of rq of
        Inl e \<Rightarrow> Inr (True, fm_emit (File_request_failed token e) m)
      | Inr (name, filename, content_type) \<Rightarrow>
          andthen (file_channel_offer_file n self_id name filename (fr_description rq) (Some content_type) (fr_size rq)
              (fr_initial_offset rq) (fr_uri rq) (add_metadata_forms make_form (fr_service_name rq) (fr_metadata rq)))
            (\<lambda>c. Inr (True, channel_created c (Some token) m)))"

section \<open>The manager\<close>

definition ft_manager_new :: "('x, 'f) file_manager" where
  "ft_manager_new = \<lparr>fm_channels = [], fm_next = 0, fm_events = []\<rparr>"

text \<open>Something happens to a channel; when it is closed, the manager forgets it.\<close>

definition on_file_channel ::
    "(c_string \<Rightarrow> c_string) \<Rightarrow> ('f \<Rightarrow> 'x) \<Rightarrow> int \<times> int \<Rightarrow> nat \<Rightarrow> 'x file_op
     \<Rightarrow> ('x, 'f) file_manager \<Rightarrow> ('x, 'f) file_manager outcome" where
  "on_file_channel escape node_of now i p m =
     (case map_of (fm_channels m) i of
        None \<Rightarrow> Inr m
      | Some c \<Rightarrow>
          andthen (file_channel_step escape node_of now p c) (\<lambda>c.
          Inr (if fch_destroyed c then file_channel_closed i m
               else m\<lparr>fm_channels := AList.update i c (fm_channels m)\<rparr>)))"

section \<open>Capabilities\<close>

text \<open>
  A class of file transfers: the fixed service, if there is one, and whether metadata are allowed. Wocky's
  namespaces \<open>WOCKY_XMPP_NS_IQ_OOB\<close> and \<open>WOCKY_XMPP_NS_X_OOB\<close> are arguments.
\<close>

datatype file_class = File_class "c_string option" bool

definition file_caps_of :: "c_string \<Rightarrow> file_class option" where
  "file_caps_of ns =
     (let prefix = NS_TP_FT_METADATA @ c_str ''#'' in
      if \<not> has_prefix ns prefix then None else Some (File_class (Some (drop (length prefix) ns)) True))"

definition file_contact_caps :: "c_string \<Rightarrow> c_string \<Rightarrow> capability_set \<Rightarrow> file_class set" where
  "file_contact_caps iq_oob x_oob caps =
     (if capability_set_has caps iq_oob \<or> capability_set_has caps x_oob
         \<or> capability_set_has caps QUIRK_NOT_XEP_CAPABILITIES
      then {File_class None (capability_set_has caps NS_TP_FT_METADATA)} else {})
     \<union> {k. \<exists>ns \<in> capability_set_features caps. file_caps_of ns = Some k}"

record file_filter =
  ff_file_transfer :: bool
  ff_contact :: bool
  ff_requested :: bool
  ff_service_name :: "c_string option"

definition represent_file_filter ::
    "c_string \<Rightarrow> c_string \<Rightarrow> file_filter \<Rightarrow> capability_set \<Rightarrow> capability_set" where
  "represent_file_filter iq_oob x_oob f caps =
     (if \<not> ff_file_transfer f then caps
      else if \<not> ff_contact f then caps
      else let caps = capability_set_add NS_TP_FT_METADATA (capability_set_add x_oob (capability_set_add iq_oob caps)) in
      if ff_requested f then caps
      else case ff_service_name f of
        None \<Rightarrow> caps
      | Some name \<Rightarrow> capability_set_add (NS_TP_FT_METADATA @ c_str ''#'' @ name) caps)"

definition represent_file_client ::
    "c_string \<Rightarrow> c_string \<Rightarrow> file_filter list \<Rightarrow> capability_set \<Rightarrow> capability_set" where
  "represent_file_client iq_oob x_oob filters caps = fold (represent_file_filter iq_oob x_oob) filters caps"

end
