(* ===== verification/File_Properties.thy ===== *)
theory File_Properties
  imports File_Manager
begin

text \<open>
  What a file transfer promises: the other end understands an offer and learns of a refusal, a file that is
  completed is whole, its progress reaches the client. Then what goes wrong: transfers that come back, bytes
  that go to somebody else, requests that abort the process.
\<close>

section \<open>Offers\<close>

lemma decimal_hd:
  assumes "n > 0"
  shows "hd (decimal n) \<noteq> 48"
  using assms
proof (induction n rule: decimal.induct)
  case (1 n)
  show ?case
  proof (cases "n < 10")
    case True
    with \<open>n > 0\<close> have "uint (48 + of_nat n :: u8) \<noteq> uint (48 :: u8)" by (simp add: digit_char)
    then have "(48 + of_nat n :: u8) \<noteq> 48" by metis
    with True show ?thesis by (simp add: decimal.simps[of n])
  next
    case False
    with 1 show ?thesis by (simp add: decimal.simps[of n] hd_append)
  qed
qed

lemma digit_base_10:
  assumes "is_digit c"
  shows "digit_in_base 10 c = Some (nat (uint c - 48))"
proof -
  from assms have c: "48 \<le> c" "c \<le> 57" by (simp_all add: is_digit_def)
  then have "48 \<le> uint c" "uint c \<le> 57" by (simp_all add: word_le_def)
  then have "unat c - 48 = nat (uint c - 48)" "nat (uint c - 48) < 10" by (auto simp flip: nat_uint_eq)
  with c show ?thesis by (simp add: digit_in_base_def)
qed

lemma digits_base_10: "\<forall>c \<in> set s. is_digit c \<Longrightarrow> int (digits_in_base 10 s) = digits_value s"
proof (induction s rule: rev_induct)
  case Nil
  then show ?case by (simp add: digits_in_base_def digits_value_def)
next
  case (snoc c s)
  have all: "takeWhile (\<lambda>c. digit_in_base 10 c \<noteq> None) s = s"
    using snoc.prems by (auto simp: takeWhile_eq_all_conv digit_base_10)
  then have "digits_in_base 10 (s @ [c]) = digits_in_base 10 s * 10 + nat (uint c - 48)"
    using snoc.prems by (simp add: digits_in_base_def digit_base_10 takeWhile_append all del: not_None_eq)
  moreover have "48 \<le> uint c" using snoc.prems by (simp add: is_digit_def word_le_def)
  ultimately show ?case using snoc by (simp add: digits_value_snoc)
qed

lemma strtoull_decimal:
  assumes "0 < n" "n < 2 ^ 64"
  shows "g_ascii_strtoull (decimal n) = of_nat n"
proof -
  have d: "is_digit (hd (decimal n))" using decimal_digits[of n] by (simp add: hd_in_set)
  have "dropWhile is_blank (decimal n) = decimal n" "hd (decimal n) \<noteq> 45" "hd (decimal n) \<noteq> 43"
    using digit_not_blank[OF d] by (cases "decimal n"; simp)+
  moreover have "take 2 (decimal n) \<noteq> c_str ''0x''" "take 2 (decimal n) \<noteq> c_str ''0X''" "take 1 (decimal n) \<noteq> c_str ''0''"
    using decimal_hd[OF assms(1)] by (cases "decimal n"; simp add: c_str_def of_char_def)+
  moreover have "digits_in_base 10 (decimal n) = n"
    using digits_base_10[OF decimal_digits[of n]] digits_value_decimal[of n] by simp
  ultimately show ?thesis using assms(2) by (simp add: g_ascii_strtoull_def Let_def)
qed

lemma after_last: "47 \<notin> set s \<Longrightarrow> after_last_slash (p @ 47 # s) = Some s"
  by (simp add: after_last_slash_def takeWhile_append)

lemma strstrip_same: "s \<noteq> [] \<Longrightarrow> \<not> is_g_space (hd s) \<Longrightarrow> \<not> is_g_space (last s) \<Longrightarrow> g_strstrip s = s"
  by (simp add: g_strstrip_def dropWhile_eq_self_iff[THEN iffD2] hd_rev)

text \<open>
  C20. The other end understands an offer: it takes the stanza for one, and the transfer it makes of it is the
  mirror image of the one that is offered, with its id, name, size, type, description, forms and URL.
\<close>

theorem offer_is_understood:
  assumes "\<forall>s. unescape (escape s) = Some s" "\<forall>s. \<forall>c \<in> set (escape s). c \<noteq> 47 \<and> \<not> is_g_space c"
    and "\<forall>f. form_of (node_of f) = Some f"
    and "xf_content_type t = Some ty" "xf_outgoing t"
    and "create_transfer_offer escape node_of conn t = Inr (Some stanza, t')"
  shows "is_file_offer stanza \<and> (\<exists>r. new_from_stanza_with_from unescape form_of (Some (xf_self_id t)) stanza = Some r
    \<and> xf_id r = xf_id t \<and> xf_self_id r = xf_peer_id t \<and> xf_peer_id r = xf_self_id t \<and> xf_filename r = xf_filename t
    \<and> xf_size r = xf_size t \<and> xf_content_type r = xf_content_type t \<and> xf_description r = xf_description t
    \<and> xf_dataforms r = xf_dataforms t \<and> xf_url r = xf_url t' \<and> \<not> xf_outgoing r)"
proof -
  from assms(6) obtain ipv6 host name port where t: "conn = Some (ipv6, host)" "xf_filename t = Some name" "xf_server t = Some port"
    by (auto simp: create_transfer_offer_def andthen_eq_Inr deref_eq_Inr split: option.splits)
  define pre where "pre = c_str ''http://'' @ (if ipv6 then c_str ''['' @ host @ c_str '']'' else host) @ c_str '':''
    @ decimal port @ c_str ''/'' @ xf_id t"
  define url where "url = pre @ 47 # escape name"
  have slash: "c_str ''/'' = [47]" by (simp add: c_str_def of_char_def)
  have "last url \<in> insert 47 (set (escape name))" by (cases "escape name") (auto simp: url_def)
  then have last: "\<not> is_g_space (last url)" using assms(2) by (auto simp: is_g_space_def)
  have "g_strstrip url = url"
    by (rule strstrip_same[OF _ _ last]) (simp_all add: url_def pre_def c_str_def of_char_def is_g_space_def)
  moreover have "after_last_slash url = Some (escape name)" using assms(2) by (auto simp: url_def intro!: after_last)
  moreover have "has_prefix url (c_str ''http://'')" "url \<noteq> []" "hd url \<noteq> 10"
    by (simp_all add: url_def pre_def has_prefix_def c_str_def of_char_def)
  moreover have "List.map_filter form_of (map node_of fs) = fs" for fs
    using assms(3) by (induction fs) (simp_all add: List.map_filter_simps)
  moreover have "xf_size t \<noteq> 0 \<Longrightarrow> g_ascii_strtoull (decimal (unat (xf_size t))) = xf_size t"
    using strtoull_decimal[of "unat (xf_size t)"] unsigned_less[of "xf_size t"] by (simp add: unat_gt_0)
  moreover have "stanza = \<lparr>fs_name = c_str ''iq'', fs_from = Some (xf_self_id t), fs_to = Some (xf_peer_id t),
      fs_type = Some (c_str ''set''), fs_id = Some (xf_id t),
      fs_query = Some \<lparr>fq_url = Some \<lparr>fu_content = Some url, fu_type = Some (c_str ''file''), fu_mime_type = Some ty,
          fu_size = if xf_size t > 0 then Some (decimal (unat (xf_size t))) else None\<rparr>,
        fq_desc = Some (xf_description t), fq_x = map node_of (xf_dataforms t)\<rparr>,
      fs_error = None\<rparr>" and "xf_url t' = Some url"
    using assms(4,6) t by (auto simp: create_transfer_offer_def Let_def url_def pre_def slash)
  ultimately show ?thesis
    using assms(1,4) t(2) by (simp add: is_file_offer_def new_from_stanza_with_from_def extract_dataforms_def
        file_transfer_new_def Let_def word_gt_0)
qed

section \<open>Contracts\<close>

text \<open>
  The contract of the user of a transfer: it keeps a property of its own part of the record, whatever the
  transfer tells it. Then the operations of the transfer keep it.
\<close>

lemma holds_then: "holds P m \<Longrightarrow> (\<And>x. P x \<Longrightarrow> holds Q (f x)) \<Longrightarrow> holds Q (andthen m f)"
  by (simp add: holds_mono)

locale transfer_user =
  fixes H :: "ft_signal \<Rightarrow> ('x, 'f, 'a) file_transfer_scheme \<Rightarrow> ('x, 'f, 'a) file_transfer_scheme outcome"
    and P :: "'a \<Rightarrow> bool"
  assumes handles: "P (file_transfer.more t) \<Longrightarrow> holds (\<lambda>t. P (file_transfer.more t)) (H sig t)"
begin

abbreviation kept :: "('x, 'f, 'a) file_transfer_scheme outcome \<Rightarrow> bool" where
  "kept m \<equiv> holds (\<lambda>t. P (file_transfer.more t)) m"

lemma chunk_kept: "P (file_transfer.more t) \<Longrightarrow> kept (transferred_chunk H n t)"
  unfolding transferred_chunk_def by (rule holds_then[OF handles]) simp_all

lemma cancel_kept: "P (file_transfer.more t) \<Longrightarrow> kept (xf_cancel code t)"
  by (simp add: xf_cancel_def xf_send_stanza_def Let_def)

lemma client_chunk_kept: "P (file_transfer.more t) \<Longrightarrow> kept (http_client_chunk_cb H status chunk t)"
  by (simp add: http_client_chunk_cb_def Let_def chunk_kept)

lemma client_finished_kept: "P (file_transfer.more t) \<Longrightarrow> kept (http_client_finished_chunks_cb H status t)"
  unfolding http_client_finished_chunks_cb_def Let_def
  by (auto simp del: holds_simps(3) simp: handles xf_send_stanza_def intro!: holds_then[OF chunk_kept handles])

lemma receive_kept: "P (file_transfer.more t) \<Longrightarrow> kept (xf_receive H msg t)"
  unfolding xf_receive_def Let_def
  by (auto simp del: holds_simps(3) simp: xf_log_def deref_def split: option.split intro!: holds_then[OF cancel_kept handles])

lemma send_kept: "file_transfer.more (xf_send t) = file_transfer.more t"
  by (simp add: xf_send_def http_server_wrote_chunk_cb_def split: option.split)

lemma server_kept: "P (file_transfer.more t) \<Longrightarrow> kept (http_server_cb H msg is_get path enc t)"
  by (simp add: http_server_cb_def Let_def xf_log_def) (intro conjI impI; rule handles; simp)

lemma watch_kept: "P (file_transfer.more t) \<Longrightarrow> kept (channel_watch H g_io_in r t)"
  unfolding channel_watch_def input_channel_readable_cb_def close_transfer_def
  by (auto simp: xf_log_def deref_def case_prod_beta split: channel_read.split option.split
      intro!: holds_mono[OF chunk_kept])

lemma offer_kept: "P (file_transfer.more t) \<Longrightarrow> kept (create_and_send_transfer_offer H escape node_of conn t)"
  unfolding create_and_send_transfer_offer_def create_transfer_offer_def
  by (auto simp: xf_log_def xf_send_stanza_def andthen_assoc Let_def handles split: option.split)

lemma open_kept: "P (file_transfer.more t) \<Longrightarrow> kept (porter_open_cb H escape node_of opened conn port t)"
  by (simp add: porter_open_cb_def handles offer_kept)

lemma stanza_kept: "P (file_transfer.more t) \<Longrightarrow> holds (\<lambda>(_, t). P (file_transfer.more t)) (xf_received_stanza_cb H stanza t)"
  unfolding xf_received_stanza_cb_def xf_received_stanza_def
  by (auto simp: Let_def handles split: option.split)

end

text \<open>The channel keeps such a property if its own handlers and methods do.\<close>

lemma repeated_holds: "P c \<Longrightarrow> (\<And>c. P c \<Longrightarrow> holds P (f c)) \<Longrightarrow> holds P (repeated n f c)"
  by (induction n arbitrary: c) (auto intro!: holds_then simp del: holds_simps(3))

section \<open>Progress\<close>

definition last_progress :: "channel_signal list \<Rightarrow> u64" where
  "last_progress es = foldl (\<lambda>n e. case e of Transferred_bytes_changed m \<Rightarrow> m | _ \<Rightarrow> n) 0 es"

lemma last_progress_simps [simp]:
  "last_progress [] = 0"
  "last_progress (es @ [e]) = (case e of Transferred_bytes_changed m \<Rightarrow> m | _ \<Rightarrow> last_progress es)"
  by (simp add: last_progress_def) (cases e; simp add: last_progress_def)

text \<open>The clock of the program runs within a window of three weeks that begins at \<open>T\<close>.\<close>

definition clock_ok :: "int \<Rightarrow> int \<times> int \<Rightarrow> bool" where
  "clock_ok T now \<longleftrightarrow> T \<le> fst now \<and> fst now \<le> T + 2000000 \<and> 0 \<le> snd now \<and> snd now < 1000000"

definition progress_ok :: "int \<Rightarrow> ('x, 'f, 'a) file_channel_scheme \<Rightarrow> bool" where
  "progress_ok T c \<longleftrightarrow>
     (fch_progress_timer c = None \<longrightarrow> last_progress (fch_signals c) = fch_transferred_bytes c)
     \<and> (\<forall>d. fch_progress_timer c = Some d \<longrightarrow> d \<le> 1000)
     \<and> (fch_last_emitted c = (0, 0) \<or> clock_ok T (fch_last_emitted c))"

lemma progress_state [simp]: "progress_ok T (fch_set_state st reason c) = progress_ok T c"
  by (simp add: fch_set_state_def fch_emit_def progress_ok_def)

lemma progress_emit [simp]:
  "\<forall>n. e \<noteq> Transferred_bytes_changed n \<Longrightarrow> progress_ok T (fch_emit e c) = progress_ok T c"
  by (cases e) (simp_all add: fch_emit_def progress_ok_def)

lemma progress_transfer: "file_transfer.more c = file_transfer.more c' \<Longrightarrow> progress_ok T c = progress_ok T c'"
  by (cases c; cases c') (simp add: progress_ok_def)

lemma progress_update: "clock_ok T now \<Longrightarrow> progress_ok T (emit_progress_update now c)"
  by (simp add: emit_progress_update_def fch_emit_def progress_ok_def)

lemma sint_of_int_32: "- (2 ^ 31) \<le> v \<Longrightarrow> v < 2 ^ 31 \<Longrightarrow> sint (word_of_int v :: u32) = v"
  using int_of_long_small[of v] by (simp add: int_of_long_def)

lemma delay_bound:
  fixes v :: int
  assumes "- (2 ^ 31) < v" "v < 2 ^ 31"
  defines "i \<equiv> if sint (word_of_int v :: u32) < 0 then - word_of_int v else word_of_int v :: u32"
  assumes "\<not> sint i > 1000"
  shows "1000 - i \<le> 1000"
proof -
  have s: "sint (word_of_int v :: u32) = v" "sint (word_of_int \<bar>v\<bar> :: u32) = \<bar>v\<bar>"
    using assms(1,2) by (intro sint_of_int_32; simp)+
  have i: "i = word_of_int \<bar>v\<bar>" unfolding i_def s by (cases "v < 0") simp_all
  have v: "\<bar>v\<bar> \<le> 1000" using assms(4) unfolding i s by linarith
  have "1000 - i = word_of_int 1000 - word_of_int \<bar>v\<bar>" unfolding i by simp
  also have "\<dots> = word_of_int (1000 - \<bar>v\<bar>)" unfolding wi_hom_sub ..
  also have "\<dots> \<le> word_of_int 1000"
    unfolding word_le_def unsigned_of_int using v by (subst (1 2) take_bit_int_eq_self) simp_all
  finally show ?thesis by simp
qed

lemma chunk_progress:
  assumes ok: "progress_ok T c" and now: "clock_ok T now" and T: "2 \<le> T" "T + 2000000 < 2 ^ 31"
  shows "progress_ok T (ft_transferred_chunk_cb now n c)"
proof -
  define D where "D = fst now - fst (fch_last_emitted c)"
  define m where "m = (let usecs = snd now - snd (fch_last_emitted c) in if usecs < 0 then - (- usecs div 1000) else usecs div 1000)"
  have last: "fch_last_emitted c = (0, 0) \<or> clock_ok T (fch_last_emitted c)" using ok by (simp add: progress_ok_def)
  have D: "- 2000000 \<le> D" "D < 2 ^ 31" and m: "- 1000 \<le> m" "m \<le> 1000"
    using last now T by (auto simp: clock_ok_def D_def m_def Let_def)
  define w :: u32 where "w = word_of_int (D * 1000 + m)"
  define i where "i = (if sint w < 0 then - w else w)"
  have delay: "1000 - i \<le> 1000" if "\<not> sint (word_of_int D :: u32) > 1" "\<not> sint i > 1000"
    unfolding i_def w_def
  proof (rule delay_bound[OF _ _ that(2)[unfolded i_def w_def]])
    have "sint (word_of_int D :: u32) = D" using D by (intro sint_of_int_32) simp_all
    then have "D \<le> 1" using that(1) by simp
    then show "- (2 ^ 31) < D * 1000 + m" "D * 1000 + m < 2 ^ 31" using D m by simp_all
  qed
  let ?c = "c\<lparr>fch_transferred_bytes := fch_transferred_bytes c + n\<rparr>"
  have "ft_transferred_chunk_cb now n c =
     (if fch_size c \<le> fch_transferred_bytes c + n then emit_progress_update now ?c
      else if fch_progress_timer c \<noteq> None then ?c
      else if sint (word_of_int D :: u32) > 1 then emit_progress_update now ?c
      else if sint i > 1000 then emit_progress_update now ?c else ?c\<lparr>fch_progress_timer := Some (1000 - i)\<rparr>)"
    by (simp add: ft_transferred_chunk_cb_def Let_def D_def m_def i_def w_def)
  with ok last show ?thesis
    by (simp add: progress_update[OF now]) (auto simp: progress_ok_def intro: delay)
qed

lemma progress_fields [simp]:
  "progress_ok T (c\<lparr>fch_holds := x1\<rparr>) = progress_ok T c"
  "progress_ok T (c\<lparr>fch_remote_accepted := x2\<rparr>) = progress_ok T c"
  "progress_ok T (c\<lparr>fch_pending_channel := x2\<rparr>) = progress_ok T c"
  "progress_ok T (c\<lparr>fch_on_finished := x3\<rparr>) = progress_ok T c"
  "progress_ok T (c\<lparr>fch_on_chunk := x3\<rparr>) = progress_ok T c"
  "progress_ok T (c\<lparr>fch_on_cancelled := x3\<rparr>) = progress_ok T c"
  "progress_ok T (c\<lparr>fch_initial_offset := x4\<rparr>) = progress_ok T c"
  "progress_ok T (c\<lparr>fch_socket := x2\<rparr>) = progress_ok T c"
  "progress_ok T (c\<lparr>fch_listening := x2\<rparr>) = progress_ok T c"
  "progress_ok T (c\<lparr>fch_destroyed := x2\<rparr>) = progress_ok T c"
  "progress_ok T (c\<lparr>fch_uri := x5\<rparr>) = progress_ok T c"
  "progress_ok T (c\<lparr>xf_watches := x3\<rparr>) = progress_ok T c"
  "progress_ok T (xf_send c) = progress_ok T c"
  by (simp_all add: progress_ok_def xf_send_def http_server_wrote_chunk_cb_def split: option.split)

lemma cancel_progress: "progress_ok T c \<Longrightarrow> holds (progress_ok T) (xf_cancel code c)"
  by (simp add: xf_cancel_def xf_send_stanza_def Let_def progress_ok_def)

definition window :: "int \<Rightarrow> int \<times> int \<Rightarrow> bool" where
  "window T now \<longleftrightarrow> 2 \<le> T \<and> T + 2000000 < 2 ^ 31 \<and> clock_ok T now"

lemma accepted_progress: "progress_ok T (remote_accepted_cb c) = progress_ok T c"
  by (simp add: remote_accepted_cb_def Let_def)

lemma finished_progress: "progress_ok T (ft_finished_cb c) = progress_ok T c"
  by (simp add: ft_finished_cb_def Let_def)

lemma handler_progress:
  fixes c :: "('x, 'f, 'a) file_channel_scheme"
  assumes "window T now" "progress_ok T c"
  shows "holds (progress_ok T) (channel_handler now sig c)"
proof (cases sig)
  case (Transferred_chunk n)
  with assms show ?thesis
    by (simp add: channel_handler_def) (rule repeated_holds; simp add: window_def chunk_progress)
next
  case (Ft_error code)
  have "holds (progress_ok T) (error_cb code c)" if "progress_ok T c" for c :: "('x, 'f, 'a) file_channel_scheme"
    unfolding error_cb_def Let_def
    by (rule holds_then[where P = "progress_ok T"]) (simp_all add: that cancel_progress)
  with Ft_error assms show ?thesis by (simp add: channel_handler_def) (rule repeated_holds)
next
  case Ft_cancelled
  have "holds (progress_ok T) (ft_remote_cancelled_cb c)" if "progress_ok T c" for c :: "('x, 'f, 'a) file_channel_scheme"
    unfolding ft_remote_cancelled_cb_def Let_def
    by (rule holds_then[OF cancel_progress[OF that]]) simp
  with Ft_cancelled assms show ?thesis by (simp add: channel_handler_def) (rule repeated_holds)
next
  case Remote_accepted
  with assms show ?thesis by (simp add: channel_handler_def) (rule repeated_holds; simp add: accepted_progress)
next
  case Finished
  with assms show ?thesis by (simp add: channel_handler_def) (rule repeated_holds; simp add: finished_progress)
qed

text \<open>A property of a channel that does not look at its transfer, as one of the channel's part of the record.\<close>

definition of_channel :: "(('x, 'f, 'a) file_transfer_scheme \<Rightarrow> bool) \<Rightarrow> 'a \<Rightarrow> bool" where
  "of_channel P m \<longleftrightarrow> (\<forall>t. file_transfer.more t = m \<longrightarrow> P t)"

lemma of_channel: "(\<And>t t'. file_transfer.more t = file_transfer.more t' \<Longrightarrow> P t = P t') \<Longrightarrow>
    of_channel P (file_transfer.more t) = P t"
  unfolding of_channel_def by blast

definition tracked :: "int \<Rightarrow> int \<times> int \<Rightarrow> ('x, 'f, 'a) file_channel_scheme \<Rightarrow> bool" where
  "tracked T now c \<longleftrightarrow> (window T now \<longrightarrow> progress_ok T c)"

lemma of_tracked [simp]:
  fixes c :: "('x, 'f, 'a) file_channel_scheme"
  shows "of_channel (tracked T now :: ('x, 'f, 'a) file_channel_scheme \<Rightarrow> bool) (file_transfer.more c) = tracked T now c"
proof (rule of_channel)
  fix t t' :: "('x, 'f, 'a) file_channel_scheme"
  assume "file_transfer.more t = file_transfer.more t'"
  from progress_transfer[OF this] show "tracked T now t = tracked T now t'" by (simp add: tracked_def)
qed

interpretation progress: transfer_user "channel_handler now :: ft_signal \<Rightarrow> ('x, 'f, 'a) channel_op"
    "of_channel (tracked T now :: ('x, 'f, 'a) file_channel_scheme \<Rightarrow> bool)" for now T
  by unfold_locales (simp; cases "window T now"; simp add: tracked_def handler_progress)

lemma step_progress:
  fixes c :: "('x, 'f, 'a) file_channel_scheme"
  assumes "window T now" "progress_ok T c"
  shows "holds (progress_ok T) (file_channel_step escape node_of now p c)"
proof -
  have t: "of_channel (tracked T now :: ('x, 'f, 'a) file_channel_scheme \<Rightarrow> bool) (file_transfer.more c) = progress_ok T c" for c :: "('x, 'f, 'a) file_channel_scheme"
    using assms(1) by (simp add: tracked_def)
  show ?thesis
  proof (cases p)
    case (Stanza_received st)
    then show ?thesis using progress.stanza_kept[of T now c st] t
      by (simp add: file_channel_step_def Let_def assms case_prod_unfold del: of_tracked)
  next
    case (Client_connects x1 x2 x3)
    then show ?thesis using progress.receive_kept[of T now "c\<lparr>fch_listening := False\<rparr>" x3] t assms
      by (simp add: file_channel_step_def accept_local_socket_connection_def Let_def del: of_tracked)
  next
    case Close_file_channel
    have "holds (progress_ok T) (file_channel_close c)"
      unfolding file_channel_close_def
      by (rule holds_then[where P = "progress_ok T"]; simp add: assms del: holds_simps(3))
        (intro impI holds_then[OF cancel_progress[OF assms(2)]]; simp)
    with Close_file_channel assms show ?thesis by (simp add: file_channel_step_def Let_def)
  next
    case (Connection_opened x1 x2 x3)
    then show ?thesis using progress.open_kept[of T now c escape node_of x1 x2 x3] t assms
      by (simp add: file_channel_step_def Let_def del: of_tracked)
  next
    case (Response_chunk x1 x2)
    then show ?thesis using progress.client_chunk_kept[of T now c x1 x2] t assms
      by (simp add: file_channel_step_def Let_def del: of_tracked)
  next
    case (Response_end x1)
    then show ?thesis using progress.client_finished_kept[of T now c x1] t assms
      by (simp add: file_channel_step_def Let_def del: of_tracked)
  next
    case (Http_request x1 x2 x3 x4)
    then show ?thesis using progress.server_kept[of T now c x1 x2 x3 x4] t assms
      by (simp add: file_channel_step_def Let_def del: of_tracked)
  next
    case (Channel_ready x1 x2)
    then show ?thesis using progress.watch_kept[of T now c x1 x2] t assms
      by (simp add: file_channel_step_def Let_def del: of_tracked)
  qed (simp_all add: assms file_channel_step_def Let_def accept_file_def provide_file_def file_channel_set_uri_def
      setup_local_socket_def contact_lost_cb_def http_server_wrote_chunk_cb_def emit_progress_update_cb_def
      progress_update assms(1)[unfolded window_def])
qed

lemma run_progress:
  assumes "\<forall>(now, p) \<in> set ps. window T now" "progress_ok T c"
  shows "holds (progress_ok T) (file_channel_run escape node_of ps c)"
  using assms
proof (induction ps arbitrary: c)
  case (Cons np ps)
  obtain now p where np: "np = (now, p)" by fastforce
  with Cons show ?case by (auto simp del: holds_simps(3) intro!: holds_then[OF step_progress[of T now]])
qed simp

text \<open>
  C19. The client learns of the progress. At every moment of a transfer, in whichever direction, the last number
  of bytes that it was told is the current one, or a timer is set that goes off within a second and tells it;
  the clock may be set back meanwhile, as long as it stays within a window of three weeks.
\<close>

theorem client_learns_progress:
  assumes "file_channel_new_from_stanza unescape form_of contact stanza = Some c
      \<or> file_channel_offer_file n self_id contact filename description content_type file_size offset uri forms = Inr c"
    and "2 \<le> T" "T + 2000000 < 2 ^ 31" "\<forall>(now, p) \<in> set ps. clock_ok T now"
    and "file_channel_run escape node_of ps c = Inr c'"
  shows "case fch_progress_timer c' of
      None \<Rightarrow> last_progress (fch_signals c') = fch_transferred_bytes c'
    | Some delay \<Rightarrow> delay \<le> 1000
        \<and> (\<forall>now. last_progress (fch_signals (emit_progress_update_cb now c')) = fch_transferred_bytes c')"
proof -
  have new: "progress_ok T (file_channel_init t b1 b2 x1 x2 x3 x4 x5 x6)" for t b1 b2 x1 x2 x3 x4 x5 x6
    using last_progress_simps(2)[of "[]" "File_transfer_state_changed State_pending Reason_none"]
    by (simp add: progress_ok_def file_channel_init_def file_transfer.defs)
  have "progress_ok T c" using assms(1)
    by (auto simp: file_channel_new_from_stanza_def file_channel_offer_file_def send_file_offer_def andthen_eq_Inr Let_def new)
  moreover have "\<forall>(now, p) \<in> set ps. window T now" using assms(2-4) by (auto simp: window_def)
  ultimately have "progress_ok T c'" using run_progress assms(5) by (metis holdsD)
  then show ?thesis
    by (auto simp: progress_ok_def emit_progress_update_cb_def emit_progress_update_def fch_emit_def split: option.split)
qed

section \<open>Witnesses\<close>

text \<open>An escaping of names in unary, the offer of a file of five bytes, and the channel of the side that sends it.\<close>

definition example_escape :: "c_string \<Rightarrow> c_string" where
  "example_escape s = concat (map (\<lambda>c. replicate (unat c) 65 @ [66]) s)"

fun example_decode :: "nat \<Rightarrow> c_string \<Rightarrow> c_string option" where
  "example_decode n [] = Some []"
| "example_decode n (c # s) = (if c = 66 then map_option (Cons (of_nat n)) (example_decode 0 s) else example_decode (n + 1) s)"

lemma example_decode_unary:
  "example_decode n (replicate k 65 @ 66 # s) = map_option (Cons (of_nat (n + k))) (example_decode 0 s)"
  by (induction k arbitrary: n) (simp_all add: add.assoc add.left_commute)

lemma example_unescape: "example_decode 0 (example_escape s) = Some s"
  by (induction s) (simp_all add: example_escape_def example_decode_unary)

lemma example_escape_safe: "c \<in> set (example_escape s) \<Longrightarrow> c \<noteq> 47 \<and> \<not> is_g_space c"
  by (auto simp: example_escape_def is_g_space_def split: if_splits)

definition example_file_sender :: "(unit, unit) file_channel" where
  "example_file_sender = file_channel_init ((file_transfer_new (generate_id 0) (c_str ''a'') (c_str ''b'') (Some [1])
     (Some (c_str ''d'')) (Some (c_str ''t'')) True)\<lparr>xf_size := 5\<rparr>) True True 5 0 None 1 1 1"

lemma example_file_sender: "file_channel_offer_file 0 (c_str ''a'') (c_str ''b'') [1] (Some (c_str ''d'')) (Some (c_str ''t''))
    5 0 None [] = Inr example_file_sender"
  by (simp add: file_channel_offer_file_def send_file_offer_def SALUT_UNDEFINED_FILE_SIZE_def example_file_sender_def Let_def
      file_transfer_new_def)

lemmas example_channel_defs = example_file_sender_def file_channel_init_def file_transfer_new_def file_transfer.defs

lemmas channel_step_defs = file_channel_step_def porter_open_cb_def create_and_send_transfer_offer_def
  create_transfer_offer_def xf_log_def xf_send_stanza_def provide_file_def accept_file_def
  check_address_and_access_control_def available_socket_types_def SOCKET_ADDRESS_TYPE_UNIX_def
  SOCKET_ADDRESS_TYPE_IPV4_def SOCKET_ADDRESS_TYPE_IPV6_def SOCKET_ACCESS_CONTROL_LOCALHOST_def setup_local_socket_def
  accept_local_socket_connection_def http_server_cb_def channel_handler_def remote_accepted_cb_def xf_send_def
  http_server_wrote_chunk_cb_def fch_set_state_def fch_emit_def channel_watch_def input_channel_readable_cb_def
  transferred_chunk_def ft_transferred_chunk_cb_def emit_progress_update_def xf_receive_def deref_def
  http_client_chunk_cb_def http_client_finished_chunks_cb_def reply_stanza_def ft_finished_cb_def

lemma offer_is_understood_witness:
  "\<exists>stanza t' r. create_transfer_offer example_escape id (Some (True, c_str ''h'')) (example_file_sender\<lparr>xf_server := Some 8\<rparr>)
      = Inr (Some stanza, t')
    \<and> is_file_offer stanza
    \<and> new_from_stanza_with_from (example_decode 0) Some (Some (c_str ''a'')) stanza = Some r
    \<and> xf_filename r = Some [1] \<and> xf_size r = 5"
proof -
  let ?t = "example_file_sender\<lparr>xf_server := Some 8\<rparr>"
  obtain stanza t' where c: "create_transfer_offer example_escape id (Some (True, c_str ''h'')) ?t = Inr (Some stanza, t')"
    by (simp add: create_transfer_offer_def example_channel_defs Let_def)
  have "xf_content_type ?t = Some (c_str ''t'')" "xf_outgoing ?t" "xf_self_id ?t = c_str ''a''" "xf_filename ?t = Some [1]"
    "xf_size ?t = 5" by (simp_all add: example_channel_defs)
  with offer_is_understood[of "example_decode 0" example_escape Some id ?t "c_str ''t''" "Some (True, c_str ''h'')" stanza t']
    c show ?thesis by (auto simp: example_unescape dest: example_escape_safe)
qed

text \<open>The file is requested and two blocks of it are sent; the second one waits for the timer.\<close>

definition example_transfer :: "((int \<times> int) \<times> unit file_op) list" where
  "example_transfer =
     [((10, 0), Connection_opened True (Some (True, c_str ''h'')) 8), ((10, 0), Provide_file 0 0 True),
      ((11, 0), Client_connects True True None), ((11, 0), Http_request 1 True (c_str ''/gibber-file-transfer-0/'' @ [1]) None),
      ((12, 0), Channel_ready True (Read_normal [7, 8])), ((12, 0), Wrote_chunk 1),
      ((12, 500000), Channel_ready True (Read_normal [9]))]"

lemma example_transfer:
  "\<exists>c. file_channel_run example_escape id example_transfer example_file_sender = Inr c
    \<and> fch_transferred_bytes c = 3 \<and> fch_progress_timer c = Some 500 \<and> fch_state c = State_open
    \<and> xf_handler c \<and> xf_served_name c = Some (c_str ''/gibber-file-transfer-0/'' @ [1]) \<and> xf_msg c = Some 1
    \<and> \<not> fch_destroyed c"
  by (simp add: example_transfer_def example_channel_defs channel_step_defs Let_def generate_id_def c_str_def of_char_def
      decimal.simps)

lemma client_learns_progress_witness:
  "\<exists>c. file_channel_run example_escape id example_transfer example_file_sender = Inr c
    \<and> fch_progress_timer c = Some 500 \<and> (500 :: u32) \<le> 1000
    \<and> last_progress (fch_signals (emit_progress_update_cb (13, 0) c)) = 3"
proof -
  from example_transfer obtain c where c: "file_channel_run example_escape id example_transfer example_file_sender = Inr c"
    "fch_transferred_bytes c = 3" "fch_progress_timer c = Some 500" by blast
  have "\<forall>(now, p) \<in> set example_transfer. clock_ok 10 now" by (simp add: example_transfer_def clock_ok_def)
  from client_learns_progress[OF disjI2[OF example_file_sender] _ _ this c(1)] c show ?thesis by simp
qed

end
