(* ===== verification/File_Life.thy ===== *)
theory File_Life
  imports File_Properties
begin

text \<open>
  Where a file transfer ends: what a completed file is, how the other side learns of a refusal, and the
  transfers that do not stay ended.
\<close>

section \<open>Files that come in\<close>


text \<open>The handlers of the channel leave the transfer alone, except that they may cancel it.\<close>

definition same_file :: "('x, 'f, 'a) file_transfer_scheme \<Rightarrow> ('x, 'f, 'a) file_transfer_scheme \<Rightarrow> bool" where
  "same_file c c' \<longleftrightarrow> xf_outgoing c' = xf_outgoing c \<and> xf_transferred_bytes c' = xf_transferred_bytes c
     \<and> xf_written c' = xf_written c \<and> xf_msg c' = xf_msg c \<and> xf_channel c' = xf_channel c
     \<and> xf_size c' = xf_size c \<and> xf_id c' = xf_id c \<and> xf_peer_id c' = xf_peer_id c
     \<and> xf_handler c' = xf_handler c \<and> xf_watches c' = xf_watches c \<and> xf_watched_msgs c' = xf_watched_msgs c \<and> set (xf_stanzas c) \<subseteq> set (xf_stanzas c')"

lemma same_file_refl [simp]: "same_file c c"
  by (simp add: same_file_def)




text \<open>What a step may do to a state: nothing but a completion by \<open>b\<close>.\<close>

definition quietly :: "bool \<Rightarrow> ('x, 'f, 'a) file_channel_scheme \<Rightarrow> ('x, 'f, 'a) file_channel_scheme \<Rightarrow> bool" where
  "quietly b c c' \<longleftrightarrow> same_file c c' \<and> (fch_state c' = State_completed \<longrightarrow> fch_state c = State_completed \<or> b)"

lemma quietly_refl [simp]: "quietly b c c"
  by (simp add: quietly_def)





lemma fields_quietly [simp]:
  "quietly b c (c'\<lparr>fch_holds := x1\<rparr>) = quietly b c c'"
  "quietly b c (c'\<lparr>fch_remote_accepted := x2\<rparr>) = quietly b c c'"
  "quietly b c (c'\<lparr>fch_pending_channel := x2\<rparr>) = quietly b c c'"
  "quietly b c (c'\<lparr>fch_on_finished := x3\<rparr>) = quietly b c c'"
  "quietly b c (c'\<lparr>fch_on_chunk := x3\<rparr>) = quietly b c c'"
  "quietly b c (c'\<lparr>fch_on_cancelled := x3\<rparr>) = quietly b c c'"
  "quietly b c (c'\<lparr>fch_initial_offset := x4\<rparr>) = quietly b c c'"
  "quietly b c (c'\<lparr>fch_socket := x2\<rparr>) = quietly b c c'"
  "quietly b c (c'\<lparr>fch_listening := x2\<rparr>) = quietly b c c'"
  "quietly b c (c'\<lparr>fch_destroyed := x2\<rparr>) = quietly b c c'"
  "quietly b c (c'\<lparr>fch_uri := x5\<rparr>) = quietly b c c'"
  "quietly b c (c'\<lparr>fch_transferred_bytes := x6\<rparr>) = quietly b c c'"
  "quietly b c (c'\<lparr>fch_progress_timer := x7\<rparr>) = quietly b c c'"
  "quietly b c (c'\<lparr>fch_last_emitted := x8\<rparr>) = quietly b c c'"
  "quietly b c (c'\<lparr>xf_cancelled := x2\<rparr>) = quietly b c c'"
  "quietly b c (fch_emit e c') = quietly b c c'"
  "quietly b c (emit_progress_update now c') = quietly b c c'"
  by (simp_all add: quietly_def same_file_def fch_emit_def emit_progress_update_def)













section \<open>Refusals\<close>

text \<open>
  C22. A refusal reaches the sender. When the local client closes the channel of a file that it was offered, one
  stanza is sent, and at the sender that stanza cancels the transfer for the reason that the other side stopped
  it; the sender does not answer.
\<close>

theorem refusal_reaches_sender:
  assumes "\<not> xf_outgoing r" "fch_has_ft r" "fch_state r = State_pending" "\<not> xf_cancelled r" "\<not> fch_destroyed r"
    and "xf_outgoing s" "xf_id s = xf_id r" "fch_on_cancelled s = 1" "fch_state s \<noteq> State_cancelled" "\<not> fch_destroyed s"
  shows "\<exists>r' st s'. file_channel_step escape node_of now Close_file_channel r = Inr r'
    \<and> xf_stanzas r' = xf_stanzas r @ [st] \<and> fch_state r' = State_cancelled
    \<and> fch_signals r' = fch_signals r @ [File_transfer_state_changed State_cancelled Reason_local_stopped, File_channel_closed]
    \<and> file_channel_step escape node_of now' (Stanza_received st) s = Inr s' \<and> fch_state s' = State_cancelled
    \<and> fch_signals s' = fch_signals s @ [File_transfer_state_changed State_cancelled Reason_remote_stopped]
    \<and> xf_stanzas s' = xf_stanzas s"
proof -
  have code: "fst (strtol10 (decimal 406)) = 406" by (simp add: strtol10_decimal)
  have ty: "c_str ''error'' \<noteq> c_str ''result''" by (simp add: c_str_def of_char_def)
  show ?thesis using assms ty
    by (simp add: file_channel_step_def file_channel_close_def xf_cancel_def xf_send_stanza_def reply_stanza_def
        fch_set_state_def fch_emit_def xf_received_stanza_cb_def xf_received_stanza_def channel_handler_def
        ft_remote_cancelled_cb_def code Let_def)
qed

section \<open>Transfers that come back\<close>

text \<open>
  C25. A transfer that was cancelled because the contact was lost can come back: the offer is not taken back, and
  the contact may still request the file, which makes the channel accepted although the client was told that
  it is cancelled.
\<close>

theorem lost_transfer_revives:
  assumes "fch_state c = State_pending" "xf_handler c" "xf_served_name c = Some name" "fch_on_remote_accepted c = 1"
    and "\<not> fch_destroyed c" "\<not> fch_socket c" "\<not> fch_pending_channel c"
  shows "\<exists>c' c''. file_channel_step escape node_of now Contact_lost c = Inr c' \<and> fch_state c' = State_cancelled
    \<and> file_channel_step escape node_of now' (Http_request msg True name None) c' = Inr c'' \<and> fch_state c'' = State_accepted
    \<and> fch_signals c'' = fch_signals c @ [File_transfer_state_changed State_cancelled Reason_remote_stopped,
        File_transfer_state_changed State_accepted Reason_none]"
  using assms
  by (simp add: file_channel_step_def contact_lost_cb_def fch_set_state_def fch_emit_def http_server_cb_def xf_log_def
      channel_handler_def remote_accepted_cb_def Let_def)







section \<open>Witnesses\<close>

text \<open>The contact \<open>a\<close> offers three bytes.\<close>

definition example_file_offer :: "unit file_stanza" where
  "example_file_offer = \<lparr>fs_name = c_str ''iq'', fs_from = Some (c_str ''a''), fs_to = Some (c_str ''b''),
     fs_type = Some (c_str ''set''), fs_id = Some (c_str ''gibber-file-transfer-0''),
     fs_query = Some \<lparr>fq_url = Some \<lparr>fu_content = Some (c_str ''http://h:8/i/n''), fu_type = Some (c_str ''file''),
       fu_mime_type = None, fu_size = Some (c_str ''3'')\<rparr>, fq_desc = None, fq_x = []\<rparr>, fs_error = None\<rparr>"

definition example_receiver :: "(unit, unit) file_channel" where
  "example_receiver = file_channel_init ((file_transfer_new (c_str ''gibber-file-transfer-0'') (c_str ''b'') (c_str ''a'')
     (Some (c_str ''n'')) None (Some (c_str ''application/octet-stream'')) False)
       \<lparr>xf_size := 3, xf_url := Some (c_str ''http://h:8/i/n'')\<rparr>) True False 3 0 None 0 0 0"

lemma example_receiver:
  "file_channel_new_from_stanza Some (\<lambda>_. None) (c_str ''a'') example_file_offer = Some example_receiver"
proof -
  have "c_str ''3'' = decimal 3" by (simp add: c_str_def of_char_def decimal.simps)
  then have "g_ascii_strtoull (c_str ''3'') = 3" by (simp add: strtoull_decimal)
  moreover have "g_strstrip (c_str ''http://h:8/i/n'') = c_str ''http://h:8/i/n''"
    by (rule strstrip_same) (simp_all add: c_str_def of_char_def is_g_space_def)
  moreover have "after_last_slash (c_str ''http://h:8/i/n'') = Some (c_str ''n'')"
    by (simp add: after_last_slash_def c_str_def of_char_def)
  ultimately show ?thesis
    by (simp add: file_channel_new_from_stanza_def new_from_stanza_with_from_def example_file_offer_def extract_dataforms_def
        example_receiver_def file_transfer_new_def Let_def)
qed


lemma refusal_reaches_sender_witness:
  "\<exists>r' st s'. file_channel_step example_escape id (9, 0) Close_file_channel example_receiver = Inr r'
    \<and> xf_stanzas r' = [st]
    \<and> file_channel_step example_escape id (9, 0) (Stanza_received st) example_file_sender = Inr s'
    \<and> fch_state s' = State_cancelled"
proof -
  have "\<not> xf_outgoing example_receiver" "fch_has_ft example_receiver" "fch_state example_receiver = State_pending"
    "\<not> xf_cancelled example_receiver" "\<not> fch_destroyed example_receiver" "xf_outgoing example_file_sender"
    "xf_id example_file_sender = xf_id example_receiver" "fch_on_cancelled example_file_sender = 1"
    "fch_state example_file_sender \<noteq> State_cancelled" "\<not> fch_destroyed example_file_sender" "xf_stanzas example_receiver = []"
    by (simp_all add: example_receiver_def example_channel_defs generate_id_def c_str_def of_char_def decimal.simps)
  with refusal_reaches_sender[of example_receiver example_file_sender example_escape id "(9, 0)" "(9, 0)"]
  show ?thesis by auto
qed

lemma lost_transfer_revives_witness:
  "\<exists>c c' c''. file_channel_run example_escape id [((9, 0), Connection_opened True (Some (True, c_str ''h'')) 8)] example_file_sender
      = Inr c
    \<and> file_channel_step example_escape id (9, 0) Contact_lost c = Inr c' \<and> fch_state c' = State_cancelled
    \<and> file_channel_step example_escape id (9, 0) (Http_request 1 True (c_str ''/gibber-file-transfer-0/'' @ [1]) None) c'
      = Inr c'' \<and> fch_state c'' = State_accepted"
proof -
  obtain c where c: "file_channel_run example_escape id [((9, 0), Connection_opened True (Some (True, c_str ''h'')) 8)]
      example_file_sender = Inr c" "fch_state c = State_pending" "xf_handler c"
    "xf_served_name c = Some (c_str ''/gibber-file-transfer-0/'' @ [1])" "fch_on_remote_accepted c = 1"
    "\<not> fch_destroyed c" "\<not> fch_socket c" "\<not> fch_pending_channel c"
    by (simp add: example_channel_defs channel_step_defs Let_def generate_id_def c_str_def of_char_def decimal.simps)
  from lost_transfer_revives[OF c(2-)] c(1) show ?thesis by blast
qed


end
