(* ===== verification/File_Requests.thy ===== *)
theory File_Requests
  imports File_Manager File_Life
begin

text \<open>
  What the manager of file transfers does with the requests of local clients, and how the metadata of a file
  get to the other side.
\<close>

section \<open>Requests\<close>

text \<open>
  C23. A request that passes all checks gets a pending channel for its file, which is announced with the token of
  the request, except that an empty name or the largest size abort the process.
\<close>

theorem checked_request:
  assumes "fr_file_transfer rq" "fr_contact rq"
    and "check_file_request is_valid self_handle contact_of rq = Inr (contact, filename, content_type)"
  shows "case ft_manager_handle_request make_form is_valid self_handle contact_of self_id n token rq m of
      Inl e \<Rightarrow> e = Assertion_failed \<and> (filename = [] \<or> fr_size rq = - 1)
    | Inr (handled, m') \<Rightarrow> filename \<noteq> [] \<and> fr_size rq \<noteq> - 1 \<and> handled
        \<and> (\<exists>c. fm_channels m' = fm_channels m @ [(fm_next m, c)]
          \<and> fm_events m' = fm_events m @ [File_new_channel (fm_next m) (Some token)]
          \<and> fch_state c = State_pending \<and> xf_outgoing c \<and> xf_filename c = Some filename \<and> fch_size c = fr_size rq
          \<and> xf_size c = fr_size rq \<and> xf_peer_id c = contact \<and> xf_content_type c = Some content_type)"
  using assms
  by (simp add: ft_manager_handle_request_def file_channel_offer_file_def send_file_offer_def SALUT_UNDEFINED_FILE_SIZE_def assert_that_def
      channel_created_def fm_emit_def file_channel_init_def file_transfer_new_def file_transfer.defs Let_def)

section \<open>Metadata\<close>


lemma map_of_plain: "map_of (map (\<lambda>(key, vals). (key, Some vals)) table) k = map_option Some (map_of table k)"
  by (induction table) auto




section \<open>Witnesses\<close>

definition example_file_request :: file_request where
  "example_file_request = \<lparr>fr_file_transfer = True, fr_contact = True, fr_handle = 2, fr_content_type = Some (c_str ''t''),
     fr_filename = Some [], fr_size = 5, fr_hash_type = None, fr_hash = None, fr_description = None,
     fr_initial_offset = 0, fr_uri = None, fr_service_name = None, fr_metadata = None\<rparr>"

lemma checked_request_witness:
  "\<exists>e. ft_manager_handle_request (\<lambda>_. Some ()) (\<lambda>_. True) 1 (\<lambda>_. Some (c_str ''b'', {})) (c_str ''a'') 0 0
      example_file_request (ft_manager_new :: (unit, unit) file_manager) = Inl e \<and> e = Assertion_failed"
proof -
  have "check_file_request (\<lambda>_. True) 1 (\<lambda>_. Some (c_str ''b'', {})) example_file_request = Inr (c_str ''b'', [], c_str ''t'')"
    by (simp add: check_file_request_def example_file_request_def TP_NUM_FILE_HASH_TYPES_def)
  from checked_request[OF _ _ this, where make_form = "\<lambda>_. Some ()" and self_id = "c_str ''a''" and n = 0 and token = 0
      and m = "ft_manager_new :: (unit, unit) file_manager"]
  show ?thesis by (auto simp: example_file_request_def split: sum.splits)
qed


end
