(* ===== verification/Spec2Isabelle.thy ===== *)
theory Spec2Isabelle
  imports Wire_Properties Sender_Properties Node_Properties Loop_Properties Send_Properties Membership_Properties
    Tube_Dbus_Properties Presence_Properties
    Stream_Properties Muc_Properties Tube_Life Tubes_Properties File_Requests
begin

text \<open>
  Telepathy-Salut lets XMPP clients on a local network talk without a server. This library verifies its
  own protocol code: the reliable, causally ordered multicast that carries multi-user chats (Clique), the
  bytestreams and transports of \<open>src/lib/gibber\<close>, the tubes that applications run over them, and the cache
  that finds out what a contact can do. Paths below are relative to \<open>src\<close>.

  \<^bold>\<open>The multicast stack.\<close> A datagram is parsed into a packet, the packet is pushed to the group of
  senders, which delivers the packets of each sender in causal order, and the membership protocol, which
  gets the control packets, agrees with the other nodes on who is in the group.

  \<^item> \<open>Prelude\<close>: outcomes (an abort, a NULL dereference and a parse error are values), loops over
    wrap-around counters, byte order, and the calculus \<open>returns\<close>/\<open>holds\<close> of total and partial
    correctness.
  \<^item> \<open>Seq_Num\<close>, \<open>Packet\<close>, \<open>Packet_Codec\<close>: \<open>gibber-r-multicast-packet.c\<close>. The comparison of packet
    ids, the packet with its union, the setters, \<open>build\<close> and \<open>parse\<close>. \<open>Packet_Roundtrip\<close> relates both
    to \<open>wire\<close>, the format as one expression; \<open>Wire_Properties\<close> states what follows.
  \<^item> \<open>Sender_State\<close>, \<open>Sender_Group\<close>, \<open>Sender_Pop\<close>: \<open>gibber-r-multicast-sender.c\<close>. Senders are shared
    through pointers (the table, the pop queue, the pending removals), so a group has a store from
    addresses to senders. \<open>Sender_State\<close> has the operations on one sender, \<open>Sender_Group\<close> the table
    and the garbage collector, \<open>Sender_Pop\<close> the delivery engine, which emits signals.
    \<open>Cache_Properties\<close>, \<open>Group_Properties\<close>, \<open>Loop_Properties\<close> and \<open>Sender_Properties\<close> state what they do.
  \<^item> \<open>Causal_Transport\<close>: \<open>gibber-r-multicast-causal-transport.c\<close>; \<open>Send_Properties\<close>. \<open>Membership\<close>:
    \<open>gibber-r-multicast-transport.c\<close>; \<open>Membership_Properties\<close>. Each record extends the one of the layer
    below, so that a signal handler of an upper layer can change the lower state, as it does in the program.
  \<^item> \<open>Node\<close>, \<open>Node_Properties\<close>: a whole node, as a step relation over datagrams, timers and calls.
  \<^item> \<open>Muc_Connection\<close>: \<open>gibber-muc-connection.c\<close>, which owns the stack, connects its layers and numbers
    streams; \<open>Bytestream_Muc\<close>: \<open>gibber-bytestream-muc.c\<close>; \<open>Muc_Properties\<close>.

  \<^bold>\<open>Transports and bytestreams over sockets.\<close>

  \<^item> \<open>C_String\<close>: the functions of the C library on strings that the programs use.
  \<^item> \<open>Transport\<close>, \<open>Fd_Transport\<close>: \<open>gibber-transport.c\<close>, \<open>gibber-fd-transport.c\<close>,
    \<open>gibber-linklocal-transport.c\<close>; \<open>Transport_Flow\<close> has the invariant of a transport.
  \<^item> \<open>Connectors\<close>: \<open>gibber-tcp-transport.c\<close>, \<open>gibber-unix-transport.c\<close>, \<open>gibber-listener.c\<close>.
  \<^item> \<open>Bytestream\<close>: \<open>gibber-bytestream-iface.h\<close>. \<open>Bytestream_Socket\<close>, \<open>Bytestream_Oob\<close>,
    \<open>Bytestream_Direct\<close>: \<open>gibber-bytestream-oob.c\<close> and \<open>gibber-bytestream-direct.c\<close>, whose common code
    is written once. \<open>Stream_Flow\<close>, \<open>Stream_Properties\<close>.

  \<^bold>\<open>Tubes, files, capabilities.\<close>

  \<^item> \<open>Tube_Dbus\<close>, \<open>Tube_Dbus_Properties\<close>: \<open>src/tube-dbus.c\<close>.
  \<^item> \<open>Tube_Link\<close> (one connection), \<open>Tube_Stream\<close> (the tube): \<open>src/tube-stream.c\<close>. \<open>Link_Flow\<close> has
    back-pressure, \<open>Tube_Properties\<close> the invariant of all connections, \<open>Tube_Life\<close> the abstract state
    machine that a tube refines.
  \<^item> \<open>Tubes_Manager\<close>, \<open>Tubes_Properties\<close>: \<open>src/tubes-manager.c\<close> and \<open>src/tube-iface.c\<close>.
  \<^item> \<open>File_Offer\<close>, \<open>File_Transfer\<close>: \<open>gibber-file-transfer.c\<close> and \<open>gibber-oob-file-transfer.c\<close>, the offer of a
    file and its transfer over HTTP. \<open>File_Channel\<close>: \<open>src/file-transfer-channel.c\<close>, whose record extends the
    one of the transfer it drives. \<open>File_Manager\<close>: \<open>src/ft-manager.c\<close> and the metadata of files.
    \<open>File_Properties\<close> (offers, progress), \<open>File_Life\<close> (completion, refusal, what comes back),
    \<open>File_Requests\<close> (requests, metadata).
  \<^item> \<open>Capability_Set\<close>, \<open>Presence_Cache\<close>, \<open>Presence_Properties\<close>: \<open>src/capability-set.c\<close>,
    \<open>src/presence-cache.c\<close>, \<open>src/disco.c\<close>.

  \<^bold>\<open>Signals and contracts.\<close> GObject runs signal handlers inside the emission, and a handler may call back
  into the emitting object. An operation whose handlers do so takes them as an argument, a function on the
  whole state; the locales are the contracts of these handlers. Where the users of an object are not called
  back while an operation runs (the bytestreams, the MUC connection, the tubes) the signals are a list.

  \<^item> \<open>engine_steps\<close> and \<open>pop_engine\<close> (\<open>Engine_Run\<close>) say what the delivery engine needs of its handlers and
    derive what a run does. \<open>evolving_handler\<close>, \<open>evolving_upper\<close> and \<open>evolving_member\<close> are the instance
    for the invariant \<open>wf_group\<close> and the life cycle of senders, each layer discharging the contract of the
    one below; \<open>muc\<close> interprets the last one on the handlers of the MUC connection. \<open>quiet_handler\<close> and
    \<open>delivery\<close> are the instance for the delivery specification, \<open>quiet_upper\<close> the one for sending.
  \<^item> \<open>transport_client\<close> is the contract of the user of a transport, \<open>stream_laws\<close> what both kinds of
    bytestreams promise, with a \<open>sublocale\<close> that makes a bytestream a \<open>transport_client\<close>; interpreted on
    \<open>oob_kind\<close> and \<open>direct_kind\<close>.
  \<^item> \<open>fd_invariant\<close> is a contract for users that may stop with a fault. \<open>flow_laws\<close> is what a tube's
    connection needs of its bytestream, \<open>flow_links\<close> its consequence for a connection, \<open>tube_laws\<close> adds what
    the whole tube needs; interpreted on \<open>direct_tube\<close> and \<open>oob_tube\<close>.
  \<^item> \<open>transfer_user\<close> is the contract of the user of a file transfer, interpreted on the handlers of its channel.

  \<^bold>\<open>What is shown.\<close> Of the format: building and parsing are inverse, canonical and safe on arbitrary
  bytes. Of the engine: control packets come out in order, exactly once and after what they depend
  on, data messages are what their sender sent, and nothing that a live member can still ask for is dropped.
  Of a node: the invariant of its sender group holds in every reachable state, and senders only move
  forward. Of bytestreams: closing one loses nothing, streams of a room are private. Of tubes: D-Bus messages
  are reassembled and delivered in order, a connection holds at most one block, and the life of a tube is a
  simple state machine. Of files: offers and their metadata are understood, a completed file is whole, the
  client learns of the progress. Of the cache: capabilities match an announced hash. A number of theorems state where
  the code fails: the inputs that abort it, loop for ever or are misread.

  \<^bold>\<open>Bounds and fuel.\<close> Packet ids and sizes on the wire are words of their width. \<open>pop_packets\<close> and
  the loops it contains take fuel, as do the mutual recursion between the engine and the membership
  handlers (\<open>membership_up\<close>) and the failure loops; running out is the fault \<open>Out_of_fuel\<close>, which no
  statement counts as a result. A call inside a run needs one unit, since a nested \<open>pop_packets\<close> only
  queues its sender. \<open>next_free_stream\<close> gets 65536 rounds, which is shown to be enough; a link's handler
  calls its transport at most once, so two units are enough there. Loops over random numbers take the list
  of the numbers. The length of what a transport sends fits into an \<open>int\<close>.

  \<^bold>\<open>Histories and parameters.\<close> The kernel is the list of its answers to writes; the answers of \<open>connect\<close>,
  \<open>listen\<close>, the resolver and the random generator are arguments. \<open>fd_accepted\<close> is a variable that the code
  does not have: the bytes for which \<open>send\<close> returned TRUE. The XML library Wocky, libdbus, Avahi and the
  handle repositories are functions that the definitions take.

  \<^bold>\<open>Not modelled.\<close> Reference counts and memory, except where a lost reference is reported (a sender stays
  in the store after its last reference is gone); time (a pending timer is its callback and its interval);
  GObject properties and disposal. A MUC connection is not used again after it was disconnected; the
  bytestream of a tube's connection that is removed lives on without being followed, and the callback of a
  negotiation that outlives its tube is a fault. The HTTP protocol of files is libsoup's; the
  model has the calls to it, and its callbacks come in any order. A channel of a file does nothing any more
  once it is closed. Not modelled at all are the connection, text and MUC channels, the contact managers,
  the announcement of the user and service discovery through Avahi or Bonjour, stream initiation, OLPC
  activities and plugins: they are driven by the libraries they call, and most of their code describes
  D-Bus objects and their properties.
\<close>

end
